(* ===== verification/Prelude.thy ===== *)
theory Prelude
  imports Main "HOL-Library.Word" "HOL-Library.Sublist" "HOL-Library.Code_Target_Nat"
begin

text \<open>
  Shared vocabulary of the development: the \<open>Result\<close> type of the Rust sources, the error
  kinds of \<open>std::io\<close>, the iterator and vector operations of the standard library that the
  components use (\<open>position\<close>, \<open>min_by_key\<close>, \<open>Vec::remove\<close>, push-if-absent), UTF-8
  strings, saturating counters, and the generic lemmas about them.

  A Rust \<open>String\<close> is its UTF-8 byte sequence, one HOL \<open>char\<close> per byte, so that
  \<open>len()\<close> is \<open>length\<close>; \<open>chars()\<close> is \<open>utf8_chars\<close>.  Error values keep their kind and
  drop the message text.
\<close>

named_theorems keys_frame \<open>what an operation does to the (uid, owner) keys of a journal\<close>
named_theorems journal_frame \<open>operations that leave the ownership journal alone\<close>
named_theorems world_frame \<open>operations that leave the outside world alone\<close>

section \<open>Results and errors\<close>

datatype ('a, 'e) result = Ok 'a | Err 'e

datatype error_kind =
    NotFound | AlreadyExists | InvalidInput | InvalidData | NotConnected
  | Unsupported | Interrupted | TimedOut | Other | Os_Error nat

type_synonym 'a io = "('a, error_kind) result"

fun is_ok :: "('a, 'e) result \<Rightarrow> bool" where
  "is_ok (Ok _) = True"
| "is_ok (Err _) = False"

fun map_result :: "('a \<Rightarrow> 'b) \<Rightarrow> ('a, 'e) result \<Rightarrow> ('b, 'e) result" where
  "map_result f (Ok x) = Ok (f x)"
| "map_result f (Err e) = Err e"

text \<open>\<open>result.unwrap_or_default()\<close> and \<open>result.ok()\<close>.\<close>

fun unwrap_or :: "'a \<Rightarrow> ('a, 'e) result \<Rightarrow> 'a" where
  "unwrap_or d (Ok x) = x"
| "unwrap_or d (Err _) = d"

fun ok_option :: "('a, 'e) result \<Rightarrow> 'a option" where
  "ok_option (Ok x) = Some x"
| "ok_option (Err _) = None"

text \<open>A match arm that turns one error kind into success, as in
  \<open>Err(err) if err.kind() == NotFound => Ok(())\<close>.\<close>

definition tolerate :: "error_kind \<Rightarrow> unit io \<Rightarrow> unit io" where
  "tolerate k r = (case r of Err e \<Rightarrow> if e = k then Ok () else Err e | Ok u \<Rightarrow> Ok u)"

lemma is_ok_tolerate [simp]: "is_ok (tolerate k r) \<longleftrightarrow> is_ok r \<or> r = Err k"
  by (cases r) (auto simp: tolerate_def)

lemma map_result_Ok_iff: "map_result f r = Ok y \<longleftrightarrow> (\<exists>x. r = Ok x \<and> y = f x)"
  by (cases r) auto

lemma is_ok_map_result [simp]: "is_ok (map_result f r) \<longleftrightarrow> is_ok r"
  by (cases r) auto

lemma is_ok_iff: "is_ok r \<longleftrightarrow> (\<exists>x. r = Ok x)"
  by (cases r) auto

section \<open>Iterators and vectors\<close>

fun position :: "('a \<Rightarrow> bool) \<Rightarrow> 'a list \<Rightarrow> nat option" where
  "position p [] = None"
| "position p (x # xs) = (if p x then Some 0 else map_option Suc (position p xs))"

lemma position_SomeD:
  "position p xs = Some i \<Longrightarrow> i < length xs \<and> p (xs ! i) \<and> (\<forall>j < i. \<not> p (xs ! j))"
proof (induction xs arbitrary: i)
  case (Cons x xs)
  then show ?case by (cases i) (auto split: if_splits simp: nth_Cons' less_Suc_eq_0_disj)
qed simp

lemma position_None_iff: "position p xs = None \<longleftrightarrow> (\<forall>x \<in> set xs. \<not> p x)"
  by (induction xs) auto

lemma position_append_None:
  "\<forall>x \<in> set xs. \<not> p x \<Longrightarrow> position p (xs @ ys) = map_option ((+) (length xs)) (position p ys)"
  by (induction xs; cases "position p ys") auto

text \<open>\<open>Iterator::min_by_key\<close> returns the first of several minimal elements.\<close>

fun min_by_key :: "('a \<Rightarrow> nat) \<Rightarrow> 'a list \<Rightarrow> 'a option" where
  "min_by_key f [] = None"
| "min_by_key f (x # xs) =
     (case min_by_key f xs of
        None \<Rightarrow> Some x
      | Some y \<Rightarrow> if f x \<le> f y then Some x else Some y)"

lemma min_by_key_None_iff [simp]: "min_by_key f xs = None \<longleftrightarrow> xs = []"
  by (cases xs) (auto split: option.splits)

lemma min_by_key_SomeD:
  "min_by_key f xs = Some y \<Longrightarrow> y \<in> set xs \<and> (\<forall>x \<in> set xs. f y \<le> f x)"
  by (induction xs arbitrary: y) (force split: option.splits if_splits)+

text \<open>\<open>Vec::remove\<close> at an index in range.\<close>

definition remove_nth :: "nat \<Rightarrow> 'a list \<Rightarrow> 'a list" where
  "remove_nth i xs = take i xs @ drop (Suc i) xs"

lemma remove_nth_length_append [simp]: "remove_nth (length xs) (xs @ y # ys) = xs @ ys"
  by (simp add: remove_nth_def)

lemma length_remove_nth [simp]: "i < length xs \<Longrightarrow> length (remove_nth i xs) = length xs - 1"
  by (simp add: remove_nth_def)

lemma map_remove_nth: "map f (remove_nth i xs) = remove_nth i (map f xs)"
  by (simp add: remove_nth_def take_map drop_map)

lemma set_remove_nth_subset: "set (remove_nth i xs) \<subseteq> set xs"
  by (auto simp: remove_nth_def dest: in_set_takeD in_set_dropD)

lemma distinct_remove_nth: "distinct xs \<Longrightarrow> distinct (remove_nth i xs)"
  using set_take_disj_set_drop_if_distinct [of xs i "Suc i"]
  by (simp add: remove_nth_def)

lemma take_remove_nth [simp]: "j \<le> i \<Longrightarrow> take j (remove_nth i xs) = take j xs"
  by (simp add: remove_nth_def min_def)

lemma remove_nth_update [simp]: "remove_nth i (xs[i := x]) = remove_nth i xs"
  by (simp add: remove_nth_def)

lemma distinct_remove_nth_not_in:
  "distinct xs \<Longrightarrow> i < length xs \<Longrightarrow> xs ! i \<notin> set (remove_nth i xs)"
proof -
  assume d: "distinct xs" and i: "i < length xs"
  then have "distinct (take i xs @ xs ! i # drop (Suc i) xs)"
    by (simp add: id_take_nth_drop [symmetric])
  then show ?thesis by (simp add: remove_nth_def)
qed

text \<open>The idiom \<open>if !xs.contains(&x) { xs.push(x) }\<close>.\<close>

definition push_unique :: "'a list \<Rightarrow> 'a \<Rightarrow> 'a list" where
  "push_unique xs x = (if x \<in> set xs then xs else xs @ [x])"

lemma set_push_unique [simp]: "set (push_unique xs x) = insert x (set xs)"
  by (auto simp: push_unique_def)

lemma distinct_push_unique [simp]: "distinct (push_unique xs x) \<longleftrightarrow> distinct xs"
  by (auto simp: push_unique_def)

lemma set_foldl_push_unique [simp]: "set (foldl push_unique acc xs) = set acc \<union> set xs"
  by (induction xs arbitrary: acc) auto

lemma distinct_foldl_push_unique [simp]:
  "distinct (foldl push_unique acc xs) \<longleftrightarrow> distinct acc"
  by (induction xs arbitrary: acc) auto

lemma distinct_map_list_update:
  "i < length xs \<Longrightarrow> f y = f (xs ! i) \<Longrightarrow> map f (xs[i := y]) = map f xs"
  by (metis list_update_id map_update)

lemma subseq_distinct: "subseq xs ys \<Longrightarrow> distinct ys \<Longrightarrow> distinct xs"
  by (auto simp: subseq_conv_nths intro: distinct_nthsI)

lemma subseq_rev: "subseq xs ys \<Longrightarrow> subseq (rev xs) (rev ys)"
proof (induction rule: list_emb.induct)
  case (list_emb_Cons2 x y xs ys)
  then show ?case using list_emb_append_mono [of "(=)" "rev xs" "rev ys" "[x]" "[y]"] by simp
qed (auto intro: subseq_rev_drop_many)

lemma find_SomeD: "List.find p xs = Some x \<Longrightarrow> x \<in> set xs \<and> p x"
  by (auto simp: find_Some_iff)

section \<open>Strings\<close>

definition starts_with :: "string \<Rightarrow> string \<Rightarrow> bool" where
  "starts_with s p \<longleftrightarrow> take (length p) s = p"

definition strip_prefix :: "string \<Rightarrow> string \<Rightarrow> string option" where
  "strip_prefix p s = (if starts_with s p then Some (drop (length p) s) else None)"

lemma starts_with_append [simp]: "starts_with (p @ s) p"
  by (simp add: starts_with_def)

lemma starts_with_decomp: "starts_with s p \<Longrightarrow> s = p @ drop (length p) s"
  by (metis append_take_drop_id starts_with_def)

lemma strip_prefix_append [simp]: "strip_prefix p (p @ s) = Some s"
  by (simp add: strip_prefix_def)

lemma strip_prefix_Some_iff: "strip_prefix p s = Some r \<longleftrightarrow> s = p @ r"
  by (auto simp: strip_prefix_def dest: starts_with_decomp)

definition cval :: "char \<Rightarrow> nat" where
  "cval c = of_char c"

text \<open>Code points of a well-formed UTF-8 byte string.\<close>

fun utf8_chars :: "string \<Rightarrow> nat list" where
  "utf8_chars [] = []"
| "utf8_chars (a # s) =
     (if cval a < 128 then cval a # utf8_chars s
      else if cval a < 224 then
        (case s of b # t \<Rightarrow> ((cval a - 192) * 64 + (cval b - 128)) # utf8_chars t | _ \<Rightarrow> [])
      else if cval a < 240 then
        (case s of b # c # t \<Rightarrow>
            ((cval a - 224) * 4096 + (cval b - 128) * 64 + (cval c - 128)) # utf8_chars t
         | _ \<Rightarrow> [])
      else
        (case s of b # c # d # t \<Rightarrow>
            ((cval a - 240) * 262144 + (cval b - 128) * 4096 + (cval c - 128) * 64
               + (cval d - 128)) # utf8_chars t
         | _ \<Rightarrow> []))"

text \<open>\<open>char::is_control\<close> (category Cc) and \<open>char::is_whitespace\<close> (White\_Space).\<close>

definition is_control_cp :: "nat \<Rightarrow> bool" where
  "is_control_cp n \<longleftrightarrow> n < 32 \<or> (127 \<le> n \<and> n < 160)"

definition is_whitespace_cp :: "nat \<Rightarrow> bool" where
  "is_whitespace_cp n \<longleftrightarrow> (9 \<le> n \<and> n \<le> 13) \<or> n = 32 \<or> n = 133 \<or> n = 160 \<or> n = 5760
     \<or> (8192 \<le> n \<and> n \<le> 8202) \<or> n = 8232 \<or> n = 8233 \<or> n = 8239 \<or> n = 8287 \<or> n = 12288"

text \<open>\<open>str::trim\<close>: a string is cut into characters, and white space goes at both ends.\<close>

definition utf8_width :: "char \<Rightarrow> nat" where
  "utf8_width c = (if cval c < 128 then 1 else if cval c < 224 then 2 else if cval c < 240 then 3 else 4)"

fun utf8_split :: "string \<Rightarrow> string list" where
  "utf8_split [] = []"
| "utf8_split (a # s) =
     (a # take (utf8_width a - 1) s) # utf8_split (drop (utf8_width a - 1) s)"

definition is_ws_char :: "string \<Rightarrow> bool" where
  "is_ws_char c \<longleftrightarrow> list_all is_whitespace_cp (utf8_chars c)"

definition trim :: "string \<Rightarrow> string" where
  "trim s = concat (rev (dropWhile is_ws_char (rev (dropWhile is_ws_char (utf8_split s)))))"

definition has_control :: "string \<Rightarrow> bool" where
  "has_control s \<longleftrightarrow> (\<exists>n \<in> set (utf8_chars s). is_control_cp n)"

text \<open>\<open>s.trim().is_empty()\<close>.\<close>

definition is_blank :: "string \<Rightarrow> bool" where
  "is_blank s \<longleftrightarrow> list_all is_whitespace_cp (utf8_chars s)"

definition is_ascii_lower :: "char \<Rightarrow> bool" where
  "is_ascii_lower c \<longleftrightarrow> 97 \<le> cval c \<and> cval c \<le> 122"

definition is_ascii_upper :: "char \<Rightarrow> bool" where
  "is_ascii_upper c \<longleftrightarrow> 65 \<le> cval c \<and> cval c \<le> 90"

definition is_ascii_digit :: "char \<Rightarrow> bool" where
  "is_ascii_digit c \<longleftrightarrow> 48 \<le> cval c \<and> cval c \<le> 57"

definition is_ascii_alphabetic :: "char \<Rightarrow> bool" where
  "is_ascii_alphabetic c \<longleftrightarrow> is_ascii_lower c \<or> is_ascii_upper c"

definition is_ascii_alphanumeric :: "char \<Rightarrow> bool" where
  "is_ascii_alphanumeric c \<longleftrightarrow> is_ascii_alphabetic c \<or> is_ascii_digit c"

lemmas ascii_defs = is_ascii_lower_def is_ascii_upper_def is_ascii_digit_def
  is_ascii_alphabetic_def is_ascii_alphanumeric_def cval_def

section \<open>Saturating counters\<close>

definition u32_max :: nat where
  "u32_max = 4294967295"

definition sat_succ_u32 :: "nat \<Rightarrow> nat" where
  "sat_succ_u32 n = (if n < u32_max then Suc n else u32_max)"

lemma sat_succ_u32_le [simp]: "sat_succ_u32 n \<le> u32_max"
  by (simp add: sat_succ_u32_def)

end
