(* ===== verification/Net_Types.thy ===== *)
theory Net_Types
  imports Prelude
begin

text \<open>
  The data of the daemon: addresses, networks, routes, policy rules and the resources the
  ownership journal records (\<open>crates/core/src/models.rs\<close>,
  \<open>crates/core/src/daemon_protocol.rs\<close>, \<open>crates/core/src/journal.rs\<close>).

  \<open>std::net::IpAddr\<close> is a 32- or 128-bit word.  A value of the third-party crate
  \<open>ipnet\<close> is the address and prefix length it is built from; what the crate computes
  (\<open>trunc\<close>, \<open>contains\<close>, \<open>FromStr\<close>) is the parameter \<open>ipnet_crate\<close> of every
  definition that calls it.  Kernel indices, metrics, tables and uids are \<open>nat\<close>: the
  code only compares them.
\<close>

section \<open>Addresses\<close>

datatype ip_addr = V4 "32 word" | V6 "128 word"

fun is_ipv4 :: "ip_addr \<Rightarrow> bool" where
  "is_ipv4 (V4 _) = True"
| "is_ipv4 (V6 _) = False"

fun is_ipv6 :: "ip_addr \<Rightarrow> bool" where
  "is_ipv6 (V4 _) = False"
| "is_ipv6 (V6 _) = True"

lemma is_ipv6_not_ipv4 [simp]: "is_ipv6 a \<longleftrightarrow> \<not> is_ipv4 a"
  by (cases a) auto

text \<open>Predicates of \<open>std::net\<close>: 127/8 and ::1, 224/4 and ff00::/8, 0.0.0.0 and ::,
  169.254/16; \<open>v6_link_local\<close> is the source's test \<open>segments()[0] & 0xffc0 == 0xfe80\<close>.\<close>

fun is_loopback :: "ip_addr \<Rightarrow> bool" where
  "is_loopback (V4 w) = (drop_bit 24 w = 127)"
| "is_loopback (V6 w) = (w = 1)"

fun is_multicast :: "ip_addr \<Rightarrow> bool" where
  "is_multicast (V4 w) = (drop_bit 28 w = 14)"
| "is_multicast (V6 w) = (drop_bit 120 w = 255)"

fun is_unspecified :: "ip_addr \<Rightarrow> bool" where
  "is_unspecified (V4 w) = (w = 0)"
| "is_unspecified (V6 w) = (w = 0)"

fun is_link_local :: "ip_addr \<Rightarrow> bool" where
  "is_link_local (V4 w) = (drop_bit 16 w = 43518)"
| "is_link_local (V6 w) = (drop_bit 118 w = 1018)"

text \<open>\<open>Ord\<close> on \<open>IpAddr\<close>: every IPv4 address before every IPv6 address, numerically within.\<close>

instantiation ip_addr :: linorder
begin

fun less_eq_ip_addr :: "ip_addr \<Rightarrow> ip_addr \<Rightarrow> bool" where
  "less_eq_ip_addr (V4 a) (V4 b) = (a \<le> b)"
| "less_eq_ip_addr (V4 a) (V6 b) = True"
| "less_eq_ip_addr (V6 a) (V4 b) = False"
| "less_eq_ip_addr (V6 a) (V6 b) = (a \<le> b)"

definition less_ip_addr :: "ip_addr \<Rightarrow> ip_addr \<Rightarrow> bool" where
  "less_ip_addr a b \<longleftrightarrow> a \<le> b \<and> \<not> b \<le> a"

instance
proof
  fix x y z :: ip_addr
  show "x < y \<longleftrightarrow> x \<le> y \<and> \<not> y \<le> x" by (simp add: less_ip_addr_def)
  show "x \<le> x" by (cases x) auto
  show "x \<le> y \<Longrightarrow> y \<le> z \<Longrightarrow> x \<le> z" by (cases x; cases y; cases z) auto
  show "x \<le> y \<Longrightarrow> y \<le> x \<Longrightarrow> x = y" by (cases x; cases y) auto
  show "x \<le> y \<or> y \<le> x" by (cases x; cases y) auto
qed

end

section \<open>Parsing addresses\<close>

text \<open>\<open>str::parse::<IpAddr>\<close> of the standard library: an IPv4 dotted quad whose octets have at
  most three digits and no leading zero, else an IPv6 address of eight groups of at most four
  hexadecimal digits, with at most one \<open>::\<close> and an optional trailing dotted quad; the whole
  string must be consumed.\<close>

definition hex_digit :: "nat \<Rightarrow> char \<Rightarrow> nat option" where
  "hex_digit radix c =
     (let d = (if is_ascii_digit c then cval c - 48
               else if is_ascii_lower c then cval c - 87
               else if is_ascii_upper c then cval c - 55 else radix)
      in if d < radix then Some d else None)"

definition read_number :: "nat \<Rightarrow> nat \<Rightarrow> bool \<Rightarrow> nat \<Rightarrow> string \<Rightarrow> (nat \<times> string) option" where
  "read_number radix max_digits allow_zero_prefix bound s =
     (let ds = takeWhile (\<lambda>c. hex_digit radix c \<noteq> None) s;
          v = foldl (\<lambda>acc c. acc * radix + (case hex_digit radix c of Some d \<Rightarrow> d | None \<Rightarrow> 0)) 0 ds
      in if ds = [] \<or> length ds > max_digits \<or> v > bound
            \<or> (\<not> allow_zero_prefix \<and> length ds > 1 \<and> hd ds = CHR ''0'')
         then None else Some (v, drop (length ds) s))"

definition read_char :: "char \<Rightarrow> string \<Rightarrow> string option" where
  "read_char c s = (case s of a # t \<Rightarrow> if a = c then Some t else None | [] \<Rightarrow> None)"

text \<open>The reader wants a separator before every element but the first.\<close>

definition read_sep :: "char \<Rightarrow> nat \<Rightarrow> string \<Rightarrow> string option" where
  "read_sep c i s = (if i > 0 then read_char c s else Some s)"

fun read_octets :: "nat \<Rightarrow> nat \<Rightarrow> nat \<Rightarrow> string \<Rightarrow> (nat \<times> string) option" where
  "read_octets 0 i acc s = Some (acc, s)"
| "read_octets (Suc n) i acc s =
     (case Option.bind (read_sep CHR ''.'' i s) (read_number 10 3 False 255) of
        None \<Rightarrow> None
      | Some (v, t) \<Rightarrow> read_octets n (Suc i) (acc * 256 + v) t)"

definition read_ipv4_addr :: "string \<Rightarrow> (nat \<times> string) option" where
  "read_ipv4_addr s = read_octets 4 0 0 s"

text \<open>\<open>read_groups left i s\<close> fills at most \<open>left\<close> more 16-bit groups and reports whether an
  embedded IPv4 address ended them.\<close>

fun read_groups :: "nat \<Rightarrow> nat \<Rightarrow> string \<Rightarrow> nat list \<times> bool \<times> string" where
  "read_groups 0 i s = ([], False, s)"
| "read_groups (Suc left) i s =
     (case (if left > 0 then Option.bind (read_sep CHR '':'' i s) read_ipv4_addr else None) of
        Some (v, t) \<Rightarrow> ([v div 65536, v mod 65536], True, t)
      | None \<Rightarrow>
          (case Option.bind (read_sep CHR '':'' i s) (read_number 16 4 True 65535) of
             None \<Rightarrow> ([], False, s)
           | Some (g, t) \<Rightarrow>
               (let (gs, v4, u) = read_groups left (Suc i) t in (g # gs, v4, u))))"

definition groups_value :: "nat list \<Rightarrow> nat" where
  "groups_value gs = foldl (\<lambda>acc g. acc * 65536 + g) 0 gs"

definition read_ipv6_addr :: "string \<Rightarrow> (nat \<times> string) option" where
  "read_ipv6_addr s =
     (let (head, head_ipv4, t) = read_groups 8 0 s in
      if length head = 8 then Some (groups_value head, t)
      else if head_ipv4 then None
      else (case Option.bind (read_char CHR '':'' t) (read_char CHR '':'') of
              None \<Rightarrow> None
            | Some u \<Rightarrow>
                (let (tail, _, v) = read_groups (8 - (length head + 1)) 0 u in
                 Some (groups_value (head @ replicate (8 - length head - length tail) 0 @ tail), v))))"

definition addr_parse :: "string \<Rightarrow> ip_addr option" where
  "addr_parse s =
     (case read_ipv4_addr s of
        Some (v, t) \<Rightarrow> if t = [] then Some (V4 (of_nat v)) else None
      | None \<Rightarrow>
          (case read_ipv6_addr s of
             Some (v, t) \<Rightarrow> if t = [] then Some (V6 (of_nat v)) else None
           | None \<Rightarrow> None))"

lemma addr_parse_examples:
  "addr_parse ''10.0.0.1'' = Some (V4 167772161)"
  "addr_parse ''010.0.0.1'' = None"
  "addr_parse ''::1'' = Some (V6 1)"
  "addr_parse ''fe80::1.2.3.4'' = Some (V6 338288524927261089654018896841364603652)"
  "addr_parse ''vpn.example'' = None"
  by code_simp+

section \<open>Networks: the ipnet crate\<close>

datatype ip_net = IpNet (net_addr: ip_addr) (net_prefix: nat)

text \<open>\<open>matches!((destination, via), (V4, V4) | (V6, V6))\<close>.\<close>

definition same_family :: "ip_net \<Rightarrow> ip_addr \<Rightarrow> bool" where
  "same_family n a \<longleftrightarrow> is_ipv4 (net_addr n) = is_ipv4 a"

fun max_prefix_len :: "ip_addr \<Rightarrow> nat" where
  "max_prefix_len (V4 _) = 32"
| "max_prefix_len (V6 _) = 128"

text \<open>\<open>IpNet::from(addr)\<close>: the host network.\<close>

definition host_net :: "ip_addr \<Rightarrow> ip_net" where
  "host_net a = IpNet a (max_prefix_len a)"

record ipnet_crate =
  net_trunc :: "ip_net \<Rightarrow> ip_net"
  net_network :: "ip_net \<Rightarrow> ip_addr"
  net_has_addr :: "ip_net \<Rightarrow> ip_addr \<Rightarrow> bool"
  net_has_net :: "ip_net \<Rightarrow> ip_net \<Rightarrow> bool"
  net_parse :: "string \<Rightarrow> ip_net option"

text \<open>Documented behaviour of the crate that some properties rest on: \<open>trunc\<close> clears the
  host bits and keeps family and length, so a second application changes nothing.\<close>

definition trunc_documented :: "ipnet_crate \<Rightarrow> bool" where
  "trunc_documented N \<longleftrightarrow>
     (\<forall>n. net_trunc N (net_trunc N n) = net_trunc N n
        \<and> net_prefix (net_trunc N n) = net_prefix n
        \<and> is_ipv4 (net_addr (net_trunc N n)) = is_ipv4 (net_addr n))"

text \<open>A concrete instance, computed with masks on words, for evaluation.\<close>

definition mask_net :: "ip_net \<Rightarrow> ip_addr" where
  "mask_net n = (case net_addr n of
      V4 w \<Rightarrow> V4 (push_bit (32 - net_prefix n) (drop_bit (32 - net_prefix n) w))
    | V6 w \<Rightarrow> V6 (push_bit (128 - net_prefix n) (drop_bit (128 - net_prefix n) w)))"

definition word_net_has :: "ip_net \<Rightarrow> ip_addr \<Rightarrow> bool" where
  "word_net_has n a \<longleftrightarrow> mask_net n = mask_net (IpNet a (net_prefix n))"

definition word_ipnet :: ipnet_crate where
  "word_ipnet = \<lparr> net_trunc = (\<lambda>n. IpNet (mask_net n) (net_prefix n)), net_network = mask_net,
     net_has_addr = word_net_has,
     net_has_net = (\<lambda>n m. net_prefix n \<le> net_prefix m \<and> word_net_has n (net_addr m)),
     net_parse = (\<lambda>_. None) \<rparr>"

lemma drop_push_bit_word:
  fixes w :: "'a::len word"
  shows "push_bit n (drop_bit n (push_bit n (drop_bit n w))) = push_bit n (drop_bit n w)"
  by (rule bit_word_eqI) (auto simp: bit_simps)

lemma trunc_documented_word_ipnet: "trunc_documented word_ipnet"
  by (auto simp: trunc_documented_def word_ipnet_def mask_net_def drop_push_bit_word
      split: ip_addr.splits)

section \<open>Routes and rules\<close>

record policy_route =
  pr_destination :: ip_net
  pr_metric :: nat
  pr_via :: "ip_addr option"

record applied_route =
  ar_destination :: ip_net
  ar_interface_index :: nat
  ar_metric :: nat
  ar_gateway :: "ip_addr option"
  ar_table :: "nat option"

datatype ip_family = Ipv4 | Ipv6

record system_nexthop =
  nh_gateway :: "ip_addr option"
  nh_interface_index :: nat
  nh_interface_name :: "string option"
  nh_weight :: nat

record system_route =
  sr_family :: ip_family
  sr_destination :: ip_net
  sr_table :: nat
  sr_kind :: string
  sr_scope :: string
  sr_protocol :: nat
  sr_managed :: bool
  sr_gateway :: "ip_addr option"
  sr_interface_index :: "nat option"
  sr_interface_name :: "string option"
  sr_metric :: "nat option"
  sr_pref_source :: "ip_addr option"
  sr_nexthops :: "system_nexthop list"

record system_rule =
  sru_family :: ip_family
  sru_priority :: nat
  sru_action :: string
  sru_table :: nat
  sru_goto :: "nat option"
  sru_from :: "ip_net option"
  sru_to :: "ip_net option"
  sru_fwmark :: "nat option"
  sru_fwmask :: "nat option"
  sru_iifname :: "string option"
  sru_oifname :: "string option"
  sru_uid_range :: "(nat \<times> nat) option"
  sru_source_port_range :: "(nat \<times> nat) option"
  sru_destination_port_range :: "(nat \<times> nat) option"
  sru_ip_protocol :: "string option"
  sru_suppress_prefix_length :: "nat option"
  sru_suppress_if_group :: "nat option"
  sru_tun_id :: "nat option"
  sru_tos :: nat
  sru_invert :: bool
  sru_protocol :: nat
  sru_managed :: bool

record net_tables =
  nt_routes :: "system_route list"
  nt_rules :: "system_rule list"
  nt_available :: bool

record attach_spec =
  as_interface_name :: string
  as_routes :: "policy_route list"
  as_endpoint_bypasses :: "string list"
  as_uplink :: bool

section \<open>Owned resources and the journal\<close>

record owned_rule =
  or_family :: ip_family
  or_priority :: nat
  or_table :: nat
  or_fwmark :: "nat option"
  or_invert :: bool
  or_suppress_prefix_length :: "nat option"

record full_resource =
  fr_table :: nat
  fr_fwmark :: nat
  fr_priority_main :: nat
  fr_priority_tunnel :: nat
  fr_ipv4 :: bool
  fr_ipv6 :: bool

record wg_dns =
  wd_interface_index :: nat
  wd_name :: string
  wd_servers :: "ip_addr list"
  wd_domains :: "string list"
  wd_full :: bool
  wd_applied :: bool

datatype wg_warning = IgnoredHook | IgnoredSaveConfig | DnsNotApplied | Ipv6NotCovered

record wg_link =
  wl_name :: string
  wl_index :: nat
  wl_owner_marker :: string
  wl_full :: "full_resource option"
  wl_warnings :: "wg_warning list"

record wg_address =
  wa_interface_index :: nat
  wa_address :: ip_net

record ovpn_process =
  op_name :: string
  op_owner_marker :: string
  op_transport_mark :: "nat option"
  op_full :: "full_resource option"

record failover_params =
  fp_nodes :: "string list"
  fp_primary_key :: string
  fp_auto_return_primary :: bool
  fp_probe_url :: string
  fp_interval_secs :: nat

datatype proxy_target = Rules | Node string | Pool "string list" | Direct

fun endpoint_keys :: "proxy_target \<Rightarrow> string list" where
  "endpoint_keys Rules = []"
| "endpoint_keys Direct = []"
| "endpoint_keys (Node key) = [key]"
| "endpoint_keys (Pool keys) = keys"

record named_proxy_exit =
  ne_name :: string
  ne_target :: proxy_target
  ne_no_proxy :: "string list"

record proxy_exit_binding =
  pb_name :: string
  pb_target :: proxy_target

record xray_process =
  xp_name :: string
  xp_index :: nat
  xp_owner_marker :: string
  xp_transport_mark :: nat
  xp_full :: "full_resource option"
  xp_failover :: "failover_params option"
  xp_reject_quic :: bool
  xp_probe_url :: "string option"
  xp_pinned_keys :: "string list"
  xp_proxy_exits :: "proxy_exit_binding list"
  xp_mtu :: "nat option"

datatype owned_resource =
    Route applied_route
  | WireGuardLink wg_link
  | OpenVpnProcess ovpn_process
  | XrayProcess xray_process
  | Address wg_address
  | Rule owned_rule
  | Dns wg_dns
  | AttachSpec attach_spec
  | NetRoute system_route
  | NetRule system_rule
  | SuppressedRoute system_route
  | SuppressedRule system_rule

datatype owned_state = Applying | Applied | Stale

record journal_entry =
  je_uid :: nat
  je_owner :: string
  je_state :: owned_state
  je_resources :: "owned_resource list"

type_synonym journal = "journal_entry list"
type_synonym owner_key = "nat \<times> string"

definition je_key :: "journal_entry \<Rightarrow> owner_key" where
  "je_key e = (je_uid e, je_owner e)"

lemma je_key_update [simp]:
  "je_key (e\<lparr>je_state := s\<rparr>) = je_key e"
  "je_key (e\<lparr>je_resources := rs\<rparr>) = je_key e"
  by (simp_all add: je_key_def)

section \<open>Comparisons with the kernel's view\<close>

definition RT_TABLE_UNSPEC :: nat where "RT_TABLE_UNSPEC = 0"
definition RT_TABLE_MAIN :: nat where "RT_TABLE_MAIN = 254"
definition RT_TABLE_LOCAL :: nat where "RT_TABLE_LOCAL = 255"

text \<open>The kernel stores an IPv6 route requested with metric 0 as metric 1024.\<close>

definition kernel_route :: "applied_route \<Rightarrow> applied_route" where
  "kernel_route r =
     (if is_ipv6 (net_addr (ar_destination r)) \<and> ar_metric r = 0
      then r\<lparr>ar_metric := 1024\<rparr> else r)"

definition same_route :: "system_route \<Rightarrow> applied_route \<Rightarrow> bool" where
  "same_route s a =
     (let r = kernel_route a in
      sr_kind s = ''unicast''
      \<and> sr_destination s = ar_destination r
      \<and> sr_interface_index s = Some (ar_interface_index r)
      \<and> (case sr_metric s of None \<Rightarrow> 0 | Some m \<Rightarrow> m) = ar_metric r
      \<and> sr_gateway s = ar_gateway r
      \<and> sr_table s = (case ar_table r of None \<Rightarrow> RT_TABLE_MAIN | Some t \<Rightarrow> t))"

definition opt_or :: "'a \<Rightarrow> 'a option \<Rightarrow> 'a" where
  "opt_or d x = (case x of None \<Rightarrow> d | Some v \<Rightarrow> v)"

definition same_system_route :: "system_route \<Rightarrow> system_route \<Rightarrow> bool" where
  "same_system_route a b \<longleftrightarrow>
     sr_family a = sr_family b
     \<and> sr_destination a = sr_destination b
     \<and> sr_table a = sr_table b
     \<and> sr_interface_index a = sr_interface_index b
     \<and> sr_gateway a = sr_gateway b
     \<and> opt_or 0 (sr_metric a) = opt_or 0 (sr_metric b)
     \<and> length (sr_nexthops a) = length (sr_nexthops b)
     \<and> list_all2 (\<lambda>x y. nh_interface_index x = nh_interface_index y \<and> nh_gateway x = nh_gateway y)
         (sr_nexthops a) (sr_nexthops b)"

definition same_rule :: "system_rule \<Rightarrow> owned_rule \<Rightarrow> bool" where
  "same_rule s r \<longleftrightarrow>
     sru_family s = or_family r
     \<and> sru_priority s = or_priority r
     \<and> sru_table s = or_table r
     \<and> sru_fwmark s = or_fwmark r
     \<and> sru_invert s = or_invert r
     \<and> sru_suppress_prefix_length s = or_suppress_prefix_length r"

lemma kernel_route_idem [simp]: "kernel_route (kernel_route r) = kernel_route r"
  by (simp add: kernel_route_def)

lemma kernel_route_destination [simp]: "ar_destination (kernel_route r) = ar_destination r"
  by (simp add: kernel_route_def)

lemma same_system_route_refl [simp]: "same_system_route a a"
  by (auto simp: same_system_route_def list_all2_same)

end
