(* ===== verification/Route_Planner.thy ===== *)
theory Route_Planner
  imports Net_Types
begin

text \<open>
  The route planner of \<open>crates/core/src/policy.rs\<close>: which kernel routes a profile needs on the
  interfaces the host has now, which declared routes wait for their interface, and which
  endpoint bypasses can be pinned to a physical uplink.

  The profile and interface records keep the fields the planner reads.  Interface lists come
  from the platform backends, which are outside this theory.
\<close>

section \<open>Data\<close>

datatype interface_category = Physical | Vpn | Virtual | System | Tunnel | Filter

record network_interface =
  ni_name :: string
  ni_friendly_name :: string
  ni_if_index :: nat
  ni_gateway :: "ip_addr option"
  ni_ipv6_gateway :: "ip_addr option"
  ni_category :: interface_category

record profile =
  p_id :: string
  p_interface_name :: string
  p_routes :: "policy_route list"
  p_endpoint_bypasses :: "string list"
  p_wait_for_interface :: bool

record route_plan =
  rp_routes :: "applied_route list"
  rp_deferred :: "policy_route list"
  rp_bypasses :: "applied_route list"
  rp_pending_bypasses :: "string list"

definition ENDPOINT_BYPASS_METRIC :: nat where
  "ENDPOINT_BYPASS_METRIC = 50"

section \<open>Operations\<close>

definition resolve_interface :: "profile \<Rightarrow> network_interface list \<Rightarrow> network_interface io" where
  "resolve_interface p ifs =
     (let friendly = filter (\<lambda>i. ni_friendly_name i = p_interface_name p) ifs in
      if length friendly = 1 then Ok (friendly ! 0)
      else if length friendly > 1 then Err InvalidInput
      else
        (let named = filter (\<lambda>i. ni_name i = p_interface_name p) ifs in
         if length named = 1 then Ok (named ! 0)
         else if length named = 0 then Err NotFound
         else Err InvalidInput))"

definition interface_gateway_for :: "network_interface \<Rightarrow> ip_net \<Rightarrow> ip_addr option" where
  "interface_gateway_for i d =
     (if ni_category i \<noteq> Physical then None
      else Option.bind (ni_gateway i)
             (\<lambda>g. if is_ipv4 g = is_ipv4 (net_addr d) then Some g else None))"

definition plan_route_on :: "ipnet_crate \<Rightarrow> network_interface \<Rightarrow> policy_route \<Rightarrow> applied_route" where
  "plan_route_on N i r =
     (let d = net_trunc N (pr_destination r) in
      \<lparr> ar_destination = d, ar_interface_index = ni_if_index i, ar_metric = pr_metric r,
        ar_gateway = (case pr_via r of Some v \<Rightarrow> Some v | None \<Rightarrow> interface_gateway_for i d),
        ar_table = None \<rparr>)"

definition plan_routes_on :: "ipnet_crate \<Rightarrow> profile \<Rightarrow> network_interface \<Rightarrow> applied_route list" where
  "plan_routes_on N p i = map (plan_route_on N i) (p_routes p)"

definition uplink_candidates :: "ip_addr \<Rightarrow> network_interface list \<Rightarrow> (network_interface \<times> ip_addr) list" where
  "uplink_candidates host ifs =
     List.map_filter
       (\<lambda>i. Option.bind (if is_ipv4 host then ni_gateway i else ni_ipv6_gateway i)
              (\<lambda>g. if is_ipv4 g = is_ipv4 host then Some (i, g) else None))
       (filter (\<lambda>i. ni_category i = Physical) ifs)"

definition uplink_route :: "ip_addr \<Rightarrow> network_interface list \<Rightarrow> applied_route option" where
  "uplink_route host ifs =
     map_option (\<lambda>(i, g). \<lparr> ar_destination = host_net host, ar_interface_index = ni_if_index i,
         ar_metric = ENDPOINT_BYPASS_METRIC, ar_gateway = Some g, ar_table = None \<rparr>)
       (min_by_key (\<lambda>(i, _). ni_if_index i) (uplink_candidates host ifs))"

text \<open>The two \<open>HashSet\<close>s of the loop hold exactly the destinations of \<open>plan.bypasses\<close> and the
  members of \<open>plan.pending_bypasses\<close>, which start empty.\<close>

fun plan_endpoint_bypasses ::
    "network_interface list \<Rightarrow> string list \<Rightarrow> route_plan \<Rightarrow> route_plan" where
  "plan_endpoint_bypasses ifs [] plan = plan"
| "plan_endpoint_bypasses ifs (entry # es) plan =
     plan_endpoint_bypasses ifs es
       (case Option.bind (addr_parse entry) (\<lambda>ip. uplink_route ip ifs) of
          Some r \<Rightarrow>
            if ar_destination r \<in> ar_destination ` set (rp_bypasses plan) then plan
            else plan\<lparr>rp_bypasses := rp_bypasses plan @ [r]\<rparr>
        | None \<Rightarrow> plan\<lparr>rp_pending_bypasses := push_unique (rp_pending_bypasses plan) entry\<rparr>)"

definition plan_profile :: "ipnet_crate \<Rightarrow> profile \<Rightarrow> network_interface list \<Rightarrow> route_plan io" where
  "plan_profile N p ifs =
     (let bound =
        (if p_routes p = [] then Ok ([], [])
         else (case resolve_interface p ifs of
                 Ok i \<Rightarrow> Ok (plan_routes_on N p i, [])
               | Err e \<Rightarrow>
                   if p_wait_for_interface p \<and> p_interface_name p \<noteq> [] \<and> e = NotFound
                   then Ok ([], p_routes p) else Err e))
      in case bound of
           Err e \<Rightarrow> Err e
         | Ok (routes, deferred) \<Rightarrow>
             Ok (plan_endpoint_bypasses ifs (p_endpoint_bypasses p)
                   \<lparr> rp_routes = routes, rp_deferred = deferred, rp_bypasses = [],
                     rp_pending_bypasses = [] \<rparr>))"

definition plan_profile_routes ::
    "ipnet_crate \<Rightarrow> profile \<Rightarrow> network_interface list \<Rightarrow> applied_route list io" where
  "plan_profile_routes N p ifs = map_result rp_routes (plan_profile N p ifs)"

section \<open>Interfaces\<close>

lemma resolve_interface_OkD:
  "resolve_interface p ifs = Ok i \<Longrightarrow>
     i \<in> set ifs \<and> (ni_friendly_name i = p_interface_name p \<or> ni_name i = p_interface_name p)"
proof -
  assume r: "resolve_interface p ifs = Ok i"
  have one: "xs ! 0 \<in> set xs" if "length xs = 1" for xs :: "network_interface list"
    using that by simp
  let ?F = "filter (\<lambda>i. ni_friendly_name i = p_interface_name p) ifs"
  let ?M = "filter (\<lambda>i. ni_name i = p_interface_name p) ifs"
  from r have "i \<in> set ?F \<or> i \<in> set ?M"
    using one [of ?F] one [of ?M] unfolding resolve_interface_def Let_def
    by (auto split: if_splits)
  then show ?thesis by auto
qed

lemma resolve_interface_NotFound_iff:
  "resolve_interface p ifs = Err NotFound \<longleftrightarrow>
     (\<forall>i \<in> set ifs. ni_friendly_name i \<noteq> p_interface_name p \<and> ni_name i \<noteq> p_interface_name p)"
proof -
  let ?F = "filter (\<lambda>i. ni_friendly_name i = p_interface_name p) ifs"
  let ?M = "filter (\<lambda>i. ni_name i = p_interface_name p) ifs"
  have "resolve_interface p ifs = Err NotFound \<longleftrightarrow> ?F = [] \<and> ?M = []"
    unfolding resolve_interface_def Let_def by (cases ?F; cases "tl ?F") auto
  then show ?thesis by (auto simp: filter_empty_conv)
qed

section \<open>Bypass routes\<close>

text \<open>What the planner promises of a bypass route: a host route on a physical interface, through
  a gateway of that interface and of the host's own family.\<close>

definition pinned_to_uplink :: "network_interface list \<Rightarrow> ip_addr \<Rightarrow> applied_route \<Rightarrow> bool" where
  "pinned_to_uplink ifs host r \<longleftrightarrow>
     ar_destination r = host_net host \<and> ar_table r = None
     \<and> ar_metric r = ENDPOINT_BYPASS_METRIC
     \<and> (\<exists>i \<in> set ifs. \<exists>g. ni_category i = Physical \<and> ar_interface_index r = ni_if_index i
          \<and> ar_gateway r = Some g \<and> (ni_gateway i = Some g \<or> ni_ipv6_gateway i = Some g)
          \<and> is_ipv4 g = is_ipv4 host
          \<and> (\<forall>(j, _) \<in> set (uplink_candidates host ifs). ni_if_index i \<le> ni_if_index j))"

lemma set_uplink_candidates:
  "(i, g) \<in> set (uplink_candidates host ifs) \<longleftrightarrow>
     i \<in> set ifs \<and> ni_category i = Physical \<and> is_ipv4 g = is_ipv4 host
     \<and> (if is_ipv4 host then ni_gateway i else ni_ipv6_gateway i) = Some g"
  unfolding uplink_candidates_def map_filter_def
  by (force simp: bind_eq_Some_conv split: if_splits)

lemma uplink_route_pinned: "uplink_route host ifs = Some r \<Longrightarrow> pinned_to_uplink ifs host r"
proof -
  assume u: "uplink_route host ifs = Some r"
  then obtain i g where m: "min_by_key (\<lambda>(i, _). ni_if_index i) (uplink_candidates host ifs) = Some (i, g)"
    and r: "r = \<lparr> ar_destination = host_net host, ar_interface_index = ni_if_index i,
         ar_metric = ENDPOINT_BYPASS_METRIC, ar_gateway = Some g, ar_table = None \<rparr>"
    unfolding uplink_route_def by auto
  from min_by_key_SomeD [OF m] have "(i, g) \<in> set (uplink_candidates host ifs)"
    and "\<forall>(j, _) \<in> set (uplink_candidates host ifs). ni_if_index i \<le> ni_if_index j" by auto
  then show ?thesis
    unfolding pinned_to_uplink_def r set_uplink_candidates by (auto split: if_splits)
qed

definition bypass_of :: "network_interface list \<Rightarrow> string \<Rightarrow> applied_route option" where
  "bypass_of ifs entry = Option.bind (addr_parse entry) (\<lambda>ip. uplink_route ip ifs)"

lemma plan_endpoint_bypasses_routes [simp]:
  "rp_routes (plan_endpoint_bypasses ifs es plan) = rp_routes plan"
  "rp_deferred (plan_endpoint_bypasses ifs es plan) = rp_deferred plan"
  by (induction ifs es plan rule: plan_endpoint_bypasses.induct)
    (auto simp: push_unique_def split: option.splits)

lemma plan_endpoint_bypasses_pending:
  "set (rp_pending_bypasses (plan_endpoint_bypasses ifs es plan)) =
     set (rp_pending_bypasses plan) \<union> {e \<in> set es. bypass_of ifs e = None}"
  by (induction ifs es plan rule: plan_endpoint_bypasses.induct)
    (auto simp: bypass_of_def split: option.splits)

lemma plan_endpoint_bypasses_destinations:
  "ar_destination ` set (rp_bypasses (plan_endpoint_bypasses ifs es plan)) =
     ar_destination ` set (rp_bypasses plan)
       \<union> {d. \<exists>e \<in> set es. \<exists>r. bypass_of ifs e = Some r \<and> d = ar_destination r}"
  by (induction ifs es plan rule: plan_endpoint_bypasses.induct)
    (auto simp: bypass_of_def split: option.splits)

lemma plan_endpoint_bypasses_from:
  "r \<in> set (rp_bypasses (plan_endpoint_bypasses ifs es plan)) \<Longrightarrow>
     r \<in> set (rp_bypasses plan) \<or> (\<exists>e \<in> set es. bypass_of ifs e = Some r)"
  by (induction ifs es plan rule: plan_endpoint_bypasses.induct)
    (auto simp: bypass_of_def split: option.splits if_splits)

lemma plan_endpoint_bypasses_distinct:
  "distinct (map ar_destination (rp_bypasses plan)) \<Longrightarrow> distinct (rp_pending_bypasses plan) \<Longrightarrow>
     distinct (map ar_destination (rp_bypasses (plan_endpoint_bypasses ifs es plan)))
     \<and> distinct (rp_pending_bypasses (plan_endpoint_bypasses ifs es plan))"
  by (induction ifs es plan rule: plan_endpoint_bypasses.induct)
    (auto split: option.splits)

lemma plan_profile_OkD:
  assumes "plan_profile N p ifs = Ok plan"
  obtains rs ds where "plan = plan_endpoint_bypasses ifs (p_endpoint_bypasses p)
        \<lparr> rp_routes = rs, rp_deferred = ds, rp_bypasses = [], rp_pending_bypasses = [] \<rparr>"
    and "rp_routes plan = rs" and "rp_deferred plan = ds"
    and "(p_routes p = [] \<and> rs = [] \<and> ds = [])
       \<or> (\<exists>i. resolve_interface p ifs = Ok i \<and> rs = plan_routes_on N p i \<and> ds = [])
       \<or> (rs = [] \<and> ds = p_routes p \<and> p_wait_for_interface p \<and> resolve_interface p ifs = Err NotFound)"
  using assms unfolding plan_profile_def Let_def
  by (auto split: if_splits result.splits)

section \<open>The plan as a whole\<close>

text \<open>a successful plan splits the profile completely.  Its declared routes are all bound to
  one resolved interface, in order, or all deferred (only for an armed profile whose interface is
  absent); every bypass entry is either pending, or its host has exactly one route, pinned to the
  physical interface of least index that carries a gateway of the host's family; no destination
  and no pending name occurs twice.\<close>

theorem plan_profile_complete:
  assumes "plan_profile N p ifs = Ok plan"
  shows "((\<exists>i \<in> set ifs. rp_routes plan = plan_routes_on N p i \<and> rp_deferred plan = [])
            \<or> (rp_routes plan = [] \<and> rp_deferred plan = p_routes p
                \<and> (p_routes p = [] \<or> p_wait_for_interface p \<and> resolve_interface p ifs = Err NotFound)))
       \<and> (\<forall>e \<in> set (p_endpoint_bypasses p).
            if e \<in> set (rp_pending_bypasses plan)
            then addr_parse e = None \<or> (\<exists>ip. addr_parse e = Some ip \<and> uplink_candidates ip ifs = [])
            else (\<exists>ip. addr_parse e = Some ip
                   \<and> (\<exists>r \<in> set (rp_bypasses plan). pinned_to_uplink ifs ip r)))
       \<and> distinct (map ar_destination (rp_bypasses plan)) \<and> distinct (rp_pending_bypasses plan)"
proof -
  from plan_profile_OkD [OF assms] obtain rs ds where
    plan: "plan = plan_endpoint_bypasses ifs (p_endpoint_bypasses p)
        \<lparr> rp_routes = rs, rp_deferred = ds, rp_bypasses = [], rp_pending_bypasses = [] \<rparr>"
    and split: "rp_routes plan = rs" "rp_deferred plan = ds"
      "(p_routes p = [] \<and> rs = [] \<and> ds = [])
       \<or> (\<exists>i. resolve_interface p ifs = Ok i \<and> rs = plan_routes_on N p i \<and> ds = [])
       \<or> (rs = [] \<and> ds = p_routes p \<and> p_wait_for_interface p \<and> resolve_interface p ifs = Err NotFound)" .
  have pending: "e \<in> set (rp_pending_bypasses plan) \<longleftrightarrow> bypass_of ifs e = None"
    if "e \<in> set (p_endpoint_bypasses p)" for e
    using that by (simp add: plan plan_endpoint_bypasses_pending)
  have pinned: "\<exists>ip. addr_parse e = Some ip \<and> (\<exists>r \<in> set (rp_bypasses plan). pinned_to_uplink ifs ip r)"
    if e: "e \<in> set (p_endpoint_bypasses p)" and b: "bypass_of ifs e = Some r" for e r
  proof -
    obtain ip where ip: "addr_parse e = Some ip" "uplink_route ip ifs = Some r"
      using b by (auto simp: bypass_of_def bind_eq_Some_conv)
    have "ar_destination r \<in> ar_destination ` set (rp_bypasses plan)"
      using e b by (auto simp: plan plan_endpoint_bypasses_destinations)
    then obtain r' where r': "r' \<in> set (rp_bypasses plan)" "ar_destination r' = ar_destination r" by auto
    then obtain e' where "bypass_of ifs e' = Some r'"
      using plan_endpoint_bypasses_from [of r'] by (fastforce simp: plan)
    then obtain ip' where ip': "uplink_route ip' ifs = Some r'"
      by (auto simp: bypass_of_def bind_eq_Some_conv)
    have "host_net ip' = host_net ip"
      using uplink_route_pinned [OF ip'] uplink_route_pinned [OF ip(2)] r'(2)
      by (simp add: pinned_to_uplink_def)
    then have "ip' = ip" by (simp add: host_net_def)
    with ip ip' r' show ?thesis by (blast intro: uplink_route_pinned)
  qed
  have unpinned: "addr_parse e = None \<or> (\<exists>ip. addr_parse e = Some ip \<and> uplink_candidates ip ifs = [])"
    if "bypass_of ifs e = None" for e
    using that by (cases "addr_parse e") (auto simp: bypass_of_def uplink_route_def)
  have "distinct (map ar_destination (rp_bypasses plan)) \<and> distinct (rp_pending_bypasses plan)"
    unfolding plan by (rule plan_endpoint_bypasses_distinct) simp_all
  moreover have "(\<exists>i \<in> set ifs. rp_routes plan = plan_routes_on N p i \<and> rp_deferred plan = [])
      \<or> (rp_routes plan = [] \<and> rp_deferred plan = p_routes p
          \<and> (p_routes p = [] \<or> p_wait_for_interface p \<and> resolve_interface p ifs = Err NotFound))"
    using split resolve_interface_OkD by fastforce
  ultimately show ?thesis using pending pinned unpinned by force
qed

definition example_uplink :: network_interface where
  "example_uplink = \<lparr> ni_name = ''eth0'', ni_friendly_name = ''LAN'', ni_if_index = 2,
     ni_gateway = Some (V4 3232235777), ni_ipv6_gateway = None, ni_category = Physical \<rparr>"

definition example_profile :: profile where
  "example_profile = \<lparr> p_id = ''work'', p_interface_name = ''wg0'',
     p_routes = [\<lparr> pr_destination = IpNet (V4 167772161) 8, pr_metric = 5, pr_via = None \<rparr>],
     p_endpoint_bypasses = [''1.2.3.4'', ''vpn.example'', ''1.2.3.4''],
     p_wait_for_interface = True \<rparr>"

theorem plan_profile_complete_witness:
  "\<exists>plan. plan_profile word_ipnet example_profile [example_uplink] = Ok plan
     \<and> length (rp_deferred plan) = 1 \<and> length (rp_bypasses plan) = 1
     \<and> distinct (map ar_destination (rp_bypasses plan)) \<and> distinct (rp_pending_bypasses plan)"
proof -
  have ok: "plan_profile word_ipnet example_profile [example_uplink] =
      Ok \<lparr> rp_routes = [], rp_deferred = p_routes example_profile,
           rp_bypasses = [\<lparr> ar_destination = IpNet (V4 16909060) 32, ar_interface_index = 2,
              ar_metric = 50, ar_gateway = Some (V4 3232235777), ar_table = None \<rparr>],
           rp_pending_bypasses = [''vpn.example''] \<rparr>" by code_simp
  show ?thesis using plan_profile_complete [OF ok] ok by (simp add: example_profile_def)
qed

end
