(* ===== verification/Route_Exec.thy ===== *)
theory Route_Exec
  imports Route_Planner "HOL-Library.AList" "HOL-Library.Char_ord" "HOL-Library.List_Lexorder"
begin

text \<open>
  Installing routes: the all-or-nothing transaction and the best-effort removal of
  \<open>crates/core/src/policy.rs\<close>, and \<open>PolicyManager\<close>, the bookkeeping of which profile has which
  routes installed.

  A \<open>RouteExecutor\<close> is a parameter: two operations on an unknown world \<open>'k\<close>.  What the
  theorems assume of it is the predicate \<open>faithful_executor\<close>; nothing is assumed about when
  it fails.
\<close>

section \<open>Executors\<close>

record 'k route_executor =
  rx_add :: "applied_route \<Rightarrow> 'k \<Rightarrow> unit io \<times> 'k"
  rx_remove :: "applied_route \<Rightarrow> 'k \<Rightarrow> unit io \<times> 'k"

text \<open>An executor whose calls do what they report, seen through \<open>view\<close>, the routes installed.\<close>

definition faithful_executor :: "'k route_executor \<Rightarrow> ('k \<Rightarrow> applied_route set) \<Rightarrow> bool" where
  "faithful_executor ex view \<longleftrightarrow>
     (\<forall>r w w'. rx_add ex r w = (Ok (), w') \<longrightarrow> view w' = insert r (view w))
   \<and> (\<forall>r w e w'. rx_add ex r w = (Err e, w') \<longrightarrow> view w' = view w)
   \<and> (\<forall>r w w'. rx_remove ex r w = (Ok (), w') \<longrightarrow> view w' = view w - {r})
   \<and> (\<forall>r w e w'. rx_remove ex r w = (Err e, w') \<longrightarrow> view w' = view w)"

lemma faithful_executorD:
  assumes "faithful_executor ex view"
  shows "rx_add ex r w = (Ok (), w') \<Longrightarrow> view w' = insert r (view w)"
    and "rx_add ex r w = (Err e, w') \<Longrightarrow> view w' = view w"
    and "rx_remove ex r w = (Ok (), w') \<Longrightarrow> view w' = view w - {r}"
    and "rx_remove ex r w = (Err e, w') \<Longrightarrow> view w' = view w"
  using assms by (simp_all add: faithful_executor_def)

section \<open>The transaction\<close>

text \<open>Remove the given routes in list order, going past failures; the routes that failed.\<close>

fun remove_each :: "'k route_executor \<Rightarrow> applied_route list \<Rightarrow> 'k \<Rightarrow> applied_route list \<times> 'k" where
  "remove_each ex [] w = ([], w)"
| "remove_each ex (r # rs) w =
     (case rx_remove ex r w of
        (Ok _, w') \<Rightarrow> remove_each ex rs w'
      | (Err _, w') \<Rightarrow> (let (failed, w'') = remove_each ex rs w' in (r # failed, w'')))"

fun apply_loop ::
    "'k route_executor \<Rightarrow> applied_route list \<Rightarrow> applied_route list \<Rightarrow> 'k
       \<Rightarrow> (unit, error_kind \<times> applied_route list) result \<times> 'k" where
  "apply_loop ex added [] w = (Ok (), w)"
| "apply_loop ex added (r # rs) w =
     (case rx_add ex r w of
        (Ok _, w') \<Rightarrow> apply_loop ex (added @ [r]) rs w'
      | (Err e, w') \<Rightarrow>
          (let (still, w'') = remove_each ex (rev added) w' in (Err (e, still), w'')))"

definition apply_routes_transactional ::
    "'k route_executor \<Rightarrow> applied_route list \<Rightarrow> 'k
       \<Rightarrow> (unit, error_kind \<times> applied_route list) result \<times> 'k" where
  "apply_routes_transactional ex routes w = apply_loop ex [] routes w"

definition remove_routes_best_effort ::
    "'k route_executor \<Rightarrow> applied_route list \<Rightarrow> 'k \<Rightarrow> (unit, applied_route list) result \<times> 'k" where
  "remove_routes_best_effort ex routes w =
     (let (failed, w') = remove_each ex (rev routes) w in
      if failed = [] then (Ok (), w') else (Err failed, w'))"

lemma remove_each_subset: "remove_each ex rs w = (failed, w') \<Longrightarrow> set failed \<subseteq> set rs"
  by (induction ex rs w arbitrary: failed w' rule: remove_each.induct)
    (fastforce split: prod.splits result.splits)+

lemma remove_each_view:
  assumes "faithful_executor ex view"
  shows "remove_each ex rs w = (failed, w') \<Longrightarrow> distinct rs
           \<Longrightarrow> view w' = view w - (set rs - set failed)"
proof (induction rs arbitrary: w failed)
  case (Cons r rs)
  obtain res w1 where rm: "rx_remove ex r w = (res, w1)" by fastforce
  show ?case
  proof (cases res)
    case (Ok u)
    with Cons rm have IH: "view w' = view w1 - (set rs - set failed)" and "set failed \<subseteq> set rs"
      by (auto dest: remove_each_subset)
    with Ok rm Cons.prems(2) show ?thesis
      using faithful_executorD(3) [OF assms, of r w w1] by auto
  next
    case (Err e)
    then obtain f where f: "remove_each ex rs w1 = (f, w')" "failed = r # f"
      using Cons.prems(1) rm by (auto split: prod.splits)
    then have "view w' = view w1 - (set rs - set f)" and "set f \<subseteq> set rs"
      using Cons rm Err by (auto dest: remove_each_subset)
    with Err rm f(2) Cons.prems(2) show ?thesis
      using faithful_executorD(4) [OF assms, of r w e w1] by auto
  qed
qed simp

lemma apply_loop_view:
  assumes "faithful_executor ex view"
  shows "apply_loop ex added rs w = (res, w') \<Longrightarrow> distinct (added @ rs)
     \<Longrightarrow> set added \<subseteq> view w \<Longrightarrow> set rs \<inter> view w = {}
     \<Longrightarrow> (case res of
           Ok _ \<Rightarrow> view w' = view w \<union> set rs
         | Err (e, still) \<Rightarrow> set still \<subseteq> set added \<union> set rs
             \<and> view w' = (view w - set added) \<union> set still)"
proof (induction rs arbitrary: added w)
  case (Cons r rs)
  obtain r1 w1 where add: "rx_add ex r w = (r1, w1)" by fastforce
  show ?case
  proof (cases r1)
    case (Ok u)
    have v: "view w1 = insert r (view w)"
      using add Ok faithful_executorD(1) [OF assms] by simp
    have run: "apply_loop ex (added @ [r]) rs w1 = (res, w')" using Cons.prems(1) add Ok by simp
    have "distinct ((added @ [r]) @ rs)" "set (added @ [r]) \<subseteq> view w1" "set rs \<inter> view w1 = {}"
      using Cons.prems v by auto
    from Cons.IH [OF run this] v Cons.prems show ?thesis
      by (auto split: result.splits)
  next
    case (Err e)
    have v: "view w1 = view w" using add Err faithful_executorD(2) [OF assms] by simp
    obtain still where st: "remove_each ex (rev added) w1 = (still, w')" "res = Err (e, still)"
      using Cons.prems(1) add Err by (auto split: prod.splits)
    have "view w' = view w - (set added - set still)" "set still \<subseteq> set added"
      using remove_each_view [OF assms st(1)] remove_each_subset [OF st(1)] Cons.prems v by auto
    then show ?thesis using st Cons.prems by auto
  qed
qed auto

text \<open>C28: the transaction is all-or-nothing up to the leftovers it reports.  With an executor
  whose calls do what they report, and routes that are distinct and not yet installed, success
  installs exactly the requested routes; failure leaves exactly the reported leftovers, all of them
  requested, and with no failing rollback the table is as before.\<close>

theorem apply_routes_transactional_atomic:
  assumes "faithful_executor ex view" and "distinct routes" and "set routes \<inter> view w = {}"
    and "apply_routes_transactional ex routes w = (res, w')"
  shows "case res of
           Ok _ \<Rightarrow> view w' = view w \<union> set routes
         | Err (e, still) \<Rightarrow> set still \<subseteq> set routes \<and> view w' = view w \<union> set still"
  using apply_loop_view [OF assms(1), of "[]" routes w res w'] assms(2-4)
  by (auto simp: apply_routes_transactional_def split: result.splits)

text \<open>A concrete executor over the set of installed routes, which refuses the routes of \<open>bad\<close> and
  cannot remove those of \<open>stuck\<close>, for the examples.\<close>

definition list_executor ::
    "applied_route set \<Rightarrow> applied_route set \<Rightarrow> applied_route set route_executor" where
  "list_executor bad stuck =
     \<lparr> rx_add = (\<lambda>r w. if r \<in> bad then (Err Other, w) else (Ok (), insert r w)),
       rx_remove = (\<lambda>r w. if r \<in> stuck then (Err Other, w) else (Ok (), w - {r})) \<rparr>"

lemma faithful_list_executor: "faithful_executor (list_executor bad stuck) id"
  by (auto simp: faithful_executor_def list_executor_def split: if_splits)

definition example_route :: "nat \<Rightarrow> applied_route" where
  "example_route n = \<lparr> ar_destination = IpNet (V4 (of_nat n)) 32, ar_interface_index = 2,
     ar_metric = 50, ar_gateway = None, ar_table = None \<rparr>"

lemma example_route_eq_iff:
  "example_route m = example_route n \<longleftrightarrow> (of_nat m :: 32 word) = of_nat n"
  by (simp add: example_route_def)

theorem apply_routes_transactional_atomic_witness:
  "apply_routes_transactional (list_executor {example_route 3} {example_route 1})
       [example_route 1, example_route 2, example_route 3] {}
     = (Err (Other, [example_route 1]), {example_route 1})
   \<and> set [example_route 1] \<subseteq> set [example_route 1, example_route 2, example_route 3]"
proof -
  have run: "apply_routes_transactional (list_executor {example_route 3} {example_route 1})
       [example_route 1, example_route 2, example_route 3] {}
     = (Err (Other, [example_route 1]), {example_route 1})"
    by (simp add: apply_routes_transactional_def list_executor_def example_route_eq_iff)
  show ?thesis
    using apply_routes_transactional_atomic [OF faithful_list_executor _ _ run] run
    by (simp add: example_route_eq_iff)
qed

section \<open>PolicyManager\<close>

text \<open>The \<open>HashMap\<close> from profile id to routes is an association list; its order is not observable,
  since every listing is sorted.\<close>

record 'k policy_manager =
  pm_world :: 'k
  pm_applied :: "(string \<times> applied_route list) list"

definition apply_profile ::
    "ipnet_crate \<Rightarrow> 'k route_executor \<Rightarrow> profile \<Rightarrow> network_interface list
       \<Rightarrow> 'k policy_manager \<Rightarrow> applied_route list io \<times> 'k policy_manager" where
  "apply_profile N ex p ifs m =
     (if map_of (pm_applied m) (p_id p) \<noteq> None then (Err AlreadyExists, m)
      else case plan_profile_routes N p ifs of
        Err e \<Rightarrow> (Err e, m)
      | Ok routes \<Rightarrow>
          (case apply_routes_transactional ex routes (pm_world m) of
             (Err (e, _), w) \<Rightarrow> (Err e, m\<lparr>pm_world := w\<rparr>)
           | (Ok _, w) \<Rightarrow>
               (Ok routes, m\<lparr>pm_world := w,
                  pm_applied := AList.update (p_id p) routes (pm_applied m)\<rparr>)))"

definition remove_profile ::
    "'k route_executor \<Rightarrow> string \<Rightarrow> 'k policy_manager \<Rightarrow> unit io \<times> 'k policy_manager" where
  "remove_profile ex pid m =
     (case map_of (pm_applied m) pid of
        None \<Rightarrow> (Err NotFound, m)
      | Some routes \<Rightarrow>
          (let rest = AList.delete pid (pm_applied m) in
           case remove_routes_best_effort ex routes (pm_world m) of
             (Ok _, w) \<Rightarrow> (Ok (), m\<lparr>pm_world := w, pm_applied := rest\<rparr>)
           | (Err failed, w) \<Rightarrow>
               (Err Other, m\<lparr>pm_world := w, pm_applied := AList.update pid failed rest\<rparr>)))"

definition applied_for :: "'k policy_manager \<Rightarrow> string \<Rightarrow> applied_route list" where
  "applied_for m pid = (case map_of (pm_applied m) pid of None \<Rightarrow> [] | Some rs \<Rightarrow> rs)"

definition snapshot :: "'k policy_manager \<Rightarrow> (string \<times> applied_route list) list" where
  "snapshot m = sort_key fst (pm_applied m)"

fun restore_loop ::
    "(string \<times> applied_route list) list \<Rightarrow> (string \<times> applied_route list) list
       \<Rightarrow> (string \<times> applied_route list) list io" where
  "restore_loop acc [] = Ok acc"
| "restore_loop acc ((pid, rs) # es) =
     (if is_blank pid then Err InvalidData
      else if map_of acc pid \<noteq> None then Err InvalidData
      else restore_loop (AList.update pid rs acc) es)"

definition restore ::
    "(string \<times> applied_route list) list \<Rightarrow> 'k policy_manager \<Rightarrow> unit io \<times> 'k policy_manager" where
  "restore es m =
     (case restore_loop [] es of
        Err e \<Rightarrow> (Err e, m)
      | Ok applied \<Rightarrow> (Ok (), m\<lparr>pm_applied := applied\<rparr>))"

definition has_applied_profile :: "'k policy_manager \<Rightarrow> string \<Rightarrow> bool" where
  "has_applied_profile m pid \<longleftrightarrow> map_of (pm_applied m) pid \<noteq> None"

definition applied_profile_ids :: "'k policy_manager \<Rightarrow> string list" where
  "applied_profile_ids m = sort (map fst (pm_applied m))"

section \<open>What the manager keeps\<close>

definition manager_inv :: "'k policy_manager \<Rightarrow> bool" where
  "manager_inv m \<longleftrightarrow> distinct (map fst (pm_applied m))"

lemma restore_loop_distinct:
  "restore_loop acc es = Ok out \<Longrightarrow> distinct (map fst acc) \<Longrightarrow> distinct (map fst out)"
  by (induction acc es rule: restore_loop.induct) (auto simp: distinct_update split: if_splits)

lemma manager_inv_steps:
  assumes "manager_inv m"
  shows "manager_inv (snd (apply_profile N ex p ifs m))"
    and "manager_inv (snd (remove_profile ex pid m))"
    and "manager_inv (snd (restore es m))"
  using assms restore_loop_distinct [of "[]" es]
  by (auto simp: manager_inv_def apply_profile_def remove_profile_def restore_def Let_def
      distinct_update distinct_delete split: option.splits result.splits prod.splits)

lemma update_append_new: "k \<notin> fst ` set al \<Longrightarrow> AList.update k v al = al @ [(k, v)]"
  by (induction al) auto

lemma restore_loop_fresh:
  "distinct (map fst acc @ map fst es) \<Longrightarrow> \<forall>pid \<in> fst ` set es. \<not> is_blank pid
     \<Longrightarrow> restore_loop acc es = Ok (acc @ es)"
proof (induction acc es rule: restore_loop.induct)
  case (2 acc pid rs es)
  then have new: "pid \<notin> fst ` set acc" by auto
  with 2 show ?case by (auto simp: map_of_eq_None_iff update_append_new)
qed simp

lemma map_of_sort_key: "distinct (map fst al) \<Longrightarrow> map_of (sort_key fst al) = map_of al"
  by (rule map_of_eqI) (auto simp: distinct_map inj_on_def intro: map_of_is_SomeI)

text \<open>a snapshot restores.  Whatever the manager tracked when the snapshot was taken, a manager
  restored from it answers every lookup the same way, provided no profile id is blank; the snapshot
  itself is sorted by id.\<close>

theorem snapshot_restore_roundtrip:
  assumes "manager_inv m" and "\<forall>pid \<in> fst ` set (pm_applied m). \<not> is_blank pid"
  shows "\<exists>m1. restore (snapshot m) m0 = (Ok (), m1) \<and> manager_inv m1
           \<and> pm_world m1 = pm_world m0
           \<and> (\<forall>pid. applied_for m1 pid = applied_for m pid
                \<and> has_applied_profile m1 pid = has_applied_profile m pid)
           \<and> snapshot m1 = snapshot m \<and> sorted (map fst (snapshot m))"
proof -
  have d: "distinct (map fst (snapshot m))"
    using assms(1) by (simp add: manager_inv_def snapshot_def distinct_map)
  have "restore_loop [] (snapshot m) = Ok (snapshot m)"
    using restore_loop_fresh [of "[]" "snapshot m"] d assms(2) by (simp add: snapshot_def)
  moreover have "map_of (snapshot m) = map_of (pm_applied m)"
    using assms(1) by (simp add: manager_inv_def snapshot_def map_of_sort_key)
  ultimately show ?thesis using d
    by (simp add: restore_def manager_inv_def applied_for_def has_applied_profile_def)
      (simp add: snapshot_def sort_key_id_if_sorted)
qed

theorem snapshot_restore_roundtrip_witness:
  "let m = \<lparr> pm_world = (), pm_applied = [(''z'', [example_route 1]), (''a'', [])] \<rparr> in
   \<exists>m1. restore (snapshot m) \<lparr> pm_world = (), pm_applied = [] \<rparr> = (Ok (), m1)
      \<and> applied_for m1 ''z'' = [example_route 1]"
proof -
  let ?m = "\<lparr> pm_world = (), pm_applied = [(''z'', [example_route 1]), (''a'', [])] \<rparr>"
  have "manager_inv ?m" by (simp add: manager_inv_def)
  moreover have "\<forall>pid \<in> fst ` set (pm_applied ?m). \<not> is_blank pid"
    by (simp add: is_blank_def is_whitespace_cp_def cval_def)
  ultimately show ?thesis
    using snapshot_restore_roundtrip [of ?m "\<lparr> pm_world = (), pm_applied = [] \<rparr>"]
    unfolding Let_def by (auto simp: applied_for_def [where m = "\<lparr> pm_world = (), pm_applied = _ \<rparr>"])
qed

text \<open>removing a profile loses track of nothing.  The profile's routes that the executor removed
  are gone from the table, those it did not remove stay installed, stay tracked under the profile
  (so a second removal retries exactly them), and the call reports an error iff there are any; every
  other profile's record is unchanged.\<close>

theorem remove_profile_keeps_track:
  assumes "faithful_executor ex view" and "map_of (pm_applied m) pid = Some routes"
    and "distinct routes" and "set routes \<subseteq> view (pm_world m)"
    and "remove_profile ex pid m = (res, m')"
  shows "view (pm_world m') = view (pm_world m) - (set routes - set (applied_for m' pid))
       \<and> set (applied_for m' pid) \<subseteq> set routes
       \<and> (res = Ok () \<longleftrightarrow> \<not> has_applied_profile m' pid)
       \<and> (has_applied_profile m' pid \<longrightarrow> applied_for m' pid \<noteq> [])
       \<and> (\<forall>q. q \<noteq> pid \<longrightarrow> map_of (pm_applied m') q = map_of (pm_applied m) q)"
proof -
  obtain failed w where rm: "remove_each ex (rev routes) (pm_world m) = (failed, w)" by fastforce
  have v: "view w = view (pm_world m) - (set routes - set failed)" "set failed \<subseteq> set routes"
    using remove_each_view [OF assms(1) rm] remove_each_subset [OF rm] assms(3) by auto
  show ?thesis
  proof (cases "failed = []")
    case True
    with assms(2,5) rm v show ?thesis
      by (auto simp: remove_profile_def remove_routes_best_effort_def applied_for_def
          has_applied_profile_def delete_conv')
  next
    case False
    with assms(2,5) rm v show ?thesis
      by (auto simp: remove_profile_def remove_routes_best_effort_def applied_for_def
          has_applied_profile_def delete_conv' update_conv')
  qed
qed

theorem remove_profile_keeps_track_witness:
  "let m = \<lparr> pm_world = {example_route 1, example_route 2},
             pm_applied = [(''work'', [example_route 1, example_route 2])] \<rparr>;
       (res, m') = remove_profile (list_executor {} {example_route 1}) ''work'' m
   in set (applied_for m' ''work'') \<subseteq> {example_route 1, example_route 2} \<and> res \<noteq> Ok ()"
proof -
  let ?m = "\<lparr> pm_world = {example_route 1, example_route 2},
             pm_applied = [(''work'', [example_route 1, example_route 2])] \<rparr>"
  have run: "remove_profile (list_executor {} {example_route 1}) ''work'' ?m =
     (Err Other, \<lparr> pm_world = {example_route 1}, pm_applied = [(''work'', [example_route 1])] \<rparr>)"
    by (auto simp: remove_profile_def remove_routes_best_effort_def list_executor_def
        example_route_eq_iff)
  show ?thesis
    using remove_profile_keeps_track [OF faithful_list_executor _ _ _ run] run
    by (simp add: example_route_eq_iff)
qed

text \<open>a failed application can leak.  When the transaction's rollback fails for a route,
  \<open>apply_profile\<close> drops the leftover list: the route stays installed while the manager has no
  record of the profile, so \<open>remove_profile\<close> answers \<open>NotFound\<close>.\<close>

theorem apply_profile_drops_leftovers:
  "\<exists>ex N p ifs m res m'. faithful_executor ex id \<and> pm_world m = {}
     \<and> apply_profile N ex p ifs m = (res, m') \<and> \<not> is_ok res
     \<and> pm_world m' \<noteq> {} \<and> applied_for m' (p_id p) = []
     \<and> fst (remove_profile ex (p_id p) m') = Err NotFound"
proof -
  let ?r = "\<lambda>n. \<lparr> pr_destination = IpNet (V4 n) 32, pr_metric = 50, pr_via = None \<rparr>"
  let ?p = "example_profile\<lparr>p_interface_name := ''eth0'', p_routes := [?r 1, ?r 2]\<rparr>"
  let ?u = "example_uplink\<lparr>ni_gateway := None\<rparr>"
  let ?ex = "list_executor {example_route 2} {example_route 1}"
  have plan: "plan_profile_routes word_ipnet ?p [?u] = Ok [example_route 1, example_route 2]"
    by code_simp
  have "apply_profile word_ipnet ?ex ?p [?u] \<lparr>pm_world = {}, pm_applied = []\<rparr>
      = (Err Other, \<lparr>pm_world = {example_route 1}, pm_applied = []\<rparr>)"
    by (simp add: apply_profile_def plan apply_routes_transactional_def list_executor_def
        example_route_eq_iff)
  then show ?thesis using faithful_list_executor
    by (intro exI [of _ ?ex] exI [of _ word_ipnet] exI [of _ ?p] exI [of _ "[?u]"]
        exI [of _ "\<lparr>pm_world = {}, pm_applied = []\<rparr>"]
        exI [of _ "Err Other"] exI [of _ "\<lparr>pm_world = {example_route 1}, pm_applied = []\<rparr>"])
      (simp add: applied_for_def remove_profile_def)
qed

end
