(* ===== verification/Validate.thy ===== *)
theory Validate
  imports Net_Types
begin

text \<open>
  Request validation (\<open>crates/daemon/src/validate.rs\<close>).  Each check is a predicate, true where the
  source returns \<open>Ok(())\<close>; the callers turn a refusal into \<open>ErrorKind::InvalidInput\<close>
  (\<open>check\<close> below) and the message is dropped.
\<close>

definition MAX_ROUTES_PER_REQUEST :: nat where "MAX_ROUTES_PER_REQUEST = 8192"
definition MAX_OWNER_BYTES :: nat where "MAX_OWNER_BYTES = 128"
definition MAX_ENDPOINT_BYPASSES :: nat where "MAX_ENDPOINT_BYPASSES = 256"

definition check :: "bool \<Rightarrow> unit io" where
  "check ok = (if ok then Ok () else Err InvalidInput)"

definition validate_iface_name :: "string \<Rightarrow> bool" where
  "validate_iface_name name \<longleftrightarrow>
     name \<noteq> [] \<and> length name \<le> 15 \<and> \<not> starts_with name ''-''
     \<and> list_all (\<lambda>c. is_ascii_alphanumeric c \<or> c \<in> set ''._-'') name"

definition validate_owner :: "string \<Rightarrow> bool" where
  "validate_owner owner \<longleftrightarrow>
     owner \<noteq> [] \<and> length owner \<le> MAX_OWNER_BYTES \<and> \<not> has_control owner"

definition valid_via :: "policy_route \<Rightarrow> bool" where
  "valid_via r \<longleftrightarrow>
     (case pr_via r of None \<Rightarrow> True
      | Some v \<Rightarrow> is_ipv4 v = is_ipv4 (net_addr (pr_destination r))
                  \<and> \<not> is_unspecified v \<and> \<not> is_multicast v)"

definition valid_bypass_host :: "string \<Rightarrow> bool" where
  "valid_bypass_host h \<longleftrightarrow>
     h \<noteq> [] \<and> length h \<le> 253
     \<and> (addr_parse h \<noteq> None \<or> list_all (\<lambda>c. is_ascii_alphanumeric c \<or> c \<in> set ''.-_'') h)"

definition validate_attach :: "attach_spec \<Rightarrow> bool" where
  "validate_attach s \<longleftrightarrow>
     (if as_uplink s then as_interface_name s = []
      else if as_interface_name s \<noteq> [] then validate_iface_name (as_interface_name s)
      else as_routes s = [])
     \<and> length (as_routes s) \<le> MAX_ROUTES_PER_REQUEST
     \<and> length (as_endpoint_bypasses s) \<le> MAX_ENDPOINT_BYPASSES
     \<and> list_all valid_via (as_routes s)
     \<and> list_all valid_bypass_host (as_endpoint_bypasses s)"

definition validate_route :: "ipnet_crate \<Rightarrow> applied_route \<Rightarrow> bool" where
  "validate_route N r \<longleftrightarrow>
     net_trunc N (ar_destination r) = ar_destination r
     \<and> ar_table r = None \<and> ar_interface_index r \<noteq> 0
     \<and> (case ar_gateway r of None \<Rightarrow> True
        | Some g \<Rightarrow> same_family (ar_destination r) g \<and> \<not> is_unspecified g \<and> \<not> is_multicast g)"

fun validate_routes :: "ipnet_crate \<Rightarrow> (ip_net \<times> nat) set \<Rightarrow> applied_route list \<Rightarrow> bool" where
  "validate_routes N seen [] = True"
| "validate_routes N seen (r # rs) =
     (validate_route N r
      \<and> (ar_destination r, ar_metric r) \<notin> seen
      \<and> validate_routes N (insert (ar_destination r, ar_metric r) seen) rs)"

definition validate_apply :: "ipnet_crate \<Rightarrow> applied_route list \<Rightarrow> bool" where
  "validate_apply N routes \<longleftrightarrow>
     length routes \<le> MAX_ROUTES_PER_REQUEST \<and> validate_routes N {} routes"

definition route_id :: "applied_route \<Rightarrow> ip_net \<times> nat" where
  "route_id r = (ar_destination r, ar_metric r)"

lemma validate_routes_iff:
  "validate_routes N seen rs \<longleftrightarrow>
     list_all (validate_route N) rs \<and> distinct (map route_id rs) \<and> set (map route_id rs) \<inter> seen = {}"
  by (induction N seen rs rule: validate_routes.induct) (auto simp: route_id_def)

lemma validate_apply_iff:
  "validate_apply N rs \<longleftrightarrow>
     length rs \<le> MAX_ROUTES_PER_REQUEST \<and> list_all (validate_route N) rs \<and> distinct (map route_id rs)"
  by (simp add: validate_apply_def validate_routes_iff)

lemma validate_apply_distinct: "validate_apply N rs \<Longrightarrow> distinct rs"
  by (simp add: validate_apply_iff distinct_map)

lemma check_simps [simp]:
  "check b = Ok () \<longleftrightarrow> b" "check b = Err e \<longleftrightarrow> \<not> b \<and> e = InvalidInput" "is_ok (check b) \<longleftrightarrow> b"
  by (auto simp: check_def)

end
