(* ===== verification/Json.thy ===== *)
theory Json
  imports Net_Types "HOL-Library.AList"
begin

text \<open>
  JSON documents as \<open>serde_json::Value\<close> has them, the accessors the daemon uses, and the verdicts of its
  validators.  A validator may also panic: indexing a \<open>serde_json::Map\<close> (unlike a \<open>Value\<close>) with a key it
  does not have does.
\<close>

section \<open>Values\<close>

text \<open>Numbers that are not integers are kept as their text.  The keys of an object are different.\<close>

datatype json = JNull | JBool bool | JInt int | JFloat string | JStr string | JArr "json list"
  | JObj "(string \<times> json) list"

fun as_object :: "json \<Rightarrow> (string \<times> json) list option" where
  "as_object (JObj m) = Some m"
| "as_object _ = None"

fun as_array :: "json \<Rightarrow> json list option" where
  "as_array (JArr xs) = Some xs"
| "as_array _ = None"

fun as_str :: "json \<Rightarrow> string option" where
  "as_str (JStr s) = Some s"
| "as_str _ = None"

fun as_bool :: "json \<Rightarrow> bool option" where
  "as_bool (JBool b) = Some b"
| "as_bool _ = None"

fun as_u64 :: "json \<Rightarrow> nat option" where
  "as_u64 (JInt n) = (if 0 \<le> n \<and> n < 2 ^ 64 then Some (nat n) else None)"
| "as_u64 _ = None"

fun as_i64 :: "json \<Rightarrow> int option" where
  "as_i64 (JInt n) = (if - (2 ^ 63) \<le> n \<and> n < 2 ^ 63 then Some n else None)"
| "as_i64 _ = None"

abbreviation is_boolean :: "json \<Rightarrow> bool" where
  "is_boolean v \<equiv> as_bool v \<noteq> None"

text \<open>\<open>value.get(key)\<close>, \<open>value[key]\<close> and \<open>value[i]\<close> on a \<open>Value\<close>.\<close>

definition jget :: "json \<Rightarrow> string \<Rightarrow> json option" where
  "jget v k = (case as_object v of None \<Rightarrow> None | Some m \<Rightarrow> map_of m k)"

definition jidx :: "json \<Rightarrow> string \<Rightarrow> json" where
  "jidx v k = opt_or JNull (jget v k)"

definition jnth :: "json \<Rightarrow> nat \<Rightarrow> json" where
  "jnth v i = (case as_array v of Some xs \<Rightarrow> if i < length xs then xs ! i else JNull | None \<Rightarrow> JNull)"

definition jfields :: "json \<Rightarrow> (string \<times> json) list" where
  "jfields v = opt_or [] (as_object v)"

definition jelems :: "json \<Rightarrow> json list" where
  "jelems v = opt_or [] (as_array v)"

text \<open>Insertion into an object keeps the other entries; \<open>value[key] = x\<close> does this on an object.\<close>

definition jset :: "string \<Rightarrow> json \<Rightarrow> json \<Rightarrow> json" where
  "jset k x v = JObj (AList.update k x (jfields v))"

lemma jget_jset [simp]: "jget (jset k x v) j = (if j = k then Some x else jget (JObj (jfields v)) j)"
  by (simp add: jset_def jget_def update_conv')

lemma jidx_simps [simp]: "jidx (JObj m) k = opt_or JNull (map_of m k)"
  by (simp add: jidx_def jget_def)

lemma jget_fields: "jget (JObj (jfields v)) k = jget v k"
  by (cases v) (simp_all add: jget_def jfields_def opt_or_def)

lemma jidx_jset [simp]: "jidx (jset k x v) j = (if j = k then x else jidx v j)"
  by (simp add: jidx_def jget_fields opt_or_def)

section \<open>Verdicts\<close>

datatype verdict = Pass | Reject | Panic

fun and_then :: "verdict \<Rightarrow> verdict \<Rightarrow> verdict" where
  "and_then Pass v = v"
| "and_then v _ = v"

definition checks :: "verdict list \<Rightarrow> verdict" where
  "checks vs = foldr and_then vs Pass"

abbreviation each :: "('a \<Rightarrow> verdict) \<Rightarrow> 'a list \<Rightarrow> verdict" where
  "each f xs \<equiv> checks (map f xs)"

definition require :: "bool \<Rightarrow> verdict" where
  "require b = (if b then Pass else Reject)"

text \<open>\<open>if let Some(x) = v { ... }\<close>.\<close>

definition optional :: "('a \<Rightarrow> verdict) \<Rightarrow> 'a option \<Rightarrow> verdict" where
  "optional f v = (case v of None \<Rightarrow> Pass | Some x \<Rightarrow> f x)"

text \<open>\<open>v.ok_or_else(rejected)?\<close> and the indexing of a \<open>Map\<close>.\<close>

definition required :: "('a \<Rightarrow> verdict) \<Rightarrow> 'a option \<Rightarrow> verdict" where
  "required f v = (case v of None \<Rightarrow> Reject | Some x \<Rightarrow> f x)"

definition map_index :: "(json \<Rightarrow> verdict) \<Rightarrow> json \<Rightarrow> string \<Rightarrow> verdict" where
  "map_index f v k = (case map_of (jfields v) k of None \<Rightarrow> Panic | Some x \<Rightarrow> f x)"

lemma checks_simps [simp]: "checks [] = Pass" "checks (v # vs) = and_then v (checks vs)"
  by (simp_all add: checks_def)

lemma and_then_Pass [simp]: "and_then a b = Pass \<longleftrightarrow> a = Pass \<and> b = Pass"
  by (cases a) auto

lemma checks_Pass [simp]: "checks vs = Pass \<longleftrightarrow> (\<forall>v \<in> set vs. v = Pass)"
  by (induction vs) auto

lemma require_Pass [simp]: "require b = Pass \<longleftrightarrow> b" "require b \<noteq> Panic"
  by (simp_all add: require_def)

lemma optional_Pass [simp]: "optional f v = Pass \<longleftrightarrow> (\<forall>x. v = Some x \<longrightarrow> f x = Pass)"
  by (auto simp: optional_def split: option.splits)

lemma required_Pass [simp]: "required f v = Pass \<longleftrightarrow> (\<exists>x. v = Some x \<and> f x = Pass)"
  by (auto simp: required_def split: option.splits)

lemma map_index_Pass [simp]: "map_index f v k = Pass \<longleftrightarrow> (\<exists>x. map_of (jfields v) k = Some x \<and> f x = Pass)"
  by (auto simp: map_index_def split: option.splits)

lemma and_then_no_panic: "a \<noteq> Panic \<Longrightarrow> (a = Pass \<Longrightarrow> b \<noteq> Panic) \<Longrightarrow> and_then a b \<noteq> Panic"
  by (cases a) auto

section \<open>Strings\<close>

fun split_on :: "char \<Rightarrow> string \<Rightarrow> string list" where
  "split_on c [] = [[]]"
| "split_on c (x # xs) =
     (if x = c then [] # split_on c xs
      else (case split_on c xs of [] \<Rightarrow> [[x]] | p # ps \<Rightarrow> (x # p) # ps))"

definition split_once :: "char \<Rightarrow> string \<Rightarrow> (string \<times> string) option" where
  "split_once c s = (let p = takeWhile (\<lambda>x. x \<noteq> c) s in
     if length p < length s then Some (p, drop (Suc (length p)) s) else None)"

text \<open>\<open>s.splitn(2, c)\<close>.\<close>

definition splitn2 :: "char \<Rightarrow> string \<Rightarrow> string list" where
  "splitn2 c s = (case split_once c s of None \<Rightarrow> [s] | Some (a, b) \<Rightarrow> [a, b])"

text \<open>\<open>str::parse\<close> for an unsigned integer with the given maximum: an optional plus sign and digits.\<close>

definition digits_value :: "string \<Rightarrow> nat" where
  "digits_value s = foldl (\<lambda>v c. v * 10 + (cval c - 48)) 0 s"

definition parse_uint :: "nat \<Rightarrow> string \<Rightarrow> nat option" where
  "parse_uint maximum s =
     (let d = (case s of CHR ''+'' # r \<Rightarrow> r | _ \<Rightarrow> s) in
      if d = [] \<or> \<not> list_all is_ascii_digit d \<or> digits_value d > maximum then None
      else Some (digits_value d))"

end
