(* ===== verification/Ovpn_Management.thy ===== *)
theory Ovpn_Management
  imports Json
begin

text \<open>
  The OpenVPN management interface (\<open>crates/core/src/openvpn_management.rs\<close>): replies to password prompts, the
  lines of the socket, the network part of a \<open>PUSH_REPLY\<close>, and the snapshot the daemon keeps per connection.
  Of the ipnet crate, \<open>Ipv4Net::with_netmask\<close> is a further parameter.
\<close>

record push_libs =
  pl_net :: ipnet_crate
  pl_with_netmask :: "ip_addr \<Rightarrow> ip_addr \<Rightarrow> ip_net option"

datatype management_parse_error = Parse_Malformed | Parse_Unsupported | Parse_TooLarge

type_synonym 'a mgmt = "('a, management_parse_error) result"

datatype openvpn_state = St_Connecting | St_Resolve | St_TcpConnect | St_Wait | St_Auth | St_AuthPending | St_GetConfig | St_AssignIp
  | St_AddRoutes | St_Connected | St_Reconnecting | St_Exiting

datatype password_prompt = Prompt_Auth | Prompt_PrivateKey

datatype openvpn_failure = AuthenticationFailure | CredentialsRequired | ResolveError | ConnectError | TlsError
  | ConnectionLost | ExitWithError | ExitNotification | Terminated

definition MAX_MANAGEMENT_LINE_BYTES :: nat where "MAX_MANAGEMENT_LINE_BYTES = 16 * 1024"
definition MAX_PUSH_BYTES :: nat where "MAX_PUSH_BYTES = 8 * 1024"
definition MAX_PUSH_DIRECTIVES :: nat where "MAX_PUSH_DIRECTIVES = 128"
definition MAX_PUSH_ROUTES :: nat where "MAX_PUSH_ROUTES = 64"
definition MAX_DNS_ADDRESSES :: nat where "MAX_DNS_ADDRESSES = 16"
definition MAX_PUSH_DOMAINS :: nat where "MAX_PUSH_DOMAINS = 16"
definition MAX_USERNAME_BYTES :: nat where "MAX_USERNAME_BYTES = 256"
definition MAX_SECRET_BYTES :: nat where "MAX_SECRET_BYTES = 4096"

definition is_line_char :: "char \<Rightarrow> bool" where
  "is_line_char c \<longleftrightarrow> cval c = 13 \<or> cval c = 10 \<or> cval c = 0"

section \<open>Credentials\<close>

datatype credential_error = Cred_Missing | Cred_Invalid

record openvpn_credentials =
  oc_auth_user_pass :: "(string \<times> string) option"
  oc_private_key_passphrase :: "string option"

definition safe_credential :: "string \<Rightarrow> nat \<Rightarrow> bool \<Rightarrow> bool" where
  "safe_credential v max_bytes allow_empty \<longleftrightarrow> (allow_empty \<or> v \<noteq> []) \<and> length v \<le> max_bytes \<and> \<not> has_control v"

definition validate_openvpn_credentials :: "openvpn_credentials \<Rightarrow> (unit, credential_error) result" where
  "validate_openvpn_credentials c =
     (if oc_auth_user_pass c = None \<and> oc_private_key_passphrase c = None then Err Cred_Invalid
      else if (case oc_auth_user_pass c of None \<Rightarrow> False
               | Some (username, password) \<Rightarrow> \<not> safe_credential username MAX_USERNAME_BYTES False
                   \<or> \<not> safe_credential password MAX_SECRET_BYTES True) then Err Cred_Invalid
      else if (case oc_private_key_passphrase c of None \<Rightarrow> False
               | Some passphrase \<Rightarrow> \<not> safe_credential passphrase MAX_SECRET_BYTES False) then Err Cred_Invalid
      else Ok ())"

definition quote_management_value :: "string \<Rightarrow> string" where
  "quote_management_value v = CHR 0x22 # concat (map (\<lambda>c. if c = CHR 0x22 \<or> c = CHR 0x5C then [CHR 0x5C, c] else [c]) v) @ [CHR 0x22]"

definition management_password_reply ::
    "password_prompt \<Rightarrow> openvpn_credentials option \<Rightarrow> (string, credential_error) result" where
  "management_password_reply prompt credentials =
     (case credentials of
        None \<Rightarrow> Err Cred_Missing
      | Some c \<Rightarrow>
          (case validate_openvpn_credentials c of
             Err e \<Rightarrow> Err e
           | Ok _ \<Rightarrow>
               (case prompt of
                  Prompt_Auth \<Rightarrow>
                    (case oc_auth_user_pass c of
                       None \<Rightarrow> Err Cred_Missing
                     | Some (username, password) \<Rightarrow>
                         Ok (''username '' @ quote_management_value ''Auth'' @ '' '' @ quote_management_value username @ [CHR 0x0A]
                           @ ''password '' @ quote_management_value ''Auth'' @ '' '' @ quote_management_value password @ [CHR 0x0A]))
                | Prompt_PrivateKey \<Rightarrow>
                    (case oc_private_key_passphrase c of
                       None \<Rightarrow> Err Cred_Missing
                     | Some passphrase \<Rightarrow>
                         Ok (''password '' @ quote_management_value ''Private Key'' @ '' ''
                           @ quote_management_value passphrase @ [CHR 0x0A])))))"

section \<open>Pushed network settings\<close>

record pushed_dns_server =
  pd_id :: nat
  pd_addresses :: "ip_addr list"
  pd_resolve_domains :: "string list"

record pushed_network_config =
  pn_routes :: "ip_net list"
  pn_redirect_gateway_def1 :: bool
  pn_legacy_dns_servers :: "ip_addr list"
  pn_search_domains :: "string list"
  pn_dns_servers :: "pushed_dns_server list"
  pn_more_follows :: bool

definition empty_push :: pushed_network_config where
  "empty_push = \<lparr> pn_routes = [], pn_redirect_gateway_def1 = False, pn_legacy_dns_servers = [], pn_search_domains = [],
     pn_dns_servers = [], pn_more_follows = False \<rparr>"

definition merge_push :: "pushed_network_config \<Rightarrow> pushed_network_config \<Rightarrow> pushed_network_config" where
  "merge_push p q = p\<lparr>pn_routes := foldl Prelude.push_unique (pn_routes p) (pn_routes q),
     pn_legacy_dns_servers := foldl Prelude.push_unique (pn_legacy_dns_servers p) (pn_legacy_dns_servers q),
     pn_search_domains := foldl Prelude.push_unique (pn_search_domains p) (pn_search_domains q),
     pn_dns_servers := pn_dns_servers p @ pn_dns_servers q,
     pn_redirect_gateway_def1 := (pn_redirect_gateway_def1 p \<or> pn_redirect_gateway_def1 q),
     pn_more_follows := pn_more_follows q\<rparr>"

fun ws_tokens :: "string list \<Rightarrow> string \<Rightarrow> string list" where
  "ws_tokens [] acc = (if acc = [] then [] else [acc])"
| "ws_tokens (c # cs) acc =
     (if is_ws_char c then (if acc = [] then ws_tokens cs [] else acc # ws_tokens cs []) else ws_tokens cs (acc @ c))"

definition split_whitespace :: "string \<Rightarrow> string list" where
  "split_whitespace s = ws_tokens (utf8_split s) []"

definition push_capped :: "nat \<Rightarrow> 'a list \<Rightarrow> 'a \<Rightarrow> 'a list mgmt" where
  "push_capped limit xs x = (if x \<in> set xs then Ok xs else if length xs \<ge> limit then Err Parse_TooLarge else Ok (xs @ [x]))"

definition parse_ipv4 :: "string \<Rightarrow> ip_addr option" where
  "parse_ipv4 s = (case addr_parse s of Some (V4 w) \<Rightarrow> Some (V4 w) | _ \<Rightarrow> None)"

definition masked_route :: "push_libs \<Rightarrow> string \<Rightarrow> string \<Rightarrow> ip_net option mgmt" where
  "masked_route L address netmask =
     (case (parse_ipv4 address, parse_ipv4 netmask) of
        (Some a, Some m) \<Rightarrow>
          (case pl_with_netmask L a m of None \<Rightarrow> Err Parse_Malformed | Some n \<Rightarrow> Ok (Some (net_trunc (pl_net L) n)))
      | _ \<Rightarrow> Err Parse_Malformed)"

definition parse_ipv4_route :: "push_libs \<Rightarrow> string list \<Rightarrow> ip_net option mgmt" where
  "parse_ipv4_route L tokens =
     (case tokens of
        [a] \<Rightarrow>
          if CHR ''/'' \<in> set a
          then (case net_parse (pl_net L) a of
                  None \<Rightarrow> Err Parse_Malformed
                | Some n \<Rightarrow> if is_ipv4 (net_addr n) then Ok (Some (net_trunc (pl_net L) n)) else Err Parse_Malformed)
          else (case parse_ipv4 a of None \<Rightarrow> Err Parse_Malformed | Some x \<Rightarrow> Ok (Some (IpNet x 32)))
      | [a, m] \<Rightarrow> masked_route L a m
      | a # m # g # metric \<Rightarrow>
          if g = ''net_gateway'' \<or> g = ''remote_host'' then Ok None
          else if length metric > 1 then Err Parse_Malformed
          else if \<not> (g = ''vpn_gateway'' \<or> parse_ipv4 g \<noteq> None)
                  \<or> \<not> list_all (\<lambda>x. parse_uint u32_max x \<noteq> None) metric then Err Parse_Malformed
          else masked_route L a m
      | [] \<Rightarrow> Err Parse_Malformed)"

definition valid_push_label :: "string \<Rightarrow> bool" where
  "valid_push_label label \<longleftrightarrow> label \<noteq> [] \<and> length label \<le> 63 \<and> hd label \<noteq> CHR ''-'' \<and> last label \<noteq> CHR ''-''
     \<and> list_all (\<lambda>b. is_ascii_alphanumeric b \<or> b = CHR ''-'') label"

definition validate_domain :: "string \<Rightarrow> bool" where
  "validate_domain d \<longleftrightarrow> length d \<le> 253 \<and> d \<noteq> [] \<and> list_all valid_push_label (split_on CHR ''.'' d)"

text \<open>The \<open>BTreeMap\<close> of DNS servers is the list of its values, in the order of their identifiers.\<close>

fun on_server :: "nat \<Rightarrow> (pushed_dns_server \<Rightarrow> pushed_dns_server mgmt) \<Rightarrow> pushed_dns_server list \<Rightarrow> pushed_dns_server list mgmt" where
  "on_server i f [] = map_result (\<lambda>s. [s]) (f \<lparr> pd_id = i, pd_addresses = [], pd_resolve_domains = [] \<rparr>)"
| "on_server i f (s # ss) =
     (if pd_id s = i then map_result (\<lambda>s. s # ss) (f s)
      else if i < pd_id s then map_result (\<lambda>n. n # s # ss) (f \<lparr> pd_id = i, pd_addresses = [], pd_resolve_domains = [] \<rparr>)
      else map_result ((#) s) (on_server i f ss))"

fun add_addresses :: "nat \<Rightarrow> string list \<Rightarrow> ip_addr list \<Rightarrow> ip_addr list mgmt" where
  "add_addresses limit [] acc = Ok acc"
| "add_addresses limit (a # as) acc =
     (case addr_parse a of
        None \<Rightarrow> Err Parse_Malformed
      | Some x \<Rightarrow> (case push_capped limit acc x of Err e \<Rightarrow> Err e | Ok acc \<Rightarrow> add_addresses limit as acc))"

fun add_domains :: "string list \<Rightarrow> string list \<Rightarrow> string list mgmt" where
  "add_domains [] acc = Ok acc"
| "add_domains (d # ds) acc =
     (if \<not> validate_domain d then Err Parse_Malformed
      else case push_capped MAX_PUSH_DOMAINS acc d of Err e \<Rightarrow> Err e | Ok acc \<Rightarrow> add_domains ds acc)"

fun add_routes :: "ip_net list \<Rightarrow> ip_net list \<Rightarrow> ip_net list mgmt" where
  "add_routes [] acc = Ok acc"
| "add_routes (r # rs) acc = (case push_capped MAX_PUSH_ROUTES acc r of Err e \<Rightarrow> Err e | Ok acc \<Rightarrow> add_routes rs acc)"

definition with_routes :: "ip_net list \<Rightarrow> pushed_network_config \<Rightarrow> pushed_network_config mgmt" where
  "with_routes rs c = map_result (\<lambda>r. c\<lparr>pn_routes := r\<rparr>) (add_routes rs (pn_routes c))"

definition GATEWAY_FLAGS :: "string list" where
  "GATEWAY_FLAGS = [''def1'', ''local'', ''autolocal'', ''bypass-dhcp'', ''bypass-dns'', ''block-local'', ''ipv6'', ''!ipv4'']"

definition redirect_gateway :: "string list \<Rightarrow> pushed_network_config \<Rightarrow> pushed_network_config mgmt" where
  "redirect_gateway flags c =
     (if \<not> list_all (\<lambda>f. f \<in> set GATEWAY_FLAGS) flags then Err Parse_Unsupported
      else case (if ''!ipv4'' \<in> set flags then Ok c
                 else with_routes [IpNet (V4 0) 1, IpNet (V4 (2 ^ 31)) 1] (c\<lparr>pn_redirect_gateway_def1 := True\<rparr>)) of
        Err e \<Rightarrow> Err e
      | Ok c \<Rightarrow> if ''ipv6'' \<in> set flags then with_routes [IpNet (V6 0) 1, IpNet (V6 (2 ^ 127)) 1] c else Ok c)"

definition dhcp_option :: "string list \<Rightarrow> pushed_network_config \<Rightarrow> pushed_network_config mgmt" where
  "dhcp_option tokens c =
     (case tokens of
        k # vs \<Rightarrow>
          if k = ''DNS'' then
            (case vs of [a] \<Rightarrow> map_result (\<lambda>x. c\<lparr>pn_legacy_dns_servers := x\<rparr>)
                                 (add_addresses MAX_DNS_ADDRESSES [a] (pn_legacy_dns_servers c))
                      | _ \<Rightarrow> Err Parse_Malformed)
          else if k = ''DOMAIN'' \<or> k = ''DOMAIN-SEARCH'' then
            (case vs of [d] \<Rightarrow> map_result (\<lambda>x. c\<lparr>pn_search_domains := x\<rparr>) (add_domains [d] (pn_search_domains c))
                      | _ \<Rightarrow> Err Parse_Malformed)
          else Ok c
      | [] \<Rightarrow> Ok c)"

type_synonym push_state = "pushed_network_config \<times> pushed_dns_server list"

definition dns_server_option :: "string \<Rightarrow> (pushed_dns_server \<Rightarrow> pushed_dns_server mgmt) \<Rightarrow> push_state \<Rightarrow> push_state mgmt" where
  "dns_server_option i f st =
     (case parse_uint 255 i of
        None \<Rightarrow> Err Parse_Malformed
      | Some n \<Rightarrow> if n > 127 then Err Parse_Malformed else map_result (Pair (fst st)) (on_server n f (snd st)))"

definition dns_option :: "string list \<Rightarrow> push_state \<Rightarrow> push_state mgmt" where
  "dns_option tokens st =
     (case tokens of
        k # vs \<Rightarrow>
          if k = ''search-domains'' \<and> vs \<noteq> [] then
            map_result (\<lambda>x. ((fst st)\<lparr>pn_search_domains := x\<rparr>, snd st)) (add_domains vs (pn_search_domains (fst st)))
          else (case vs of
                  i # what # args \<Rightarrow>
                    if k = ''server'' \<and> what = ''address'' \<and> args \<noteq> [] then
                      dns_server_option i (\<lambda>s. map_result (\<lambda>x. s\<lparr>pd_addresses := x\<rparr>) (add_addresses 8 args (pd_addresses s))) st
                    else if k = ''server'' \<and> what = ''resolve-domains'' \<and> args \<noteq> [] then
                      dns_server_option i (\<lambda>s. map_result (\<lambda>x. s\<lparr>pd_resolve_domains := x\<rparr>) (add_domains args (pd_resolve_domains s))) st
                    else Ok st
                | _ \<Rightarrow> Ok st)
      | [] \<Rightarrow> Ok st)"

definition push_directive :: "push_libs \<Rightarrow> string list \<Rightarrow> push_state \<Rightarrow> push_state mgmt" where
  "push_directive L tokens st =
     (case tokens of
        [] \<Rightarrow> Ok st
      | t # rest \<Rightarrow>
          if t = ''route'' then
            (case parse_ipv4_route L rest of
               Err e \<Rightarrow> Err e
             | Ok None \<Rightarrow> Ok st
             | Ok (Some r) \<Rightarrow> map_result (\<lambda>c. (c, snd st)) (with_routes [r] (fst st)))
          else if t = ''route-ipv6'' then
            (case rest of
               [network] \<Rightarrow>
                 (case net_parse (pl_net L) network of
                    None \<Rightarrow> Err Parse_Malformed
                  | Some n \<Rightarrow> if is_ipv4 (net_addr n) then Err Parse_Malformed
                              else map_result (\<lambda>c. (c, snd st)) (with_routes [net_trunc (pl_net L) n] (fst st)))
             | _ \<Rightarrow> Err Parse_Malformed)
          else if t = ''redirect-gateway'' then map_result (\<lambda>c. (c, snd st)) (redirect_gateway rest (fst st))
          else if t = ''push-continuation'' \<and> rest = [''2''] then Ok ((fst st)\<lparr>pn_more_follows := True\<rparr>, snd st)
          else if t = ''dhcp-option'' then map_result (\<lambda>c. (c, snd st)) (dhcp_option rest (fst st))
          else if t = ''dns'' then dns_option rest st
          else Ok st)"

fun push_directives :: "push_libs \<Rightarrow> nat \<Rightarrow> string list \<Rightarrow> push_state \<Rightarrow> push_state mgmt" where
  "push_directives L i [] st = Ok st"
| "push_directives L i (d # ds) st =
     (if i \<ge> MAX_PUSH_DIRECTIVES then Err Parse_TooLarge
      else case push_directive L (split_whitespace d) st of Err e \<Rightarrow> Err e | Ok st \<Rightarrow> push_directives L (Suc i) ds st)"

definition parse_push_reply :: "push_libs \<Rightarrow> string \<Rightarrow> pushed_network_config mgmt" where
  "parse_push_reply L payload =
     (if length payload > MAX_PUSH_BYTES then Err Parse_TooLarge
      else if list_ex is_line_char payload then Err Parse_Malformed
      else case split_on CHR '','' payload of
        [] \<Rightarrow> Err Parse_Malformed
      | d # ds \<Rightarrow>
          if d \<noteq> ''PUSH_REPLY'' then Err Parse_Malformed
          else case push_directives L 0 ds (empty_push, []) of
            Err e \<Rightarrow> Err e
          | Ok (c, servers) \<Rightarrow>
              if length (pn_legacy_dns_servers c) + sum_list (map (length \<circ> pd_addresses) servers) > MAX_DNS_ADDRESSES
                 \<or> sum_list (map (length \<circ> pd_resolve_domains) servers) + length (pn_search_domains c) > MAX_PUSH_DOMAINS
              then Err Parse_TooLarge
              else Ok (c\<lparr>pn_dns_servers := servers\<rparr>))"

section \<open>Lines of the management socket\<close>

datatype management_event =
    Ev_State openvpn_state
  | Ev_FailureDetail openvpn_failure
  | Ev_ByteCount nat nat
  | Ev_PasswordPrompt password_prompt
  | Ev_AuthenticationFailed
  | Ev_PushReply pushed_network_config

definition strip_suffix_char :: "char \<Rightarrow> string \<Rightarrow> string option" where
  "strip_suffix_char c s = (if s \<noteq> [] \<and> last s = c then Some (butlast s) else None)"

definition without_cr :: "string \<Rightarrow> string" where
  "without_cr line = (case strip_suffix_char CHR 0x0D line of Some l \<Rightarrow> l | None \<Rightarrow> line)"

definition u64_max :: nat where "u64_max = 2 ^ 64 - 1"

definition parse_timestamp :: "string \<Rightarrow> bool" where
  "parse_timestamp s \<longleftrightarrow> s \<noteq> [] \<and> list_all is_ascii_digit s \<and> parse_uint u64_max s \<noteq> None"

definition state_name :: "string \<Rightarrow> bool" where
  "state_name t \<longleftrightarrow> t \<noteq> [] \<and> list_all (\<lambda>b. is_ascii_upper b \<or> is_ascii_digit b \<or> b = CHR ''_'') t"

definition STATE_NAMES :: "(string \<times> openvpn_state) list" where
  "STATE_NAMES = [(''CONNECTING'', St_Connecting), (''RESOLVE'', St_Resolve), (''TCP_CONNECT'', St_TcpConnect), (''WAIT'', St_Wait),
     (''AUTH'', St_Auth), (''AUTH_PENDING'', St_AuthPending), (''GET_CONFIG'', St_GetConfig), (''ASSIGN_IP'', St_AssignIp),
     (''ADD_ROUTES'', St_AddRoutes), (''CONNECTED'', St_Connected), (''RECONNECTING'', St_Reconnecting), (''EXITING'', St_Exiting)]"

definition log_flags :: "string \<Rightarrow> bool" where
  "log_flags f \<longleftrightarrow> list_all (\<lambda>b. b \<in> set ''IFNWD'') f"

definition numeric_line :: "string \<Rightarrow> bool" where
  "numeric_line line \<longleftrightarrow> line \<noteq> [] \<and> is_ascii_digit (hd line)"

definition numeric_log :: "string \<Rightarrow> bool" where
  "numeric_log line \<longleftrightarrow> numeric_line line \<and>
     (case split_once CHR '','' line of None \<Rightarrow> False | Some (_, rest) \<Rightarrow> log_flags (hd (split_on CHR '','' rest)))"

definition or_else :: "'a option \<Rightarrow> 'a option \<Rightarrow> 'a option" where
  "or_else a b = (case a of None \<Rightarrow> b | Some x \<Rightarrow> Some x)"

definition state_event :: "string \<Rightarrow> management_event option mgmt" where
  "state_event data =
     (case split_on CHR '','' data of
        [] \<Rightarrow> Err Parse_Malformed
      | t # rest \<Rightarrow>
          if \<not> parse_timestamp t then Err Parse_Malformed
          else case rest of
            [] \<Rightarrow> Err Parse_Malformed
          | name # _ \<Rightarrow>
              (case map_of STATE_NAMES name of
                 Some s \<Rightarrow> Ok (Some (Ev_State s))
               | None \<Rightarrow> if state_name name then Ok None else Err Parse_Malformed))"

definition password_event :: "string \<Rightarrow> management_event option mgmt" where
  "password_event data =
     (if starts_with data ''Verification Failed:'' then Ok (Some Ev_AuthenticationFailed)
      else if starts_with data ''Auth-Token:'' then Ok None
      else if data = ''Need '' @ [CHR 0x27] @ ''Auth'' @ [CHR 0x27] @ '' username/password'' then Ok (Some (Ev_PasswordPrompt Prompt_Auth))
      else if data = ''Need '' @ [CHR 0x27] @ ''Private Key'' @ [CHR 0x27] @ '' password'' then Ok (Some (Ev_PasswordPrompt Prompt_PrivateKey))
      else Err Parse_Unsupported)"

definition log_event :: "push_libs \<Rightarrow> string \<Rightarrow> management_event option mgmt" where
  "log_event L data =
     (case split_once CHR '','' data of
        None \<Rightarrow> Err Parse_Malformed
      | Some (t, rest) \<Rightarrow>
          if \<not> parse_timestamp t then Err Parse_Malformed
          else case split_once CHR '','' rest of
            None \<Rightarrow> Err Parse_Malformed
          | Some (flags, message) \<Rightarrow>
              if \<not> log_flags flags then Err Parse_Malformed
              else (case strip_prefix (''PUSH: Received control message: '' @ [CHR 0x27]) message of
                 None \<Rightarrow> Ok None
               | Some rest \<Rightarrow>
                   (case strip_suffix_char CHR 0x27 rest of
                      None \<Rightarrow> Err Parse_Malformed
                    | Some payload \<Rightarrow>
                        if starts_with payload ''PUSH_REPLY''
                        then map_result (Some \<circ> Ev_PushReply) (parse_push_reply L payload) else Ok None)))"

definition bytecount_event :: "string \<Rightarrow> management_event option mgmt" where
  "bytecount_event data =
     (case split_once CHR '','' data of
        None \<Rightarrow> Err Parse_Malformed
      | Some (a, b) \<Rightarrow>
          (case (parse_uint u64_max a, parse_uint u64_max b) of
             (Some received, Some sent) \<Rightarrow> Ok (Some (Ev_ByteCount received sent))
           | _ \<Rightarrow> Err Parse_Malformed))"

definition parse_management_line :: "push_libs \<Rightarrow> string \<Rightarrow> management_event option mgmt" where
  "parse_management_line L raw =
     (if length raw > MAX_MANAGEMENT_LINE_BYTES then Err Parse_TooLarge
      else (let line = without_cr raw in
        if list_ex is_line_char line then Err Parse_Malformed
        else case or_else (strip_prefix ''>STATE:'' line) (or_else (strip_prefix ''STATE:'' line)
               (if numeric_line line \<and> \<not> numeric_log line then Some line else None)) of
          Some data \<Rightarrow> state_event data
        | None \<Rightarrow>
            (case strip_prefix ''>BYTECOUNT:'' line of
               Some data \<Rightarrow> bytecount_event data
             | None \<Rightarrow>
                 (case strip_prefix ''>PASSWORD:'' line of
                    Some data \<Rightarrow> password_event data
                  | None \<Rightarrow>
                      (case or_else (strip_prefix ''>LOG:'' line) (if numeric_log line then Some line else None) of
                         Some data \<Rightarrow> log_event L data
                       | None \<Rightarrow> Ok None)))))"

definition FAILURE_DETAILS :: "(string \<times> openvpn_failure) list" where
  "FAILURE_DETAILS = [(''auth-failure'', AuthenticationFailure), (''resolve-error'', ResolveError), (''connect-error'', ConnectError),
     (''proxy-reconnect'', ConnectError), (''tls-error'', TlsError), (''tls-failed'', TlsError), (''connection-reset'', ConnectionLost),
     (''ping-restart'', ConnectionLost), (''ping-exit'', ConnectionLost), (''inactive-exit'', ConnectionLost), (''reconnect'', ConnectionLost),
     (''suspend'', ConnectionLost), (''network-change'', ConnectionLost), (''primary-changing'', ConnectionLost),
     (''exit-with-error'', ExitWithError), (''exit-with-notification'', ExitNotification), (''sigint'', Terminated), (''sigterm'', Terminated),
     (''sighup'', Terminated), (''sigusr1'', Terminated)]"

definition state_failure_detail :: "string \<Rightarrow> openvpn_failure option" where
  "state_failure_detail raw =
     (let line = without_cr raw in
      case or_else (strip_prefix ''>STATE:'' line) (or_else (strip_prefix ''STATE:'' line)
             (if numeric_line line then Some line else None)) of
        None \<Rightarrow> None
      | Some data \<Rightarrow>
          (case split_on CHR '','' data of _ # _ # detail # _ \<Rightarrow> map_of FAILURE_DETAILS detail | _ \<Rightarrow> None))"

section \<open>The snapshot of a connection\<close>

record management_snapshot =
  sn_state :: "openvpn_state option"
  sn_last_failure :: "openvpn_failure option"
  sn_received :: nat
  sn_sent :: nat
  sn_active_push :: "pushed_network_config option"
  sn_pending_push :: "pushed_network_config option"

definition default_snapshot :: management_snapshot where
  "default_snapshot = \<lparr> sn_state = None, sn_last_failure = None, sn_received = 0, sn_sent = 0, sn_active_push = None,
     sn_pending_push = None \<rparr>"

fun apply_event :: "management_event \<Rightarrow> management_snapshot \<Rightarrow> management_snapshot" where
  "apply_event (Ev_State st) s =
     (if st = St_Connected then s\<lparr>sn_state := Some st, sn_active_push := sn_pending_push s, sn_pending_push := None\<rparr>
      else if st = St_Reconnecting \<or> st = St_Exiting then s\<lparr>sn_state := Some st, sn_active_push := None, sn_pending_push := None\<rparr>
      else s\<lparr>sn_state := Some st\<rparr>)"
| "apply_event (Ev_ByteCount received sent) s = s\<lparr>sn_received := received, sn_sent := sent\<rparr>"
| "apply_event (Ev_PushReply push) s =
     s\<lparr>sn_pending_push := Some (case sn_pending_push s of
         Some pending \<Rightarrow> if pn_more_follows pending then merge_push pending push else push
       | None \<Rightarrow> push)\<rparr>"
| "apply_event (Ev_FailureDetail failure) s =
     (if sn_last_failure s = None \<or> \<not> (failure = ExitWithError \<or> failure = ExitNotification)
      then s\<lparr>sn_last_failure := Some failure\<rparr> else s)"
| "apply_event Ev_AuthenticationFailed s =
     s\<lparr>sn_state := Some St_Exiting, sn_active_push := None, sn_pending_push := None,
        sn_last_failure := Some AuthenticationFailure\<rparr>"
| "apply_event (Ev_PasswordPrompt _) s = s"

section \<open>Replies cannot be split or injected\<close>

text \<open>Quoting is prefix-free: a quoted value ends where it ends, whatever the value and whatever follows.\<close>

lemma escaped_inj:
  fixes v v' x y :: string
  defines "esc \<equiv> \<lambda>v :: string. concat (map (\<lambda>c. if c = CHR 0x22 \<or> c = CHR 0x5C then [CHR 0x5C, c] else [c]) v)"
  assumes "esc v @ CHR 0x22 # x = esc v' @ CHR 0x22 # y"
  shows "v = v' \<and> x = y"
  using assms(2)
proof (induction v arbitrary: v')
  case Nil
  then show ?case by (cases v') (auto simp: esc_def split: if_splits)
next
  case (Cons c v)
  then show ?case by (cases v') (auto simp: esc_def split: if_splits)
qed

lemma quote_inj: "quote_management_value v @ x = quote_management_value v' @ y \<longleftrightarrow> v = v' \<and> x = y"
  using escaped_inj [of v x v' y] by (auto simp: quote_management_value_def)

lemma set_quote: "set (quote_management_value v) \<subseteq> set v \<union> {CHR 0x22, CHR 0x5C}"
  by (auto simp: quote_management_value_def split: if_splits)

text \<open>A Rust string is well-formed UTF-8; what matters here is that continuation bytes are not ASCII.\<close>

definition utf8_continued :: "string \<Rightarrow> bool" where
  "utf8_continued s \<longleftrightarrow> list_all (\<lambda>g. list_all (\<lambda>b. 128 \<le> cval b) (tl g)) (utf8_split s)"

lemma drop_Suc_not_Nil: "drop (Suc n) t \<noteq> [] \<longleftrightarrow> (\<exists>x u. t = x # u \<and> drop n u \<noteq> [])"
  by (cases t) auto

lemma utf8_chars_drop:
  assumes "drop (utf8_width a - 1) t \<noteq> []"
  shows "set (utf8_chars (drop (utf8_width a - 1) t)) \<subseteq> set (utf8_chars (a # t))"
proof -
  consider "cval a < 128" | "\<not> cval a < 128" "cval a < 224" | "\<not> cval a < 224" "cval a < 240" | "\<not> cval a < 240" by blast
  then show ?thesis
  proof cases
    case 1
    then show ?thesis by (auto simp: utf8_width_def)
  next
    case 2
    then obtain x u where "t = x # u" using assms by (cases t) (auto simp: utf8_width_def)
    then show ?thesis using 2 by (auto simp: utf8_width_def)
  next
    case 3
    then have "drop (Suc (Suc 0)) t \<noteq> []" using assms by (simp add: utf8_width_def numeral_2_eq_2)
    then obtain x y u where "t = x # y # u" unfolding drop_Suc_not_Nil by blast
    then show ?thesis using 3 by (auto simp: utf8_width_def)
  next
    case 4
    then have "drop (Suc (Suc (Suc 0))) t \<noteq> []" using assms by (simp add: utf8_width_def numeral_3_eq_3)
    then obtain x y z u where "t = x # y # z # u" unfolding drop_Suc_not_Nil by blast
    then show ?thesis using 4 by (auto simp: utf8_width_def)
  qed
qed

lemma ascii_byte_is_char:
  "utf8_continued s \<Longrightarrow> b \<in> set s \<Longrightarrow> cval b < 128 \<Longrightarrow> cval b \<in> set (utf8_chars s)"
proof (induction s rule: length_induct)
  case (1 s)
  show ?case
  proof (cases s)
    case Nil
    then show ?thesis using 1(3) by simp
  next
    case (Cons a t)
    let ?k = "utf8_width a - 1"
    have cont: "list_all (\<lambda>b. 128 \<le> cval b) (take ?k t)" "utf8_continued (drop ?k t)"
      using 1(2) Cons by (simp_all add: utf8_continued_def)
    have "set t = set (take ?k t) \<union> set (drop ?k t)" by (metis append_take_drop_id set_append)
    moreover have "b \<notin> set (take ?k t)" using cont(1) 1(4) by (auto simp: list_all_iff)
    ultimately have chars: "a \<noteq> b \<Longrightarrow> b \<in> set (drop ?k t)" using 1(3) Cons by auto
    show ?thesis
    proof (cases "a = b")
      case True
      then show ?thesis using Cons 1(4) by simp
    next
      case False
      have "length (drop ?k t) < length s" using Cons by simp
      then have IH: "cval b \<in> set (utf8_chars (drop ?k t))" using 1(1) cont(2) chars [OF False] 1(4) by blast
      then have "drop ?k t \<noteq> []" by auto
      then show ?thesis using Cons utf8_chars_drop [of a t] IH by auto
    qed
  qed
qed

lemma safe_no_newline:
  assumes "safe_credential v m e" "utf8_continued v"
  shows "CHR 0x0A \<notin> set v"
proof
  assume "CHR 0x0A \<in> set v"
  then have "cval CHR 0x0A \<in> set (utf8_chars v)" by (intro ascii_byte_is_char assms(2)) (simp_all add: cval_def)
  then have "10 \<in> set (utf8_chars v)" by (simp add: cval_def)
  then have "has_control v" unfolding has_control_def list_ex_iff by (rule bexI [rotated]) (simp add: is_control_cp_def)
  then show False using assms(1) by (simp add: safe_credential_def)
qed

lemma split_on_append: "c \<notin> set a \<Longrightarrow> split_on c (a @ c # b) = a # split_on c b"
  by (induction a) auto

lemma quote_no_newline: "CHR 0x0A \<notin> set v \<Longrightarrow> CHR 0x0A \<notin> set (quote_management_value v)"
  using set_quote [of v] by auto

definition credential_texts :: "openvpn_credentials \<Rightarrow> string list" where
  "credential_texts c = (case oc_auth_user_pass c of None \<Rightarrow> [] | Some (u, p) \<Rightarrow> [u, p])
     @ (case oc_private_key_passphrase c of None \<Rightarrow> [] | Some k \<Rightarrow> [k])"

lemma validate_credentials_no_newline:
  assumes "validate_openvpn_credentials c = Ok ()" "list_all utf8_continued (credential_texts c)"
  shows "\<forall>v \<in> set (credential_texts c). CHR 0x0A \<notin> set v"
  using assms safe_no_newline
  by (auto simp: validate_openvpn_credentials_def credential_texts_def split: if_splits option.splits)

text \<open>What a reply to a prompt answers.\<close>

definition answers :: "password_prompt \<Rightarrow> openvpn_credentials \<Rightarrow> string list" where
  "answers prompt c = (case prompt of
     Prompt_Auth \<Rightarrow> (case oc_auth_user_pass c of None \<Rightarrow> [] | Some (u, p) \<Rightarrow> [u, p])
   | Prompt_PrivateKey \<Rightarrow> (case oc_private_key_passphrase c of None \<Rightarrow> [] | Some k \<Rightarrow> [k]))"

definition answer_line :: "string \<Rightarrow> string \<Rightarrow> string \<Rightarrow> string" where
  "answer_line keyword name v = keyword @ '' '' @ quote_management_value name @ '' '' @ quote_management_value v @ [CHR 0x0A]"

lemma management_reply_Ok:
  assumes "management_password_reply prompt (Some c) = Ok reply"
  shows "validate_openvpn_credentials c = Ok () \<and>
    (case prompt of
       Prompt_Auth \<Rightarrow> \<exists>u p. oc_auth_user_pass c = Some (u, p) \<and> reply = answer_line ''username'' ''Auth'' u @ answer_line ''password'' ''Auth'' p
     | Prompt_PrivateKey \<Rightarrow> \<exists>k. oc_private_key_passphrase c = Some k \<and> reply = answer_line ''password'' ''Private Key'' k)"
  using assms by (auto simp: management_password_reply_def answer_line_def split: result.splits option.splits password_prompt.splits)

lemma answer_line_count:
  assumes "CHR 0x0A \<notin> set v" "CHR 0x0A \<notin> set keyword" "CHR 0x0A \<notin> set name"
  shows "count_list (answer_line keyword name v) CHR 0x0A = 1"
  using assms quote_no_newline by (simp add: answer_line_def count_notin)


definition example_credentials :: openvpn_credentials where
  "example_credentials = \<lparr> oc_auth_user_pass = Some (''bob'', [CHR ''a'', CHR 0x22, CHR 0x5C, CHR ''b'']),
     oc_private_key_passphrase = None \<rparr>"


section \<open>Bounds of a pushed configuration\<close>

definition dns_server_ok :: "pushed_dns_server \<Rightarrow> bool" where
  "dns_server_ok s \<longleftrightarrow> pd_id s \<le> 127 \<and> list_all validate_domain (pd_resolve_domains s)"

definition push_ok :: "push_state \<Rightarrow> bool" where
  "push_ok st \<longleftrightarrow> length (pn_routes (fst st)) \<le> 64 \<and> distinct (pn_routes (fst st))
     \<and> list_all validate_domain (pn_search_domains (fst st))
     \<and> list_all dns_server_ok (snd st) \<and> sorted_wrt (<) (map pd_id (snd st))"

lemma push_capped_ok:
  "push_capped n xs x = Ok ys \<Longrightarrow> length xs \<le> n \<Longrightarrow> distinct xs \<Longrightarrow> length ys \<le> n \<and> distinct ys"
  by (auto simp: push_capped_def split: if_splits)

lemma add_routes_ok:
  "add_routes rs acc = Ok ys \<Longrightarrow> length acc \<le> 64 \<Longrightarrow> distinct acc \<Longrightarrow> length ys \<le> 64 \<and> distinct ys"
proof (induction rs arbitrary: acc)
  case (Cons r rs)
  then show ?case using push_capped_ok [of MAX_PUSH_ROUTES acc r] by (auto simp: MAX_PUSH_ROUTES_def split: result.splits)
qed simp

lemma add_domains_ok: "add_domains ds acc = Ok ys \<Longrightarrow> list_all validate_domain acc \<Longrightarrow> list_all validate_domain ys"
proof (induction ds arbitrary: acc)
  case (Cons d ds)
  then show ?case by (auto simp: push_capped_def split: result.splits if_splits)
qed simp

lemma with_routes_ok: "with_routes rs c = Ok c' \<Longrightarrow> push_ok (c, ss) \<Longrightarrow> push_ok (c', ss)"
  using add_routes_ok [of rs "pn_routes c"] by (cases "add_routes rs (pn_routes c)") (auto simp: with_routes_def push_ok_def)

lemma redirect_gateway_ok:
  assumes "redirect_gateway flags c = Ok c'" "push_ok (c, ss)"
  shows "push_ok (c', ss)"
proof -
  have def1: "push_ok (c\<lparr>pn_redirect_gateway_def1 := True\<rparr>, ss)" using assms(2) by (simp add: push_ok_def)
  show ?thesis using assms with_routes_ok def1
    unfolding redirect_gateway_def by (auto split: if_splits result.splits dest: with_routes_ok)
qed

lemma dhcp_option_ok: "dhcp_option ts c = Ok c' \<Longrightarrow> push_ok (c, ss) \<Longrightarrow> push_ok (c', ss)"
  by (auto simp: dhcp_option_def map_result_Ok_iff push_ok_def simp del: add_domains.simps add_addresses.simps
      dest: add_domains_ok split: list.splits if_splits)

lemma on_server_ok:
  assumes f: "\<And>s s'. f s = Ok s' \<Longrightarrow> dns_server_ok s \<Longrightarrow> dns_server_ok s' \<and> pd_id s' = pd_id s" and i: "i \<le> 127"
  shows "on_server i f ss = Ok ss' \<Longrightarrow> list_all dns_server_ok ss \<Longrightarrow> sorted_wrt (<) (map pd_id ss)
    \<Longrightarrow> list_all dns_server_ok ss' \<and> sorted_wrt (<) (map pd_id ss') \<and> set (map pd_id ss') = insert i (set (map pd_id ss))"
proof (induction ss arbitrary: ss')
  case Nil
  then show ?case using f i by (fastforce simp: map_result_Ok_iff dns_server_ok_def)
next
  case (Cons s ss)
  have new: "dns_server_ok \<lparr> pd_id = i, pd_addresses = [], pd_resolve_domains = [] \<rparr>" using i by (simp add: dns_server_ok_def)
  consider "pd_id s = i" | "i < pd_id s" | "pd_id s < i" by linarith
  then show ?case
  proof cases
    case 1
    then show ?thesis using Cons.prems f by (auto simp: map_result_Ok_iff dest: f)
  next
    case 2
    then obtain n where n: "f \<lparr> pd_id = i, pd_addresses = [], pd_resolve_domains = [] \<rparr> = Ok n" "ss' = n # s # ss"
      using Cons.prems(1) by (auto simp: map_result_Ok_iff)
    then show ?thesis using f [OF n(1) new] Cons.prems(2,3) 2 by auto
  next
    case 3
    then obtain t where t: "on_server i f ss = Ok t" "ss' = s # t" using Cons.prems(1) by (auto simp: map_result_Ok_iff)
    then show ?thesis using Cons.IH [OF t(1)] Cons.prems(2,3) 3 by auto
  qed
qed

lemma dns_server_option_ok:
  assumes "dns_server_option i f st = Ok st'" "push_ok st"
    and f: "\<And>s s'. f s = Ok s' \<Longrightarrow> dns_server_ok s \<Longrightarrow> dns_server_ok s' \<and> pd_id s' = pd_id s"
  shows "push_ok st'"
proof -
  obtain n ss where n: "n \<le> 127" "on_server n f (snd st) = Ok ss" and st': "st' = (fst st, ss)"
    using assms(1) by (auto simp: dns_server_option_def map_result_Ok_iff not_less split: option.splits if_splits)
  then show ?thesis using on_server_ok [OF f n(1) n(2)] assms(2) by (simp add: push_ok_def)
qed

lemma dns_option_ok:
  assumes ok: "dns_option ts st = Ok st'" and st: "push_ok st"
  shows "push_ok st'"
proof -
  have addresses: "push_ok st'" if "dns_server_option i (\<lambda>s. map_result (\<lambda>x. s\<lparr>pd_addresses := x\<rparr>) (add_addresses 8 args (pd_addresses s))) st = Ok st'" for i args
    by (rule dns_server_option_ok [OF that st]) (auto simp: map_result_Ok_iff dns_server_ok_def)
  have domains: "push_ok st'" if "dns_server_option i (\<lambda>s. map_result (\<lambda>x. s\<lparr>pd_resolve_domains := x\<rparr>) (add_domains args (pd_resolve_domains s))) st = Ok st'" for i args
    by (rule dns_server_option_ok [OF that st]) (auto simp: map_result_Ok_iff dns_server_ok_def dest: add_domains_ok)
  show ?thesis using ok st unfolding dns_option_def
    by (auto split: list.splits if_splits simp: map_result_Ok_iff simp del: add_domains.simps intro: addresses domains)
      (auto simp: push_ok_def simp del: add_domains.simps dest: add_domains_ok)
qed

lemma push_directive_ok:
  assumes "push_directive L ts st = Ok st'" "push_ok st"
  shows "push_ok st'"
proof -
  obtain c ss where st: "st = (c, ss)" by fastforce
  show ?thesis using assms unfolding push_directive_def st
    by (auto simp: map_result_Ok_iff split: list.splits if_splits option.splits result.splits
        intro: with_routes_ok redirect_gateway_ok dhcp_option_ok dns_option_ok)
      (simp add: push_ok_def)
qed

lemma push_directives_ok: "push_directives L i ds st = Ok st' \<Longrightarrow> push_ok st \<Longrightarrow> push_ok st'"
  by (induction L i ds st rule: push_directives.induct) (auto split: if_splits result.splits dest: push_directive_ok)

text \<open>C25: Whatever a server pushes, an accepted reply is small and well formed: at most 64 distinct routes, at most 16 DNS
  addresses and 16 domains in all, every domain a valid name, and DNS servers in strictly increasing order of
  identifiers below 128.\<close>

theorem push_reply_bounded:
  assumes "parse_push_reply L payload = Ok c"
  shows "length (pn_routes c) \<le> 64 \<and> distinct (pn_routes c)
    \<and> length (pn_legacy_dns_servers c @ concat (map pd_addresses (pn_dns_servers c))) \<le> 16
    \<and> length (pn_search_domains c @ concat (map pd_resolve_domains (pn_dns_servers c))) \<le> 16
    \<and> list_all validate_domain (pn_search_domains c @ concat (map pd_resolve_domains (pn_dns_servers c)))
    \<and> sorted_wrt (<) (map pd_id (pn_dns_servers c)) \<and> list_all (\<lambda>s. pd_id s < 128) (pn_dns_servers c)"
proof -
  obtain ds q ss where dirs: "push_directives L 0 ds (empty_push, []) = Ok (q, ss)"
    and caps: "length (pn_legacy_dns_servers q) + sum_list (map (length \<circ> pd_addresses) ss) \<le> 16"
      "sum_list (map (length \<circ> pd_resolve_domains) ss) + length (pn_search_domains q) \<le> 16"
    and c: "c = q\<lparr>pn_dns_servers := ss\<rparr>"
    using assms by (auto simp: parse_push_reply_def MAX_DNS_ADDRESSES_def MAX_PUSH_DOMAINS_def not_less
        split: if_splits list.splits result.splits prod.splits)
  have "push_ok (q, ss)" by (rule push_directives_ok [OF dirs]) (simp add: push_ok_def empty_push_def)
  then show ?thesis using caps c
    by (auto simp: push_ok_def length_concat o_def add.commute dns_server_ok_def list_all_iff)
qed
definition example_push_libs :: push_libs where
  "example_push_libs = \<lparr> pl_net = word_ipnet, pl_with_netmask = (\<lambda>a m. Some (IpNet a 8)) \<rparr>"

lemma example_push:
  "parse_push_reply example_push_libs ''PUSH_REPLY,dhcp-option DOMAIN corp.example,ping 10'' =
     Ok (empty_push\<lparr>pn_search_domains := [''corp.example'']\<rparr>)"
  by code_simp

theorem push_reply_bounded_witness:
  "\<exists>c. parse_push_reply example_push_libs ''PUSH_REPLY,dhcp-option DOMAIN corp.example,ping 10'' = Ok c
    \<and> length (pn_search_domains c @ concat (map pd_resolve_domains (pn_dns_servers c))) \<le> 16 \<and> pn_search_domains c = [''corp.example'']"
  using push_reply_bounded [OF example_push] example_push by simp

end
