(* ===== verification/Platform.thy ===== *)
theory Platform
  imports Route_Exec Validate Ovpn_Management
begin

text \<open>
  The state of the privileged daemon (\<open>DaemonCore\<close> in \<open>crates/daemon/src/core.rs\<close>) and what it
  drives: journal store, netlink executors, policy-rule, DNS, WireGuard, Xray, OpenVPN and QUIC
  executors.

  The executors are the parameter \<open>'k platform\<close>: functions on an unknown outside world \<open>'k\<close>.
  A mutating call returns its result and the new world; a query (\<open>net_tables\<close>, \<open>link_index\<close>,
  \<open>link_owned\<close>, \<open>rule_present\<close>, resolution of a host name) is an observation of the world and
  leaves it alone.  An executor the daemon may lack is an \<open>option\<close>.  The Linux build is modelled.
\<close>

section \<open>Executors\<close>

datatype external_link_kind = Link_WireGuard | Link_Tun | Link_Missing | Link_Other

datatype dns_error = Dns_Unavailable | Dns_Failed

datatype dns_apply = DnsApplied | DnsUnavailable | DnsSkipped

record 'k policy_executor =
  px_rules_snapshot :: "'k \<Rightarrow> owned_rule list io"
  px_table_in_use :: "nat \<Rightarrow> 'k \<Rightarrow> bool io"
  px_add_rule :: "owned_rule \<Rightarrow> 'k \<Rightarrow> unit io \<times> 'k"
  px_remove_rule :: "owned_rule \<Rightarrow> 'k \<Rightarrow> unit io \<times> 'k"
  px_rule_present :: "owned_rule \<Rightarrow> 'k \<Rightarrow> bool io"
  px_add_system_rule :: "system_rule \<Rightarrow> 'k \<Rightarrow> unit io \<times> 'k"
  px_remove_system_rule :: "system_rule \<Rightarrow> 'k \<Rightarrow> unit io \<times> 'k"

record 'k dns_executor =
  dx_apply :: "string \<Rightarrow> ip_addr list \<Rightarrow> string list \<Rightarrow> bool \<Rightarrow> 'k \<Rightarrow> (dns_apply, dns_error) result \<times> 'k"
  dx_revert :: "string \<Rightarrow> 'k \<Rightarrow> (unit, dns_error) result \<times> 'k"

record 'k wg_system =
  wx_create_link :: "string \<Rightarrow> string \<Rightarrow> 'k \<Rightarrow> nat io \<times> 'k"
  wx_link_owned :: "string \<Rightarrow> nat \<Rightarrow> string \<Rightarrow> 'k \<Rightarrow> bool io"
  wx_link_present :: "string \<Rightarrow> nat \<Rightarrow> 'k \<Rightarrow> bool io"
  wx_delete_link :: "string \<Rightarrow> nat \<Rightarrow> string \<Rightarrow> 'k \<Rightarrow> unit io \<times> 'k"
  wx_add_address :: "nat \<Rightarrow> ip_net \<Rightarrow> 'k \<Rightarrow> unit io \<times> 'k"
  wx_remove_address :: "nat \<Rightarrow> ip_net \<Rightarrow> 'k \<Rightarrow> unit io \<times> 'k"
  wx_set_mtu :: "nat \<Rightarrow> nat \<Rightarrow> 'k \<Rightarrow> unit io \<times> 'k"
  wx_set_state :: "nat \<Rightarrow> bool \<Rightarrow> 'k \<Rightarrow> unit io \<times> 'k"

record 'k wg_config_executor =
  wc_configure :: "string \<Rightarrow> string \<Rightarrow> 'k \<Rightarrow> unit io \<times> 'k"
  wc_set_fwmark :: "string \<Rightarrow> nat \<Rightarrow> 'k \<Rightarrow> unit io \<times> 'k"
  wc_marks_in_use :: "'k \<Rightarrow> nat list io"
  wc_endpoint_ips :: "string \<Rightarrow> 'k \<Rightarrow> ip_addr list io"
  wc_verify_transport :: "string \<Rightarrow> nat \<Rightarrow> bool \<Rightarrow> bool \<Rightarrow> 'k \<Rightarrow> unit io"
  wc_health :: "string \<Rightarrow> 'k \<Rightarrow> (nat option \<times> nat \<times> nat) io"

record 'k process_runner =
  pr_link_index :: "string \<Rightarrow> 'k \<Rightarrow> nat option io"
  pr_stop :: "string \<Rightarrow> 'k \<Rightarrow> unit io \<times> 'k"
  pr_cleanup :: "nat \<Rightarrow> string \<Rightarrow> 'k \<Rightarrow> unit io \<times> 'k"

record 'k xray_runner = "'k process_runner" +
  xr_verify_binary :: "'k \<Rightarrow> unit io"
  xr_start :: "nat \<Rightarrow> string \<Rightarrow> string \<Rightarrow> (string option \<times> string option) option \<Rightarrow> 'k \<Rightarrow> unit io \<times> 'k"
  xr_respawn :: "nat \<Rightarrow> string \<Rightarrow> 'k \<Rightarrow> unit io \<times> 'k"
  xr_reload :: "nat \<Rightarrow> string \<Rightarrow> string \<Rightarrow> (string option \<times> string option) option \<Rightarrow> 'k \<Rightarrow> unit io \<times> 'k"
  xr_health :: "string \<Rightarrow> 'k \<Rightarrow> bool io"
  xr_query_stats :: "string \<Rightarrow> nat \<Rightarrow> 'k \<Rightarrow> (nat \<times> nat) io"

text \<open>A sanitized OpenVPN configuration: its text, and the files staged beside it.\<close>

type_synonym sanitized_config = "string \<times> (string \<times> string) list"

record 'k openvpn_runner = "'k process_runner" +
  vr_verify_binary :: "'k \<Rightarrow> unit io"
  vr_staging_exists :: "nat \<Rightarrow> string \<Rightarrow> 'k \<Rightarrow> bool io"
  vr_start :: "nat \<Rightarrow> string \<Rightarrow> sanitized_config \<Rightarrow> openvpn_credentials option \<Rightarrow> nat \<Rightarrow> 'k \<Rightarrow> unit io \<times> 'k"
  vr_poll :: "string \<Rightarrow> 'k \<Rightarrow> management_event list io \<times> 'k"

record 'k quic_executor =
  qx_ensure :: "nat \<Rightarrow> string \<Rightarrow> 'k \<Rightarrow> unit io \<times> 'k"
  qx_remove :: "nat \<Rightarrow> string \<Rightarrow> 'k \<Rightarrow> unit io \<times> 'k"

record 'k link_executor =
  lx_set_link_state :: "string \<Rightarrow> bool \<Rightarrow> 'k \<Rightarrow> unit io \<times> 'k"
  lx_remove_link :: "string \<Rightarrow> 'k \<Rightarrow> unit io \<times> 'k"
  lx_link_kind :: "string \<Rightarrow> 'k \<Rightarrow> external_link_kind io"
  lx_link_index :: "string \<Rightarrow> 'k \<Rightarrow> nat option io"
  lx_stop_wg_quick_unit :: "string \<Rightarrow> 'k \<Rightarrow> bool \<times> 'k"

record 'k platform =
  pf_save :: "journal \<Rightarrow> 'k \<Rightarrow> unit io \<times> 'k"
  pf_load :: "'k \<Rightarrow> journal io"
  pf_routes :: "'k route_executor"
  pf_default_gateways :: "'k \<Rightarrow> (ip_addr \<times> nat) list io"
  pf_on_link_networks :: "'k \<Rightarrow> (nat \<times> ip_net) list io"
  pf_net_tables :: "'k \<Rightarrow> net_tables io"
  pf_add_system_route :: "system_route \<Rightarrow> 'k \<Rightarrow> unit io \<times> 'k"
  pf_remove_system_route :: "system_route \<Rightarrow> 'k \<Rightarrow> unit io \<times> 'k"
  pf_resolve :: "string \<Rightarrow> 'k \<Rightarrow> ip_addr list"
  pf_links :: "'k link_executor"
  pf_policy :: "'k policy_executor option"
  pf_dns :: "'k dns_executor option"
  pf_wg :: "'k wg_system option"
  pf_wg_config :: "'k wg_config_executor option"
  pf_xray :: "'k xray_runner option"
  pf_openvpn :: "'k openvpn_runner option"
  pf_quic :: "'k quic_executor option"

section \<open>Daemon state\<close>

record handshake_watch =
  hw_baseline_tx :: nat
  hw_sending_since :: "nat option"

record cond_rule_eval =
  ce_matched_interface :: "string option"
  ce_error :: bool

datatype tunnel_role = Role_Primary | Role_Secondary

record openvpn_runtime =
  ort_explicit_routes :: "policy_route list"
  ort_role :: tunnel_role
  ort_dns_domains :: "string list"
  ort_snapshot :: management_snapshot

text \<open>The supervisor maps (\<open>failovers\<close>, \<open>watchdogs\<close>, \<open>service_checks\<close>) appear by the keys they hold: the workers
  run beside the daemon, which inserts and removes them.\<close>

record 'k daemon =
  d_journal :: journal
  d_world :: 'k
  d_openvpn_runtime :: "owner_key \<rightharpoonup> openvpn_runtime"
  d_openvpn_failed :: "owner_key set"
  d_openvpn_auth_failed :: "owner_key set"
  d_openvpn_failures :: "owner_key \<rightharpoonup> openvpn_failure"
  d_tunnel_failed :: "owner_key set"
  d_xray_restarts :: "owner_key \<rightharpoonup> nat"
  d_failovers :: "owner_key set"
  d_watchdogs :: "owner_key set"
  d_service_checks :: "owner_key set"
  d_wireguard_handshake :: "owner_key \<rightharpoonup> handshake_watch"
  d_cond_eval :: "owner_key \<rightharpoonup> cond_rule_eval"

definition MANUAL_OWNER :: string where "MANUAL_OWNER = ''manual''"
definition INTENT_OWNER_PREFIX :: string where "INTENT_OWNER_PREFIX = ''intent:''"

text \<open>\<open>self.position(uid, owner)\<close>.\<close>

definition owner_position :: "nat \<Rightarrow> string \<Rightarrow> 'k daemon \<Rightarrow> nat option" where
  "owner_position uid owner d = position (\<lambda>e. je_uid e = uid \<and> je_owner e = owner) (d_journal d)"

text \<open>\<open>self.store.save(&self.journal)\<close>, and \<open>persist\<close>, which drops the result.\<close>

definition save_journal :: "'k platform \<Rightarrow> 'k daemon \<Rightarrow> unit io \<times> 'k daemon" where
  "save_journal P d =
     (let (res, w) = pf_save P (d_journal d) (d_world d) in (res, d\<lparr>d_world := w\<rparr>))"

definition persist :: "'k platform \<Rightarrow> 'k daemon \<Rightarrow> 'k daemon" where
  "persist P d = snd (save_journal P d)"

definition set_entry :: "nat \<Rightarrow> (journal_entry \<Rightarrow> journal_entry) \<Rightarrow> 'k daemon \<Rightarrow> 'k daemon" where
  "set_entry i f d = d\<lparr>d_journal := (d_journal d)[i := f (d_journal d ! i)]\<rparr>"

definition mark_state :: "owned_state \<Rightarrow> journal_entry \<Rightarrow> journal_entry" where
  "mark_state s e = e\<lparr>je_state := s\<rparr>"

definition keep_stale :: "owned_resource list \<Rightarrow> journal_entry \<Rightarrow> journal_entry" where
  "keep_stale rs e = e\<lparr>je_state := Stale, je_resources := rs\<rparr>"

definition drop_entry :: "nat \<Rightarrow> 'k daemon \<Rightarrow> 'k daemon" where
  "drop_entry i d = d\<lparr>d_journal := remove_nth i (d_journal d)\<rparr>"

section \<open>Frame facts\<close>

lemma save_journal_frame [simp]:
  "d_journal (snd (save_journal P d)) = d_journal d"
  "save_journal P d = (res, d') \<Longrightarrow> d_journal d' = d_journal d"
  "d_journal (persist P d) = d_journal d"
  by (auto simp: save_journal_def persist_def split: prod.splits)

lemma set_entry_journal [simp]:
  "d_journal (set_entry i f d) = (d_journal d)[i := f (d_journal d ! i)]"
  "d_world (set_entry i f d) = d_world d"
  by (simp_all add: set_entry_def)

lemma drop_entry_journal [simp]:
  "d_journal (drop_entry i d) = remove_nth i (d_journal d)"
  "d_world (drop_entry i d) = d_world d"
  by (simp_all add: drop_entry_def)

lemma daemon_update_order [simp]:
  "d\<lparr>d_world := w, d_journal := J\<rparr> = d\<lparr>d_journal := J, d_world := w\<rparr>"
  by (cases d) simp

lemma je_key_mark [simp]:
  "je_key (mark_state s e) = je_key e" "je_key (keep_stale rs e) = je_key e"
  by (simp_all add: mark_state_def keep_stale_def je_key_def)

lemma owner_position_SomeD:
  "owner_position uid owner d = Some i \<Longrightarrow>
     i < length (d_journal d) \<and> je_key (d_journal d ! i) = (uid, owner)"
  by (auto simp: owner_position_def je_key_def dest: position_SomeD)

lemma owner_position_None_iff:
  "owner_position uid owner d = None \<longleftrightarrow> (uid, owner) \<notin> je_key ` set (d_journal d)"
  by (auto simp: owner_position_def position_None_iff je_key_def)

text \<open>The key property of the journal: no owner has two entries.\<close>

definition keys_distinct :: "'k daemon \<Rightarrow> bool" where
  "keys_distinct d \<longleftrightarrow> distinct (map je_key (d_journal d))"

lemma keys_distinct_intros [intro]:
  "keys_distinct d \<Longrightarrow> keys_distinct (drop_entry i d)"
  "keys_distinct d \<Longrightarrow> keys_distinct (d\<lparr>d_world := w\<rparr>)"
  "keys_distinct d \<Longrightarrow> keys_distinct (persist P d)"
  by (simp_all add: keys_distinct_def map_remove_nth distinct_remove_nth)

lemma map_key_update [simp]:
  "i < length J \<Longrightarrow> je_key x = je_key (J ! i) \<Longrightarrow> map je_key (J[i := x]) = map je_key J"
  by (rule distinct_map_list_update) auto

section \<open>A simulated host\<close>

text \<open>A small executable host for the worked examples: lists of installed routes and rules, a disk
  that may refuse writes, routes whose installation or removal is refused.  Executors the examples
  do not use are absent.\<close>

record sim =
  sim_disk :: journal
  sim_disk_full :: bool
  sim_routes :: "applied_route list"
  sim_refused :: "applied_route list"
  sim_stuck :: "applied_route list"
  sim_system_routes :: "system_route list"
  sim_refuse_system :: bool
  sim_rules :: "system_rule list"
  sim_gateways :: "(ip_addr \<times> nat) list"
  sim_on_link :: "(nat \<times> ip_net) list"
  sim_links :: "(string \<times> nat) list"

definition quiet_sim :: sim where
  "quiet_sim = \<lparr> sim_disk = [], sim_disk_full = False, sim_routes = [], sim_refused = [],
     sim_stuck = [], sim_system_routes = [], sim_refuse_system = False, sim_rules = [],
     sim_gateways = [], sim_on_link = [], sim_links = [] \<rparr>"

definition sim_routes_executor :: "sim route_executor" where
  "sim_routes_executor =
     \<lparr> rx_add = (\<lambda>r w. if r \<in> set (sim_refused w) then (Err Other, w)
                   else if r \<in> set (sim_routes w) then (Err AlreadyExists, w)
                   else (Ok (), w\<lparr>sim_routes := sim_routes w @ [r]\<rparr>)),
       rx_remove = (\<lambda>r w. if r \<in> set (sim_stuck w) then (Err Other, w)
                   else if r \<notin> set (sim_routes w) then (Err NotFound, w)
                   else (Ok (), w\<lparr>sim_routes := removeAll r (sim_routes w)\<rparr>)) \<rparr>"

definition sim_policy :: "sim policy_executor" where
  "sim_policy =
     \<lparr> px_rules_snapshot = (\<lambda>_. Ok []), px_table_in_use = (\<lambda>_ _. Ok False), px_add_rule = (\<lambda>_ w. (Ok (), w)), px_remove_rule = (\<lambda>_ w. (Ok (), w)),
       px_rule_present = (\<lambda>_ _. Ok True),
       px_add_system_rule = (\<lambda>r w. if r \<in> set (sim_rules w) then (Err AlreadyExists, w)
                                else (Ok (), w\<lparr>sim_rules := sim_rules w @ [r]\<rparr>)),
       px_remove_system_rule = (\<lambda>r w. if r \<notin> set (sim_rules w) then (Err NotFound, w)
                                else (Ok (), w\<lparr>sim_rules := removeAll r (sim_rules w)\<rparr>)) \<rparr>"

definition sim_link_executor :: "sim link_executor" where
  "sim_link_executor =
     \<lparr> lx_set_link_state = (\<lambda>_ _ w. (Ok (), w)), lx_remove_link = (\<lambda>_ w. (Ok (), w)),
       lx_link_kind = (\<lambda>n w. Ok (if map_of (sim_links w) n = None then Link_Missing else Link_Other)),
       lx_link_index = (\<lambda>n w. Ok (map_of (sim_links w) n)),
       lx_stop_wg_quick_unit = (\<lambda>_ w. (False, w)) \<rparr>"

definition sim_platform :: "sim platform" where
  "sim_platform =
     \<lparr> pf_save = (\<lambda>J w. if sim_disk_full w then (Err Other, w) else (Ok (), w\<lparr>sim_disk := J\<rparr>)),
       pf_load = (\<lambda>w. Ok (sim_disk w)),
       pf_routes = sim_routes_executor,
       pf_default_gateways = (\<lambda>w. Ok (sim_gateways w)),
       pf_on_link_networks = (\<lambda>w. Ok (sim_on_link w)),
       pf_net_tables = (\<lambda>w. Ok \<lparr> nt_routes = sim_system_routes w, nt_rules = sim_rules w,
                                 nt_available = True \<rparr>),
       pf_add_system_route = (\<lambda>r w. if sim_refuse_system w then (Err Other, w)
                                else if r \<in> set (sim_system_routes w) then (Err AlreadyExists, w)
                                else (Ok (), w\<lparr>sim_system_routes := sim_system_routes w @ [r]\<rparr>)),
       pf_remove_system_route = (\<lambda>r w. if r \<notin> set (sim_system_routes w) then (Err NotFound, w)
                                else (Ok (), w\<lparr>sim_system_routes := removeAll r (sim_system_routes w)\<rparr>)),
       pf_resolve = (\<lambda>h _. case addr_parse h of Some a \<Rightarrow> [a] | None \<Rightarrow> []),
       pf_links = sim_link_executor,
       pf_policy = Some sim_policy, pf_dns = None, pf_wg = None, pf_wg_config = None, pf_xray = None,
       pf_openvpn = None, pf_quic = None \<rparr>"

end
