(* ===== verification/Teardown.thy ===== *)
theory Teardown
  imports Platform
begin

text \<open>
  Tearing owners down (\<open>crates/daemon/src/core.rs\<close>): the resource loop of the generic, Xray,
  OpenVPN and WireGuard owners, the dispatch on the owner prefix, and the sweeps built on it
  (\<open>teardown\<close>, \<open>remove_owner\<close>, \<open>cleanup_uid\<close>, \<open>cleanup_session_uid\<close>, \<open>shutdown\<close>, \<open>open\<close>).

  Every per-owner teardown keeps one contract, the locale \<open>entry_teardown\<close>: success removes
  exactly that journal entry, failure leaves an entry with the same key in its place, and no other
  entry changes.  The sweep is verified once, in the locale.
\<close>

section \<open>The resource loop\<close>

text \<open>What one turn of a teardown loop does with a resource: it is gone, it is kept as failed, or
  the \<open>?\<close> operator leaves the whole function.\<close>

datatype step_outcome = Removed | Kept | Abort error_kind

type_synonym 'k resource_step = "owned_resource list \<Rightarrow> owned_resource \<Rightarrow> 'k \<Rightarrow> step_outcome \<times> 'k"

fun walk :: "'k resource_step \<Rightarrow> owned_resource list \<Rightarrow> owned_resource list \<Rightarrow> 'k
               \<Rightarrow> owned_resource list io \<times> 'k" where
  "walk step [] failed w = (Ok failed, w)"
| "walk step (r # rs) failed w =
     (case step failed r w of
        (Removed, w') \<Rightarrow> walk step rs failed w'
      | (Kept, w') \<Rightarrow> walk step rs (failed @ [r]) w'
      | (Abort e, w') \<Rightarrow> (Err e, w'))"

definition outcome :: "bool \<Rightarrow> step_outcome" where
  "outcome gone = (if gone then Removed else Kept)"

text \<open>\<open>Ok(()) => true, Err(NotFound) => true, Err(_) => false\<close>.\<close>

definition removed :: "unit io \<Rightarrow> bool" where
  "removed r \<longleftrightarrow> (case r of Ok _ \<Rightarrow> True | Err e \<Rightarrow> e = NotFound)"

definition with_policy ::
    "'k platform \<Rightarrow> ('k policy_executor \<Rightarrow> 'k \<Rightarrow> unit io \<times> 'k) \<Rightarrow> 'k \<Rightarrow> unit io \<times> 'k" where
  "with_policy P f w = (case pf_policy P of Some px \<Rightarrow> f px w | None \<Rightarrow> (Err NotConnected, w))"

text \<open>\<open>executor.revert(name)\<close>, where an unavailable resolver counts as reverted.\<close>

definition revert_dns :: "'k platform \<Rightarrow> string \<Rightarrow> 'k \<Rightarrow> unit io \<times> 'k" where
  "revert_dns P name w =
     (case pf_dns P of
        None \<Rightarrow> (Err NotConnected, w)
      | Some dx \<Rightarrow>
          (case dx_revert dx name w of
             (Ok _, w') \<Rightarrow> (Ok (), w')
           | (Err Dns_Unavailable, w') \<Rightarrow> (Ok (), w')
           | (Err Dns_Failed, w') \<Rightarrow> (Err Other, w')))"

section \<open>Generic owners\<close>

definition undo_generic :: "'k platform \<Rightarrow> owned_resource \<Rightarrow> 'k \<Rightarrow> unit io \<times> 'k" where
  "undo_generic P r w =
     (case r of
        Route x \<Rightarrow> apfst (tolerate NotFound) (rx_remove (pf_routes P) x w)
      | NetRoute x \<Rightarrow> apfst (tolerate NotFound) (pf_remove_system_route P x w)
      | NetRule x \<Rightarrow>
          apfst (tolerate NotFound) (with_policy P (\<lambda>px. px_remove_system_rule px x) w)
      | SuppressedRoute x \<Rightarrow> apfst (tolerate AlreadyExists) (pf_add_system_route P x w)
      | SuppressedRule x \<Rightarrow>
          apfst (tolerate AlreadyExists) (with_policy P (\<lambda>px. px_add_system_rule px x) w)
      | _ \<Rightarrow> (Ok (), w))"

definition generic_step :: "'k platform \<Rightarrow> 'k resource_step" where
  "generic_step P failed r w = (let (res, w') = undo_generic P r w in (outcome (is_ok res), w'))"

definition finish_entry :: "nat \<Rightarrow> owned_resource list \<Rightarrow> 'k daemon \<Rightarrow> unit io \<times> 'k daemon" where
  "finish_entry i failed d =
     (if failed = [] then (Ok (), drop_entry i d)
      else (Err Other, set_entry i (keep_stale (rev failed)) d))"

definition teardown_generic_entry :: "'k platform \<Rightarrow> nat \<Rightarrow> 'k daemon \<Rightarrow> unit io \<times> 'k daemon" where
  "teardown_generic_entry P i d =
     (let (out, w) = walk (generic_step P) (rev (je_resources (d_journal d ! i))) [] (d_world d);
          d' = d\<lparr>d_world := w\<rparr>
      in case out of Err e \<Rightarrow> (Err e, d') | Ok failed \<Rightarrow> finish_entry i failed d')"

section \<open>Xray owners\<close>

fun find_xray :: "owned_resource list \<Rightarrow> xray_process option" where
  "find_xray [] = None"
| "find_xray (XrayProcess p # rs) = Some p"
| "find_xray (_ # rs) = find_xray rs"

definition stop_xray :: "'k xray_runner \<Rightarrow> nat \<Rightarrow> string \<Rightarrow> 'k \<Rightarrow> unit io \<times> 'k" where
  "stop_xray run uid name w =
     (case pr_stop run name w of
        (Ok _, w') \<Rightarrow> pr_cleanup run uid name w'
      | (Err e, w') \<Rightarrow> if e = NotFound then pr_cleanup run uid name w' else (Err e, w'))"

definition xray_step ::
    "'k platform \<Rightarrow> 'k xray_runner \<Rightarrow> nat \<Rightarrow> xray_process \<Rightarrow> bool \<Rightarrow> bool \<Rightarrow> 'k resource_step" where
  "xray_step P run uid proc link_up quic_failed failed r w =
     (case r of
        Dns x \<Rightarrow>
          if \<not> link_up then (Removed, w)
          else (let (res, w') = revert_dns P (wd_name x) w in (outcome (removed res), w'))
      | Rule x \<Rightarrow>
          (case pf_policy P of
             None \<Rightarrow> (Abort NotConnected, w)
           | Some px \<Rightarrow> (let (res, w') = px_remove_rule px x w in (outcome (removed res), w')))
      | Route x \<Rightarrow> (let (res, w') = rx_remove (pf_routes P) x w in (outcome (removed res), w'))
      | Address x \<Rightarrow>
          if \<not> link_up then (Removed, w)
          else (case pf_wg P of
                  None \<Rightarrow> (Abort NotConnected, w)
                | Some wg \<Rightarrow>
                    (let (res, w') = wx_remove_address wg (wa_interface_index x) (wa_address x) w
                     in (outcome (removed res), w')))
      | XrayProcess _ \<Rightarrow>
          (let (res, w') = stop_xray run uid (xp_name proc) w
           in (outcome (removed res \<and> failed = [] \<and> \<not> quic_failed), w'))
      | _ \<Rightarrow> (Kept, w))"

definition remove_quic :: "'k platform \<Rightarrow> nat \<Rightarrow> xray_process \<Rightarrow> 'k \<Rightarrow> bool \<times> 'k" where
  "remove_quic P uid proc w =
     (if \<not> xp_reject_quic proc then (False, w)
      else case pf_quic P of
             None \<Rightarrow> (True, w)
           | Some qx \<Rightarrow> (let (res, w') = qx_remove qx uid (xp_name proc) w in (\<not> is_ok res, w')))"

definition teardown_xray_entry :: "'k platform \<Rightarrow> nat \<Rightarrow> 'k daemon \<Rightarrow> unit io \<times> 'k daemon" where
  "teardown_xray_entry P i d0 =
     (let e = d_journal d0 ! i; key = je_key e;
          d = d0\<lparr>d_failovers := d_failovers d0 - {key}, d_watchdogs := d_watchdogs d0 - {key},
                 d_service_checks := d_service_checks d0 - {key}\<rparr>
      in case find_xray (je_resources e) of
           None \<Rightarrow> (Err InvalidData, d)
         | Some proc \<Rightarrow>
             (let (quic_failed, w) = remove_quic P (je_uid e) proc (d_world d);
                  d = d\<lparr>d_world := w\<rparr>
              in case pf_xray P of
                   None \<Rightarrow> (Err NotConnected, set_entry i (mark_state Stale) d)
                 | Some run \<Rightarrow>
                     (case pr_link_index run (xp_name proc) (d_world d) of
                        Err err \<Rightarrow> (Err err, d)
                      | Ok current \<Rightarrow>
                          if (case current of None \<Rightarrow> False
                              | Some c \<Rightarrow> xp_index proc = 0 \<or> c \<noteq> xp_index proc)
                          then (Err Other, set_entry i (mark_state Stale) d)
                          else
                            (let (out, w) =
                               walk (xray_step P run (je_uid e) proc (current \<noteq> None) quic_failed)
                                 (rev (je_resources e)) [] (d_world d);
                               d = d\<lparr>d_world := w\<rparr>
                             in case out of
                                  Err err \<Rightarrow> (Err err, d)
                                | Ok failed \<Rightarrow> finish_entry i failed d))))"

section \<open>OpenVPN owners\<close>

fun find_openvpn :: "owned_resource list \<Rightarrow> ovpn_process option" where
  "find_openvpn [] = None"
| "find_openvpn (OpenVpnProcess p # rs) = Some p"
| "find_openvpn (_ # rs) = find_openvpn rs"

text \<open>One turn of the loop of \<open>clear_openvpn_network\<close>; \<open>Abort\<close> is the \<open>?\<close> on a missing policy
  executor.\<close>

definition openvpn_step :: "'k platform \<Rightarrow> bool \<Rightarrow> owned_resource \<Rightarrow> 'k \<Rightarrow> step_outcome \<times> 'k" where
  "openvpn_step P link_present r w =
     (case r of
        Dns x \<Rightarrow>
          if \<not> wd_applied x then (Removed, w)
          else (case pf_dns P of
                  None \<Rightarrow> (outcome (\<not> link_present), w)
                | Some dx \<Rightarrow>
                    (case dx_revert dx (wd_name x) w of
                       (Ok _, w') \<Rightarrow> (Removed, w')
                     | (Err Dns_Unavailable, w') \<Rightarrow> (Removed, w')
                     | (Err Dns_Failed, w') \<Rightarrow> (outcome (\<not> link_present), w')))
      | Rule x \<Rightarrow>
          (case pf_policy P of
             None \<Rightarrow> (Abort Other, w)
           | Some px \<Rightarrow> (let (res, w') = px_remove_rule px x w in (outcome (removed res), w')))
      | Route x \<Rightarrow> (let (res, w') = rx_remove (pf_routes P) x w in (outcome (removed res), w'))
      | _ \<Rightarrow> (Removed, w))"

fun clear_loop :: "'k platform \<Rightarrow> bool \<Rightarrow> owned_resource list \<Rightarrow> 'k \<Rightarrow> step_outcome \<times> 'k" where
  "clear_loop P link_present [] w = (Removed, w)"
| "clear_loop P link_present (r # rs) w =
     (case openvpn_step P link_present r w of
        (Removed, w') \<Rightarrow> clear_loop P link_present rs w'
      | (Kept, w') \<Rightarrow> (Kept, w')
      | (Abort e, w') \<Rightarrow> (Abort e, w'))"

definition is_openvpn_process :: "owned_resource \<Rightarrow> bool" where
  "is_openvpn_process r \<longleftrightarrow> (case r of OpenVpnProcess _ \<Rightarrow> True | _ \<Rightarrow> False)"

fun clear_first_full :: "owned_resource list \<Rightarrow> owned_resource list" where
  "clear_first_full (OpenVpnProcess p # rs) = OpenVpnProcess (p\<lparr>op_full := None\<rparr>) # rs"
| "clear_first_full rs = rs"

definition openvpn_cleared :: "journal_entry \<Rightarrow> journal_entry" where
  "openvpn_cleared e =
     e\<lparr>je_resources := clear_first_full (filter is_openvpn_process (je_resources e))\<rparr>"

definition clear_openvpn_network :: "'k platform \<Rightarrow> nat \<Rightarrow> 'k daemon \<Rightarrow> unit io \<times> 'k daemon" where
  "clear_openvpn_network P i d =
     (let resources = je_resources (d_journal d ! i) in
      case find_openvpn resources of
        None \<Rightarrow> (Err InvalidData, d)
      | Some proc \<Rightarrow>
          (case pf_openvpn P of
             None \<Rightarrow> (Err NotConnected, d)
           | Some run \<Rightarrow>
               (case pr_link_index run (op_name proc) (d_world d) of
                  Err e \<Rightarrow> (Err e, d)
                | Ok link \<Rightarrow>
                    (let (out, w) = clear_loop P (link \<noteq> None) (rev resources) (d_world d);
                         d = d\<lparr>d_world := w\<rparr>
                     in case out of
                          Abort e \<Rightarrow> (Err e, d)
                        | Kept \<Rightarrow> (Err Other, persist P (set_entry i (mark_state Stale) d))
                        | Removed \<Rightarrow> save_journal P (set_entry i openvpn_cleared d)))))"

definition teardown_openvpn_entry :: "'k platform \<Rightarrow> nat \<Rightarrow> 'k daemon \<Rightarrow> unit io \<times> 'k daemon" where
  "teardown_openvpn_entry P i d =
     (let e = d_journal d ! i; stale = set_entry i (mark_state Stale) in
      case find_openvpn (je_resources e) of
        None \<Rightarrow> (Err InvalidData, d)
      | Some proc \<Rightarrow>
          (case pf_openvpn P of
             None \<Rightarrow> (Err NotConnected, stale d)
           | Some run \<Rightarrow>
               (let (stopped, w) = pr_stop run (op_name proc) (d_world d); d = d\<lparr>d_world := w\<rparr> in
                if \<not> removed stopped then (Err Other, stale d)
                else case pr_link_index run (op_name proc) (d_world d) of
                  Err err \<Rightarrow> (Err err, d)
                | Ok (Some _) \<Rightarrow> (Err AlreadyExists, stale d)
                | Ok None \<Rightarrow>
                    (let (cleared, d) = clear_openvpn_network P i d in
                     if \<not> is_ok cleared then (Err Other, stale d)
                     else
                       (let (cleaned, w) = pr_cleanup run (je_uid e) (op_name proc) (d_world d);
                            d = d\<lparr>d_world := w\<rparr>
                        in if \<not> removed cleaned then (Err Other, stale d)
                           else (Ok (), (drop_entry i d)\<lparr>d_openvpn_runtime :=
                                   (d_openvpn_runtime d)(je_key e := None)\<rparr>))))))"

section \<open>WireGuard owners\<close>

fun find_wg_link :: "owned_resource list \<Rightarrow> wg_link option" where
  "find_wg_link [] = None"
| "find_wg_link (WireGuardLink l # rs) = Some l"
| "find_wg_link (_ # rs) = find_wg_link rs"

definition wireguard_step :: "'k platform \<Rightarrow> 'k wg_system \<Rightarrow> bool \<Rightarrow> 'k resource_step" where
  "wireguard_step P wg owned failed r w =
     (case r of
        Route x \<Rightarrow>
          if owned then (let (res, w') = rx_remove (pf_routes P) x w in (outcome (removed res), w'))
          else (Removed, w)
      | Address x \<Rightarrow>
          if owned
          then (let (res, w') = wx_remove_address wg (wa_interface_index x) (wa_address x) w
                in (outcome (removed res), w'))
          else (Removed, w)
      | WireGuardLink l \<Rightarrow>
          if failed = []
          then (if owned
                then (let (res, w') = wx_delete_link wg (wl_name l) (wl_index l) (wl_owner_marker l) w
                      in (outcome (removed res), w'))
                else (Removed, w))
          else (Kept, w)
      | Rule x \<Rightarrow>
          (case pf_policy P of
             None \<Rightarrow> (Abort NotConnected, w)
           | Some px \<Rightarrow> (let (res, w') = px_remove_rule px x w in (outcome (removed res), w')))
      | Dns x \<Rightarrow>
          if owned then (let (res, w') = revert_dns P (wd_name x) w in (outcome (removed res), w'))
          else (Removed, w)
      | AttachSpec _ \<Rightarrow> (Removed, w)
      | _ \<Rightarrow> (Kept, w))"

definition teardown_wireguard_entry :: "'k platform \<Rightarrow> nat \<Rightarrow> 'k daemon \<Rightarrow> unit io \<times> 'k daemon" where
  "teardown_wireguard_entry P i d0 =
     (let e = d_journal d0 ! i;
          d = d0\<lparr>d_wireguard_handshake := (d_wireguard_handshake d0)(je_key e := None)\<rparr>;
          stale = set_entry i (mark_state Stale) d
      in case find_wg_link (je_resources e) of
           None \<Rightarrow> (Err InvalidData, d)
         | Some link \<Rightarrow>
             (case pf_wg P of
                None \<Rightarrow> (Err NotConnected, stale)
              | Some wg \<Rightarrow>
                  (let go = (\<lambda>owned.
                     (let (out, w) = walk (wireguard_step P wg owned) (rev (je_resources e)) [] (d_world d);
                          d = d\<lparr>d_world := w\<rparr>
                      in case out of Err err \<Rightarrow> (Err err, d) | Ok failed \<Rightarrow> finish_entry i failed d))
                   in case wx_link_owned wg (wl_name link) (wl_index link) (wl_owner_marker link) (d_world d) of
                        Err err \<Rightarrow> (Err err, stale)
                      | Ok True \<Rightarrow> go True
                      | Ok False \<Rightarrow>
                          (case wx_link_present wg (wl_name link) (wl_index link) (d_world d) of
                             Err err \<Rightarrow> (Err err, stale)
                           | Ok True \<Rightarrow> (Err Other, stale)
                           | Ok False \<Rightarrow> go False))))"

section \<open>Dispatch and sweeps\<close>

definition teardown_entry :: "'k platform \<Rightarrow> nat \<Rightarrow> 'k daemon \<Rightarrow> unit io \<times> 'k daemon" where
  "teardown_entry P i d =
     (let owner = je_owner (d_journal d ! i) in
      if starts_with owner ''xray:'' then teardown_xray_entry P i d
      else if starts_with owner ''ovpn:'' \<or> starts_with owner ''ovpn-probe:''
      then teardown_openvpn_entry P i d
      else if starts_with owner ''wg:'' then teardown_wireguard_entry P i d
      else teardown_generic_entry P i d)"

record cleanup_result =
  cr_removed_owners :: "string list"
  cr_failed :: "string list"

text \<open>\<open>for index in (0..len).rev()\<close>: \<open>n\<close> counts the indices still to visit.\<close>

fun teardown_loop ::
    "(nat \<Rightarrow> 'k daemon \<Rightarrow> unit io \<times> 'k daemon) \<Rightarrow> (journal_entry \<Rightarrow> bool) \<Rightarrow> nat
       \<Rightarrow> cleanup_result \<Rightarrow> 'k daemon \<Rightarrow> cleanup_result \<times> 'k daemon" where
  "teardown_loop td matches 0 acc d = (acc, d)"
| "teardown_loop td matches (Suc i) acc d =
     (let e = d_journal d ! i in
      if \<not> matches e then teardown_loop td matches i acc d
      else case td i d of
        (Ok _, d') \<Rightarrow>
          teardown_loop td matches i (acc\<lparr>cr_removed_owners := cr_removed_owners acc @ [je_owner e]\<rparr>) d'
      | (Err _, d') \<Rightarrow>
          teardown_loop td matches i (acc\<lparr>cr_failed := cr_failed acc @ [je_owner e]\<rparr>) d')"

definition teardown ::
    "'k platform \<Rightarrow> (journal_entry \<Rightarrow> bool) \<Rightarrow> 'k daemon \<Rightarrow> cleanup_result io \<times> 'k daemon" where
  "teardown P matches d =
     (let (result, d) = teardown_loop (teardown_entry P) matches (length (d_journal d))
                          \<lparr> cr_removed_owners = [], cr_failed = [] \<rparr> d;
          (saved, d) = save_journal P d
      in (map_result (\<lambda>_. result) saved, d))"

definition remove_owner_inner :: "'k platform \<Rightarrow> nat \<Rightarrow> string \<Rightarrow> 'k daemon \<Rightarrow> nat io \<times> 'k daemon" where
  "remove_owner_inner P uid owner d =
     (case owner_position uid owner d of
        None \<Rightarrow> (Err NotFound, d)
      | Some i \<Rightarrow>
          (let count = length (je_resources (d_journal d ! i)); (res, d) = teardown_entry P i d
           in (map_result (\<lambda>_. count) res, persist P d)))"

definition remove_owner :: "'k platform \<Rightarrow> nat \<Rightarrow> string \<Rightarrow> 'k daemon \<Rightarrow> nat io \<times> 'k daemon" where
  "remove_owner P uid owner d =
     (if \<not> validate_owner owner then (Err InvalidInput, d)
      else case owner_position uid owner d of
        None \<Rightarrow> (Err NotFound, d)
      | Some i \<Rightarrow>
          if starts_with owner ''wg:'' \<or> starts_with owner ''ovpn:'' then (Err InvalidInput, d)
          else if starts_with owner ''cond:'' then (Err InvalidInput, d)
          else
            (let count = length (je_resources (d_journal d ! i)); (res, d) = teardown_entry P i d
             in (map_result (\<lambda>_. count) res, persist P d)))"

definition cleanup_uid :: "'k platform \<Rightarrow> nat \<Rightarrow> 'k daemon \<Rightarrow> cleanup_result io \<times> 'k daemon" where
  "cleanup_uid P uid d =
     teardown P (\<lambda>e. je_uid e = uid) (d\<lparr>d_tunnel_failed := {k \<in> d_tunnel_failed d. fst k \<noteq> uid}\<rparr>)"

definition session_owned :: "nat \<Rightarrow> owner_key set \<Rightarrow> journal_entry \<Rightarrow> bool" where
  "session_owned uid keep e \<longleftrightarrow>
     je_uid e = uid \<and> (uid, je_owner e) \<notin> keep
     \<and> \<not> starts_with (je_owner e) ''cond:''
     \<and> \<not> starts_with (je_owner e) INTENT_OWNER_PREFIX
     \<and> je_owner e \<noteq> MANUAL_OWNER"

definition cleanup_session_uid ::
    "'k platform \<Rightarrow> nat \<Rightarrow> owner_key set \<Rightarrow> 'k daemon \<Rightarrow> cleanup_result io \<times> 'k daemon" where
  "cleanup_session_uid P uid keep d = teardown P (session_owned uid keep) d"

definition shutdown :: "'k platform \<Rightarrow> 'k daemon \<Rightarrow> cleanup_result io \<times> 'k daemon" where
  "shutdown P d = teardown P (\<lambda>_. True) d"

definition owned :: "nat \<Rightarrow> 'k daemon \<Rightarrow> (string \<times> owned_state \<times> owned_resource list) list" where
  "owned uid d =
     map (\<lambda>e. (je_owner e, je_state e, je_resources e)) (filter (\<lambda>e. je_uid e = uid) (d_journal d))"

text \<open>\<open>DaemonCore::open\<close>: load the journal, then tear down everything it lists.\<close>

definition fresh_daemon :: "journal \<Rightarrow> 'k \<Rightarrow> 'k daemon" where
  "fresh_daemon J w =
     \<lparr> d_journal = J, d_world = w, d_openvpn_runtime = Map.empty, d_openvpn_failed = {},
       d_openvpn_auth_failed = {}, d_openvpn_failures = Map.empty, d_tunnel_failed = {},
       d_xray_restarts = Map.empty, d_failovers = {},
       d_watchdogs = {}, d_service_checks = {}, d_wireguard_handshake = Map.empty,
       d_cond_eval = Map.empty \<rparr>"

definition open_daemon :: "'k platform \<Rightarrow> 'k \<Rightarrow> 'k daemon io" where
  "open_daemon P w =
     (case pf_load P w of
        Err e \<Rightarrow> Err e
      | Ok J \<Rightarrow>
          if J = [] then Ok (fresh_daemon J w)
          else (case teardown P (\<lambda>_. True) (fresh_daemon J w) of
                  (Err e, _) \<Rightarrow> Err e
                | (Ok _, d) \<Rightarrow> Ok d))"

definition journal_owns_iface :: "string \<Rightarrow> 'k daemon \<Rightarrow> bool" where
  "journal_owns_iface name d \<longleftrightarrow>
     (\<exists>e \<in> set (d_journal d). \<exists>r \<in> set (je_resources e).
        case r of WireGuardLink l \<Rightarrow> wl_name l = name
        | OpenVpnProcess p \<Rightarrow> op_name p = name
        | XrayProcess p \<Rightarrow> xp_name p = name
        | _ \<Rightarrow> False)"

definition set_link_state :: "'k platform \<Rightarrow> string \<Rightarrow> bool \<Rightarrow> 'k daemon \<Rightarrow> unit io \<times> 'k daemon" where
  "set_link_state P name up d =
     (if \<not> validate_iface_name name then (Err InvalidInput, d)
      else (let (res, w) = lx_set_link_state (pf_links P) name up (d_world d) in (res, d\<lparr>d_world := w\<rparr>)))"

definition stop_external_link :: "'k platform \<Rightarrow> string \<Rightarrow> 'k daemon \<Rightarrow> unit io \<times> 'k daemon" where
  "stop_external_link P name d =
     (if \<not> validate_iface_name name then (Err InvalidInput, d)
      else if journal_owns_iface name d then (Err InvalidInput, d)
      else case lx_link_kind (pf_links P) name (d_world d) of
        Err e \<Rightarrow> (Err e, d)
      | Ok Link_Missing \<Rightarrow> (Err NotFound, d)
      | Ok Link_Other \<Rightarrow> (Err InvalidInput, d)
      | Ok Link_Tun \<Rightarrow>
          (let (res, w) = lx_set_link_state (pf_links P) name False (d_world d) in (res, d\<lparr>d_world := w\<rparr>))
      | Ok Link_WireGuard \<Rightarrow>
          (let (stopped, w) = lx_stop_wg_quick_unit (pf_links P) name (d_world d) in
           if stopped then (Ok (), d\<lparr>d_world := w\<rparr>)
           else (let (res, w) = lx_remove_link (pf_links P) name w in (res, d\<lparr>d_world := w\<rparr>))))"

section \<open>The contract of a teardown\<close>

definition entry_contract :: "nat \<Rightarrow> 'k daemon \<Rightarrow> unit io \<times> 'k daemon \<Rightarrow> bool" where
  "entry_contract i d out \<longleftrightarrow>
     (case out of
        (Ok _, d') \<Rightarrow> d_journal d' = remove_nth i (d_journal d)
      | (Err _, d') \<Rightarrow>
          \<exists>x. d_journal d' = (d_journal d)[i := x] \<and> je_key x = je_key (d_journal d ! i))"

lemma entry_contract_ErrI [intro]:
  "d_journal d' = (d_journal d)[i := x] \<Longrightarrow> je_key x = je_key (d_journal d ! i)
     \<Longrightarrow> entry_contract i d (Err e, d')"
  by (auto simp: entry_contract_def)

lemma entry_contract_Err_same [intro]:
  "d_journal d' = d_journal d \<Longrightarrow> entry_contract i d (Err e, d')"
  by (rule entry_contract_ErrI [of _ _ _ "d_journal d ! i"]) simp_all

lemma entry_contract_mark [intro]:
  "d_journal d' = d_journal d \<Longrightarrow> entry_contract i d (Err e, set_entry i (mark_state s) d')"
  by (rule entry_contract_ErrI [of _ _ _ "mark_state s (d_journal d ! i)"]) simp_all

lemma entry_contract_drop [intro]:
  "d_journal d' = remove_nth i (d_journal d) \<Longrightarrow> entry_contract i d (Ok (), d')"
  by (simp add: entry_contract_def)

lemma entry_contract_finish [intro]:
  "d_journal d' = d_journal d \<Longrightarrow> entry_contract i d (finish_entry i failed d')"
  unfolding finish_entry_def by (auto intro!: entry_contract_ErrI)

text \<open>The fate of one entry under a sweep: an entry outside the sweep stays as it is; a swept one is
  gone or is replaced by an entry with its key.\<close>

definition torn :: "(journal_entry \<Rightarrow> bool) \<Rightarrow> journal_entry \<Rightarrow> journal_entry list \<Rightarrow> bool" where
  "torn matches e out \<longleftrightarrow>
     (if matches e then out = [] \<or> (\<exists>x. out = [x] \<and> je_key x = je_key e) else out = [e])"

lemma torn_intros [simp]:
  "\<not> m e \<Longrightarrow> torn m e [e]" "m e \<Longrightarrow> torn m e []" "m e \<Longrightarrow> je_key x = je_key e \<Longrightarrow> torn m e [x]"
  by (simp_all add: torn_def)

definition swept_owners ::
    "(journal_entry \<Rightarrow> bool) \<Rightarrow> bool \<Rightarrow> (journal_entry \<times> journal_entry list) list \<Rightarrow> string list" where
  "swept_owners matches gone fates =
     map (je_owner \<circ> fst) (filter (\<lambda>(e, out). matches e \<and> (out = []) = gone) fates)"

lemma swept_owners_simps [simp]:
  "swept_owners m g [] = []"
  "swept_owners m g (xs @ ys) = swept_owners m g xs @ swept_owners m g ys"
  "swept_owners m g [(e, out)] = (if m e \<and> (out = []) = g then [je_owner e] else [])"
  by (auto simp: swept_owners_def)

locale entry_teardown =
  fixes td :: "nat \<Rightarrow> 'k daemon \<Rightarrow> unit io \<times> 'k daemon"
  assumes contract: "i < length (d_journal d) \<Longrightarrow> entry_contract i d (td i d)"
begin

lemma td_ok:
  "i < length (d_journal d) \<Longrightarrow> td i d = (Ok u, d') \<Longrightarrow> d_journal d' = remove_nth i (d_journal d)"
  using contract [of i d] by (simp add: entry_contract_def)

lemma td_err:
  "i < length (d_journal d) \<Longrightarrow> td i d = (Err e, d') \<Longrightarrow>
     \<exists>x. d_journal d' = (d_journal d)[i := x] \<and> je_key x = je_key (d_journal d ! i)"
  using contract [of i d] by (simp add: entry_contract_def)

lemma keys_of:
  "i < length (d_journal d) \<Longrightarrow> td i d = (res, d') \<Longrightarrow>
     map je_key (d_journal d') =
       (if is_ok res then remove_nth i (map je_key (d_journal d)) else map je_key (d_journal d))"
  using td_ok [of i d] td_err [of i d] by (cases res) (auto simp: map_remove_nth)

lemma keeps_keys_distinct:
  "i < length (d_journal d) \<Longrightarrow> keys_distinct d \<Longrightarrow> keys_distinct (snd (td i d))"
  using keys_of [of i d] by (cases "td i d") (auto simp: keys_distinct_def distinct_remove_nth)

lemma others_untouched:
  assumes "i < length (d_journal d)" and "td i d = (res, d')"
  shows "filter (\<lambda>e. je_key e \<noteq> je_key (d_journal d ! i)) (d_journal d') =
         filter (\<lambda>e. je_key e \<noteq> je_key (d_journal d ! i)) (d_journal d)"
proof -
  let ?J = "d_journal d" and ?p = "\<lambda>e. je_key e \<noteq> je_key (d_journal d ! i)"
  have J: "filter ?p ?J = filter ?p (take i ?J) @ filter ?p (drop (Suc i) ?J)"
    using id_take_nth_drop [OF assms(1)] by (metis (mono_tags, lifting) filter.simps(2) filter_append)
  show ?thesis
  proof (cases res)
    case (Ok u)
    then show ?thesis using td_ok [OF assms(1)] assms(2) J by (simp add: remove_nth_def)
  next
    case (Err e)
    then obtain x where "d_journal d' = ?J[i := x]" "je_key x = je_key (?J ! i)"
      using td_err [OF assms(1)] assms(2) by blast
    then show ?thesis using J assms(1) by (simp add: upd_conv_take_nth_drop)
  qed
qed

lemma visit:
  assumes "i < length (d_journal d)"
    and "teardown_loop td m (Suc i) acc d = (acc', d')"
  obtains out acc1 d1 where
    "teardown_loop td m i acc1 d1 = (acc', d')" and "torn m (d_journal d ! i) out"
    and "d_journal d1 = take i (d_journal d) @ out @ drop (Suc i) (d_journal d)"
    and "cr_removed_owners acc1 =
           cr_removed_owners acc @ swept_owners m True [(d_journal d ! i, out)]"
    and "cr_failed acc1 = cr_failed acc @ swept_owners m False [(d_journal d ! i, out)]"
proof (cases "m (d_journal d ! i)")
  case False
  with assms show ?thesis by (intro that [of acc d "[d_journal d ! i]"]) (auto simp: id_take_nth_drop)
next
  case True
  obtain res d1 where td: "td i d = (res, d1)" by fastforce
  show ?thesis
  proof (cases res)
    case (Ok u)
    with td td_ok [OF assms(1)] have "d_journal d1 = remove_nth i (d_journal d)" by blast
    with True td Ok assms(2) show ?thesis
      by (intro that [of "acc\<lparr>cr_removed_owners := cr_removed_owners acc @ [je_owner (d_journal d ! i)]\<rparr>" d1 "[]"])
        (auto simp: remove_nth_def)
  next
    case (Err e)
    with td td_err [OF assms(1)] obtain x where
      "d_journal d1 = (d_journal d)[i := x]" "je_key x = je_key (d_journal d ! i)" by blast
    with True td Err assms show ?thesis
      by (intro that [of "acc\<lparr>cr_failed := cr_failed acc @ [je_owner (d_journal d ! i)]\<rparr>" d1 "[x]"])
        (auto simp: upd_conv_take_nth_drop)
  qed
qed

lemma sweep:
  "n \<le> length (d_journal d) \<Longrightarrow> teardown_loop td m n acc d = (acc', d') \<Longrightarrow>
     \<exists>outs. length outs = n \<and> d_journal d' = concat outs @ drop n (d_journal d)
       \<and> list_all2 (torn m) (take n (d_journal d)) outs
       \<and> cr_removed_owners acc' =
           cr_removed_owners acc @ rev (swept_owners m True (zip (take n (d_journal d)) outs))
       \<and> cr_failed acc' = cr_failed acc @ rev (swept_owners m False (zip (take n (d_journal d)) outs))"
proof (induction n arbitrary: d acc)
  case (Suc i)
  let ?J = "d_journal d"
  have i: "i < length ?J" using Suc.prems(1) by simp
  have snoc: "take (Suc i) ?J = take i ?J @ [?J ! i]" using i by (simp add: take_Suc_conv_app_nth)
  from visit [OF i Suc.prems(2)] obtain out acc1 d1 where
    run: "teardown_loop td m i acc1 d1 = (acc', d')" and t: "torn m (?J ! i) out"
    and J1: "d_journal d1 = take i ?J @ out @ drop (Suc i) ?J"
    and acc1: "cr_removed_owners acc1 = cr_removed_owners acc @ swept_owners m True [(?J ! i, out)]"
      "cr_failed acc1 = cr_failed acc @ swept_owners m False [(?J ! i, out)]" .
  have len: "i \<le> length (d_journal d1)" "min (length ?J) i = i" using i by (auto simp: J1)
  from Suc.IH [OF len(1) run] obtain outs where
    o: "length outs = i" "d_journal d' = concat outs @ out @ drop (Suc i) ?J"
    "list_all2 (torn m) (take i ?J) outs"
    "cr_removed_owners acc' = cr_removed_owners acc1 @ rev (swept_owners m True (zip (take i ?J) outs))"
    "cr_failed acc' = cr_failed acc1 @ rev (swept_owners m False (zip (take i ?J) outs))"
    using len(2) by (auto simp: J1)
  then show ?case using t acc1 i
    by (intro exI [of _ "outs @ [out]"]) (auto simp: snoc list_all2_append)
qed simp

end

section \<open>Every owner kind keeps the contract\<close>

lemma teardown_generic_contract: "entry_contract i d (teardown_generic_entry P i d)"
  unfolding teardown_generic_entry_def Let_def
  by (auto split: prod.splits result.splits)

lemma teardown_xray_contract: "entry_contract i d (teardown_xray_entry P i d)"
  unfolding teardown_xray_entry_def Let_def
  by (auto split: prod.splits result.splits option.splits)

lemma clear_openvpn_keys:
  assumes "clear_openvpn_network P i d = (res, d')"
  shows "\<exists>x. d_journal d' = (d_journal d)[i := x] \<and> je_key x = je_key (d_journal d ! i)"
proof -
  have same: "\<exists>x. d_journal d = (d_journal d)[i := x] \<and> je_key x = je_key (d_journal d ! i)"
    by (rule exI [of _ "d_journal d ! i"]) simp
  show ?thesis using assms same unfolding clear_openvpn_network_def Let_def
    by (auto simp: openvpn_cleared_def split: option.splits result.splits prod.splits step_outcome.splits)
qed

lemma teardown_openvpn_contract:
  assumes "i < length (d_journal d)"
  shows "entry_contract i d (teardown_openvpn_entry P i d)"
proof -
  have after: "entry_contract i d (Err e, set_entry i (mark_state Stale) d2)"
    "entry_contract i d (Ok (), (drop_entry i d2)\<lparr>d_openvpn_runtime := X\<rparr>)"
    if c: "clear_openvpn_network P i d1 = (res, d1')" and j1: "d_journal d1 = d_journal d"
      and j2: "d_journal d2 = d_journal d1'" for e res d1 d1' d2 X
  proof -
    obtain x where x: "d_journal d1' = (d_journal d)[i := x]" "je_key x = je_key (d_journal d ! i)"
      using clear_openvpn_keys [OF c] j1 by auto
    show "entry_contract i d (Err e, set_entry i (mark_state Stale) d2)"
      using x j2 assms by (intro entry_contract_ErrI [of _ _ _ "mark_state Stale x"]) simp_all
    show "entry_contract i d (Ok (), (drop_entry i d2)\<lparr>d_openvpn_runtime := X\<rparr>)"
      using x j2 assms
      by (intro entry_contract_drop) (simp add: remove_nth_def)
  qed
  show ?thesis unfolding teardown_openvpn_entry_def Let_def
    by (auto split: prod.splits result.splits option.splits intro: after)
qed

lemma teardown_wireguard_contract: "entry_contract i d (teardown_wireguard_entry P i d)"
  unfolding teardown_wireguard_entry_def Let_def
  by (auto split: prod.splits result.splits option.splits bool.splits)

interpretation generic: entry_teardown "teardown_generic_entry P" for P
  by unfold_locales (rule teardown_generic_contract)

interpretation xray: entry_teardown "teardown_xray_entry P" for P
  by unfold_locales (rule teardown_xray_contract)

interpretation openvpn: entry_teardown "teardown_openvpn_entry P" for P
  by unfold_locales (rule teardown_openvpn_contract)

interpretation wireguard: entry_teardown "teardown_wireguard_entry P" for P
  by unfold_locales (rule teardown_wireguard_contract)

interpretation any: entry_teardown "teardown_entry P" for P
  by unfold_locales
    (auto simp: teardown_entry_def Let_def
      intro: generic.contract xray.contract openvpn.contract wireguard.contract)

lemma teardown_journal:
  assumes "teardown P m d = (res, d')"
  shows "\<exists>outs. d_journal d' = concat outs \<and> list_all2 (torn m) (d_journal d) outs
     \<and> (\<forall>r. res = Ok r \<longrightarrow>
          cr_removed_owners r = rev (swept_owners m True (zip (d_journal d) outs))
          \<and> cr_failed r = rev (swept_owners m False (zip (d_journal d) outs)))"
proof -
  obtain acc d1 where run: "teardown_loop (teardown_entry P) m (length (d_journal d))
      \<lparr> cr_removed_owners = [], cr_failed = [] \<rparr> d = (acc, d1)" by fastforce
  obtain saved d2 where sv: "save_journal P d1 = (saved, d2)" by fastforce
  have d': "d' = d2" and res: "res = map_result (\<lambda>_. acc) saved"
    using assms run sv by (simp_all add: teardown_def)
  have "d_journal d' = d_journal d1" using sv d' by simp
  moreover have "res = Ok r \<Longrightarrow> r = acc" for r using res by (cases saved) auto
  ultimately show ?thesis using any.sweep [OF le_refl run] by auto
qed

lemma teardown_keys_distinct:
  assumes "keys_distinct d"
  shows "keys_distinct (snd (teardown P m d))"
proof -
  obtain res d' where t: "teardown P m d = (res, d')" by fastforce
  obtain outs where J: "d_journal d' = concat outs" and l: "list_all2 (torn m) (d_journal d) outs"
    using teardown_journal [OF t] by blast
  have "subseq (map je_key (concat outs)) (map je_key (d_journal d))" using l
    by (induction rule: list_all2_induct) (auto simp: torn_def split: if_splits)
  then show ?thesis using assms t J
    by (auto simp: keys_distinct_def intro: subseq_distinct)
qed

lemma torn_filter:
  assumes "list_all2 (torn m) J outs" and m: "\<And>e. m e = M (je_key e)"
  shows "filter (\<lambda>e. \<not> m e) (concat outs) = filter (\<lambda>e. \<not> m e) J"
  using assms(1)
proof (induction rule: list_all2_induct)
  case (Cons e es out outs)
  then show ?case by (auto simp: torn_def m split: if_splits)
qed simp

lemma torn_keys: "list_all2 (torn m) J outs \<Longrightarrow> je_key ` set (concat outs) \<subseteq> je_key ` set J"
  by (induction rule: list_all2_induct) (auto simp: torn_def split: if_splits)

lemma torn_selected:
  assumes "list_all2 (torn m) J outs" and m: "\<And>e. m e = M (je_key e)"
  shows "je_key ` set (filter m (concat outs)) \<subseteq> je_key ` set (filter m J)"
proof -
  have sel: "je_key ` set (filter m xs) = {k \<in> je_key ` set xs. M k}" for xs by (auto simp: m)
  show ?thesis unfolding sel using torn_keys [OF assms(1)] by blast
qed

section \<open>Sweeps\<close>

text \<open>C8: a sweep touches what it selects and accounts for all of it.  The journal afterwards is, entry
  by entry in the old order, the unselected entries unchanged, and for each selected one either
  nothing or one entry of the same owner; the owners reported removed and failed are exactly those
  two groups, newest first.\<close>

theorem teardown_accounts_for_every_entry:
  assumes "teardown P matches d = (Ok r, d')"
  shows "\<exists>fates. map fst fates = d_journal d \<and> d_journal d' = concat (map snd fates)
     \<and> (\<forall>(e, out) \<in> set fates. torn matches e out)
     \<and> cr_removed_owners r = rev (map (je_owner \<circ> fst) (filter (\<lambda>(e, out). matches e \<and> out = []) fates))
     \<and> cr_failed r = rev (map (je_owner \<circ> fst) (filter (\<lambda>(e, out). matches e \<and> out \<noteq> []) fates))"
proof -
  obtain outs where o: "d_journal d' = concat outs" "list_all2 (torn matches) (d_journal d) outs"
    "cr_removed_owners r = rev (swept_owners matches True (zip (d_journal d) outs))"
    "cr_failed r = rev (swept_owners matches False (zip (d_journal d) outs))"
    using teardown_journal [OF assms] by blast
  have "length (d_journal d) = length outs" using o(2) by (rule list_all2_lengthD)
  with o show ?thesis
    by (intro exI [of _ "zip (d_journal d) outs"])
      (auto simp: swept_owners_def list_all2_iff)
qed

text \<open>the end of a client session spares what must outlive it.  Whatever the executors answer,
  every entry of another uid, every always-on owner, every conditional owner, every routing intent
  and the manual overrides stay in the journal unchanged and in order; what else is left of the
  session's own entries are entries whose teardown failed, under owners the session had.\<close>

theorem cleanup_session_protects:
  "filter (\<lambda>e. \<not> session_owned uid keep e) (d_journal (snd (cleanup_session_uid P uid keep d))) =
     filter (\<lambda>e. \<not> session_owned uid keep e) (d_journal d)
   \<and> je_key ` set (filter (session_owned uid keep) (d_journal (snd (cleanup_session_uid P uid keep d))))
     \<subseteq> je_key ` set (filter (session_owned uid keep) (d_journal d))"
proof -
  let ?m = "session_owned uid keep"
  let ?M = "\<lambda>(u, owner). u = uid \<and> (uid, owner) \<notin> keep \<and> \<not> starts_with owner ''cond:''
     \<and> \<not> starts_with owner INTENT_OWNER_PREFIX \<and> owner \<noteq> MANUAL_OWNER"
  have key: "?m e = ?M (je_key e)" for e
    by (simp add: session_owned_def je_key_def)
  obtain res d' where t: "cleanup_session_uid P uid keep d = (res, d')" by fastforce
  then obtain outs where J: "d_journal d' = concat outs" and l: "list_all2 (torn ?m) (d_journal d) outs"
    using teardown_journal [of P ?m d res d'] unfolding cleanup_session_uid_def by blast
  show ?thesis using torn_filter [where M = ?M, OF l key] torn_selected [where M = ?M, OF l key] J t
    by simp
qed

section \<open>What a failed teardown keeps\<close>

text \<open>The kernel's side of the generic loop, for the resources \<open>R\<close> of one owner and what of them is in
  effect: a call that succeeds, or reports that the object is already as wanted, takes the resource
  out of effect, and no call brings another resource of \<open>R\<close> into effect; a resource without a
  kernel object is never in effect.\<close>

definition call_undoes ::
    "('k \<Rightarrow> owned_resource set) \<Rightarrow> owned_resource set \<Rightarrow> error_kind \<Rightarrow> owned_resource
       \<Rightarrow> ('k \<Rightarrow> unit io \<times> 'k) \<Rightarrow> bool" where
  "call_undoes in_effect R fine r call \<longleftrightarrow>
     (\<forall>w res w'. call w = (res, w') \<longrightarrow>
        in_effect w' \<inter> R \<subseteq> in_effect w \<and> (res \<in> {Ok (), Err fine} \<longrightarrow> r \<notin> in_effect w'))"

definition kernel_undoes :: "'k platform \<Rightarrow> ('k \<Rightarrow> owned_resource set) \<Rightarrow> owned_resource set \<Rightarrow> bool" where
  "kernel_undoes P in_effect R \<longleftrightarrow>
     (\<forall>r \<in> R. case r of
        Route x \<Rightarrow> call_undoes in_effect R NotFound r (rx_remove (pf_routes P) x)
      | NetRoute x \<Rightarrow> call_undoes in_effect R NotFound r (pf_remove_system_route P x)
      | SuppressedRoute x \<Rightarrow> call_undoes in_effect R AlreadyExists r (pf_add_system_route P x)
      | NetRule x \<Rightarrow> (\<forall>px. pf_policy P = Some px \<longrightarrow>
                        call_undoes in_effect R NotFound r (px_remove_system_rule px x))
      | SuppressedRule x \<Rightarrow> (\<forall>px. pf_policy P = Some px \<longrightarrow>
                        call_undoes in_effect R AlreadyExists r (px_add_system_rule px x))
      | _ \<Rightarrow> (\<forall>w. r \<notin> in_effect w))"

lemma tolerated_call:
  "call_undoes in_effect R fine r call \<Longrightarrow> apfst (tolerate fine) (call w) = (res, w') \<Longrightarrow>
     in_effect w' \<inter> R \<subseteq> in_effect w \<and> (is_ok res \<longrightarrow> r \<notin> in_effect w')"
  unfolding call_undoes_def by (cases "call w"; cases "fst (call w)") (auto simp: tolerate_def split: if_splits)

lemma tolerated_policy_call:
  assumes "\<forall>px. pf_policy P = Some px \<longrightarrow> call_undoes in_effect R fine r (f px)"
    and "apfst (tolerate fine) (with_policy P f w) = (res, w')" and "fine \<noteq> NotConnected"
  shows "in_effect w' \<inter> R \<subseteq> in_effect w \<and> (is_ok res \<longrightarrow> r \<notin> in_effect w')"
proof (cases "pf_policy P")
  case None
  then show ?thesis using assms(2,3) by (auto simp: with_policy_def tolerate_def)
next
  case (Some px)
  then show ?thesis using assms(1,2) tolerated_call [of in_effect R fine r "f px"]
    by (auto simp: with_policy_def)
qed

lemma undo_effective:
  assumes "kernel_undoes P in_effect R" and "r \<in> R" and "undo_generic P r w = (res, w')"
  shows "in_effect w' \<inter> R \<subseteq> in_effect w \<and> (is_ok res \<longrightarrow> r \<notin> in_effect w')"
  using assms(1) [unfolded kernel_undoes_def, rule_format, OF assms(2)] assms(3)
    tolerated_call [of in_effect R NotFound r] tolerated_call [of in_effect R AlreadyExists r]
    tolerated_policy_call [of P in_effect R NotFound r] tolerated_policy_call [of P in_effect R AlreadyExists r]
  by (cases r) (auto simp: undo_generic_def)

lemma generic_step_eq:
  "undo_generic P r w = (res, w') \<Longrightarrow> generic_step P failed r w = (outcome (is_ok res), w')"
  by (simp add: generic_step_def)

lemma walk_generic:
  assumes "kernel_undoes P in_effect R"
  shows "walk (generic_step P) rs failed w = (out, w') \<Longrightarrow> set rs \<subseteq> R \<Longrightarrow>
     \<exists>fs. out = Ok (failed @ fs) \<and> subseq fs rs
        \<and> in_effect w' \<inter> R \<subseteq> in_effect w \<and> in_effect w' \<inter> set rs \<subseteq> set fs"
proof (induction rs arbitrary: failed w)
  case (Cons r rs)
  obtain res w1 where u: "undo_generic P r w = (res, w1)" by fastforce
  have e: "in_effect w1 \<inter> R \<subseteq> in_effect w" "is_ok res \<Longrightarrow> r \<notin> in_effect w1"
    using undo_effective [OF assms _ u] Cons.prems(2) by auto
  have R: "set rs \<subseteq> R" "r \<in> R" using Cons.prems(2) by auto
  show ?case
  proof (cases "is_ok res")
    case True
    with Cons.prems u have "walk (generic_step P) rs failed w1 = (out, w')"
      by (simp add: generic_step_eq outcome_def)
    from Cons.IH [OF this R(1)] e True R(2) show ?thesis by (auto intro: list_emb_Cons)
  next
    case False
    with Cons.prems u have "walk (generic_step P) rs (failed @ [r]) w1 = (out, w')"
      by (simp add: generic_step_eq outcome_def)
    from Cons.IH [OF this R(1)] obtain fs where
      "out = Ok ((failed @ [r]) @ fs)" "subseq fs rs" "in_effect w' \<inter> R \<subseteq> in_effect w1"
      "in_effect w' \<inter> set rs \<subseteq> set fs" by blast
    then show ?thesis using e by (intro exI [of _ "r # fs"]) auto
  qed
qed auto

text \<open>C7: tearing down a client, conditional, intent or manual owner loses nothing.  If it succeeds,
  none of the owner's resources is in effect any more and the entry is gone; if it fails, the entry
  stays in place as stale, keeps a non-empty subsequence of its resources in their order, and
  every resource of it still in effect is among those kept.\<close>

theorem teardown_generic_no_leak:
  assumes "kernel_undoes P in_effect (set (je_resources (d_journal d ! i)))"
    and "i < length (d_journal d)"
    and "teardown_generic_entry P i d = (res, d')"
  shows "case res of
      Ok _ \<Rightarrow> d_journal d' = remove_nth i (d_journal d)
               \<and> in_effect (d_world d') \<inter> set (je_resources (d_journal d ! i)) = {}
    | Err _ \<Rightarrow> (let e = d_journal d ! i; e' = d_journal d' ! i in
               d_journal d' = (d_journal d)[i := e'] \<and> je_key e' = je_key e \<and> je_state e' = Stale
               \<and> je_resources e' \<noteq> [] \<and> subseq (je_resources e') (je_resources e)
               \<and> in_effect (d_world d') \<inter> set (je_resources e) \<subseteq> set (je_resources e'))"
proof -
  let ?e = "d_journal d ! i"
  obtain out w where wk: "walk (generic_step P) (rev (je_resources ?e)) [] (d_world d) = (out, w)"
    by fastforce
  from walk_generic [OF assms(1) wk] obtain fs where fs: "out = Ok fs"
    "subseq fs (rev (je_resources ?e))" "in_effect w \<inter> set (je_resources ?e) \<subseteq> set fs"
    by (auto simp: set_rev)
  have r: "(res, d') = finish_entry i fs (d\<lparr>d_world := w\<rparr>)"
    using assms(3) wk fs(1) by (simp add: teardown_generic_entry_def)
  have "subseq (rev fs) (je_resources ?e)" using fs(2) using subseq_rev by fastforce
  then show ?thesis using r fs(3) assms(2)
    by (cases "fs = []") (auto simp: finish_entry_def keep_stale_def je_key_def)
qed

definition example_system_route :: system_route where
  "example_system_route = \<lparr> sr_family = Ipv4, sr_destination = IpNet (V4 167772160) 8, sr_table = 254,
     sr_kind = ''unicast'', sr_scope = ''link'', sr_protocol = 2, sr_managed = False,
     sr_gateway = None, sr_interface_index = Some 3, sr_interface_name = None, sr_metric = Some 0,
     sr_pref_source = None, sr_nexthops = [] \<rparr>"

definition example_daemon :: "sim daemon" where
  "example_daemon = fresh_daemon
     [ \<lparr> je_uid = 1000, je_owner = ''office'', je_state = Applied,
         je_resources = [Route (example_route 1), SuppressedRoute example_system_route,
                         Route (example_route 2)] \<rparr>,
       \<lparr> je_uid = 1001, je_owner = ''lab'', je_state = Applied,
         je_resources = [Route (example_route 3)] \<rparr> ]
     (quiet_sim\<lparr>sim_routes := [example_route 1, example_route 2, example_route 3],
                sim_stuck := [example_route 1]\<rparr>)"

definition sim_in_effect :: "sim \<Rightarrow> owned_resource set" where
  "sim_in_effect w = Route ` set (sim_routes w)
     \<union> SuppressedRoute ` {r. r \<notin> set (sim_system_routes w)}"

lemma sim_kernel_undoes:
  "kernel_undoes sim_platform sim_in_effect
     {Route a, SuppressedRoute b, Route c}"
  by (auto simp: kernel_undoes_def call_undoes_def sim_platform_def sim_in_effect_def
      sim_routes_executor_def split: if_splits)

theorem teardown_generic_no_leak_witness:
  "\<exists>d'. teardown_generic_entry sim_platform 0 example_daemon = (Err Other, d')
     \<and> je_state (d_journal d' ! 0) = Stale
     \<and> Route (example_route 1) \<in> sim_in_effect (d_world d')
     \<and> sim_in_effect (d_world d') \<inter> set (je_resources (d_journal example_daemon ! 0))
         \<subseteq> set (je_resources (d_journal d' ! 0))"
proof -
  let ?out = "teardown_generic_entry sim_platform 0 example_daemon"
  have run: "fst ?out = Err Other" by code_simp
  have left: "example_route 1 \<in> set (sim_routes (d_world (snd ?out)))" by code_simp
  have "set (je_resources (d_journal example_daemon ! 0)) =
      {Route (example_route 1), SuppressedRoute example_system_route, Route (example_route 2)}"
    by (simp add: example_daemon_def fresh_daemon_def insert_commute)
  then have f: "kernel_undoes sim_platform sim_in_effect (set (je_resources (d_journal example_daemon ! 0)))"
    by (simp add: sim_kernel_undoes)
  have "0 < length (d_journal example_daemon)" by (simp add: example_daemon_def fresh_daemon_def)
  moreover obtain d' where out: "?out = (Err Other, d')" using run by (cases ?out) simp
  ultimately have "je_state (d_journal d' ! 0) = Stale"
    and "sim_in_effect (d_world d') \<inter> set (je_resources (d_journal example_daemon ! 0))
         \<subseteq> set (je_resources (d_journal d' ! 0))"
    using teardown_generic_no_leak [OF f _ out] unfolding Let_def by simp_all
  moreover have "Route (example_route 1) \<in> sim_in_effect (d_world d')"
    using left unfolding out sim_in_effect_def by simp
  ultimately show ?thesis using out by blast
qed

theorem teardown_accounts_for_every_entry_witness:
  "\<exists>r d'. teardown sim_platform (\<lambda>e. je_uid e = 1001) example_daemon = (Ok r, d')
     \<and> cr_removed_owners r = [''lab''] \<and> length (d_journal d') = 1
     \<and> (\<exists>fates. map fst fates = d_journal example_daemon \<and> d_journal d' = concat (map snd fates))"
proof -
  let ?out = "teardown sim_platform (\<lambda>e. je_uid e = 1001) example_daemon"
  have run: "fst ?out = Ok \<lparr> cr_removed_owners = [''lab''], cr_failed = [] \<rparr>" by code_simp
  have len: "length (d_journal (snd ?out)) = 1" by code_simp
  from run have "?out = (Ok \<lparr> cr_removed_owners = [''lab''], cr_failed = [] \<rparr>, snd ?out)"
    by (simp add: prod_eq_iff)
  moreover from teardown_accounts_for_every_entry [OF this]
  have "\<exists>fates. map fst fates = d_journal example_daemon \<and> d_journal (snd ?out) = concat (map snd fates)"
    by blast
  ultimately show ?thesis using len
    by (intro exI [of _ "\<lparr> cr_removed_owners = [''lab''], cr_failed = [] \<rparr>"] exI [of _ "snd ?out"]) simp
qed

section \<open>Foreign links\<close>

lemma walk_idle:
  "\<forall>r \<in> set rs. \<forall>failed w. snd (step failed r w) = w \<Longrightarrow> snd (walk step rs failed w) = w"
proof (induction rs arbitrary: failed)
  case (Cons r rs)
  obtain out w' where st: "step failed r w = (out, w')" by fastforce
  with Cons.prems have "w' = w" by (metis list.set_intros(1) snd_conv)
  with Cons st show ?case by (cases out) auto
qed simp

definition is_rule :: "owned_resource \<Rightarrow> bool" where
  "is_rule r \<longleftrightarrow> (case r of Rule _ \<Rightarrow> True | _ \<Rightarrow> False)"

lemma wireguard_step_unowned:
  "\<not> is_rule r \<Longrightarrow> snd (wireguard_step P wg False failed r w) = w"
  by (auto simp: wireguard_step_def is_rule_def split: owned_resource.splits)

text \<open>a link that lost its owner marker is never touched.  When the kernel says that the journaled
  WireGuard link is not the daemon's any more (another program recreated the name or the index),
  tearing the owner down makes no call that changes the host, apart from removing the policy rules
  the entry lists; if a link of that name and index is present at all, the entry is kept whole, as
  stale.\<close>

theorem teardown_wireguard_spares_foreign_link:
  assumes "i < length (d_journal d)" and "find_wg_link (je_resources (d_journal d ! i)) = Some l"
    and "pf_wg P = Some wg"
    and "wx_link_owned wg (wl_name l) (wl_index l) (wl_owner_marker l) (d_world d) = Ok False"
    and "teardown_wireguard_entry P i d = (res, d')"
  shows "((\<forall>r \<in> set (je_resources (d_journal d ! i)). \<not> is_rule r) \<longrightarrow> d_world d' = d_world d)
     \<and> (wx_link_present wg (wl_name l) (wl_index l) (d_world d) \<noteq> Ok False \<longrightarrow>
          \<not> is_ok res \<and> d_world d' = d_world d
          \<and> d_journal d' = (d_journal d)[i := mark_state Stale (d_journal d ! i)])"
proof -
  let ?rs = "je_resources (d_journal d ! i)"
  have idle: "snd (walk (wireguard_step P wg False) (rev ?rs) [] (d_world d)) = d_world d"
    if "\<forall>r \<in> set ?rs. \<not> is_rule r"
    using that by (intro walk_idle) (simp add: wireguard_step_unowned)
  show ?thesis
    using assms idle unfolding teardown_wireguard_entry_def Let_def
    by (auto split: result.splits prod.splits bool.splits if_splits simp: finish_entry_def)
qed

definition foreign_wg :: "sim wg_system" where
  "foreign_wg = \<lparr> wx_create_link = (\<lambda>_ _ w. (Err AlreadyExists, w)), wx_link_owned = (\<lambda>_ _ _ _. Ok False), wx_link_present = (\<lambda>_ _ _. Ok True),
     wx_delete_link = (\<lambda>_ _ _ w. (Ok (), w\<lparr>sim_links := []\<rparr>)),
     wx_add_address = (\<lambda>_ _ w. (Err NotFound, w)), wx_remove_address = (\<lambda>_ _ w. (Ok (), w\<lparr>sim_links := []\<rparr>)),
     wx_set_mtu = (\<lambda>_ _ w. (Err NotFound, w)), wx_set_state = (\<lambda>_ _ w. (Err NotFound, w)) \<rparr>"

theorem teardown_wireguard_spares_foreign_link_witness:
  "let l = \<lparr> wl_name = ''wg0'', wl_index = 7, wl_owner_marker = ''m'', wl_full = None, wl_warnings = [] \<rparr>;
       d = fresh_daemon [\<lparr> je_uid = 1000, je_owner = ''wg:home'', je_state = Applied,
             je_resources = [WireGuardLink l, Route (example_route 1)] \<rparr>] quiet_sim;
       P = sim_platform\<lparr>pf_wg := Some foreign_wg\<rparr>
   in d_world (snd (teardown_wireguard_entry P 0 d)) = d_world d
      \<and> \<not> is_ok (fst (teardown_wireguard_entry P 0 d))"
proof -
  let ?l = "\<lparr> wl_name = ''wg0'', wl_index = 7, wl_owner_marker = ''m'', wl_full = None, wl_warnings = [] \<rparr>"
  let ?d = "fresh_daemon [\<lparr> je_uid = 1000, je_owner = ''wg:home'', je_state = Applied,
             je_resources = [WireGuardLink ?l, Route (example_route 1)] \<rparr>] quiet_sim"
  let ?P = "sim_platform\<lparr>pf_wg := Some foreign_wg\<rparr>"
  obtain res d' where run: "teardown_wireguard_entry ?P 0 ?d = (res, d')" by fastforce
  have hyps: "0 < length (d_journal ?d)" "find_wg_link (je_resources (d_journal ?d ! 0)) = Some ?l"
    "pf_wg ?P = Some foreign_wg"
    "wx_link_owned foreign_wg (wl_name ?l) (wl_index ?l) (wl_owner_marker ?l) (d_world ?d) = Ok False"
    "wx_link_present foreign_wg (wl_name ?l) (wl_index ?l) (d_world ?d) \<noteq> Ok False"
    by (simp_all add: fresh_daemon_def foreign_wg_def)
  show ?thesis
    using teardown_wireguard_spares_foreign_link [OF hyps(1-4) run] hyps(5) run by (simp add: Let_def)
qed

end
