(* ===== verification/Owner_Routes.thy ===== *)
theory Owner_Routes
  imports Teardown
begin

text \<open>
  Installing routes for an owner (\<open>apply_routes\<close>, \<open>apply_attach\<close>, \<open>apply_routes_inner\<close> of
  \<open>crates/daemon/src/core.rs\<close>): validation, the write-ahead journal entry, the route transaction
  and the final state of the entry.
\<close>

section \<open>Operations\<close>

definition check_client_owner :: "string \<Rightarrow> unit io" where
  "check_client_owner owner =
     (if \<not> validate_owner owner then Err InvalidInput
      else if starts_with owner ''wg:'' \<or> starts_with owner ''ovpn:''
           \<or> starts_with owner ''ovpn-probe:'' \<or> starts_with owner ''xray:''
           \<or> starts_with owner ''cond:'' \<or> starts_with owner INTENT_OWNER_PREFIX
           \<or> owner = MANUAL_OWNER
      then Err InvalidInput
      else Ok ())"

definition attach_resources :: "attach_spec option \<Rightarrow> owned_resource list" where
  "attach_resources attach = (case attach of None \<Rightarrow> [] | Some s \<Rightarrow> [AttachSpec s])"

definition apply_routes_inner ::
    "ipnet_crate \<Rightarrow> 'k platform \<Rightarrow> nat \<Rightarrow> string \<Rightarrow> applied_route list \<Rightarrow> attach_spec option
       \<Rightarrow> 'k daemon \<Rightarrow> nat io \<times> 'k daemon" where
  "apply_routes_inner N P uid owner routes attach d =
     (if \<not> validate_apply N routes then (Err InvalidInput, d)
      else if owner_position uid owner d \<noteq> None then (Err AlreadyExists, d)
      else
        (let entry = \<lparr> je_uid = uid, je_owner = owner, je_state = Applying,
                       je_resources = attach_resources attach @ map Route routes \<rparr>;
             (saved, d1) = save_journal P (d\<lparr>d_journal := d_journal d @ [entry]\<rparr>)
         in case saved of
              Err e \<Rightarrow> (Err e, d1\<lparr>d_journal := butlast (d_journal d1)\<rparr>)
            | Ok _ \<Rightarrow>
                (let index = length (d_journal d1) - 1;
                     (res, w) = apply_routes_transactional (pf_routes P) routes (d_world d1);
                     d2 = d1\<lparr>d_world := w\<rparr>
                 in case res of
                      Ok _ \<Rightarrow> (Ok (length routes), persist P (set_entry index (mark_state Applied) d2))
                    | Err (e, still_applied) \<Rightarrow>
                        if still_applied = [] \<and> attach = None
                        then (Err e, persist P (drop_entry index d2))
                        else (Err e, persist P (set_entry index
                                (keep_stale (attach_resources attach @ map Route still_applied)) d2)))))"

definition apply_routes ::
    "ipnet_crate \<Rightarrow> 'k platform \<Rightarrow> nat \<Rightarrow> string \<Rightarrow> applied_route list \<Rightarrow> 'k daemon
       \<Rightarrow> nat io \<times> 'k daemon" where
  "apply_routes N P uid owner routes d =
     (case check_client_owner owner of
        Err e \<Rightarrow> (Err e, d)
      | Ok _ \<Rightarrow> apply_routes_inner N P uid owner routes None d)"

definition apply_attach ::
    "ipnet_crate \<Rightarrow> 'k platform \<Rightarrow> nat \<Rightarrow> string \<Rightarrow> attach_spec \<Rightarrow> applied_route list \<Rightarrow> 'k daemon
       \<Rightarrow> nat io \<times> 'k daemon" where
  "apply_attach N P uid owner spec routes d =
     (case check_client_owner owner of
        Err e \<Rightarrow> (Err e, d)
      | Ok _ \<Rightarrow>
          if \<not> validate_attach spec then (Err InvalidInput, d)
          else apply_routes_inner N P uid owner routes (Some spec) d)"

section \<open>The outcome on every branch\<close>

text \<open>What an application leaves in the journal: nothing new after a refusal, a failed save or a
  failure that was fully rolled back; one stale entry with the leftovers (and the attach spec) after
  another failure; one applied entry with everything requested after success.\<close>

definition apply_outcome ::
    "nat \<Rightarrow> string \<Rightarrow> applied_route list \<Rightarrow> attach_spec option \<Rightarrow> journal \<Rightarrow> nat io \<Rightarrow> journal \<Rightarrow> bool" where
  "apply_outcome uid owner routes attach J res J' \<longleftrightarrow>
     (case res of
        Ok n \<Rightarrow> n = length routes
          \<and> J' = J @ [\<lparr> je_uid = uid, je_owner = owner, je_state = Applied,
                        je_resources = attach_resources attach @ map Route routes \<rparr>]
      | Err _ \<Rightarrow> J' = J
          \<or> (\<exists>left. set left \<subseteq> set routes \<and> (left \<noteq> [] \<or> attach \<noteq> None)
               \<and> J' = J @ [\<lparr> je_uid = uid, je_owner = owner, je_state = Stale,
                             je_resources = attach_resources attach @ map Route left \<rparr>]))"

lemma apply_loop_leftovers:
  "apply_loop ex added rs w = (Err (e, still), w') \<Longrightarrow> set still \<subseteq> set added \<union> set rs"
proof (induction rs arbitrary: added w)
  case (Cons r rs)
  then show ?case
    by (fastforce split: prod.splits result.splits dest: remove_each_subset)
qed simp

lemma apply_routes_transactional_leftovers:
  "apply_routes_transactional ex rs w = (Err (e, still), w') \<Longrightarrow> set still \<subseteq> set rs"
  using apply_loop_leftovers [of ex "[]" rs w e still w'] by (simp add: apply_routes_transactional_def)

definition applying_entry ::
    "nat \<Rightarrow> string \<Rightarrow> applied_route list \<Rightarrow> attach_spec option \<Rightarrow> journal_entry" where
  "applying_entry uid owner routes attach =
     \<lparr> je_uid = uid, je_owner = owner, je_state = Applying,
       je_resources = attach_resources attach @ map Route routes \<rparr>"

lemma apply_routes_inner_cases:
  assumes "apply_routes_inner N P uid owner routes attach d = (res, d')"
  obtains
    (refused) e where "res = Err e" and "d' = d"
  | (unsaved) e w where "res = Err e" and "d' = d\<lparr>d_world := w\<rparr>"
      and "pf_save P (d_journal d @ [applying_entry uid owner routes attach]) (d_world d) = (Err e, w)"
  | (started) res1 w1 w2 where "validate_apply N routes" and "owner_position uid owner d = None"
      and "pf_save P (d_journal d @ [applying_entry uid owner routes attach]) (d_world d) = (Ok (), w1)"
      and "apply_routes_transactional (pf_routes P) routes w1 = (res1, w2)"
      and "case res1 of
             Ok _ \<Rightarrow> res = Ok (length routes)
               \<and> d' = persist P (d\<lparr>d_journal := d_journal d
                     @ [mark_state Applied (applying_entry uid owner routes attach)], d_world := w2\<rparr>)
           | Err (e, still) \<Rightarrow> res = Err e
               \<and> (if still = [] \<and> attach = None then d' = persist P (d\<lparr>d_world := w2\<rparr>)
                  else d' = persist P (d\<lparr>d_journal := d_journal d
                     @ [keep_stale (attach_resources attach @ map Route still)
                          (applying_entry uid owner routes attach)], d_world := w2\<rparr>))"
proof -
  let ?e = "applying_entry uid owner routes attach"
  show ?thesis
  proof (cases "validate_apply N routes \<and> owner_position uid owner d = None")
    case False
    with assms show ?thesis
      by (intro refused [of "if validate_apply N routes then AlreadyExists else InvalidInput"])
        (auto simp: apply_routes_inner_def split: if_splits)
  next
    case True
    obtain sv w1 where sv: "pf_save P (d_journal d @ [?e]) (d_world d) = (sv, w1)" by fastforce
    show ?thesis
    proof (cases sv)
      case (Err e)
      with True sv assms show ?thesis
        by (intro unsaved [of e w1])
          (auto simp: apply_routes_inner_def save_journal_def applying_entry_def)
    next
      case (Ok u)
      obtain r2 w2 where tr: "apply_routes_transactional (pf_routes P) routes w1 = (r2, w2)" by fastforce
      note run = True sv Ok tr assms [unfolded apply_routes_inner_def save_journal_def Let_def,
          folded applying_entry_def]
      have "case r2 of
             Ok _ \<Rightarrow> res = Ok (length routes)
               \<and> d' = persist P (d\<lparr>d_journal := d_journal d @ [mark_state Applied ?e], d_world := w2\<rparr>)
           | Err (e, still) \<Rightarrow> res = Err e
               \<and> (if still = [] \<and> attach = None then d' = persist P (d\<lparr>d_world := w2\<rparr>)
                  else d' = persist P (d\<lparr>d_journal := d_journal d
                     @ [keep_stale (attach_resources attach @ map Route still) ?e], d_world := w2\<rparr>))"
      proof (cases r2)
        case (Err es)
        then show ?thesis using run
          by (cases es) (auto simp: set_entry_def drop_entry_def remove_nth_def split: if_splits)
      qed (use run in \<open>simp add: set_entry_def\<close>)
      with True sv Ok tr show ?thesis by (intro started [of w1 r2 w2]) auto
    qed
  qed
qed

lemma apply_routes_inner_outcome:
  assumes "apply_routes_inner N P uid owner routes attach d = (res, d')"
  shows "apply_outcome uid owner routes attach (d_journal d) res (d_journal d')"
  using assms
proof (cases rule: apply_routes_inner_cases)
  case (started res1 w1 w2)
  then show ?thesis
  proof (cases res1)
    case (Err es)
    then obtain e still where es: "res1 = Err (e, still)" by (cases es) simp
    then have "set still \<subseteq> set routes"
      using started(4) apply_routes_transactional_leftovers [of "pf_routes P" routes w1 e still w2]
      by simp
    then show ?thesis using started(5) es
      by (cases "still = [] \<and> attach = None")
        (auto simp: apply_outcome_def applying_entry_def keep_stale_def intro!: exI [of _ still])
  qed (auto simp: apply_outcome_def applying_entry_def mark_state_def)
qed (auto simp: apply_outcome_def)

lemma apply_routes_inner_keys:
  assumes "keys_distinct d"
  shows "keys_distinct (snd (apply_routes_inner N P uid owner routes attach d))"
proof (cases "owner_position uid owner d")
  case None
  obtain res d' where run: "apply_routes_inner N P uid owner routes attach d = (res, d')" by fastforce
  show ?thesis
    using apply_routes_inner_outcome [OF run] None assms run
    by (auto simp: apply_outcome_def keys_distinct_def owner_position_None_iff je_key_def
        split: result.splits)
next
  case (Some i)
  then show ?thesis using assms by (simp add: apply_routes_inner_def)
qed

section \<open>Journal and kernel agree\<close>

definition owner_routes :: "owner_key \<Rightarrow> journal \<Rightarrow> applied_route set" where
  "owner_routes key J = {r. \<exists>e \<in> set J. je_key e = key \<and> Route r \<in> set (je_resources e)}"

definition saves_leave_routes :: "'k platform \<Rightarrow> ('k \<Rightarrow> applied_route set) \<Rightarrow> bool" where
  "saves_leave_routes P view \<longleftrightarrow> (\<forall>J w. view (snd (pf_save P J w)) = view w)"

lemma view_save: "saves_leave_routes P view \<Longrightarrow> pf_save P J w = (r, w') \<Longrightarrow> view w' = view w"
  unfolding saves_leave_routes_def by (metis snd_conv)

lemma view_persist: "saves_leave_routes P view \<Longrightarrow> view (d_world (persist P d)) = view (d_world d)"
  by (cases "pf_save P (d_journal d) (d_world d)")
    (simp add: persist_def save_journal_def view_save)

lemma attach_resources_no_route [simp]: "Route r \<notin> set (attach_resources attach)"
  by (simp add: attach_resources_def split: option.splits)

lemma owner_routes_fresh:
  "owner_position uid owner d = None \<Longrightarrow> owner_routes (uid, owner) (d_journal d) = {}"
  by (force simp: owner_routes_def owner_position_None_iff)

lemma owner_routes_append:
  "owner_routes k (J @ J') = owner_routes k J \<union> owner_routes k J'"
  by (auto simp: owner_routes_def)

lemma owner_routes_entry:
  "je_key e = k \<Longrightarrow> je_resources e = attach_resources attach @ map Route rs \<Longrightarrow>
     owner_routes k [e] = set rs"
  by (auto simp: owner_routes_def)

lemma applying_entry_simps [simp]:
  "je_key (applying_entry uid owner routes attach) = (uid, owner)"
  "je_resources (mark_state s (applying_entry uid owner routes attach)) =
     attach_resources attach @ map Route routes"
  "je_resources (keep_stale rs (applying_entry uid owner routes attach)) = rs"
  by (simp_all add: applying_entry_def mark_state_def keep_stale_def je_key_def)

text \<open>C2: the journal always says what the daemon put into the kernel.  With an executor that does what
  it reports, and routes not installed before, on every branch (refusal, failed save, success,
  rollback, rollback that leaves routes behind) the routes installed afterwards are those installed
  before plus exactly the routes the journal lists for the owner that were not listed before.\<close>

theorem apply_routes_journal_matches_kernel:
  assumes "faithful_executor (pf_routes P) view" and "saves_leave_routes P view"
    and "set routes \<inter> view (d_world d) = {}"
    and "apply_routes_inner N P uid owner routes attach d = (res, d')"
  shows "view (d_world d') = view (d_world d)
           \<union> (owner_routes (uid, owner) (d_journal d') - owner_routes (uid, owner) (d_journal d))"
  using assms(4)
proof (cases rule: apply_routes_inner_cases)
  case (unsaved e w)
  then show ?thesis using view_save [OF assms(2)] by simp
next
  case (started res1 w1 w2)
  have w1: "view w1 = view (d_world d)" using started(3) view_save [OF assms(2)] by simp
  have tx: "case res1 of Ok _ \<Rightarrow> view w2 = view w1 \<union> set routes
      | Err (e, still) \<Rightarrow> set still \<subseteq> set routes \<and> view w2 = view w1 \<union> set still"
    using apply_loop_view [OF assms(1), of "[]" routes w1 res1 w2] started(1,4) assms(3) w1
    by (auto simp: apply_routes_transactional_def validate_apply_distinct split: result.splits)
  note facts = tx w1 owner_routes_fresh [OF started(2)] view_persist [OF assms(2)]
    owner_routes_append owner_routes_entry
  show ?thesis
  proof (cases res1)
    case (Ok u)
    then show ?thesis using started(5) facts by simp
  next
    case (Err es)
    then show ?thesis using started(5) facts
      by (cases es; cases "snd es = [] \<and> attach = None") simp_all
  qed
qed simp

lemma faithful_sim: "faithful_executor (pf_routes sim_platform) (set \<circ> sim_routes)"
  by (auto simp: faithful_executor_def sim_platform_def sim_routes_executor_def split: if_splits)

lemma saves_leave_routes_sim: "saves_leave_routes sim_platform (set \<circ> sim_routes)"
  by (simp add: saves_leave_routes_def sim_platform_def)

theorem apply_routes_journal_matches_kernel_witness:
  "let d = fresh_daemon [] (quiet_sim\<lparr>sim_refused := [example_route 3], sim_stuck := [example_route 1]\<rparr>);
       (res, d') = apply_routes_inner word_ipnet sim_platform 1000 ''office''
                     [example_route 1, example_route 2, example_route 3] None d
   in res = Err Other \<and> set (sim_routes (d_world d')) = {example_route 1}
      \<and> owner_routes (1000, ''office'') (d_journal d') = {example_route 1}"
proof -
  let ?d = "fresh_daemon [] (quiet_sim\<lparr>sim_refused := [example_route 3], sim_stuck := [example_route 1]\<rparr>)"
  let ?rs = "[example_route 1, example_route 2, example_route 3]"
  let ?out = "apply_routes_inner word_ipnet sim_platform 1000 ''office'' ?rs None ?d"
  have e: "fst ?out = Err Other" and k: "sim_routes (d_world (snd ?out)) = [example_route 1]" by code_simp+
  obtain res d' where run: "?out = (res, d')" by fastforce
  have "set ?rs \<inter> (set \<circ> sim_routes) (d_world ?d) = {}" by (simp add: fresh_daemon_def quiet_sim_def)
  from apply_routes_journal_matches_kernel [OF faithful_sim saves_leave_routes_sim this run]
  have "set (sim_routes (d_world d')) = owner_routes (1000, ''office'') (d_journal d')"
    by (simp add: fresh_daemon_def quiet_sim_def owner_routes_def)
  then show ?thesis using e k run by simp
qed

section \<open>Clients stay in their own names\<close>

definition reserved_owner :: "string \<Rightarrow> bool" where
  "reserved_owner owner \<longleftrightarrow>
     (\<exists>p \<in> {''wg:'', ''ovpn:'', ''ovpn-probe:'', ''xray:'', ''cond:'', ''intent:''}. starts_with owner p)
     \<or> owner = ''manual''"

lemma check_client_owner_Ok:
  "check_client_owner owner = Ok () \<longleftrightarrow> validate_owner owner \<and> \<not> reserved_owner owner"
  by (auto simp: check_client_owner_def reserved_owner_def INTENT_OWNER_PREFIX_def MANUAL_OWNER_def)

text \<open>what a client may do to the journal through \<open>apply_routes\<close> and \<open>apply_attach\<close>: leave it as it
  is, or append one entry under its own uid and a valid owner name that no daemon subsystem uses
  and that had no entry; no existing entry changes.\<close>

theorem client_apply_appends_own_entry:
  assumes "d' \<in> {snd (apply_routes N P uid owner routes d), snd (apply_attach N P uid owner spec routes d)}"
  shows "d_journal d' = d_journal d
     \<or> (\<exists>e. d_journal d' = d_journal d @ [e] \<and> je_key e = (uid, owner)
          \<and> validate_owner owner \<and> \<not> reserved_owner owner
          \<and> (uid, owner) \<notin> je_key ` set (d_journal d))"
proof -
  have inner: "d_journal x = d_journal d \<or> (\<exists>e. d_journal x = d_journal d @ [e] \<and> je_key e = (uid, owner)
      \<and> (uid, owner) \<notin> je_key ` set (d_journal d))"
    if "apply_routes_inner N P uid owner routes attach d = (res, x)" for res x attach
    using that
  proof (cases rule: apply_routes_inner_cases)
    case (started res1 w1 w2)
    then show ?thesis
      by (cases res1) (auto simp: owner_position_None_iff split: if_splits)
  qed auto
  show ?thesis
  proof (cases "check_client_owner owner")
    case (Ok u)
    then have "validate_owner owner \<and> \<not> reserved_owner owner" by (simp add: check_client_owner_Ok)
    then show ?thesis using assms Ok inner
      by (cases "apply_routes_inner N P uid owner routes None d";
          cases "apply_routes_inner N P uid owner routes (Some spec) d")
        (fastforce simp: apply_routes_def apply_attach_def split: if_splits)
  next
    case (Err e)
    then show ?thesis using assms by (simp add: apply_routes_def apply_attach_def)
  qed
qed

theorem client_apply_appends_own_entry_witness:
  "let d = fresh_daemon [] quiet_sim;
       d' = snd (apply_routes word_ipnet sim_platform 1000 ''office'' [example_route 1] d)
   in \<exists>e. d_journal d' = d_journal d @ [e] \<and> je_key e = (1000, ''office'') \<and> \<not> reserved_owner ''office''"
proof -
  let ?d = "fresh_daemon [] quiet_sim"
  let ?d' = "snd (apply_routes word_ipnet sim_platform 1000 ''office'' [example_route 1] ?d)"
  have new: "d_journal ?d' \<noteq> d_journal ?d" by code_simp
  have "?d' \<in> {?d', snd (apply_attach word_ipnet sim_platform 1000 ''office''
      \<lparr> as_interface_name = [], as_routes = [], as_endpoint_bypasses = [], as_uplink = False \<rparr>
      [example_route 1] ?d)}"
    by simp
  from client_apply_appends_own_entry [OF this] new show ?thesis unfolding Let_def by blast
qed

end
