(* ===== verification/Manual_Overrides.thy ===== *)
theory Manual_Overrides
  imports Owner_Routes
begin

text \<open>
  Manual edits of the kernel tables (\<open>net.route.add/del\<close>, \<open>net.rule.add/del\<close> and the reconcile pass
  over the \<open>manual\<close> owner in \<open>crates/daemon/src/core.rs\<close>).  A daemon-owned object is journaled
  before it is installed; a foreign object is journaled as suppressed before it is deleted, so that
  tearing the owner down puts it back.
\<close>

section \<open>Requests\<close>

record net_route_add_params =
  nra_destination :: ip_net
  nra_table :: "nat option"
  nra_gateway :: "ip_addr option"
  nra_interface_name :: "string option"
  nra_interface_index :: "nat option"
  nra_metric :: "nat option"
  nra_pref_source :: "ip_addr option"

record net_rule_add_params =
  nru_family :: ip_family
  nru_priority :: nat
  nru_table :: nat
  nru_from :: "ip_net option"
  nru_to :: "ip_net option"
  nru_fwmark :: "nat option"
  nru_fwmask :: "nat option"
  nru_iifname :: "string option"
  nru_oifname :: "string option"
  nru_invert :: bool

datatype net_edit_outcome = Deleted | Suppressed

definition RTPROT_NETWORK_ORCHESTRATOR :: nat where
  "RTPROT_NETWORK_ORCHESTRATOR = 79"

section \<open>Journal first, kernel second\<close>

definition manual_entry :: "'k platform \<Rightarrow> nat \<Rightarrow> 'k daemon \<Rightarrow> nat io \<times> 'k daemon" where
  "manual_entry P uid d =
     (case owner_position uid MANUAL_OWNER d of
        Some i \<Rightarrow> (Ok i, d)
      | None \<Rightarrow>
          (let (saved, d) = save_journal P (d\<lparr>d_journal := d_journal d @
                 [\<lparr> je_uid = uid, je_owner = MANUAL_OWNER, je_state = Applying, je_resources = [] \<rparr>]\<rparr>)
           in (map_result (\<lambda>_. length (d_journal d) - 1) saved, d)))"

definition push_resource :: "owned_resource \<Rightarrow> owned_state \<Rightarrow> journal_entry \<Rightarrow> journal_entry" where
  "push_resource r st e = e\<lparr>je_resources := je_resources e @ [r], je_state := st\<rparr>"

text \<open>\<open>entry.resources.pop()\<close>, and the entry itself goes when it has no resource left.\<close>

definition pop_resource :: "nat \<Rightarrow> 'k daemon \<Rightarrow> 'k daemon" where
  "pop_resource i d =
     (let rs = butlast (je_resources (d_journal d ! i)) in
      if rs = [] then drop_entry i d else set_entry i (\<lambda>e. e\<lparr>je_resources := rs\<rparr>) d)"

text \<open>The shape the four edits share: find or create the entry, push the resource with state \<open>st\<close>,
  save, call the kernel, then finish the entry or take the resource back.\<close>

definition manual_edit ::
    "'k platform \<Rightarrow> nat \<Rightarrow> owned_resource \<Rightarrow> owned_state \<Rightarrow> ('k \<Rightarrow> unit io \<times> 'k)
       \<Rightarrow> (journal_entry \<Rightarrow> journal_entry) \<Rightarrow> 'k daemon \<Rightarrow> unit io \<times> 'k daemon" where
  "manual_edit P uid r st call finish d =
     (case manual_entry P uid d of
        (Err e, d) \<Rightarrow> (Err e, d)
      | (Ok i, d) \<Rightarrow>
          (case save_journal P (set_entry i (push_resource r st) d) of
             (Err e, d) \<Rightarrow> (Err e, d)
           | (Ok _, d) \<Rightarrow>
               (case call (d_world d) of
                  (Ok _, w) \<Rightarrow> (Ok (), persist P (set_entry i finish (d\<lparr>d_world := w\<rparr>)))
                | (Err e, w) \<Rightarrow> (Err e, persist P (pop_resource i (d\<lparr>d_world := w\<rparr>))))))"

section \<open>Routes\<close>

definition editable_table :: "nat \<Rightarrow> bool" where
  "editable_table t \<longleftrightarrow> t \<noteq> RT_TABLE_UNSPEC \<and> t \<noteq> RT_TABLE_LOCAL"

definition resolve_output_link ::
    "'k platform \<Rightarrow> net_route_add_params \<Rightarrow> 'k \<Rightarrow> nat io" where
  "resolve_output_link P prm w =
     (case (nra_interface_index prm, nra_interface_name prm) of
        (Some i, None) \<Rightarrow> Ok i
      | (None, Some name) \<Rightarrow>
          if \<not> validate_iface_name name then Err InvalidInput
          else (case lx_link_index (pf_links P) name w of
                  Err e \<Rightarrow> Err e
                | Ok None \<Rightarrow> Err NotFound
                | Ok (Some i) \<Rightarrow> Ok i)
      | _ \<Rightarrow> Err InvalidInput)"

definition family_of :: "ip_net \<Rightarrow> ip_family" where
  "family_of n = (if is_ipv4 (net_addr n) then Ipv4 else Ipv6)"

definition option_ok :: "('a \<Rightarrow> bool) \<Rightarrow> 'a option \<Rightarrow> bool" where
  "option_ok p x = (case x of None \<Rightarrow> True | Some v \<Rightarrow> p v)"

definition manual_route :: "ipnet_crate \<Rightarrow> net_route_add_params \<Rightarrow> nat \<Rightarrow> system_route" where
  "manual_route N prm i =
     \<lparr> sr_family = family_of (net_trunc N (nra_destination prm)),
       sr_destination = net_trunc N (nra_destination prm),
       sr_table = opt_or RT_TABLE_MAIN (nra_table prm), sr_kind = ''unicast'',
       sr_scope = (if nra_gateway prm \<noteq> None then ''universe'' else ''link''),
       sr_protocol = RTPROT_NETWORK_ORCHESTRATOR, sr_managed = True,
       sr_gateway = nra_gateway prm, sr_interface_index = Some i,
       sr_interface_name = nra_interface_name prm, sr_metric = Some (opt_or 0 (nra_metric prm)),
       sr_pref_source = nra_pref_source prm, sr_nexthops = [] \<rparr>"

definition net_route_add ::
    "ipnet_crate \<Rightarrow> 'k platform \<Rightarrow> nat \<Rightarrow> net_route_add_params \<Rightarrow> 'k daemon \<Rightarrow> unit io \<times> 'k daemon" where
  "net_route_add N P uid prm d =
     (let fam = family_of (net_trunc N (nra_destination prm));
          fam_ok = option_ok (\<lambda>a. is_ipv4 a = (fam = Ipv4)) in
      if \<not> editable_table (opt_or RT_TABLE_MAIN (nra_table prm)) then (Err InvalidInput, d)
      else case resolve_output_link P prm (d_world d) of
        Err e \<Rightarrow> (Err e, d)
      | Ok i \<Rightarrow>
          if \<not> (fam_ok (nra_gateway prm) \<and> fam_ok (nra_pref_source prm)) then (Err InvalidInput, d)
          else (let route = manual_route N prm i in
                manual_edit P uid (NetRoute route) Applying (pf_add_system_route P route)
                  (mark_state Applied) d))"

text \<open>A foreign route: the source sets the state to \<open>Applied\<close> before the save and leaves it.\<close>

definition route_owned_by :: "system_route \<Rightarrow> owned_resource \<Rightarrow> bool" where
  "route_owned_by route r =
     (case r of Route a \<Rightarrow> same_route route a | NetRoute s \<Rightarrow> same_system_route s route | _ \<Rightarrow> False)"

definition retain_resources :: "nat \<Rightarrow> (owned_resource \<Rightarrow> bool) \<Rightarrow> 'k daemon \<Rightarrow> 'k daemon" where
  "retain_resources i keep d =
     (let rs = filter keep (je_resources (d_journal d ! i)) in
      if rs = [] then drop_entry i d else set_entry i (\<lambda>e. e\<lparr>je_resources := rs\<rparr>) d)"

definition net_route_del_manual ::
    "'k platform \<Rightarrow> nat \<Rightarrow> system_route \<Rightarrow> 'k daemon \<Rightarrow> net_edit_outcome io \<times> 'k daemon" where
  "net_route_del_manual P uid route d =
     (case pf_remove_system_route P route (d_world d) of
        (Err e, w) \<Rightarrow> (Err e, d\<lparr>d_world := w\<rparr>)
      | (Ok _, w) \<Rightarrow>
          (let d = d\<lparr>d_world := w\<rparr>;
               d = (case owner_position uid MANUAL_OWNER d of
                      None \<Rightarrow> d
                    | Some i \<Rightarrow> retain_resources i
                        (\<lambda>r. case r of NetRoute s \<Rightarrow> \<not> same_system_route s route | _ \<Rightarrow> True) d)
           in (Ok Deleted, persist P d)))"

definition net_route_del_owned ::
    "'k platform \<Rightarrow> nat \<Rightarrow> system_route \<Rightarrow> 'k daemon \<Rightarrow> net_edit_outcome io \<times> 'k daemon" where
  "net_route_del_owned P uid route d =
     (case List.find (\<lambda>e. list_ex (route_owned_by route) (je_resources e))
             (filter (\<lambda>e. je_uid e = uid) (d_journal d)) of
        Some e \<Rightarrow> if je_owner e = MANUAL_OWNER then net_route_del_manual P uid route d
                    else (Err InvalidInput, d)
      | None \<Rightarrow>
          (let (res, w) = pf_remove_system_route P route (d_world d)
           in (map_result (\<lambda>_. Deleted) res, d\<lparr>d_world := w\<rparr>)))"

definition net_route_del ::
    "'k platform \<Rightarrow> nat \<Rightarrow> system_route \<Rightarrow> 'k daemon \<Rightarrow> net_edit_outcome io \<times> 'k daemon" where
  "net_route_del P uid route d =
     (if \<not> editable_table (sr_table route) then (Err InvalidInput, d)
      else if sr_kind route \<noteq> ''unicast'' then (Err InvalidInput, d)
      else if sr_managed route then net_route_del_owned P uid route d
      else (let (res, d) = manual_edit P uid (SuppressedRoute route) Applied
                             (pf_remove_system_route P route) id d
            in (map_result (\<lambda>_. Suppressed) res, d)))"

section \<open>Rules\<close>

definition manual_rule :: "ipnet_crate \<Rightarrow> net_rule_add_params \<Rightarrow> system_rule" where
  "manual_rule N prm =
     \<lparr> sru_family = nru_family prm, sru_priority = nru_priority prm, sru_action = ''lookup'',
       sru_table = nru_table prm, sru_goto = None,
       sru_from = map_option (net_trunc N) (nru_from prm),
       sru_to = map_option (net_trunc N) (nru_to prm),
       sru_fwmark = nru_fwmark prm, sru_fwmask = nru_fwmask prm,
       sru_iifname = nru_iifname prm, sru_oifname = nru_oifname prm,
       sru_uid_range = None, sru_source_port_range = None, sru_destination_port_range = None,
       sru_ip_protocol = None, sru_suppress_prefix_length = None, sru_suppress_if_group = None,
       sru_tun_id = None, sru_tos = 0, sru_invert = nru_invert prm,
       sru_protocol = RTPROT_NETWORK_ORCHESTRATOR, sru_managed = True \<rparr>"

definition net_rule_add ::
    "ipnet_crate \<Rightarrow> 'k platform \<Rightarrow> nat \<Rightarrow> net_rule_add_params \<Rightarrow> 'k daemon \<Rightarrow> unit io \<times> 'k daemon" where
  "net_rule_add N P uid prm d =
     (let fam_ok = option_ok (\<lambda>n. is_ipv4 (net_addr n) = (nru_family prm = Ipv4)) in
      if nru_priority prm = 0 then (Err InvalidInput, d)
      else if \<not> editable_table (nru_table prm) then (Err InvalidInput, d)
      else if \<not> (fam_ok (nru_from prm) \<and> fam_ok (nru_to prm)) then (Err InvalidInput, d)
      else if \<not> (option_ok validate_iface_name (nru_iifname prm)
                 \<and> option_ok validate_iface_name (nru_oifname prm)) then (Err InvalidInput, d)
      else (let rule = manual_rule N prm in
            manual_edit P uid (NetRule rule) Applying
              (with_policy P (\<lambda>px. px_add_system_rule px rule)) (mark_state Applied) d))"

definition rule_owned_by :: "system_rule \<Rightarrow> owned_resource \<Rightarrow> bool" where
  "rule_owned_by rule r =
     (case r of Rule o' \<Rightarrow> same_rule rule o' | NetRule s \<Rightarrow> s = rule | _ \<Rightarrow> False)"

definition net_rule_del_owned ::
    "'k platform \<Rightarrow> nat \<Rightarrow> system_rule \<Rightarrow> 'k daemon \<Rightarrow> net_edit_outcome io \<times> 'k daemon" where
  "net_rule_del_owned P uid rule d =
     (let owner = map_option je_owner
            (List.find (\<lambda>e. list_ex (rule_owned_by rule) (je_resources e))
               (filter (\<lambda>e. je_uid e = uid) (d_journal d)))
      in if owner \<noteq> None \<and> owner \<noteq> Some MANUAL_OWNER then (Err InvalidInput, d)
         else case with_policy P (\<lambda>px. px_remove_system_rule px rule) (d_world d) of
           (Err e, w) \<Rightarrow> (Err e, d\<lparr>d_world := w\<rparr>)
         | (Ok _, w) \<Rightarrow>
             (let d = d\<lparr>d_world := w\<rparr>;
                  d = (if owner = Some MANUAL_OWNER
                       then (case owner_position uid MANUAL_OWNER d of
                               None \<Rightarrow> d
                             | Some i \<Rightarrow> retain_resources i
                                 (\<lambda>r. case r of NetRule s \<Rightarrow> s \<noteq> rule | _ \<Rightarrow> True) d)
                       else d)
              in (Ok Deleted, persist P d)))"

definition editable_actions :: "string list" where
  "editable_actions = [''lookup'', ''goto'', ''nop'', ''blackhole'', ''unreachable'', ''prohibit'']"

definition net_rule_del ::
    "'k platform \<Rightarrow> nat \<Rightarrow> system_rule \<Rightarrow> 'k daemon \<Rightarrow> net_edit_outcome io \<times> 'k daemon" where
  "net_rule_del P uid rule d =
     (if sru_priority rule = 0 then (Err InvalidInput, d)
      else if sru_action rule \<notin> set editable_actions then (Err InvalidInput, d)
      else if sru_managed rule then net_rule_del_owned P uid rule d
      else (let (res, d) = manual_edit P uid (SuppressedRule rule) Applied
                             (with_policy P (\<lambda>px. px_remove_system_rule px rule)) id d
            in (map_result (\<lambda>_. Suppressed) res, d)))"

section \<open>Reconciling the overrides\<close>

definition reconcile_override ::
    "'k platform \<Rightarrow> net_tables \<Rightarrow> owned_resource \<Rightarrow> bool \<times> 'k \<Rightarrow> bool \<times> 'k" where
  "reconcile_override P tables r cw =
     (let (changed, w) = cw;
          upd = (\<lambda>(res, w'). (changed \<or> is_ok res, w'))
      in case r of
           NetRoute route \<Rightarrow>
             if list_ex (\<lambda>s. same_system_route s route) (nt_routes tables) then (changed, w)
             else upd (pf_add_system_route P route w)
         | NetRule rule \<Rightarrow>
             if rule \<in> set (nt_rules tables) then (changed, w)
             else upd (with_policy P (\<lambda>px. px_add_system_rule px rule) w)
         | SuppressedRoute route \<Rightarrow>
             if list_ex (\<lambda>s. same_system_route s route) (nt_routes tables)
             then upd (pf_remove_system_route P route w) else (changed, w)
         | SuppressedRule rule \<Rightarrow>
             if rule \<in> set (nt_rules tables)
             then upd (with_policy P (\<lambda>px. px_remove_system_rule px rule) w) else (changed, w)
         | _ \<Rightarrow> (changed, w))"

definition reconcile_manual :: "'k platform \<Rightarrow> nat \<Rightarrow> 'k daemon \<Rightarrow> bool \<times> 'k daemon" where
  "reconcile_manual P i d =
     (case pf_net_tables P (d_world d) of
        Err _ \<Rightarrow> (False, d)
      | Ok tables \<Rightarrow>
          (let (changed, w) = fold (reconcile_override P tables) (je_resources (d_journal d ! i))
                                (False, d_world d)
           in (changed, d\<lparr>d_world := w\<rparr>)))"

section \<open>Journal keys\<close>

definition blank_manual :: "nat \<Rightarrow> journal_entry" where
  "blank_manual uid =
     \<lparr> je_uid = uid, je_owner = MANUAL_OWNER, je_state = Applying, je_resources = [] \<rparr>"

lemma blank_manual_simps [simp]:
  "je_key (blank_manual uid) = (uid, MANUAL_OWNER)" "je_resources (blank_manual uid) = []"
  by (simp_all add: blank_manual_def je_key_def)

lemma manual_entry_cases:
  assumes "manual_entry P uid d = (res, d')"
  obtains
    (old) i where "owner_position uid MANUAL_OWNER d = Some i" and "res = Ok i" and "d' = d"
  | (new) w where "owner_position uid MANUAL_OWNER d = None" and "res = Ok (length (d_journal d))"
      and "pf_save P (d_journal d @ [blank_manual uid]) (d_world d) = (Ok (), w)"
      and "d' = d\<lparr>d_journal := d_journal d @ [blank_manual uid], d_world := w\<rparr>"
  | (unsaved) e w where "owner_position uid MANUAL_OWNER d = None" and "res = Err e"
      and "pf_save P (d_journal d @ [blank_manual uid]) (d_world d) = (Err e, w)"
      and "d' = d\<lparr>d_journal := d_journal d @ [blank_manual uid], d_world := w\<rparr>"
proof (cases "owner_position uid MANUAL_OWNER d")
  case None
  obtain sv w where sv: "pf_save P (d_journal d @ [blank_manual uid]) (d_world d) = (sv, w)" by fastforce
  have "res = map_result (\<lambda>_. length (d_journal d)) sv"
    "d' = d\<lparr>d_journal := d_journal d @ [blank_manual uid], d_world := w\<rparr>"
    using assms None sv by (simp_all add: manual_entry_def save_journal_def blank_manual_def)
  note r = this
  show ?thesis
  proof (cases sv)
    case (Ok u)
    show ?thesis by (rule new [of w]) (use None sv r Ok in simp_all)
  next
    case (Err e)
    show ?thesis by (rule unsaved [of e w]) (use None sv r Err in simp_all)
  qed
next
  case (Some i)
  show ?thesis by (rule old [of i]) (use assms Some in \<open>simp_all add: manual_entry_def\<close>)
qed

lemma manual_entry_index:
  "manual_entry P uid d = (Ok i, d') \<Longrightarrow>
     i < length (d_journal d') \<and> je_key (d_journal d' ! i) = (uid, MANUAL_OWNER)"
  by (cases rule: manual_entry_cases) (auto dest: owner_position_SomeD)

lemma manual_entry_keys:
  "manual_entry P uid d = (res, d') \<Longrightarrow> keys_distinct d \<Longrightarrow> keys_distinct d'"
  by (cases rule: manual_entry_cases) (auto simp: keys_distinct_def owner_position_None_iff)

lemma push_resource_key [simp]: "je_key (push_resource r st e) = je_key e"
  by (simp add: push_resource_def je_key_def)

lemma keys_distinct_set_entry:
  "keys_distinct d \<Longrightarrow> (\<And>e. je_key (f e) = je_key e) \<Longrightarrow> keys_distinct (set_entry i f d)"
  by (cases "i < length (d_journal d)") (simp_all add: keys_distinct_def list_update_beyond)

lemma keys_distinct_pop: "keys_distinct d \<Longrightarrow> keys_distinct (pop_resource i d)"
  by (auto simp: pop_resource_def Let_def intro!: keys_distinct_set_entry)

lemma keys_distinct_retain: "keys_distinct d \<Longrightarrow> keys_distinct (retain_resources i keep d)"
  by (auto simp: retain_resources_def Let_def intro!: keys_distinct_set_entry)

lemma keys_distinct_save: "save_journal P d = (r, d') \<Longrightarrow> keys_distinct d \<Longrightarrow> keys_distinct d'"
  by (simp add: keys_distinct_def)

lemma manual_edit_keys:
  assumes "keys_distinct d" and "\<And>e. je_key (finish e) = je_key e"
  shows "keys_distinct (snd (manual_edit P uid r st call finish d))"
  using assms unfolding manual_edit_def
  by (auto split: prod.splits result.splits
      intro!: keys_distinct_intros(2,3) keys_distinct_set_entry keys_distinct_pop
      elim!: keys_distinct_save manual_entry_keys)

lemma net_edit_keys:
  assumes "keys_distinct d"
  shows "keys_distinct (snd (net_route_add N P uid prm d))"
    and "keys_distinct (snd (net_route_del P uid route d))"
    and "keys_distinct (snd (net_rule_add N P uid rprm d))"
    and "keys_distinct (snd (net_rule_del P uid rule d))"
    and "keys_distinct (snd (reconcile_manual P i d))"
proof -
  have e: "keys_distinct (snd (manual_edit P uid r st call (mark_state Applied) d))"
    "keys_distinct (snd (manual_edit P uid r st call id d))" for r st call
    using assms by (auto intro!: manual_edit_keys)
  have m: "keys_distinct (snd (net_route_del_manual P uid route d))"
    using assms unfolding net_route_del_manual_def Let_def
    by (auto split: prod.splits result.splits option.splits
        intro!: keys_distinct_intros(2,3) keys_distinct_retain)
  have o: "keys_distinct (snd (net_route_del_owned P uid route d))"
    using assms m unfolding net_route_del_owned_def
    by (auto split: prod.splits option.splits)
  have r: "keys_distinct (snd (net_rule_del_owned P uid rule d))"
    using assms unfolding net_rule_del_owned_def Let_def
    by (auto split: prod.splits result.splits option.splits
        intro!: keys_distinct_intros(2,3) keys_distinct_retain)
  show "keys_distinct (snd (net_route_add N P uid prm d))"
    using assms e by (auto simp: net_route_add_def Let_def split: result.splits)
  show "keys_distinct (snd (net_route_del P uid route d))"
    using assms e o by (auto simp: net_route_del_def Let_def split: prod.splits) (metis snd_conv)
  show "keys_distinct (snd (net_rule_add N P uid rprm d))"
    using assms e by (auto simp: net_rule_add_def Let_def)
  show "keys_distinct (snd (net_rule_del P uid rule d))"
    using assms e r by (auto simp: net_rule_del_def Let_def split: prod.splits) (metis snd_conv)
  show "keys_distinct (snd (reconcile_manual P i d))"
    using assms by (auto simp: reconcile_manual_def split: result.splits prod.splits)
qed

lemma manual_edit_cases:
  assumes "manual_edit P uid r st call finish d = (res, d')"
  obtains
    (no_entry) e where "manual_entry P uid d = (Err e, d')" and "res = Err e"
  | (unsaved) i d1 e where "manual_entry P uid d = (Ok i, d1)"
      and "save_journal P (set_entry i (push_resource r st) d1) = (Err e, d')" and "res = Err e"
  | (called) i d1 d2 out w where "manual_entry P uid d = (Ok i, d1)"
      and "save_journal P (set_entry i (push_resource r st) d1) = (Ok (), d2)"
      and "call (d_world d2) = (out, w)" and "res = out"
      and "d' = persist P (if is_ok out then set_entry i finish (d2\<lparr>d_world := w\<rparr>)
                           else pop_resource i (d2\<lparr>d_world := w\<rparr>))"
proof -
  obtain me d1 where me: "manual_entry P uid d = (me, d1)" by fastforce
  show ?thesis
  proof (cases me)
    case (Err e)
    show ?thesis by (rule no_entry [of e]) (use assms me Err in \<open>simp_all add: manual_edit_def\<close>)
  next
    case (Ok i)
    note found = me [unfolded Ok]
    obtain sv d2 where sv: "save_journal P (set_entry i (push_resource r st) d1) = (sv, d2)" by fastforce
    obtain out w where out: "call (d_world d2) = (out, w)" by fastforce
    show ?thesis
    proof (cases sv)
      case (Err e)
      show ?thesis
        by (rule unsaved [of i d1 e]) (use assms found sv Err in \<open>simp_all add: manual_edit_def\<close>)
    next
      case (Ok u)
      have fin: "res = out \<and> d' = persist P (if is_ok out then set_entry i finish (d2\<lparr>d_world := w\<rparr>)
                           else pop_resource i (d2\<lparr>d_world := w\<rparr>))"
        using assms unfolding manual_edit_def found prod.case result.case sv Ok out
        by (cases out) auto
      show ?thesis by (rule called [OF found _ out]) (use sv Ok fin in auto)
    qed
  qed
qed

section \<open>Suppress and restore\<close>

text \<open>The kernel's side: calls on full route specifications do what they report, \<open>AlreadyExists\<close> is
  only reported for a route that is there, and saving the journal changes no route.\<close>

definition faithful_system_routes :: "'k platform \<Rightarrow> ('k \<Rightarrow> system_route set) \<Rightarrow> bool" where
  "faithful_system_routes P view \<longleftrightarrow>
     (\<forall>r w w'. pf_add_system_route P r w = (Ok (), w') \<longrightarrow> view w' = insert r (view w))
   \<and> (\<forall>r w e w'. pf_add_system_route P r w = (Err e, w') \<longrightarrow>
        view w' = view w \<and> (e = AlreadyExists \<longrightarrow> r \<in> view w))
   \<and> (\<forall>r w w'. pf_remove_system_route P r w = (Ok (), w') \<longrightarrow> view w' = view w - {r})
   \<and> (\<forall>r w e w'. pf_remove_system_route P r w = (Err e, w') \<longrightarrow> view w' = view w)
   \<and> (\<forall>J w r w'. pf_save P J w = (r, w') \<longrightarrow> view w' = view w)"

lemma faithful_system_routesD:
  assumes "faithful_system_routes P view"
  shows "pf_add_system_route P r w = (Ok (), w') \<Longrightarrow> view w' = insert r (view w)"
    and "pf_add_system_route P r w = (Err e, w') \<Longrightarrow> view w' = view w \<and> (e = AlreadyExists \<longrightarrow> r \<in> view w)"
    and "pf_remove_system_route P r w = (Ok (), w') \<Longrightarrow> view w' = view w - {r}"
    and "pf_save P J w = (sv, w') \<Longrightarrow> view w' = view w"
proof -
  note c = assms [unfolded faithful_system_routes_def]
  show "pf_add_system_route P r w = (Ok (), w') \<Longrightarrow> view w' = insert r (view w)"
    by (rule c [THEN conjunct1, rule_format])
  show "pf_add_system_route P r w = (Err e, w') \<Longrightarrow> view w' = view w \<and> (e = AlreadyExists \<longrightarrow> r \<in> view w)"
    by (rule c [THEN conjunct2, THEN conjunct1, THEN spec, THEN spec, THEN spec, THEN spec, THEN mp])
  show "pf_remove_system_route P r w = (Ok (), w') \<Longrightarrow> view w' = view w - {r}"
    by (rule c [THEN conjunct2, THEN conjunct2, THEN conjunct1, rule_format])
  show "pf_save P J w = (sv, w') \<Longrightarrow> view w' = view w"
    by (rule c [THEN conjunct2, THEN conjunct2, THEN conjunct2, THEN conjunct2, rule_format])
qed

lemma system_view_save:
  assumes "faithful_system_routes P view"
  shows "save_journal P d = (r, d') \<Longrightarrow> view (d_world d') = view (d_world d)"
    and "view (d_world (persist P d)) = view (d_world d)"
proof -
  obtain sv w where sv: "pf_save P (d_journal d) (d_world d) = (sv, w)" by fastforce
  have w: "snd (save_journal P d) = d\<lparr>d_world := w\<rparr>" using sv by (simp add: save_journal_def)
  have v: "view (d_world (snd (save_journal P d))) = view (d_world d)"
    unfolding w using faithful_system_routesD(4) [OF assms sv] by simp
  then show "view (d_world (persist P d)) = view (d_world d)" unfolding persist_def .
  show "view (d_world d') = view (d_world d)" if "save_journal P d = (r, d')"
    using v unfolding that snd_conv .
qed

lemma net_route_del_foreign:
  assumes "net_route_del P uid r d = (Ok out, d')" and "\<not> sr_managed r"
    and "owner_position uid MANUAL_OWNER d = None"
  obtains w0 d2 w where
    "pf_save P (d_journal d @ [blank_manual uid]) (d_world d) = (Ok (), w0)"
    and "save_journal P (d\<lparr>d_journal := d_journal d
            @ [push_resource (SuppressedRoute r) Applied (blank_manual uid)], d_world := w0\<rparr>) = (Ok (), d2)"
    and "pf_remove_system_route P r (d_world d2) = (Ok (), w)"
    and "d' = persist P (d2\<lparr>d_world := w\<rparr>)"
proof -
  from assms have ed: "manual_edit P uid (SuppressedRoute r) Applied (pf_remove_system_route P r) id d
      = (Ok (), d')"
    by (auto simp: net_route_del_def Let_def split: if_splits prod.splits)
      (metis map_result.simps result.exhaust result.distinct(1) old.unit.exhaust)
  then show ?thesis
  proof (cases rule: manual_edit_cases)
    case (called i d1 d2 out w)
    from called(1) assms(3) obtain w0 where i: "i = length (d_journal d)"
      and sv: "pf_save P (d_journal d @ [blank_manual uid]) (d_world d) = (Ok (), w0)"
      and d1: "d1 = d\<lparr>d_journal := d_journal d @ [blank_manual uid], d_world := w0\<rparr>"
      by (cases rule: manual_entry_cases) auto
    have "set_entry i (push_resource (SuppressedRoute r) Applied) d1 = d\<lparr>d_journal := d_journal d
            @ [push_resource (SuppressedRoute r) Applied (blank_manual uid)], d_world := w0\<rparr>"
      by (simp add: i d1 set_entry_def)
    moreover have "set_entry i id (d2\<lparr>d_world := w\<rparr>) = d2\<lparr>d_world := w\<rparr>" by (simp add: set_entry_def)
    ultimately show ?thesis using that [OF sv _ _] called by auto
  qed auto
qed

text \<open>C27: deleting a foreign route is a suppression.  If \<open>net.route.del\<close> on a route the daemon does not
  own succeeds for a caller without earlier overrides, the route is gone from the kernel; when the caller's
  manual owner is then torn down with success, the kernel's routes and the journal are exactly as they were before the
  deletion.  (Earlier overrides of the caller would be in the same entry and be undone with it.)\<close>

theorem suppress_restore_roundtrip:
  assumes "faithful_system_routes P view" and "owner_position uid MANUAL_OWNER d = None"
    and "r \<in> view (d_world d)" and "\<not> sr_managed r"
    and "net_route_del P uid r d = (Ok out, d1)"
    and "remove_owner P uid ''manual'' d1 = (Ok n, d2)"
  shows "out = Suppressed \<and> r \<notin> view (d_world d1)
       \<and> view (d_world d2) = view (d_world d) \<and> d_journal d2 = d_journal d"
proof -
  from net_route_del_foreign [OF assms(5,4,2)] obtain w0 da w where
    sv: "pf_save P (d_journal d @ [blank_manual uid]) (d_world d) = (Ok (), w0)"
    and sv2: "save_journal P (d\<lparr>d_journal := d_journal d
        @ [push_resource (SuppressedRoute r) Applied (blank_manual uid)], d_world := w0\<rparr>) = (Ok (), da)"
    and rm: "pf_remove_system_route P r (d_world da) = (Ok (), w)"
    and d1: "d1 = persist P (da\<lparr>d_world := w\<rparr>)" .
  have v1: "view (d_world d1) = view (d_world d) - {r}"
    using faithful_system_routesD(3) [OF assms(1) rm] faithful_system_routesD(4) [OF assms(1) sv]
      system_view_save(1) [OF assms(1) sv2] system_view_save(2) [OF assms(1)] d1 by simp
  let ?e = "push_resource (SuppressedRoute r) Applied (blank_manual uid)"
  have J1: "d_journal d1 = d_journal d @ [?e]" using sv2 d1 by simp
  have pos: "owner_position uid ''manual'' d1 = Some (length (d_journal d))"
    using assms(2) by (auto simp: owner_position_def J1 MANUAL_OWNER_def position_None_iff
        position_append_None blank_manual_def push_resource_def)
  obtain add w3 where add: "pf_add_system_route P r (d_world d1) = (add, w3)" by fastforce
  have td: "teardown_entry P (length (d_journal d)) d1 = (if is_ok (tolerate AlreadyExists add)
      then (Ok (), drop_entry (length (d_journal d)) (d1\<lparr>d_world := w3\<rparr>))
      else (Err Other, set_entry (length (d_journal d)) (keep_stale [SuppressedRoute r]) (d1\<lparr>d_world := w3\<rparr>)))"
    using add by (simp add: teardown_entry_def J1 push_resource_def blank_manual_def MANUAL_OWNER_def
        starts_with_def teardown_generic_entry_def generic_step_def undo_generic_def finish_entry_def
        outcome_def)
  have fin: "is_ok (tolerate AlreadyExists add)"
      "d2 = persist P (drop_entry (length (d_journal d)) (d1\<lparr>d_world := w3\<rparr>))"
    using assms(6) pos td by (auto simp: remove_owner_def starts_with_def split: if_splits)
  have "view w3 = insert r (view (d_world d1))"
    using fin(1) add faithful_system_routesD(1,2) [OF assms(1), of r "d_world d1"] v1
    by (cases add) auto
  then have "view (d_world d2) = view (d_world d)"
    using fin(2) v1 system_view_save(2) [OF assms(1)] assms(3) by auto
  moreover have "d_journal d2 = d_journal d" using fin(2) J1 by (simp add: remove_nth_def)
  moreover have "out = Suppressed"
    using assms(4,5) by (auto simp: net_route_del_def Let_def split: if_splits prod.splits)
      (metis map_result.simps result.exhaust result.inject(1) result.distinct(1))
  ultimately show ?thesis using v1 by simp
qed

lemma faithful_system_routes_sim: "faithful_system_routes sim_platform (set \<circ> sim_system_routes)"
  by (auto simp: faithful_system_routes_def sim_platform_def split: if_splits)

definition example_foreign :: "sim daemon" where
  "example_foreign = fresh_daemon [] (quiet_sim\<lparr>sim_system_routes := [example_system_route]\<rparr>)"

theorem suppress_restore_roundtrip_witness:
  "let (res1, d1) = net_route_del sim_platform 1000 example_system_route example_foreign;
       (res2, d2) = remove_owner sim_platform 1000 ''manual'' d1
   in is_ok res1 \<and> is_ok res2 \<and> example_system_route \<notin> set (sim_system_routes (d_world d1))
      \<and> set (sim_system_routes (d_world d2)) = {example_system_route} \<and> d_journal d2 = []"
proof -
  let ?o1 = "net_route_del sim_platform 1000 example_system_route example_foreign"
  let ?o2 = "remove_owner sim_platform 1000 ''manual'' (snd ?o1)"
  have r1: "fst ?o1 = Ok Suppressed" and r2: "fst ?o2 = Ok 1"
    and v: "example_system_route \<in> (set \<circ> sim_system_routes) (d_world example_foreign)"
    and p: "owner_position 1000 MANUAL_OWNER example_foreign = None"
    and m: "\<not> sr_managed example_system_route" by code_simp+
  have o1: "?o1 = (Ok Suppressed, snd ?o1)" using r1 by (metis prod.collapse)
  have o2: "?o2 = (Ok 1, snd ?o2)" using r2 by (metis prod.collapse)
  have s: "(set \<circ> sim_system_routes) (d_world example_foreign) = {example_system_route}"
    "d_journal example_foreign = []"
    by (simp_all add: example_foreign_def fresh_daemon_def)
  from suppress_restore_roundtrip [OF faithful_system_routes_sim p v m o1 o2] s
  have "example_system_route \<notin> set (sim_system_routes (d_world (snd ?o1)))"
    "set (sim_system_routes (d_world (snd ?o2))) = {example_system_route}" "d_journal (snd ?o2) = []"
    by simp_all
  then show ?thesis using r1 r2 unfolding Let_def case_prod_unfold by simp
qed

section \<open>Where the overrides lose their state\<close>

text \<open>An edit of an existing entry that fails, at the save or in the kernel, leaves the entry in the state of the edit,
  with its earlier resources.\<close>

lemma manual_edit_failure:
  assumes "manual_edit P uid r st call finish d = (Err e, d')" and "owner_position uid MANUAL_OWNER d = Some i"
    and "je_resources (d_journal d ! i) \<noteq> []"
  shows "\<exists>rs. d_journal d' = (d_journal d)[i := (d_journal d ! i)\<lparr>je_resources := je_resources (d_journal d ! i) @ rs, je_state := st\<rparr>]"
proof -
  have i: "i < length (d_journal d)" using owner_position_SomeD [OF assms(2)] by simp
  from assms(1) show ?thesis
  proof (cases rule: manual_edit_cases)
    case (no_entry e')
    from no_entry(1) assms(2) show ?thesis by (cases rule: manual_entry_cases) auto
  next
    case (unsaved j d1 e')
    from unsaved(1) assms(2) have "j = i" "d1 = d" by (cases rule: manual_entry_cases; auto)+
    then show ?thesis using unsaved(2) i by (intro exI [of _ "[r]"]) (simp add: push_resource_def)
  next
    case (called j d1 d2 out w)
    from called(1) assms(2) have j: "j = i" "d1 = d" by (cases rule: manual_entry_cases; auto)+
    then have "d_journal d2 = (d_journal d)[i := push_resource r st (d_journal d ! i)]"
      using called(2) by simp
    then show ?thesis using called(4,5) assms(3) i
      by (intro exI [of _ "[]"]) (auto simp: pop_resource_def Let_def push_resource_def j)
  qed
qed

definition example_override :: "sim daemon" where
  "example_override = fresh_daemon
     [\<lparr> je_uid = 1000, je_owner = ''manual'', je_state = Applied,
        je_resources = [SuppressedRoute example_system_route] \<rparr>]
     (quiet_sim\<lparr>sim_refuse_system := True\<rparr>)"

definition example_add :: net_route_add_params where
  "example_add = \<lparr> nra_destination = IpNet (V4 3232235776) 24, nra_table = None, nra_gateway = None,
     nra_interface_name = None, nra_interface_index = Some 2, nra_metric = None,
     nra_pref_source = None \<rparr>"

definition example_unsaved :: "sim daemon" where
  "example_unsaved = fresh_daemon [blank_manual 1000]
     (quiet_sim\<lparr>sim_system_routes := [example_system_route], sim_disk_full := True\<rparr>)"

text \<open>a deletion that was refused happens later.  If the journal cannot be saved, \<open>net.route.del\<close> of
  a foreign route returns an error and leaves the kernel alone, but the suppression stays in the
  in-memory journal as \<open>Applied\<close>, and the next reconcile pass deletes the route.\<close>

theorem net_route_del_unsaved_takes_effect_later:
  "\<exists>P d d1 d2 e. net_route_del (P :: sim platform) 1000 example_system_route d = (Err e, d1)
     \<and> sim_system_routes (d_world d1) = [example_system_route]
     \<and> map je_state (d_journal d1) = [Applied]
     \<and> reconcile_manual P 0 d1 = (True, d2) \<and> sim_system_routes (d_world d2) = []"
proof -
  let ?o = "net_route_del sim_platform 1000 example_system_route example_unsaved"
  have e: "fst ?o = Err Other" and k: "sim_system_routes (d_world (snd ?o)) = [example_system_route]"
    and st: "map je_state (d_journal (snd ?o)) = [Applied]"
    and c: "fst (reconcile_manual sim_platform 0 (snd ?o)) = True"
    and g: "sim_system_routes (d_world (snd (reconcile_manual sim_platform 0 (snd ?o)))) = []"
    by code_simp+
  obtain res d1 where o: "?o = (res, d1)" by fastforce
  obtain ch d2 where o2: "reconcile_manual sim_platform 0 d1 = (ch, d2)" by fastforce
  show ?thesis using e k st c g unfolding o snd_conv fst_conv o2 using o o2 by metis
qed

definition example_two_users :: "sim daemon" where
  "example_two_users = fresh_daemon
     [\<lparr> je_uid = 1001, je_owner = ''manual'', je_state = Applied,
        je_resources = [NetRoute (example_system_route\<lparr>sr_managed := True\<rparr>)] \<rparr>]
     (quiet_sim\<lparr>sim_system_routes := [example_system_route\<lparr>sr_managed := True\<rparr>]\<rparr>)"

text \<open>one user can delete another user's route.  The ownership test of \<open>net.route.del\<close> on a
  daemon-installed route only looks at the caller's own entries, so a route another uid owns counts
  as an orphan: it is deleted from the kernel while the other uid's entry still lists it.\<close>

theorem net_route_del_ignores_other_owners:
  "\<exists>P d d1 route. net_route_del (P :: sim platform) 1000 route d = (Ok Deleted, d1)
     \<and> d_journal d1 = d_journal d
     \<and> (\<exists>e \<in> set (d_journal d1). je_uid e = 1001 \<and> je_owner e = ''manual'' \<and> je_state e = Applied
          \<and> NetRoute route \<in> set (je_resources e))
     \<and> route \<in> set (sim_system_routes (d_world d)) \<and> route \<notin> set (sim_system_routes (d_world d1))"
proof -
  let ?r = "example_system_route\<lparr>sr_managed := True\<rparr>"
  let ?o = "net_route_del sim_platform 1000 ?r example_two_users"
  have e: "fst ?o = Ok Deleted" and J: "d_journal (snd ?o) = d_journal example_two_users"
    and own: "list_ex (\<lambda>e. je_uid e = 1001 \<and> je_owner e = ''manual'' \<and> je_state e = Applied
          \<and> NetRoute ?r \<in> set (je_resources e)) (d_journal example_two_users)"
    and k: "?r \<in> set (sim_system_routes (d_world example_two_users))"
      "?r \<notin> set (sim_system_routes (d_world (snd ?o)))" by code_simp+
  obtain res d1 where o: "?o = (res, d1)" by fastforce
  show ?thesis using e J own k unfolding o snd_conv fst_conv list_ex_iff using o by metis
qed

end
