(* ===== verification/Crash_Safety.thy ===== *)
theory Crash_Safety
  imports Manual_Overrides
begin

text \<open>
  Crash safety of the write-ahead journal.  Every call the daemon makes to the journal store and to
  the route and rule executors is an event; \<open>traced P\<close> is the platform \<open>P\<close> with an event log.  A crash
  may come after any event.  What startup recovery then finds is the journal last saved with success;
  what it has to undo is the set of effects the events so far had on the kernel.  The contract of
  every operation, the locale \<open>journaled_op\<close>, is that at each of these points every effect is listed
  in the journal on disk.
\<close>

section \<open>Events\<close>

datatype event =
    Ev_Save journal "unit io"
  | Ev_Add applied_route "unit io"
  | Ev_Remove applied_route "unit io"
  | Ev_Sys_Add system_route "unit io"
  | Ev_Sys_Remove system_route "unit io"
  | Ev_Rule_Add system_rule "unit io"
  | Ev_Rule_Remove system_rule "unit io"

type_synonym 'k logged_world = "'k \<times> event list"

definition logged :: "('k \<Rightarrow> 'a \<times> 'k) \<Rightarrow> ('a \<Rightarrow> event) \<Rightarrow> 'k logged_world \<Rightarrow> 'a \<times> 'k logged_world" where
  "logged f ev s = (let (r, w) = f (fst s) in (r, (w, snd s @ [ev r])))"

definition silent :: "('k \<Rightarrow> 'a \<times> 'k) \<Rightarrow> 'k logged_world \<Rightarrow> 'a \<times> 'k logged_world" where
  "silent f s = (let (r, w) = f (fst s) in (r, (w, snd s)))"

definition traced_routes :: "'k route_executor \<Rightarrow> 'k logged_world route_executor" where
  "traced_routes ex = \<lparr> rx_add = (\<lambda>r. logged (rx_add ex r) (Ev_Add r)),
     rx_remove = (\<lambda>r. logged (rx_remove ex r) (Ev_Remove r)) \<rparr>"

definition traced_policy :: "'k policy_executor \<Rightarrow> 'k logged_world policy_executor" where
  "traced_policy px = \<lparr> px_rules_snapshot = (\<lambda>s. px_rules_snapshot px (fst s)),
     px_table_in_use = (\<lambda>t s. px_table_in_use px t (fst s)), px_add_rule = (\<lambda>r. silent (px_add_rule px r)),
     px_remove_rule = (\<lambda>r. silent (px_remove_rule px r)),
     px_rule_present = (\<lambda>r s. px_rule_present px r (fst s)),
     px_add_system_rule = (\<lambda>r. logged (px_add_system_rule px r) (Ev_Rule_Add r)),
     px_remove_system_rule = (\<lambda>r. logged (px_remove_system_rule px r) (Ev_Rule_Remove r)) \<rparr>"

definition traced_links :: "'k link_executor \<Rightarrow> 'k logged_world link_executor" where
  "traced_links lx = \<lparr> lx_set_link_state = (\<lambda>n up. silent (lx_set_link_state lx n up)),
     lx_remove_link = (\<lambda>n. silent (lx_remove_link lx n)),
     lx_link_kind = (\<lambda>n s. lx_link_kind lx n (fst s)),
     lx_link_index = (\<lambda>n s. lx_link_index lx n (fst s)),
     lx_stop_wg_quick_unit = (\<lambda>n. silent (lx_stop_wg_quick_unit lx n)) \<rparr>"

definition traced_xray :: "'k xray_runner \<Rightarrow> 'k logged_world xray_runner" where
  "traced_xray run = \<lparr> pr_link_index = (\<lambda>n s. pr_link_index run n (fst s)),
     pr_stop = (\<lambda>n. silent (pr_stop run n)), pr_cleanup = (\<lambda>u n. silent (pr_cleanup run u n)),
     xr_verify_binary = (\<lambda>s. xr_verify_binary run (fst s)), xr_start = (\<lambda>u n c g. silent (xr_start run u n c g)),
     xr_respawn = (\<lambda>u n. silent (xr_respawn run u n)), xr_reload = (\<lambda>u n c g. silent (xr_reload run u n c g)),
     xr_health = (\<lambda>n s. xr_health run n (fst s)), xr_query_stats = (\<lambda>n p s. xr_query_stats run n p (fst s)) \<rparr>"

definition traced_openvpn :: "'k openvpn_runner \<Rightarrow> 'k logged_world openvpn_runner" where
  "traced_openvpn run = \<lparr> pr_link_index = (\<lambda>n s. pr_link_index run n (fst s)),
     pr_stop = (\<lambda>n. silent (pr_stop run n)), pr_cleanup = (\<lambda>u n. silent (pr_cleanup run u n)),
     vr_verify_binary = (\<lambda>s. vr_verify_binary run (fst s)), vr_staging_exists = (\<lambda>u n s. vr_staging_exists run u n (fst s)),
     vr_start = (\<lambda>u n c k m. silent (vr_start run u n c k m)), vr_poll = (\<lambda>n. silent (vr_poll run n)) \<rparr>"

definition traced :: "'k platform \<Rightarrow> 'k logged_world platform" where
  "traced P =
     \<lparr> pf_save = (\<lambda>J. logged (pf_save P J) (Ev_Save J)),
       pf_load = (\<lambda>s. pf_load P (fst s)),
       pf_routes = traced_routes (pf_routes P),
       pf_default_gateways = (\<lambda>s. pf_default_gateways P (fst s)),
       pf_on_link_networks = (\<lambda>s. pf_on_link_networks P (fst s)),
       pf_net_tables = (\<lambda>s. pf_net_tables P (fst s)),
       pf_add_system_route = (\<lambda>r. logged (pf_add_system_route P r) (Ev_Sys_Add r)),
       pf_remove_system_route = (\<lambda>r. logged (pf_remove_system_route P r) (Ev_Sys_Remove r)),
       pf_resolve = (\<lambda>h s. pf_resolve P h (fst s)),
       pf_links = traced_links (pf_links P),
       pf_policy = map_option traced_policy (pf_policy P),
       pf_dns = map_option (\<lambda>dx. \<lparr> dx_apply = (\<lambda>l s d f. silent (dx_apply dx l s d f)),
                                    dx_revert = (\<lambda>l. silent (dx_revert dx l)) \<rparr>) (pf_dns P),
       pf_wg = map_option (\<lambda>wg. \<lparr> wx_create_link = (\<lambda>n m. silent (wx_create_link wg n m)),
                    wx_link_owned = (\<lambda>n i m s. wx_link_owned wg n i m (fst s)),
                    wx_link_present = (\<lambda>n i s. wx_link_present wg n i (fst s)),
                    wx_delete_link = (\<lambda>n i m. silent (wx_delete_link wg n i m)),
                    wx_add_address = (\<lambda>i a. silent (wx_add_address wg i a)),
                    wx_remove_address = (\<lambda>i a. silent (wx_remove_address wg i a)),
                    wx_set_mtu = (\<lambda>i m. silent (wx_set_mtu wg i m)),
                    wx_set_state = (\<lambda>i u. silent (wx_set_state wg i u)) \<rparr>) (pf_wg P),
       pf_wg_config = map_option (\<lambda>wc. \<lparr> wc_configure = (\<lambda>n c. silent (wc_configure wc n c)),
                    wc_set_fwmark = (\<lambda>n m. silent (wc_set_fwmark wc n m)),
                    wc_marks_in_use = (\<lambda>s. wc_marks_in_use wc (fst s)),
                    wc_endpoint_ips = (\<lambda>n s. wc_endpoint_ips wc n (fst s)),
                    wc_verify_transport = (\<lambda>n m a b s. wc_verify_transport wc n m a b (fst s)),
                    wc_health = (\<lambda>n s. wc_health wc n (fst s)) \<rparr>) (pf_wg_config P),
       pf_xray = map_option traced_xray (pf_xray P),
       pf_openvpn = map_option traced_openvpn (pf_openvpn P),
       pf_quic = map_option (\<lambda>qx. \<lparr> qx_ensure = (\<lambda>u n. silent (qx_ensure qx u n)),
                    qx_remove = (\<lambda>u n. silent (qx_remove qx u n)) \<rparr>) (pf_quic P) \<rparr>"

section \<open>What a crash leaves behind\<close>

record recovery =
  rv_disk :: journal
  rv_effects :: "owned_resource set"

definition settled :: "error_kind \<Rightarrow> unit io \<Rightarrow> bool" where
  "settled k r \<longleftrightarrow> r = Ok () \<or> r = Err k"

text \<open>An event's effect.  A daemon-owned object (\<open>managed\<close>) is to be removed, a foreign one to be put
  back; a failed save leaves the old file, since the store writes aside and renames.  Netlink deletes a route by
  the fields \<open>same_system_route\<close> compares, so a deletion takes back every record of that route.\<close>

fun observe :: "recovery \<Rightarrow> event \<Rightarrow> recovery" where
  "observe rv (Ev_Save J r) = (if is_ok r then rv\<lparr>rv_disk := J\<rparr> else rv)"
| "observe rv (Ev_Add x r) = (if is_ok r then rv\<lparr>rv_effects := insert (Route x) (rv_effects rv)\<rparr> else rv)"
| "observe rv (Ev_Remove x r) =
     (if settled NotFound r then rv\<lparr>rv_effects := rv_effects rv - {Route x}\<rparr> else rv)"
| "observe rv (Ev_Sys_Add x r) =
     (if sr_managed x
      then (if is_ok r then rv\<lparr>rv_effects := insert (NetRoute x) (rv_effects rv)\<rparr> else rv)
      else (if settled AlreadyExists r then rv\<lparr>rv_effects := rv_effects rv - {SuppressedRoute x}\<rparr> else rv))"
| "observe rv (Ev_Sys_Remove x r) =
     (if sr_managed x
      then (if settled NotFound r then rv\<lparr>rv_effects := rv_effects rv - {NetRoute y | y. same_system_route y x}\<rparr> else rv)
      else (if is_ok r then rv\<lparr>rv_effects := insert (SuppressedRoute x) (rv_effects rv)\<rparr> else rv))"
| "observe rv (Ev_Rule_Add x r) =
     (if sru_managed x
      then (if is_ok r then rv\<lparr>rv_effects := insert (NetRule x) (rv_effects rv)\<rparr> else rv)
      else (if settled AlreadyExists r then rv\<lparr>rv_effects := rv_effects rv - {SuppressedRule x}\<rparr> else rv))"
| "observe rv (Ev_Rule_Remove x r) =
     (if sru_managed x
      then (if settled NotFound r then rv\<lparr>rv_effects := rv_effects rv - {NetRule x}\<rparr> else rv)
      else (if is_ok r then rv\<lparr>rv_effects := insert (SuppressedRule x) (rv_effects rv)\<rparr> else rv))"

definition resources :: "journal \<Rightarrow> owned_resource set" where
  "resources J = (\<Union>e \<in> set J. set (je_resources e))"

text \<open>Everything in effect is on disk, so startup recovery will find it.\<close>

definition recoverable :: "recovery \<Rightarrow> bool" where
  "recoverable rv \<longleftrightarrow> rv_effects rv \<subseteq> resources (rv_disk rv)"

definition crash_safe :: "recovery \<Rightarrow> event list \<Rightarrow> bool" where
  "crash_safe rv evs \<longleftrightarrow> (\<forall>pre. prefix pre evs \<longrightarrow> recoverable (foldl observe rv pre))"

lemma resources_simps [simp]:
  "resources [] = {}" "resources (J @ J') = resources J \<union> resources J'"
  "resources (e # J) = set (je_resources e) \<union> resources J"
  by (auto simp: resources_def)

lemma crash_safe_append:
  "crash_safe rv (xs @ ys) \<longleftrightarrow> crash_safe rv xs \<and> crash_safe (foldl observe rv xs) ys"
  by (auto simp: crash_safe_def prefix_append)

lemma crash_safe_simps [simp]:
  "crash_safe rv [] \<longleftrightarrow> recoverable rv"
  "crash_safe rv [e] \<longleftrightarrow> recoverable rv \<and> recoverable (observe rv e)"
  by (auto simp: crash_safe_def prefix_Cons)

section \<open>A logic of traces\<close>

definition steps ::
    "(recovery \<Rightarrow> bool) \<Rightarrow> event list \<Rightarrow> event list \<Rightarrow> (recovery \<Rightarrow> bool) \<Rightarrow> bool" where
  "steps A tr tr' B \<longleftrightarrow> (\<exists>evs. tr' = tr @ evs \<and>
     (\<forall>rv. recoverable rv \<and> A rv \<longrightarrow> crash_safe rv evs \<and> B (foldl observe rv evs)))"

text \<open>The resources with a kernel object that the events can bring into effect.\<close>

fun tracked :: "owned_resource \<Rightarrow> bool" where
  "tracked (Route _) = True"
| "tracked (NetRoute _) = True"
| "tracked (NetRule _) = True"
| "tracked (SuppressedRoute _) = True"
| "tracked (SuppressedRule _) = True"
| "tracked _ = False"

definition within :: "owned_resource set \<Rightarrow> recovery \<Rightarrow> bool" where
  "within E rv \<longleftrightarrow> rv_effects rv \<subseteq> E \<inter> {r. tracked r}"

definition on_disk :: "journal \<Rightarrow> owned_resource set \<Rightarrow> recovery \<Rightarrow> bool" where
  "on_disk J E rv \<longleftrightarrow> rv_disk rv = J \<and> rv_effects rv \<subseteq> E \<inter> {r. tracked r}"

lemma within_mono: "within E rv \<Longrightarrow> E \<subseteq> F \<Longrightarrow> within F rv"
  unfolding within_def by blast

lemma on_disk_insert:
  "on_disk J E rv \<Longrightarrow> tracked r \<Longrightarrow> insert r E \<subseteq> resources J \<Longrightarrow>
     recoverable (rv\<lparr>rv_effects := insert r (rv_effects rv)\<rparr>)
     \<and> on_disk J (insert r E) (rv\<lparr>rv_effects := insert r (rv_effects rv)\<rparr>)"
  unfolding on_disk_def recoverable_def by auto

lemma crash_safe_end: "crash_safe rv evs \<Longrightarrow> recoverable (foldl observe rv evs)"
  by (simp add: crash_safe_def)

lemma steps_refl: "(\<And>rv. A rv \<Longrightarrow> B rv) \<Longrightarrow> steps A tr tr B"
  by (auto simp: steps_def)

lemma steps_trans: "steps A t t1 B \<Longrightarrow> steps B t1 t2 C \<Longrightarrow> steps A t t2 C"
  unfolding steps_def
proof (elim exE conjE)
  fix e1 e2
  assume "t1 = t @ e1" "t2 = t1 @ e2"
    and 1: "\<forall>rv. recoverable rv \<and> A rv \<longrightarrow> crash_safe rv e1 \<and> B (foldl observe rv e1)"
    and 2: "\<forall>rv. recoverable rv \<and> B rv \<longrightarrow> crash_safe rv e2 \<and> C (foldl observe rv e2)"
  then show "\<exists>evs. t2 = t @ evs \<and> (\<forall>rv. recoverable rv \<and> A rv \<longrightarrow> crash_safe rv evs \<and> C (foldl observe rv evs))"
    by (intro exI [of _ "e1 @ e2"]) (auto simp: crash_safe_append dest: crash_safe_end)
qed

lemma steps_post: "steps A t t' B \<Longrightarrow> (\<And>rv. B rv \<Longrightarrow> C rv) \<Longrightarrow> steps A t t' C"
  by (rule steps_trans) (auto intro: steps_refl)

lemma steps_pre: "(\<And>rv. A rv \<Longrightarrow> B rv) \<Longrightarrow> steps B t t' C \<Longrightarrow> steps A t t' C"
  by (rule steps_trans) (auto intro: steps_refl)

lemma steps_event:
  "(\<And>rv. recoverable rv \<Longrightarrow> A rv \<Longrightarrow> recoverable (observe rv e) \<and> B (observe rv e)) \<Longrightarrow>
     steps A tr (tr @ [e]) B"
  by (auto simp: steps_def)

lemma steps_save_ok: "E \<subseteq> resources J \<Longrightarrow> steps (within E) tr (tr @ [Ev_Save J (Ok ())]) (on_disk J E)"
  by (rule steps_event) (auto simp: within_def on_disk_def recoverable_def)

lemma steps_save_err: "steps A tr (tr @ [Ev_Save J (Err e)]) A"
  by (rule steps_event) auto

lemma steps_save: "E \<subseteq> resources J \<Longrightarrow> steps (within E) tr (tr @ [Ev_Save J r]) (within E)"
  by (rule steps_event) (auto simp: within_def recoverable_def)

lemma steps_forget: "steps (on_disk J E) tr tr (within E)"
  by (rule steps_refl) (auto simp: within_def on_disk_def)

section \<open>The building blocks\<close>

abbreviation trace_of :: "'k logged_world daemon \<Rightarrow> event list" where
  "trace_of d \<equiv> snd (d_world d)"

lemma logged_trace: "logged f ev s = (r, s') \<Longrightarrow> snd s' = snd s @ [ev r]"
  by (auto simp: logged_def Let_def split: prod.splits)

lemma traced_simps [simp]:
  "pf_save (traced P) J = logged (pf_save P J) (Ev_Save J)"
  "rx_add (pf_routes (traced P)) x = logged (rx_add (pf_routes P) x) (Ev_Add x)"
  "rx_remove (pf_routes (traced P)) x = logged (rx_remove (pf_routes P) x) (Ev_Remove x)"
  "pf_add_system_route (traced P) y = logged (pf_add_system_route P y) (Ev_Sys_Add y)"
  "pf_remove_system_route (traced P) y = logged (pf_remove_system_route P y) (Ev_Sys_Remove y)"
  "pf_policy (traced P) = map_option traced_policy (pf_policy P)"
  "px_add_system_rule (traced_policy px) z = logged (px_add_system_rule px z) (Ev_Rule_Add z)"
  "px_remove_system_rule (traced_policy px) z = logged (px_remove_system_rule px z) (Ev_Rule_Remove z)"
  by (simp_all add: traced_def traced_routes_def traced_policy_def)

lemma save_trace:
  "save_journal (traced P) d = (r, d') \<Longrightarrow>
     trace_of d' = trace_of d @ [Ev_Save (d_journal d) r] \<and> d_journal d' = d_journal d"
proof -
  assume sv: "save_journal (traced P) d = (r, d')"
  obtain res s where l: "logged (pf_save P (d_journal d)) (Ev_Save (d_journal d)) (d_world d) = (res, s)"
    by (rule prod.exhaust)
  have "r = res" and "d' = d\<lparr>d_world := s\<rparr>" using sv l by (simp_all add: save_journal_def)
  then show ?thesis using logged_trace [OF l] by simp
qed

lemma persist_trace:
  "\<exists>r. trace_of (persist (traced P) d) = trace_of d @ [Ev_Save (d_journal d) r]"
  using save_trace [of P d] by (cases "save_journal (traced P) d") (auto simp: persist_def)

lemma steps_persist:
  "E \<subseteq> resources (d_journal d) \<Longrightarrow> steps (within E) (trace_of d) (trace_of (persist (traced P) d)) (within E)"
  using persist_trace [of P d] steps_save [of E "d_journal d" "trace_of d"] by auto

lemma remove_each_steps:
  assumes "remove_each (pf_routes (traced P)) rs s = (failed, s')"
    and "E \<union> Route ` set rs \<subseteq> resources J"
  shows "steps (on_disk J (E \<union> Route ` set rs)) (snd s) (snd s') (on_disk J (E \<union> Route ` set failed))"
  using assms
proof (induction rs arbitrary: s failed E)
  case (Cons r rs)
  obtain res s1 where rm: "rx_remove (pf_routes (traced P)) r s = (res, s1)" by (rule prod.exhaust)
  then have t: "snd s1 = snd s @ [Ev_Remove r res]" by (auto dest: logged_trace)
  show ?case
  proof (cases res)
    case (Ok u)
    have "steps (on_disk J (E \<union> Route ` set (r # rs))) (snd s) (snd s1) (on_disk J (E - {Route r} \<union> Route ` set rs))"
      unfolding t by (rule steps_event) (use Ok Cons.prems in \<open>auto simp: on_disk_def recoverable_def settled_def\<close>)
    moreover have "steps (on_disk J (E - {Route r} \<union> Route ` set rs)) (snd s1) (snd s') (on_disk J (E - {Route r} \<union> Route ` set failed))"
      using Cons.IH [of s1 failed "E - {Route r}"] Cons.prems rm Ok by auto
    ultimately show ?thesis by (rule steps_trans [THEN steps_post]) (auto simp: on_disk_def)
  next
    case (Err e)
    then obtain f where f: "remove_each (pf_routes (traced P)) rs s1 = (f, s')" "failed = r # f"
      using Cons.prems(1) rm by (auto split: prod.splits)
    have "steps (on_disk J (E \<union> Route ` set (r # rs))) (snd s) (snd s1) (on_disk J (insert (Route r) E \<union> Route ` set rs))"
      unfolding t by (rule steps_event) (use Err Cons.prems in \<open>auto simp: on_disk_def recoverable_def settled_def\<close>)
    moreover have "steps (on_disk J (insert (Route r) E \<union> Route ` set rs)) (snd s1) (snd s') (on_disk J (insert (Route r) E \<union> Route ` set f))"
      using Cons.IH [of s1 f "insert (Route r) E"] Cons.prems f by auto
    ultimately show ?thesis by (rule steps_trans [THEN steps_post]) (auto simp: on_disk_def f)
  qed
qed (auto intro: steps_refl)

lemma apply_loop_steps:
  assumes "apply_loop (pf_routes (traced P)) added rs s = (res, s')"
    and "E \<union> Route ` set (added @ rs) \<subseteq> resources J"
  shows "steps (on_disk J (E \<union> Route ` set added)) (snd s) (snd s')
     (on_disk J (E \<union> Route ` (case res of Ok _ \<Rightarrow> set (added @ rs) | Err (_, still) \<Rightarrow> set still)))"
  using assms
proof (induction rs arbitrary: s added)
  case (Cons r rs)
  obtain out s1 where ad: "rx_add (pf_routes (traced P)) r s = (out, s1)" by (rule prod.exhaust)
  then have t: "snd s1 = snd s @ [Ev_Add r out]" by (auto dest: logged_trace)
  show ?case
  proof (cases out)
    case (Ok u)
    have "steps (on_disk J (E \<union> Route ` set added)) (snd s) (snd s1) (on_disk J (E \<union> Route ` set (added @ [r])))"
      unfolding t by (rule steps_event) (use Ok Cons.prems in \<open>auto simp: on_disk_def recoverable_def\<close>)
    moreover have "steps (on_disk J (E \<union> Route ` set (added @ [r]))) (snd s1) (snd s')
     (on_disk J (E \<union> Route ` (case res of Ok _ \<Rightarrow> set ((added @ [r]) @ rs) | Err (_, still) \<Rightarrow> set still)))"
      using Cons.IH [of "added @ [r]" s1] Cons.prems ad Ok by auto
    ultimately show ?thesis by (rule steps_trans [THEN steps_post]) (auto split: result.splits)
  next
    case (Err e)
    then obtain still where st: "remove_each (pf_routes (traced P)) (rev added) s1 = (still, s')" "res = Err (e, still)"
      using Cons.prems(1) ad by (auto split: prod.splits)
    have "steps (on_disk J (E \<union> Route ` set added)) (snd s) (snd s1) (on_disk J (E \<union> Route ` set (rev added)))"
      unfolding t by (rule steps_event) (use Err Cons.prems in \<open>auto simp: on_disk_def recoverable_def\<close>)
    moreover have "steps (on_disk J (E \<union> Route ` set (rev added))) (snd s1) (snd s') (on_disk J (E \<union> Route ` set still))"
      using remove_each_steps [OF st(1), of E J] Cons.prems by auto
    ultimately show ?thesis using st(2) by (simp add: steps_trans)
  qed
qed (auto intro: steps_refl)

section \<open>Well-formed journals\<close>

text \<open>Installed objects carry the daemon's marker, suppressed ones do not.\<close>

fun wf_resource :: "owned_resource \<Rightarrow> bool" where
  "wf_resource (NetRoute x) = sr_managed x"
| "wf_resource (SuppressedRoute x) = (\<not> sr_managed x)"
| "wf_resource (NetRule x) = sru_managed x"
| "wf_resource (SuppressedRule x) = (\<not> sru_managed x)"
| "wf_resource _ = True"

definition wf_journal :: "journal \<Rightarrow> bool" where
  "wf_journal J \<longleftrightarrow> (\<forall>r \<in> resources J. wf_resource r)"

lemma wf_journal_mono: "wf_journal J \<Longrightarrow> resources J' \<subseteq> resources J \<Longrightarrow> wf_journal J'"
  by (auto simp: wf_journal_def)

lemma resources_remove_nth:
  "i < length J \<Longrightarrow> resources J = resources (remove_nth i J) \<union> set (je_resources (J ! i))"
  using id_take_nth_drop [of i J] by (metis append_Cons append_Nil remove_nth_def resources_simps(1,2,3) sup_bot_right sup_commute sup_left_commute)

lemma resources_update:
  "i < length J \<Longrightarrow> resources (J[i := x]) = resources (remove_nth i J) \<union> set (je_resources x)"
  by (auto simp: upd_conv_take_nth_drop remove_nth_def)

section \<open>Operations keep the trace safe\<close>

lemma apply_routes_inner_steps:
  assumes "apply_routes_inner N (traced P) uid owner routes attach d = (res, d')"
  shows "steps (within (resources (d_journal d))) (trace_of d) (trace_of d') (within (resources (d_journal d')))"
  using assms
proof (cases rule: apply_routes_inner_cases)
  case (unsaved e w)
  then have "snd w = trace_of d @ [Ev_Save (d_journal d @ [applying_entry uid owner routes attach]) (Err e)]"
    by (auto dest: logged_trace)
  then show ?thesis using unsaved(2) by (simp add: steps_save_err)
next
  case (started res1 w1 w2)
  let ?J = "d_journal d @ [applying_entry uid owner routes attach]" and ?E = "resources (d_journal d)"
  have "snd w1 = trace_of d @ [Ev_Save ?J (Ok ())]" using started(3) by (auto dest: logged_trace)
  then have saved: "steps (within ?E) (trace_of d) (snd w1) (on_disk ?J ?E)"
    by (simp add: steps_save_ok)
  have "?E \<union> Route ` set routes \<subseteq> resources ?J" by (auto simp: applying_entry_def)
  then have "steps (on_disk ?J ?E) (snd w1) (snd w2)
      (on_disk ?J (?E \<union> Route ` (case res1 of Ok _ \<Rightarrow> set routes | Err (_, still) \<Rightarrow> set still)))"
    using apply_loop_steps [of P "[]" routes w1 res1 w2 ?E ?J] started(4)
    by (cases res1) (simp_all add: apply_routes_transactional_def)
  then have run: "steps (within ?E) (trace_of d) (snd w2)
      (within (?E \<union> Route ` (case res1 of Ok _ \<Rightarrow> set routes | Err (_, still) \<Rightarrow> set still)))"
    by (rule steps_trans [OF saved, THEN steps_trans, OF _ steps_forget])
  obtain dk where dk: "d' = persist (traced P) dk" "trace_of dk = snd w2"
      "?E \<union> Route ` (case res1 of Ok _ \<Rightarrow> set routes | Err (_, still) \<Rightarrow> set still) \<subseteq> resources (d_journal dk)"
    using started(5) by (cases res1) (force split: if_splits)+
  show ?thesis unfolding dk(1)
    by (rule steps_trans [OF run [folded dk(2)], THEN steps_post, OF steps_persist [OF dk(3)]])
      (use dk in \<open>auto elim!: within_mono\<close>)
qed (simp add: steps_refl)

lemma apply_routes_inner_wf:
  assumes "apply_routes_inner N P uid owner routes attach d = (res, d')" and "wf_journal (d_journal d)"
  shows "wf_journal (d_journal d')"
proof -
  have a: "r \<in> set (attach_resources attach) \<Longrightarrow> wf_resource r" for r
    by (auto simp: attach_resources_def split: option.splits)
  show ?thesis
    using apply_routes_inner_outcome [OF assms(1)] assms(2) a
    by (auto simp: apply_outcome_def wf_journal_def split: result.splits)
qed

text \<open>A kernel call that brings the resource \<open>r\<close> into effect if it succeeds and nothing if it fails.\<close>

definition effect_call ::
    "('k logged_world \<Rightarrow> unit io \<times> 'k logged_world) \<Rightarrow> owned_resource \<Rightarrow> bool" where
  "effect_call call r \<longleftrightarrow>
     (\<forall>s out s' J E. call s = (out, s') \<longrightarrow> insert r E \<subseteq> resources J \<longrightarrow>
        steps (on_disk J E) (snd s) (snd s') (on_disk J (if is_ok out then insert r E else E)))"

lemma effect_calls:
  "sr_managed x \<Longrightarrow> effect_call (pf_add_system_route (traced P) x) (NetRoute x)"
  "\<not> sr_managed x \<Longrightarrow> effect_call (pf_remove_system_route (traced P) x) (SuppressedRoute x)"
  by (auto simp: effect_call_def on_disk_insert dest!: logged_trace intro!: steps_event)

lemma effect_calls_policy:
  "sru_managed x \<Longrightarrow>
     effect_call (with_policy (traced P) (\<lambda>px. px_add_system_rule px x)) (NetRule x)"
  "\<not> sru_managed x \<Longrightarrow>
     effect_call (with_policy (traced P) (\<lambda>px. px_remove_system_rule px x)) (SuppressedRule x)"
  by (cases "pf_policy P"; auto simp: effect_call_def with_policy_def on_disk_insert
      dest!: logged_trace intro!: steps_event steps_refl)+

lemma manual_entry_steps:
  assumes "manual_entry (traced P) uid d = (res, d')"
  shows "steps (within (resources (d_journal d))) (trace_of d) (trace_of d') (within (resources (d_journal d)))"
    and "resources (d_journal d') = resources (d_journal d)"
proof -
  show "steps (within (resources (d_journal d))) (trace_of d) (trace_of d') (within (resources (d_journal d)))"
    using assms
  proof (cases rule: manual_entry_cases)
    case (new w)
    then show ?thesis
      using steps_save [of "resources (d_journal d)" "d_journal d @ [blank_manual uid]" "trace_of d" "Ok ()"]
      by (auto dest!: logged_trace)
  next
    case (unsaved e w)
    then show ?thesis by (auto dest!: logged_trace intro: steps_save_err)
  qed (simp add: steps_refl)
  show "resources (d_journal d') = resources (d_journal d)"
    using assms by (cases rule: manual_entry_cases) auto
qed

lemma pop_push_resources:
  assumes "d_journal d2 = (d_journal d1)[i := push_resource r st (d_journal d1 ! i)]"
    and "i < length (d_journal d1)"
  shows "resources (d_journal (pop_resource i d2)) = resources (d_journal d1)"
proof -
  have top: "je_resources (d_journal d2 ! i) = je_resources (d_journal d1 ! i) @ [r]"
    using assms by (simp add: push_resource_def)
  have rm: "remove_nth i (d_journal d2) = remove_nth i (d_journal d1)" and len: "i < length (d_journal d2)"
    using assms by simp_all
  show ?thesis
    using top rm len assms(2) resources_remove_nth [of i "d_journal d1"]
    by (auto simp: pop_resource_def Let_def resources_update)
qed

lemma manual_edit_steps:
  assumes "manual_edit (traced P) uid r st call finish d = (res, d')" and "effect_call call r"
    and "\<And>e. je_resources (finish e) = je_resources e"
  shows "steps (within (resources (d_journal d))) (trace_of d) (trace_of d') (within (resources (d_journal d')))
     \<and> resources (d_journal d') \<subseteq> insert r (resources (d_journal d))"
  using assms(1)
proof (cases rule: manual_edit_cases)
  case (no_entry e)
  then show ?thesis using manual_entry_steps [OF no_entry(1)] by auto
next
  case (unsaved i d1 e)
  note me = manual_entry_steps [OF unsaved(1)] manual_entry_index [OF unsaved(1)]
  have J: "resources (d_journal d') = insert r (resources (d_journal d1))"
    using save_trace [OF unsaved(2)] me(3)
    by (auto simp: push_resource_def resources_update resources_remove_nth [of i "d_journal d1"])
  have "steps (within (resources (d_journal d))) (trace_of d) (trace_of d') (within (resources (d_journal d)))"
    using save_trace [OF unsaved(2)] by (auto intro: steps_trans [OF me(1) steps_save_err])
  then show ?thesis by (rule conjI [OF steps_post]) (use J me(2) in \<open>auto simp: within_def\<close>)
next
  case (called i d1 d2 out w)
  note me = manual_entry_steps [OF called(1)] manual_entry_index [OF called(1)]
  let ?E = "resources (d_journal d)"
  have sv: "trace_of d2 = trace_of d1 @ [Ev_Save (d_journal d2) (Ok ())]"
    and J2: "d_journal d2 = (d_journal d1)[i := push_resource r st (d_journal d1 ! i)]"
    using save_trace [OF called(2)] by auto
  have R2: "resources (d_journal d2) = insert r ?E"
    using me(2,3) by (auto simp: J2 push_resource_def resources_update resources_remove_nth [of i "d_journal d1"])
  have saved: "steps (within ?E) (trace_of d1) (trace_of d2) (on_disk (d_journal d2) ?E)"
    unfolding sv by (rule steps_save_ok) (auto simp: R2)
  have "steps (on_disk (d_journal d2) ?E) (trace_of d2) (snd w)
      (on_disk (d_journal d2) (if is_ok out then insert r ?E else ?E))"
    using assms(2) called(3) R2 unfolding effect_call_def by blast
  then have run: "steps (within ?E) (trace_of d) (snd w) (within (if is_ok out then insert r ?E else ?E))"
    by (rule steps_trans [OF steps_trans [OF me(1) saved], THEN steps_trans, OF _ steps_forget])
  define dk where "dk = (if is_ok out then set_entry i finish (d2\<lparr>d_world := w\<rparr>)
                           else pop_resource i (d2\<lparr>d_world := w\<rparr>))"
  have wk: "trace_of dk = snd w" by (simp add: dk_def pop_resource_def Let_def)
  have Rk: "resources (d_journal dk) = (if is_ok out then insert r ?E else ?E)"
    using pop_push_resources [of "d2\<lparr>d_world := w\<rparr>" d1 i r st] me(2,3) J2 R2 assms(3)
    by (auto simp: dk_def resources_update push_resource_def resources_remove_nth [of i "d_journal d2"])
  have d': "d' = persist (traced P) dk" using called(5) dk_def by simp
  have "steps (within ?E) (trace_of d) (trace_of d') (within (resources (d_journal dk)))"
    unfolding d' using steps_trans [OF run [folded wk Rk] steps_persist [of "resources (d_journal dk)" dk P]] by simp
  then show ?thesis using Rk d' by auto
qed

section \<open>Teardown\<close>

lemma within_delete:
  "recoverable rv \<Longrightarrow> within E rv \<Longrightarrow>
     recoverable (rv\<lparr>rv_effects := rv_effects rv - D\<rparr>) \<and> within (E - D) (rv\<lparr>rv_effects := rv_effects rv - D\<rparr>)"
  unfolding within_def recoverable_def by auto

lemma within_untracked: "\<not> tracked r \<Longrightarrow> within E rv \<Longrightarrow> within (E - {r}) rv"
  unfolding within_def by blast

lemma logged_delete_steps:
  assumes "logged f ev s = (x, s')" and "\<And>rv x. observe rv (ev x) = (if settled k x then rv\<lparr>rv_effects := rv_effects rv - D\<rparr> else rv)"
  shows "steps (within E) (snd s) (snd s') (within (if settled k x then E - D else E))"
  unfolding logged_trace [OF assms(1)] using assms(2) by (intro steps_event) (simp add: within_delete)

lemma logged_undo_steps:
  assumes "apfst (tolerate k) (logged f ev s) = (res, s')" and "r \<in> D"
    and "\<And>rv x. observe rv (ev x) = (if settled k x then rv\<lparr>rv_effects := rv_effects rv - D\<rparr> else rv)"
  shows "steps (within E) (snd s) (snd s') (within (if is_ok res then E - {r} else E))"
proof -
  obtain x where l: "logged f ev s = (x, s')" and res: "res = tolerate k x" using assms(1) by (cases "logged f ev s") auto
  have "is_ok res = settled k x" unfolding res by (cases x) (auto simp: settled_def)
  then show ?thesis using assms(2) by (intro steps_post [OF logged_delete_steps [OF l assms(3)]]) (auto elim!: within_mono split: if_splits)
qed

lemma undo_generic_steps:
  assumes "undo_generic (traced P) r s = (res, s')" and "wf_resource r"
  shows "steps (within E) (snd s) (snd s') (within (if is_ok res then E - {r} else E))"
proof (cases "tracked r")
  case False
  then have "res = Ok () \<and> s' = s" using assms by (cases r) (auto simp: undo_generic_def)
  then show ?thesis using False by (auto intro!: steps_refl within_untracked)
next
  case True
  have pol: "steps (within E) (snd s) (snd s') (within (if is_ok res then E - {r} else E))"
    if "apfst (tolerate k) (with_policy (traced P) (\<lambda>px. f px) s) = (res, s')" "k \<noteq> NotConnected"
      "\<And>px. f (traced_policy px) = logged (g px) ev"
      "\<And>rv x. observe rv (ev x) = (if settled k x then rv\<lparr>rv_effects := rv_effects rv - {r}\<rparr> else rv)"
    for k f g ev
    using that logged_undo_steps [of k "g (the (pf_policy P))" ev s res s' r "{r}" E]
    by (cases "pf_policy P") (auto simp: with_policy_def tolerate_def intro: steps_refl)
  show ?thesis
  proof (cases r)
    case (Route x)
    show ?thesis by (rule logged_undo_steps [of NotFound "rx_remove (pf_routes P) x" "Ev_Remove x" _ _ _ _ "{r}"])
        (use assms Route in \<open>simp_all add: undo_generic_def\<close>)
  next
    case (NetRoute x)
    show ?thesis by (rule logged_undo_steps [of NotFound "pf_remove_system_route P x" "Ev_Sys_Remove x" _ _ _ _ "{NetRoute y | y. same_system_route y x}"])
        (use assms NetRoute in \<open>simp_all add: undo_generic_def\<close>)
  next
    case (SuppressedRoute x)
    show ?thesis by (rule logged_undo_steps [of AlreadyExists "pf_add_system_route P x" "Ev_Sys_Add x" _ _ _ _ "{r}"])
        (use assms SuppressedRoute in \<open>simp_all add: undo_generic_def\<close>)
  next
    case (NetRule x)
    show ?thesis by (rule pol [of NotFound "\<lambda>px. px_remove_system_rule px x"
          "\<lambda>px. px_remove_system_rule px x" "Ev_Rule_Remove x"])
        (use assms NetRule in \<open>simp_all add: undo_generic_def\<close>)
  next
    case (SuppressedRule x)
    show ?thesis by (rule pol [of AlreadyExists "\<lambda>px. px_add_system_rule px x"
          "\<lambda>px. px_add_system_rule px x" "Ev_Rule_Add x"])
        (use assms SuppressedRule in \<open>simp_all add: undo_generic_def\<close>)
  qed (use True in simp_all)
qed

lemma walk_generic_steps:
  "walk (generic_step (traced P)) rs failed s = (out, s') \<Longrightarrow> \<forall>r \<in> set rs. wf_resource r \<Longrightarrow>
     \<exists>fs. out = Ok (failed @ fs) \<and> set fs \<subseteq> set rs
        \<and> steps (within (E \<union> set rs)) (snd s) (snd s') (within (E \<union> set fs))"
proof (induction rs arbitrary: failed s E)
  case (Cons r rs)
  obtain res s1 where u: "undo_generic (traced P) r s = (res, s1)" by (rule prod.exhaust)
  have st: "steps (within (E \<union> set (r # rs))) (snd s) (snd s1)
      (within (if is_ok res then (E \<union> set (r # rs)) - {r} else E \<union> set (r # rs)))"
    by (rule undo_generic_steps [OF u]) (use Cons.prems(2) in simp)
  show ?case
  proof (cases "is_ok res")
    case True
    with Cons.prems(1) u have "walk (generic_step (traced P)) rs failed s1 = (out, s')"
      by (simp add: generic_step_eq outcome_def)
    from Cons.IH [OF this, of "E - {r}"] Cons.prems(2) obtain fs where
      fs: "out = Ok (failed @ fs)" "set fs \<subseteq> set rs"
      "steps (within (E - {r} \<union> set rs)) (snd s1) (snd s') (within (E - {r} \<union> set fs))" by auto
    have "steps (within (E \<union> set (r # rs))) (snd s) (snd s') (within (E - {r} \<union> set fs))"
      by (rule steps_trans [OF st steps_pre [OF _ fs(3)]])
        (use True in \<open>auto elim!: within_mono\<close>)
    then show ?thesis using fs by (auto intro!: exI [of _ fs] elim: steps_post within_mono)
  next
    case False
    with Cons.prems(1) u have "walk (generic_step (traced P)) rs (failed @ [r]) s1 = (out, s')"
      by (simp add: generic_step_eq outcome_def)
    from Cons.IH [OF this, of "insert r E"] Cons.prems(2) obtain fs where
      fs: "out = Ok ((failed @ [r]) @ fs)" "set fs \<subseteq> set rs"
      "steps (within (insert r E \<union> set rs)) (snd s1) (snd s') (within (insert r E \<union> set fs))" by auto
    have "steps (within (E \<union> set (r # rs))) (snd s) (snd s') (within (E \<union> set (r # fs)))"
      using steps_trans [OF st [unfolded if_not_P [OF False]], of "snd s'" "within (insert r E \<union> set fs)"] fs(3)
      by simp
    then show ?thesis using fs by (intro exI [of _ "r # fs"]) auto
  qed
qed (auto intro: steps_refl)

lemma teardown_generic_steps:
  assumes "teardown_generic_entry (traced P) i d = (res, d')" and "i < length (d_journal d)"
    and "wf_journal (d_journal d)"
  shows "steps (within (resources (d_journal d))) (trace_of d) (trace_of d') (within (resources (d_journal d')))
     \<and> resources (d_journal d') \<subseteq> resources (d_journal d)"
proof -
  let ?rs = "rev (je_resources (d_journal d ! i))" and ?E = "resources (remove_nth i (d_journal d))"
  have R: "resources (d_journal d) = ?E \<union> set ?rs"
    using resources_remove_nth [OF assms(2)] by simp
  obtain out s' where wk: "walk (generic_step (traced P)) ?rs [] (d_world d) = (out, s')" by (rule prod.exhaust)
  have "\<forall>r \<in> set ?rs. wf_resource r" using assms(3) R by (simp add: wf_journal_def)
  from walk_generic_steps [OF wk this, of ?E] obtain fs where fs: "out = Ok fs" "set fs \<subseteq> set ?rs"
    "steps (within (?E \<union> set ?rs)) (trace_of d) (snd s') (within (?E \<union> set fs))" by auto
  have fin: "(res, d') = finish_entry i fs (d\<lparr>d_world := s'\<rparr>)"
    using assms(1) wk fs(1) by (simp add: teardown_generic_entry_def)
  then have "trace_of d' = snd s'" and "resources (d_journal d') = ?E \<union> set fs"
    using assms(2) by (auto simp: finish_entry_def keep_stale_def resources_update split: if_splits)
  then show ?thesis using fs(2,3) R by auto
qed

section \<open>The contract and its clients\<close>

locale journaled_op =
  fixes op :: "'r \<Rightarrow> 'k logged_world daemon \<Rightarrow> 'k logged_world daemon"
    and allowed :: "'r \<Rightarrow> bool"
  assumes keeps_wf: "allowed r \<Longrightarrow> wf_journal (d_journal d) \<Longrightarrow> wf_journal (d_journal (op r d))"
    and safe: "allowed r \<Longrightarrow> wf_journal (d_journal d) \<Longrightarrow>
      steps (within (resources (d_journal d))) (trace_of d) (trace_of (op r d))
        (within (resources (d_journal (op r d))))"
begin

lemma sequence:
  "list_all allowed rs \<Longrightarrow> wf_journal (d_journal d) \<Longrightarrow>
     wf_journal (d_journal (fold op rs d))
     \<and> steps (within (resources (d_journal d))) (trace_of d) (trace_of (fold op rs d))
         (within (resources (d_journal (fold op rs d))))"
proof (induction rs arbitrary: d)
  case (Cons r rs)
  then have "steps (within (resources (d_journal d))) (trace_of d) (trace_of (op r d))
      (within (resources (d_journal (op r d))))" and "wf_journal (d_journal (op r d))"
    by (simp_all add: safe keeps_wf)
  with Cons.IH [of "op r d"] Cons.prems show ?case by (auto intro: steps_trans)
qed (simp add: steps_refl)

lemma crash_anywhere:
  assumes "list_all allowed rs" and "wf_journal (d_journal d)" and "trace_of d = []"
    and "prefix pre (trace_of (fold op rs d))"
  shows "recoverable (foldl observe \<lparr> rv_disk = d_journal d, rv_effects = {} \<rparr> pre)"
  using sequence [OF assms(1,2)] assms(3,4)
  by (auto simp: steps_def crash_safe_def recoverable_def within_def)

end

text \<open>The requests that change routes and rules for generic owners.  The owner of a WireGuard, OpenVPN or Xray tunnel is torn
  down through its own path, which relies on the kernel to drop the routes of a deleted link; its removal
  is outside \<open>allowed_request\<close>.\<close>

datatype request =
    Apply_Routes nat string "applied_route list"
  | Apply_Attach nat string attach_spec "applied_route list"
  | Route_Add nat net_route_add_params
  | Route_Del nat system_route
  | Rule_Add nat net_rule_add_params
  | Rule_Del nat system_rule
  | Remove_Owner nat string

fun handle :: "ipnet_crate \<Rightarrow> 'k platform \<Rightarrow> request \<Rightarrow> 'k daemon \<Rightarrow> 'k daemon" where
  "handle N P (Apply_Routes uid owner routes) d = snd (apply_routes N P uid owner routes d)"
| "handle N P (Apply_Attach uid owner spec routes) d = snd (apply_attach N P uid owner spec routes d)"
| "handle N P (Route_Add uid prm) d = snd (net_route_add N P uid prm d)"
| "handle N P (Route_Del uid route) d = snd (net_route_del P uid route d)"
| "handle N P (Rule_Add uid prm) d = snd (net_rule_add N P uid prm d)"
| "handle N P (Rule_Del uid rule) d = snd (net_rule_del P uid rule d)"
| "handle N P (Remove_Owner uid owner) d = snd (remove_owner P uid owner d)"

fun allowed_request :: "request \<Rightarrow> bool" where
  "allowed_request (Remove_Owner _ owner) =
     (\<not> starts_with owner ''xray:'' \<and> \<not> starts_with owner ''ovpn:''
      \<and> \<not> starts_with owner ''ovpn-probe:'' \<and> \<not> starts_with owner ''wg:'')"
| "allowed_request _ = True"

definition op_safe :: "'k logged_world daemon \<Rightarrow> 'k logged_world daemon \<Rightarrow> bool" where
  "op_safe d d' \<longleftrightarrow> wf_journal (d_journal d') \<and>
     steps (within (resources (d_journal d))) (trace_of d) (trace_of d') (within (resources (d_journal d')))"

lemma op_safe_refl [simp]: "wf_journal (d_journal d) \<Longrightarrow> op_safe d d"
  by (simp add: op_safe_def steps_refl)

lemma op_safe_apply:
  "wf_journal (d_journal d) \<Longrightarrow> op_safe d (snd (apply_routes_inner N (traced P) uid owner routes attach d))"
  using apply_routes_inner_steps [of N P uid owner routes attach d]
    apply_routes_inner_wf [of N "traced P" uid owner routes attach d]
  by (cases "apply_routes_inner N (traced P) uid owner routes attach d") (simp add: op_safe_def)

lemma op_safe_edit:
  assumes "wf_journal (d_journal d)" and "effect_call call r" and "wf_resource r"
    and "\<And>e. je_resources (finish e) = je_resources e"
  shows "op_safe d (snd (manual_edit (traced P) uid r st call finish d))"
proof -
  obtain res d' where run: "manual_edit (traced P) uid r st call finish d = (res, d')" by (rule prod.exhaust)
  from manual_edit_steps [OF run assms(2,4)] assms(1,3) show ?thesis
    unfolding run op_safe_def wf_journal_def by auto
qed

lemma op_safe_remove:
  assumes "wf_journal (d_journal d)" and "allowed_request (Remove_Owner uid owner)"
  shows "op_safe d (snd (remove_owner (traced P) uid owner d))"
proof (cases "owner_position uid owner d")
  case (Some i)
  then have i: "i < length (d_journal d)" "je_owner (d_journal d ! i) = owner"
    by (auto simp: je_key_def dest: owner_position_SomeD)
  obtain res d1 where td: "teardown_generic_entry (traced P) i d = (res, d1)" by (rule prod.exhaust)
  have st: "steps (within (resources (d_journal d))) (trace_of d) (trace_of d1) (within (resources (d_journal d1)))"
    and sub: "resources (d_journal d1) \<subseteq> resources (d_journal d)"
    using teardown_generic_steps [OF td i(1) assms(1)] by auto
  have "op_safe d (persist (traced P) d1)"
    using steps_trans [OF st steps_persist [of "resources (d_journal d1)" d1 P]] sub assms(1)
    by (auto simp: op_safe_def intro: wf_journal_mono)
  then show ?thesis using Some td i assms
    by (auto simp: remove_owner_def teardown_entry_def Let_def)
qed (use assms in \<open>auto simp: remove_owner_def\<close>)

text \<open>Deleting a daemon-owned object: the kernel first, then the journal.\<close>

lemma retain_resources_sub:
  assumes "i < length (d_journal d)"
  shows "resources (d_journal d) - {r. \<not> keep r} \<subseteq> resources (d_journal (retain_resources i keep d))
    \<and> resources (d_journal (retain_resources i keep d)) \<subseteq> resources (d_journal d)"
  using assms resources_remove_nth [OF assms]
  by (auto simp: retain_resources_def Let_def resources_update filter_empty_conv split: if_splits)

lemma retain_resources_world [simp]: "d_world (retain_resources i keep d) = d_world d"
  by (simp add: retain_resources_def Let_def)

lemma op_safe_unjournal:
  assumes wf: "wf_journal (d_journal d)" and l: "logged f ev (d_world d) = (Ok (), s)"
    and ob: "\<And>rv x. observe rv (ev x) = (if settled NotFound x then rv\<lparr>rv_effects := rv_effects rv - D\<rparr> else rv)"
    and keep: "\<And>r. \<not> keep r \<Longrightarrow> r \<in> D" and d1: "d1 = d\<lparr>d_world := s\<rparr>"
    and d2: "d2 = d1 \<or> (\<exists>i < length (d_journal d1). d2 = retain_resources i keep d1)"
  shows "op_safe d (persist (traced P) d2)"
proof -
  have sub: "resources (d_journal d) - D \<subseteq> resources (d_journal d2)" "resources (d_journal d2) \<subseteq> resources (d_journal d)"
    using d2 keep retain_resources_sub [of _ d1 keep] by (auto simp: d1)
  have w: "d_world d2 = s" using d2 by (auto simp: d1)
  have "steps (within (resources (d_journal d))) (trace_of d) (trace_of d2) (within (resources (d_journal d) - D))"
    using logged_delete_steps [OF l ob, of "resources (d_journal d)"] by (simp add: settled_def w)
  then have "steps (within (resources (d_journal d))) (trace_of d) (trace_of d2) (within (resources (d_journal d2)))"
    using sub(1) by (auto elim!: steps_post within_mono)
  then show ?thesis using steps_trans [OF _ steps_persist [of "resources (d_journal d2)" d2 P]] wf_journal_mono [OF wf sub(2)]
    by (simp add: op_safe_def)
qed

lemma op_safe_failed:
  assumes "wf_journal (d_journal d)" and "logged f ev (d_world d) = (x, s)"
    and "\<And>rv x. observe rv (ev x) = (if settled k x then rv\<lparr>rv_effects := rv_effects rv - D\<rparr> else rv)"
  shows "op_safe d (d\<lparr>d_world := s\<rparr>)"
  using assms(1) logged_delete_steps [OF assms(2,3), of "resources (d_journal d)"]
  by (auto simp: op_safe_def elim!: steps_post within_mono split: if_splits)

lemma observe_delete:
  "sr_managed route \<Longrightarrow> observe rv (Ev_Sys_Remove route x)
     = (if settled NotFound x then rv\<lparr>rv_effects := rv_effects rv - {NetRoute y | y. same_system_route y route}\<rparr> else rv)"
  "sru_managed rule \<Longrightarrow> observe rv (Ev_Rule_Remove rule x)
     = (if settled NotFound x then rv\<lparr>rv_effects := rv_effects rv - {NetRule rule}\<rparr> else rv)"
  by simp_all

lemma op_safe_del_route:
  assumes wf: "wf_journal (d_journal d)" and m: "sr_managed route"
  shows "op_safe d (snd (net_route_del_owned (traced P) uid route d))"
proof -
  obtain x s where l: "logged (pf_remove_system_route P route) (Ev_Sys_Remove route) (d_world d) = (x, s)" by (rule prod.exhaust)
  note kept = op_safe_failed [OF wf l observe_delete(1) [OF m]]
  have "op_safe d (snd (net_route_del_manual (traced P) uid route d))"
  proof (cases x)
    case (Err e)
    then show ?thesis using l kept by (simp add: net_route_del_manual_def)
  next
    case (Ok u)
    define keep where "keep = (\<lambda>r. case r of NetRoute s \<Rightarrow> \<not> same_system_route s route | _ \<Rightarrow> True)"
    have k: "r \<in> {NetRoute y | y. same_system_route y route}" if "\<not> keep r" for r using that by (cases r) (simp_all add: keep_def)
    define d2 where "d2 = (case owner_position uid MANUAL_OWNER (d\<lparr>d_world := s\<rparr>) of None \<Rightarrow> d\<lparr>d_world := s\<rparr>
        | Some i \<Rightarrow> retain_resources i keep (d\<lparr>d_world := s\<rparr>))"
    have "d2 = d\<lparr>d_world := s\<rparr> \<or> (\<exists>i < length (d_journal (d\<lparr>d_world := s\<rparr>)). d2 = retain_resources i keep (d\<lparr>d_world := s\<rparr>))"
      unfolding d2_def by (cases "owner_position uid MANUAL_OWNER (d\<lparr>d_world := s\<rparr>)") (auto dest!: owner_position_SomeD)
    then have "op_safe d (persist (traced P) d2)"
      using op_safe_unjournal [OF wf _ observe_delete(1) [OF m] k refl] l Ok by simp
    then show ?thesis using l Ok unfolding d2_def keep_def by (simp add: net_route_del_manual_def Let_def)
  qed
  then show ?thesis using l kept wf
    by (auto simp: net_route_del_owned_def Let_def case_prod_unfold split: option.split)
qed

lemma op_safe_del_rule:
  assumes wf: "wf_journal (d_journal d)" and m: "sru_managed rule"
  shows "op_safe d (snd (net_rule_del_owned (traced P) uid rule d))"
proof (cases "pf_policy P")
  case None
  then show ?thesis using wf by (simp add: net_rule_del_owned_def Let_def with_policy_def)
next
  case (Some px)
  obtain x s where l: "logged (px_remove_system_rule px rule) (Ev_Rule_Remove rule) (d_world d) = (x, s)" by (rule prod.exhaust)
  note kept = op_safe_failed [OF wf l observe_delete(2) [OF m]]
  define keep where "keep = (\<lambda>r. case r of NetRule s \<Rightarrow> s \<noteq> rule | _ \<Rightarrow> True)"
  have k: "r \<in> {NetRule rule}" if "\<not> keep r" for r using that by (cases r) (simp_all add: keep_def)
  have un: "op_safe d (persist (traced P) d2)" if "x = Ok ()"
    "d2 = d\<lparr>d_world := s\<rparr> \<or> (\<exists>i < length (d_journal (d\<lparr>d_world := s\<rparr>)). d2 = retain_resources i keep (d\<lparr>d_world := s\<rparr>))" for d2
    using op_safe_unjournal [OF wf _ observe_delete(2) [OF m] k refl] l that by simp
  show ?thesis using l kept wf Some
    by (cases x) (auto simp: net_rule_del_owned_def Let_def with_policy_def keep_def [symmetric] intro!: un dest!: owner_position_SomeD split: option.split)
qed

lemma handle_safe:
  assumes "allowed_request req" and wf: "wf_journal (d_journal d)"
  shows "op_safe d (handle N (traced P) req d)"
proof (cases req)
  case (Apply_Routes uid owner routes)
  then show ?thesis using wf by (auto simp: apply_routes_def op_safe_apply split: result.splits)
next
  case (Apply_Attach uid owner spec routes)
  then show ?thesis using wf by (auto simp: apply_attach_def op_safe_apply split: result.splits)
next
  case (Route_Add uid prm)
  then show ?thesis using wf
    by (auto simp: net_route_add_def Let_def mark_state_def manual_route_def split: result.splits
        simp del: traced_simps intro!: op_safe_edit effect_calls)
next
  case (Route_Del uid route)
  then show ?thesis using wf assms(1)
    op_safe_edit [OF wf effect_calls(2) [of route P], where finish = id] op_safe_del_route [OF wf]
    by (auto simp: net_route_del_def Let_def case_prod_unfold simp del: traced_simps)
next
  case (Rule_Add uid prm)
  then show ?thesis using wf
    by (auto simp: net_rule_add_def Let_def mark_state_def manual_rule_def
        simp del: traced_simps intro!: op_safe_edit effect_calls_policy)
next
  case (Rule_Del uid rule)
  then show ?thesis using wf assms(1)
    op_safe_edit [OF wf effect_calls_policy(2) [of rule P], where finish = id] op_safe_del_rule [OF wf]
    by (auto simp: net_rule_del_def Let_def case_prod_unfold simp del: traced_simps)
next
  case (Remove_Owner uid owner)
  then show ?thesis using wf assms(1) op_safe_remove by simp
qed

interpretation requests: journaled_op "handle N (traced P)" allowed_request for N P
  using handle_safe unfolding op_safe_def by unfold_locales auto

text \<open>C1: a crash never loses track of a kernel change.  Take any platform, a journal whose manual objects carry the daemon's
  marker and whose suppressed ones do not, and any sequence of client requests (routes, attachments, manual routes and
  rules, deletions of daemon-owned and of foreign objects, removals of owners other than WireGuard, OpenVPN and
  Xray tunnels), and stop after any call the daemon made to the journal store or the kernel:
  every route or rule the daemon has installed and not removed, and every foreign object it has
  suppressed and not restored, is listed in the journal that was last saved with success, whatever
  calls failed on the way.\<close>

theorem journal_covers_every_crash_point:
  assumes "list_all allowed_request reqs" and "wf_journal J"
    and "prefix pre (trace_of (fold (handle N (traced P)) reqs (fresh_daemon J (w, []))))"
  shows "rv_effects (foldl observe \<lparr> rv_disk = J, rv_effects = {} \<rparr> pre)
           \<subseteq> resources (rv_disk (foldl observe \<lparr> rv_disk = J, rv_effects = {} \<rparr> pre))"
  using requests.crash_anywhere [of reqs "fresh_daemon J (w, [])" pre N P] assms
  by (simp add: fresh_daemon_def recoverable_def)

theorem journal_covers_every_crash_point_witness:
  "let pre = [Ev_Save [applying_entry 1000 ''office'' [example_route 1] None] (Ok ()),
              Ev_Add (example_route 1) (Ok ())];
       rv = foldl observe \<lparr> rv_disk = [], rv_effects = {} \<rparr> pre
   in prefix pre (trace_of (fold (handle word_ipnet (traced sim_platform))
          [Apply_Routes 1000 ''office'' [example_route 1]] (fresh_daemon [] (quiet_sim, []))))
      \<and> Route (example_route 1) \<in> rv_effects rv \<and> rv_effects rv \<subseteq> resources (rv_disk rv)"
proof -
  let ?pre = "[Ev_Save [applying_entry 1000 ''office'' [example_route 1] None] (Ok ()),
              Ev_Add (example_route 1) (Ok ())]"
  let ?reqs = "[Apply_Routes 1000 ''office'' [example_route 1]]"
  have p: "prefix ?pre (trace_of (fold (handle word_ipnet (traced sim_platform)) ?reqs
      (fresh_daemon [] (quiet_sim, []))))" by code_simp
  have "list_all allowed_request ?reqs" "wf_journal []" by (simp_all add: wf_journal_def)
  from journal_covers_every_crash_point [OF this p] p show ?thesis by (simp add: Let_def)
qed

end
