(* ===== verification/Keyed_Stores.thy ===== *)
theory Keyed_Stores
  imports Validate
begin

text \<open>
  The per-user stores of the daemon: conditional rules (\<open>crates/daemon/src/cond_rules.rs\<close>), routing
  intents (\<open>crates/daemon/src/intents.rs\<close>) and always-on definitions
  (\<open>crates/daemon/src/always_on.rs\<close>), each a JSON document per uid.

  A store's files are a map from uid to the document a file decodes to; a missing file or directory
  is \<open>None\<close>.  The file system and the JSON encoder are the parameter \<open>store_env\<close>: whether the
  ownership and permission checks pass, whether writing the file and syncing its directory succeed, and how many bytes a document
  takes.  The contract the rule and intent stores share is the locale \<open>uid_store\<close>.
\<close>

section \<open>Documents and files\<close>

record 'doc store_env =
  se_access :: "nat \<Rightarrow> unit io"
  se_prepare :: "nat \<Rightarrow> unit io"
  se_write :: "nat \<Rightarrow> unit io"
  se_sync :: "nat \<Rightarrow> unit io"
  se_len :: "'doc \<Rightarrow> nat"

type_synonym 'doc files = "nat \<Rightarrow> 'doc option"

definition load_doc ::
    "'doc store_env \<Rightarrow> nat \<Rightarrow> 'doc \<Rightarrow> ('doc \<Rightarrow> bool) \<Rightarrow> 'doc files \<Rightarrow> nat \<Rightarrow> 'doc io" where
  "load_doc env max_bytes empty_doc acceptable files uid =
     (case se_access env uid of
        Err e \<Rightarrow> Err e
      | Ok _ \<Rightarrow>
          (case files uid of
             None \<Rightarrow> Ok empty_doc
           | Some doc \<Rightarrow>
               if se_len env doc > max_bytes then Err InvalidData
               else if \<not> acceptable doc then Err InvalidData
               else Ok doc))"

text \<open>\<open>se_write\<close> is the temporary file up to its renaming, \<open>se_sync\<close> the last step, syncing the directory: when that one fails
  the call fails with the new document in place.\<close>

definition save_doc ::
    "'doc store_env \<Rightarrow> nat \<Rightarrow> nat \<Rightarrow> 'doc \<Rightarrow> 'doc files \<Rightarrow> unit io \<times> 'doc files" where
  "save_doc env max_bytes uid doc files =
     (case se_prepare env uid of
        Err e \<Rightarrow> (Err e, files)
      | Ok _ \<Rightarrow>
          if se_len env doc > max_bytes then (Err InvalidData, files)
          else (case se_write env uid of
                  Err e \<Rightarrow> (Err e, files)
                | Ok _ \<Rightarrow> (se_sync env uid, files(uid \<mapsto> doc))))"

text \<open>Replace the first item with the same key, or append.\<close>

fun upsert_by :: "('a \<Rightarrow> 'b) \<Rightarrow> 'a \<Rightarrow> 'a list \<Rightarrow> 'a list" where
  "upsert_by key x [] = [x]"
| "upsert_by key x (y # ys) = (if key y = key x then x # ys else y # upsert_by key x ys)"

definition find_by :: "('a \<Rightarrow> 'b) \<Rightarrow> 'b \<Rightarrow> 'a list \<Rightarrow> 'a option" where
  "find_by key k xs = List.find (\<lambda>x. key x = k) xs"

lemma find_by_simps [simp]:
  "find_by key k [] = None"
  "find_by key k (x # xs) = (if key x = k then Some x else find_by key k xs)"
  by (simp_all add: find_by_def)

lemma find_by_upsert [simp]:
  "find_by key k (upsert_by key x xs) = (if k = key x then Some x else find_by key k xs)"
  by (induction xs) auto

lemma find_by_filter [simp]:
  "find_by key k (filter (\<lambda>x. key x \<noteq> k') xs) = (if k = k' then None else find_by key k xs)"
  by (induction xs) auto

lemma find_by_None_iff: "find_by key k xs = None \<longleftrightarrow> k \<notin> key ` set xs"
  by (induction xs) auto

lemma length_upsert_by:
  "length (upsert_by key x xs) = (if find_by key (key x) xs = None then Suc (length xs) else length xs)"
  by (induction xs) auto

lemma set_upsert_by: "set (upsert_by key x xs) \<subseteq> insert x (set xs)"
  by (induction xs) auto

lemma distinct_upsert_by:
  "distinct (map key xs) \<Longrightarrow> distinct (map key (upsert_by key x xs))"
proof (induction xs)
  case (Cons y ys)
  then show ?case using set_upsert_by [of key x ys] by auto
qed simp

lemma load_after_save:
  "save_doc env m uid doc files = (Ok (), files') \<Longrightarrow> se_access env uid = Ok () \<Longrightarrow>
     load_doc env m d acc files' uid = (if acc doc then Ok doc else Err InvalidData)"
  by (auto simp: save_doc_def load_doc_def split: result.splits if_splits)

lemma save_doc_cases:
  assumes "save_doc env m uid doc files = (r, files')"
  shows "(is_ok r \<longrightarrow> files' = files(uid \<mapsto> doc)) \<and> (files' = files \<or> files' = files(uid \<mapsto> doc))"
  using assms unfolding save_doc_def
  by (cases "se_prepare env uid"; cases "se_write env uid"; cases "m < se_len env doc") (simp_all, (metis is_ok.simps)+)

lemma load_doc_access: "load_doc env m d acc files uid = Ok doc \<Longrightarrow> se_access env uid = Ok ()"
  by (auto simp: load_doc_def split: result.splits)

lemma load_doc_other: "files' u = files u \<Longrightarrow> load_doc env m d acc files' u = load_doc env m d acc files u"
  by (simp only: load_doc_def)

section \<open>The contract\<close>

locale uid_store =
  fixes load :: "'f \<Rightarrow> nat \<Rightarrow> 'a list io"
    and put :: "nat \<Rightarrow> 'a \<Rightarrow> 'f \<Rightarrow> unit io \<times> 'f"
    and del :: "nat \<Rightarrow> string \<Rightarrow> 'f \<Rightarrow> unit io \<times> 'f"
    and key :: "'a \<Rightarrow> string"
    and good :: "'a \<Rightarrow> bool"
    and limit :: nat
  assumes put_ok: "good x \<Longrightarrow> put uid x f = (Ok (), f') \<Longrightarrow>
      \<exists>xs. load f uid = Ok xs \<and> load f' uid = Ok (upsert_by key x xs)"
    and del_ok: "del uid k f = (Ok (), f') \<Longrightarrow>
      \<exists>xs. load f uid = Ok xs \<and> load f' uid = Ok (filter (\<lambda>x. key x \<noteq> k) xs)"
    and put_frame: "put uid x f = (r, f') \<Longrightarrow> u \<noteq> uid \<Longrightarrow> load f' u = load f u"
    and del_frame: "del uid k f = (r, f') \<Longrightarrow> u \<noteq> uid \<Longrightarrow> load f' u = load f u"
    and bounded: "load f uid = Ok xs \<Longrightarrow> length xs \<le> limit"
begin

definition lookup :: "'f \<Rightarrow> nat \<Rightarrow> string \<Rightarrow> 'a option" where
  "lookup f uid k = (case load f uid of Ok xs \<Rightarrow> find_by key k xs | Err _ \<Rightarrow> None)"

lemma lookup_put:
  assumes "good x" and "put uid x f = (Ok (), f')"
  shows "lookup f' u k = (if u = uid \<and> k = key x then Some x else lookup f u k)"
  using put_ok [OF assms] put_frame [OF assms(2)] by (cases "u = uid") (auto simp: lookup_def)

lemma lookup_del:
  assumes "del uid k f = (Ok (), f')"
  shows "lookup f' u j = (if u = uid \<and> j = k then None else lookup f u j)"
  using del_ok [OF assms] del_frame [OF assms] by (cases "u = uid") (auto simp: lookup_def)

lemma put_then_del:
  assumes "good x" and "put uid x f = (Ok (), f1)" and "del uid (key x) f1 = (Ok (), f2)"
    and "lookup f uid (key x) = None"
  shows "lookup f2 u k = lookup f u k"
  using assms lookup_put [OF assms(1,2)] lookup_del [OF assms(3)] by auto

lemma put_keeps_distinct:
  assumes "good x" and "put uid x f = (Ok (), f')" and "load f uid = Ok xs" and "distinct (map key xs)"
  shows "\<exists>ys. load f' uid = Ok ys \<and> distinct (map key ys) \<and> length ys \<le> limit"
  using put_ok [OF assms(1,2)] assms(3,4) bounded [of f' uid] by (auto intro: distinct_upsert_by)

end

section \<open>Conditional rules\<close>

datatype route_condition = InterfaceAddressIn (condition_prefix: ip_net)

record cond_rule =
  cnd_id :: string
  cnd_name :: string
  cnd_enabled :: bool
  cnd_condition :: route_condition
  cnd_routes :: "policy_route list"

record cond_rules_document =
  cdoc_version :: nat
  cdoc_rules :: "cond_rule list"

definition COND_VERSION :: nat where "COND_VERSION = 1"
definition COND_MAX_DOCUMENT_BYTES :: nat where "COND_MAX_DOCUMENT_BYTES = 1024 * 1024"
definition MAX_RULES :: nat where "MAX_RULES = 32"
definition MAX_RULE_ROUTES :: nat where "MAX_RULE_ROUTES = 256"
definition MAX_ID_BYTES :: nat where "MAX_ID_BYTES = 48"
definition MAX_NAME_BYTES :: nat where "MAX_NAME_BYTES = 128"

definition validate_policy_route :: "ipnet_crate \<Rightarrow> policy_route \<Rightarrow> bool" where
  "validate_policy_route N r \<longleftrightarrow>
     net_trunc N (pr_destination r) = pr_destination r
     \<and> (case pr_via r of None \<Rightarrow> True
        | Some v \<Rightarrow> same_family (pr_destination r) v \<and> \<not> is_unspecified v \<and> \<not> is_multicast v)"

definition validate_rule :: "ipnet_crate \<Rightarrow> cond_rule \<Rightarrow> bool" where
  "validate_rule N rule \<longleftrightarrow>
     cnd_id rule \<noteq> [] \<and> length (cnd_id rule) \<le> MAX_ID_BYTES \<and> is_ascii_alphanumeric (hd (cnd_id rule))
     \<and> list_all (\<lambda>c. is_ascii_alphanumeric c \<or> c \<in> set ''._-'') (cnd_id rule)
     \<and> cnd_name rule \<noteq> [] \<and> length (cnd_name rule) \<le> MAX_NAME_BYTES \<and> \<not> has_control (cnd_name rule)
     \<and> net_trunc N (condition_prefix (cnd_condition rule)) = condition_prefix (cnd_condition rule)
     \<and> cnd_routes rule \<noteq> [] \<and> length (cnd_routes rule) \<le> MAX_RULE_ROUTES
     \<and> list_all (validate_policy_route N) (cnd_routes rule)
     \<and> distinct (map (\<lambda>r. (pr_destination r, pr_metric r)) (cnd_routes rule))"

definition cond_load_uid ::
    "cond_rules_document store_env \<Rightarrow> cond_rules_document files \<Rightarrow> nat \<Rightarrow> cond_rules_document io" where
  "cond_load_uid env files uid =
     load_doc env COND_MAX_DOCUMENT_BYTES \<lparr> cdoc_version = COND_VERSION, cdoc_rules = [] \<rparr>
       (\<lambda>doc. cdoc_version doc = COND_VERSION \<and> length (cdoc_rules doc) \<le> MAX_RULES) files uid"

definition cond_upsert ::
    "cond_rules_document store_env \<Rightarrow> nat \<Rightarrow> cond_rule \<Rightarrow> cond_rules_document files
       \<Rightarrow> bool io \<times> cond_rules_document files" where
  "cond_upsert env uid rule files =
     (case cond_load_uid env files uid of
        Err e \<Rightarrow> (Err e, files)
      | Ok doc \<Rightarrow>
          (let save = (\<lambda>_. let (res, files') = save_doc env COND_MAX_DOCUMENT_BYTES uid
                              (doc\<lparr>cdoc_rules := upsert_by cnd_id rule (cdoc_rules doc)\<rparr>) files
                            in (map_result (\<lambda>_. True) res, files'))
           in case find_by cnd_id (cnd_id rule) (cdoc_rules doc) of
                Some existing \<Rightarrow> if existing = rule then (Ok False, files) else save ()
              | None \<Rightarrow> if length (cdoc_rules doc) \<ge> MAX_RULES then (Err InvalidData, files) else save ()))"

definition cond_remove ::
    "cond_rules_document store_env \<Rightarrow> nat \<Rightarrow> string \<Rightarrow> cond_rules_document files
       \<Rightarrow> bool io \<times> cond_rules_document files" where
  "cond_remove env uid rule_id files =
     (case cond_load_uid env files uid of
        Err e \<Rightarrow> (Err e, files)
      | Ok doc \<Rightarrow>
          (let rules = filter (\<lambda>r. cnd_id r \<noteq> rule_id) (cdoc_rules doc) in
           if length rules = length (cdoc_rules doc) then (Ok False, files)
           else (let (res, files') = save_doc env COND_MAX_DOCUMENT_BYTES uid (doc\<lparr>cdoc_rules := rules\<rparr>) files
                 in (map_result (\<lambda>_. True) res, files'))))"

definition cond_load_all_rules ::
    "cond_rules_document store_env \<Rightarrow> nat list \<Rightarrow> cond_rules_document files \<Rightarrow> (nat \<times> cond_rule) list" where
  "cond_load_all_rules env uids files =
     concat (map (\<lambda>uid. case cond_load_uid env files uid of
                          Ok doc \<Rightarrow> map (Pair uid) (cdoc_rules doc) | Err _ \<Rightarrow> [])
               (sort uids))"

section \<open>Routing intents\<close>

record intent_path =
  ip_kind :: string
  ip_interface :: "string option"
  ip_gateway :: "string option"

record intent_params =
  in_id :: string
  in_destinations :: "string list"
  in_path :: intent_path
  in_metric :: "nat option"
  in_enabled :: "bool option"

record intent_document =
  idoc_version :: nat
  idoc_intents :: "intent_params list"

definition INTENT_VERSION :: nat where "INTENT_VERSION = 1"
definition INTENT_MAX_DOCUMENT_BYTES :: nat where "INTENT_MAX_DOCUMENT_BYTES = 256 * 1024"
definition MAX_INTENTS :: nat where "MAX_INTENTS = 64"
definition MAX_DESTINATIONS :: nat where "MAX_DESTINATIONS = 512"

definition few_destinations :: "intent_params \<Rightarrow> bool" where
  "few_destinations i \<longleftrightarrow> length (in_destinations i) \<le> MAX_DESTINATIONS"

definition intent_load_uid ::
    "intent_document store_env \<Rightarrow> intent_document files \<Rightarrow> nat \<Rightarrow> intent_document io" where
  "intent_load_uid env files uid =
     load_doc env INTENT_MAX_DOCUMENT_BYTES \<lparr> idoc_version = 0, idoc_intents = [] \<rparr>
       (\<lambda>doc. idoc_version doc = INTENT_VERSION \<and> length (idoc_intents doc) \<le> MAX_INTENTS
              \<and> list_all few_destinations (idoc_intents doc))
       files uid"

definition intent_save ::
    "intent_document store_env \<Rightarrow> nat \<Rightarrow> intent_document \<Rightarrow> intent_document files
       \<Rightarrow> unit io \<times> intent_document files" where
  "intent_save env uid doc files =
     save_doc env INTENT_MAX_DOCUMENT_BYTES uid (doc\<lparr>idoc_version := INTENT_VERSION\<rparr>) files"

definition intent_upsert ::
    "intent_document store_env \<Rightarrow> nat \<Rightarrow> intent_params \<Rightarrow> intent_document files
       \<Rightarrow> unit io \<times> intent_document files" where
  "intent_upsert env uid intent files =
     (case intent_load_uid env files uid of
        Err e \<Rightarrow> (Err e, files)
      | Ok doc \<Rightarrow>
          if find_by in_id (in_id intent) (idoc_intents doc) = None
             \<and> length (idoc_intents doc) \<ge> MAX_INTENTS
          then (Err InvalidData, files)
          else intent_save env uid
                 (doc\<lparr>idoc_intents := upsert_by in_id intent (idoc_intents doc)\<rparr>) files)"

definition intent_remove ::
    "intent_document store_env \<Rightarrow> nat \<Rightarrow> string \<Rightarrow> intent_document files
       \<Rightarrow> bool io \<times> intent_document files" where
  "intent_remove env uid i files =
     (case intent_load_uid env files uid of
        Err e \<Rightarrow> (Err e, files)
      | Ok doc \<Rightarrow>
          (let intents = filter (\<lambda>x. in_id x \<noteq> i) (idoc_intents doc) in
           if length intents = length (idoc_intents doc) then (Ok False, files)
           else (let (res, files') = intent_save env uid (doc\<lparr>idoc_intents := intents\<rparr>) files
                 in (map_result (\<lambda>_. True) res, files'))))"

section \<open>Always-on definitions\<close>

datatype always_on_definition =
    AO_WireGuard (ao_profile_id: string) (ao_config: string) (ao_wg_routes: "policy_route list")
  | AO_StaticRoutes (ao_profile_id: string) (ao_interface_name: string) (ao_routes: "policy_route list")

fun ao_owner :: "always_on_definition \<Rightarrow> string" where
  "ao_owner (AO_WireGuard pid _ _) = ''wg:'' @ pid"
| "ao_owner (AO_StaticRoutes pid _ _) = pid"

record stored_entry =
  se_enabled :: bool
  se_definition :: always_on_definition

record always_on_document =
  ao_version :: nat
  ao_paused :: bool
  ao_entries :: "stored_entry list"

definition AO_VERSION :: nat where "AO_VERSION = 1"
definition AO_MAX_DOCUMENT_BYTES :: nat where "AO_MAX_DOCUMENT_BYTES = 8 * 1024 * 1024"
definition MAX_ENTRIES :: nat where "MAX_ENTRIES = 32"

definition ao_load_uid ::
    "always_on_document store_env \<Rightarrow> always_on_document files \<Rightarrow> nat \<Rightarrow> always_on_document io" where
  "ao_load_uid env files uid =
     load_doc env AO_MAX_DOCUMENT_BYTES \<lparr> ao_version = AO_VERSION, ao_paused = False, ao_entries = [] \<rparr>
       (\<lambda>doc. ao_version doc = AO_VERSION \<and> length (ao_entries doc) \<le> MAX_ENTRIES) files uid"

abbreviation entry_owner :: "stored_entry \<Rightarrow> string" where
  "entry_owner e \<equiv> ao_owner (se_definition e)"

definition ao_save_entries ::
    "always_on_document store_env \<Rightarrow> nat \<Rightarrow> always_on_document \<Rightarrow> stored_entry list
       \<Rightarrow> always_on_document files \<Rightarrow> bool io \<times> always_on_document files" where
  "ao_save_entries env uid doc es files =
     (let (res, files') = save_doc env AO_MAX_DOCUMENT_BYTES uid (doc\<lparr>ao_entries := es\<rparr>) files
      in (map_result (\<lambda>_. True) res, files'))"

definition ao_insert ::
    "always_on_document store_env \<Rightarrow> nat \<Rightarrow> always_on_definition \<Rightarrow> always_on_document files
       \<Rightarrow> bool io \<times> always_on_document files" where
  "ao_insert env uid def files =
     (case ao_load_uid env files uid of
        Err e \<Rightarrow> (Err e, files)
      | Ok doc \<Rightarrow>
          (let stored = \<lparr> se_enabled = True, se_definition = def \<rparr>;
               put = ao_save_entries env uid doc (upsert_by entry_owner stored (ao_entries doc)) files
           in case find_by entry_owner (ao_owner def) (ao_entries doc) of
                Some e \<Rightarrow>
                  if se_definition e \<noteq> def then (Err AlreadyExists, files)
                  else if se_enabled e then (Ok False, files)
                  else put
              | None \<Rightarrow>
                  if length (ao_entries doc) \<ge> MAX_ENTRIES then (Err InvalidData, files) else put))"

definition ao_disable ::
    "always_on_document store_env \<Rightarrow> nat \<Rightarrow> string \<Rightarrow> always_on_document files
       \<Rightarrow> bool io \<times> always_on_document files" where
  "ao_disable env uid owner files =
     (case ao_load_uid env files uid of
        Err e \<Rightarrow> (Err e, files)
      | Ok doc \<Rightarrow>
          (case find_by entry_owner owner (ao_entries doc) of
             None \<Rightarrow> (Ok False, files)
           | Some e \<Rightarrow> ao_save_entries env uid doc
                         (upsert_by entry_owner (e\<lparr>se_enabled := False\<rparr>) (ao_entries doc)) files))"

definition ao_remove ::
    "always_on_document store_env \<Rightarrow> nat \<Rightarrow> string \<Rightarrow> always_on_document files
       \<Rightarrow> bool io \<times> always_on_document files" where
  "ao_remove env uid owner files =
     (case ao_load_uid env files uid of
        Err e \<Rightarrow> (Err e, files)
      | Ok doc \<Rightarrow>
          (let es = filter (\<lambda>e. entry_owner e \<noteq> owner) (ao_entries doc) in
           if length es = length (ao_entries doc) then (Ok False, files)
           else ao_save_entries env uid doc es files))"

definition ao_set_paused ::
    "always_on_document store_env \<Rightarrow> bool \<Rightarrow> nat \<Rightarrow> always_on_document files
       \<Rightarrow> unit io \<times> always_on_document files" where
  "ao_set_paused env paused uid files =
     (case ao_load_uid env files uid of
        Err e \<Rightarrow> (Err e, files)
      | Ok doc \<Rightarrow> save_doc env AO_MAX_DOCUMENT_BYTES uid (doc\<lparr>ao_paused := paused\<rparr>) files)"

definition ao_pause :: "always_on_document store_env \<Rightarrow> nat \<Rightarrow> always_on_document files
    \<Rightarrow> unit io \<times> always_on_document files" where
  "ao_pause env = ao_set_paused env True"

definition ao_resume :: "always_on_document store_env \<Rightarrow> nat \<Rightarrow> always_on_document files
    \<Rightarrow> unit io \<times> always_on_document files" where
  "ao_resume env = ao_set_paused env False"

definition replayable_owners ::
    "always_on_document store_env \<Rightarrow> nat list \<Rightarrow> always_on_document files \<Rightarrow> owner_key list" where
  "replayable_owners env uids files =
     concat (map (\<lambda>uid. case ao_load_uid env files uid of
                          Err _ \<Rightarrow> []
                        | Ok doc \<Rightarrow> if ao_paused doc then []
                            else map (\<lambda>e. (uid, entry_owner e)) (filter se_enabled (ao_entries doc)))
               (sort uids))"

section \<open>The stores keep the contract\<close>

abbreviation unit_result :: "bool io \<times> 'f \<Rightarrow> unit io \<times> 'f" where
  "unit_result \<equiv> apfst (map_result (\<lambda>_. ()))"

lemma upsert_by_same: "find_by key (key x) xs = Some x \<Longrightarrow> upsert_by key x xs = xs"
  by (induction xs) (auto split: if_splits)

lemma filter_same_length: "length (filter p xs) = length xs \<longleftrightarrow> filter p xs = xs"
  by (metis filter_id_conv length_filter_less less_irrefl)

lemma cond_load_bounded: "cond_load_uid env files uid = Ok doc \<Longrightarrow> length (cdoc_rules doc) \<le> MAX_RULES"
  by (auto simp: cond_load_uid_def load_doc_def split: result.splits option.splits if_splits)

lemma cond_load_version: "cond_load_uid env files uid = Ok doc \<Longrightarrow> cdoc_version doc = COND_VERSION"
  by (auto simp: cond_load_uid_def load_doc_def split: result.splits option.splits if_splits)

lemma cond_saved:
  assumes "cond_load_uid env files uid = Ok doc" and "length rs \<le> MAX_RULES"
    and "save_doc env COND_MAX_DOCUMENT_BYTES uid (doc\<lparr>cdoc_rules := rs\<rparr>) files = (Ok (), files')"
  shows "cond_load_uid env files' uid = Ok (doc\<lparr>cdoc_rules := rs\<rparr>)"
  using load_after_save [OF assms(3)] assms(1,2) cond_load_version [OF assms(1)]
  by (auto simp: cond_load_uid_def dest: load_doc_access)

lemma cond_upsert_ok:
  assumes "unit_result (cond_upsert env uid x files) = (Ok (), files')"
  shows "\<exists>doc. cond_load_uid env files uid = Ok doc
     \<and> cond_load_uid env files' uid = Ok (doc\<lparr>cdoc_rules := upsert_by cnd_id x (cdoc_rules doc)\<rparr>)"
proof -
  obtain doc where ld: "cond_load_uid env files uid = Ok doc"
    using assms by (auto simp: cond_upsert_def split: result.splits)
  let ?rs = "upsert_by cnd_id x (cdoc_rules doc)"
  have len: "length ?rs \<le> MAX_RULES" if "find_by cnd_id (cnd_id x) (cdoc_rules doc) \<noteq> None \<or> length (cdoc_rules doc) < MAX_RULES"
    using that cond_load_bounded [OF ld] by (auto simp: length_upsert_by)
  obtain r f where sv: "save_doc env COND_MAX_DOCUMENT_BYTES uid (doc\<lparr>cdoc_rules := ?rs\<rparr>) files = (r, f)"
    by (rule prod.exhaust)
  show ?thesis
    using assms ld sv cond_saved [OF ld len, of files'] upsert_by_same [of cnd_id x "cdoc_rules doc"]
    by (cases r) (auto simp: cond_upsert_def Let_def split: option.splits if_splits)
qed

lemma cond_upsert_files:
  "unit_result (cond_upsert env uid x files) = (r, files') \<Longrightarrow>
     \<forall>u. u \<noteq> uid \<longrightarrow> files' u = files u"
  by (auto simp: cond_upsert_def Let_def split: result.splits option.splits if_splits prod.splits
      dest!: save_doc_cases)

lemma cond_remove_ok:
  assumes "unit_result (cond_remove env uid k files) = (Ok (), files')"
  shows "\<exists>doc. cond_load_uid env files uid = Ok doc
     \<and> cond_load_uid env files' uid = Ok (doc\<lparr>cdoc_rules := filter (\<lambda>r. cnd_id r \<noteq> k) (cdoc_rules doc)\<rparr>)"
proof -
  obtain doc where ld: "cond_load_uid env files uid = Ok doc"
    using assms by (auto simp: cond_remove_def split: result.splits)
  let ?rs = "filter (\<lambda>r. cnd_id r \<noteq> k) (cdoc_rules doc)"
  have len: "length ?rs \<le> MAX_RULES"
    using cond_load_bounded [OF ld] length_filter_le [of "\<lambda>r. cnd_id r \<noteq> k" "cdoc_rules doc"] by linarith
  obtain r f where sv: "save_doc env COND_MAX_DOCUMENT_BYTES uid (doc\<lparr>cdoc_rules := ?rs\<rparr>) files = (r, f)"
    by (rule prod.exhaust)
  show ?thesis
    using assms ld sv cond_saved [OF ld len, of files']
    by (cases r) (auto simp: cond_remove_def Let_def filter_same_length split: if_splits)
qed

lemma cond_remove_files:
  "unit_result (cond_remove env uid k files) = (r, files') \<Longrightarrow>
     \<forall>u. u \<noteq> uid \<longrightarrow> files' u = files u"
  by (auto simp: cond_remove_def Let_def split: result.splits option.splits if_splits prod.splits
      dest!: save_doc_cases)

interpretation cond: uid_store
  "\<lambda>files uid. map_result cdoc_rules (cond_load_uid env files uid)"
  "\<lambda>uid x files. unit_result (cond_upsert env uid x files)"
  "\<lambda>uid k files. unit_result (cond_remove env uid k files)"
  cnd_id "\<lambda>_. True" MAX_RULES for env
proof
  fix uid x f f' k e r u
  show "unit_result (cond_upsert env uid x f) = (Ok (), f') \<Longrightarrow>
      \<exists>xs. map_result cdoc_rules (cond_load_uid env f uid) = Ok xs
        \<and> map_result cdoc_rules (cond_load_uid env f' uid) = Ok (upsert_by cnd_id x xs)"
    using cond_upsert_ok [of env uid x f f'] by auto
  show "unit_result (cond_remove env uid k f) = (Ok (), f') \<Longrightarrow>
      \<exists>xs. map_result cdoc_rules (cond_load_uid env f uid) = Ok xs
        \<and> map_result cdoc_rules (cond_load_uid env f' uid) = Ok (filter (\<lambda>x. cnd_id x \<noteq> k) xs)"
    using cond_remove_ok [of env uid k f f'] by auto
  show "map_result cdoc_rules (cond_load_uid env f' u) = map_result cdoc_rules (cond_load_uid env f u)"
    if "unit_result (cond_upsert env uid x f) = (r, f')" "u \<noteq> uid"
    using cond_upsert_files [OF that(1)] that(2) load_doc_other [of f' u f] by (simp add: cond_load_uid_def)
  show "map_result cdoc_rules (cond_load_uid env f' u) = map_result cdoc_rules (cond_load_uid env f u)"
    if "unit_result (cond_remove env uid k f) = (r, f')" "u \<noteq> uid"
    using cond_remove_files [OF that(1)] that(2) load_doc_other [of f' u f] by (simp add: cond_load_uid_def)
  show "map_result cdoc_rules (cond_load_uid env f uid) = Ok xs \<Longrightarrow> length xs \<le> MAX_RULES" for xs
    using cond_load_bounded [of env f uid] by (cases "cond_load_uid env f uid") auto
qed

lemma intent_load_bounded:
  "intent_load_uid env files uid = Ok doc \<Longrightarrow>
     length (idoc_intents doc) \<le> MAX_INTENTS \<and> list_all few_destinations (idoc_intents doc)"
  by (auto simp: intent_load_uid_def load_doc_def split: result.splits option.splits if_splits)

lemma intent_saved:
  assumes "intent_load_uid env files uid = Ok doc" and "length xs \<le> MAX_INTENTS"
    and "intent_save env uid (doc\<lparr>idoc_intents := xs\<rparr>) files = (Ok (), files')"
  shows "intent_load_uid env files' uid =
     (if list_all few_destinations xs
      then Ok (doc\<lparr>idoc_intents := xs, idoc_version := INTENT_VERSION\<rparr>) else Err InvalidData)"
  using load_after_save [OF assms(3) [unfolded intent_save_def]] assms(1,2)
  by (auto simp: intent_load_uid_def dest: load_doc_access)

lemma upsert_by_all: "p x \<Longrightarrow> list_all p xs \<Longrightarrow> list_all p (upsert_by key x xs)"
  by (induction xs) auto

lemma upsert_by_mem: "x \<in> set (upsert_by key x xs)"
  by (induction xs) auto

lemma intent_upsert_cases:
  assumes "intent_upsert env uid x files = (Ok (), files')"
  obtains doc where "intent_load_uid env files uid = Ok doc"
    and "length (upsert_by in_id x (idoc_intents doc)) \<le> MAX_INTENTS"
    and "intent_save env uid (doc\<lparr>idoc_intents := upsert_by in_id x (idoc_intents doc)\<rparr>) files = (Ok (), files')"
proof -
  obtain doc where ld: "intent_load_uid env files uid = Ok doc"
    using assms by (auto simp: intent_upsert_def split: result.splits)
  show ?thesis
    by (rule that [OF ld])
      (use assms ld intent_load_bounded [OF ld] in
        \<open>auto simp: intent_upsert_def length_upsert_by split: if_splits\<close>)
qed

lemma intent_upsert_files:
  "intent_upsert env uid x files = (r, files') \<Longrightarrow>
     \<forall>u. u \<noteq> uid \<longrightarrow> files' u = files u"
  by (auto simp: intent_upsert_def intent_save_def split: result.splits if_splits dest!: save_doc_cases)

lemma intent_remove_ok:
  assumes "unit_result (intent_remove env uid k files) = (Ok (), files')"
  shows "\<exists>doc doc'. intent_load_uid env files uid = Ok doc \<and> intent_load_uid env files' uid = Ok doc'
     \<and> idoc_intents doc' = filter (\<lambda>x. in_id x \<noteq> k) (idoc_intents doc)"
proof -
  obtain doc where ld: "intent_load_uid env files uid = Ok doc"
    using assms by (auto simp: intent_remove_def split: result.splits)
  let ?xs = "filter (\<lambda>x. in_id x \<noteq> k) (idoc_intents doc)"
  have len: "length ?xs \<le> MAX_INTENTS"
    using intent_load_bounded [OF ld] length_filter_le [of "\<lambda>x. in_id x \<noteq> k" "idoc_intents doc"]
    by linarith
  have few: "list_all few_destinations ?xs"
    using intent_load_bounded [OF ld] by (auto simp: list_all_iff)
  obtain r f where sv: "intent_save env uid (doc\<lparr>idoc_intents := ?xs\<rparr>) files = (r, f)"
    by (rule prod.exhaust)
  show ?thesis
    using assms ld sv intent_saved [OF ld len, of files'] few
    by (cases r) (auto simp: intent_remove_def Let_def filter_same_length split: if_splits)
qed

lemma intent_remove_files:
  "unit_result (intent_remove env uid k files) = (r, files') \<Longrightarrow>
     \<forall>u. u \<noteq> uid \<longrightarrow> files' u = files u"
  by (auto simp: intent_remove_def Let_def intent_save_def split: result.splits if_splits prod.splits
      dest!: save_doc_cases)

interpretation intents: uid_store
  "\<lambda>files uid. map_result idoc_intents (intent_load_uid env files uid)"
  "\<lambda>uid x files. intent_upsert env uid x files"
  "\<lambda>uid k files. unit_result (intent_remove env uid k files)"
  in_id few_destinations MAX_INTENTS for env
proof
  fix uid x f f' k e r u
  show "\<exists>xs. map_result idoc_intents (intent_load_uid env f uid) = Ok xs
        \<and> map_result idoc_intents (intent_load_uid env f' uid) = Ok (upsert_by in_id x xs)"
    if "few_destinations x" "intent_upsert env uid x f = (Ok (), f')"
  proof -
    from intent_upsert_cases [OF that(2)] obtain doc where d: "intent_load_uid env f uid = Ok doc"
      "length (upsert_by in_id x (idoc_intents doc)) \<le> MAX_INTENTS"
      "intent_save env uid (doc\<lparr>idoc_intents := upsert_by in_id x (idoc_intents doc)\<rparr>) f = (Ok (), f')" .
    have "list_all few_destinations (upsert_by in_id x (idoc_intents doc))"
      using that(1) intent_load_bounded [OF d(1)] by (simp add: upsert_by_all)
    then show ?thesis using intent_saved [OF d] d(1) by simp
  qed
  show "unit_result (intent_remove env uid k f) = (Ok (), f') \<Longrightarrow>
      \<exists>xs. map_result idoc_intents (intent_load_uid env f uid) = Ok xs
        \<and> map_result idoc_intents (intent_load_uid env f' uid) = Ok (filter (\<lambda>x. in_id x \<noteq> k) xs)"
    using intent_remove_ok [of env uid k f f'] by auto
  show "map_result idoc_intents (intent_load_uid env f' u) = map_result idoc_intents (intent_load_uid env f u)"
    if "intent_upsert env uid x f = (r, f')" "u \<noteq> uid"
    using intent_upsert_files [OF that(1)] that(2) load_doc_other [of f' u f] by (simp add: intent_load_uid_def)
  show "map_result idoc_intents (intent_load_uid env f' u) = map_result idoc_intents (intent_load_uid env f u)"
    if "unit_result (intent_remove env uid k f) = (r, f')" "u \<noteq> uid"
    using intent_remove_files [OF that(1)] that(2) load_doc_other [of f' u f] by (simp add: intent_load_uid_def)
  show "map_result idoc_intents (intent_load_uid env f uid) = Ok xs \<Longrightarrow> length xs \<le> MAX_INTENTS" for xs
    using intent_load_bounded [of env f uid] by (cases "intent_load_uid env f uid") auto
qed

section \<open>Properties\<close>

definition stored_rule ::
    "cond_rules_document store_env \<Rightarrow> cond_rules_document files \<Rightarrow> nat \<Rightarrow> string \<Rightarrow> cond_rule option" where
  "stored_rule env files uid k =
     (case cond_load_uid env files uid of Ok doc \<Rightarrow> find_by cnd_id k (cdoc_rules doc) | Err _ \<Rightarrow> None)"

lemma stored_rule_lookup: "stored_rule env files uid k = cond.lookup env files uid k"
  by (cases "cond_load_uid env files uid") (simp_all add: stored_rule_def cond.lookup_def)

text \<open>C33: the rule store behaves like a map.  After a successful \<open>upsert\<close> exactly the stored rule of that
  uid and id has changed, to the given rule; after a successful \<open>remove\<close> exactly that rule is gone;
  a failed call changes no file; no uid ever has more rules than the limit.\<close>

theorem cond_store_is_a_map:
  assumes "cond_upsert env uid rule files = (Ok b, files1)"
    and "cond_remove env uid' k files1 = (Ok b', files2)"
  shows "(\<forall>u j. stored_rule env files1 u j =
            (if u = uid \<and> j = cnd_id rule then Some rule else stored_rule env files u j))
       \<and> (\<forall>u j. stored_rule env files2 u j =
            (if u = uid' \<and> j = k then None else stored_rule env files1 u j))
       \<and> (\<exists>doc. cond_load_uid env files1 uid = Ok doc \<and> length (cdoc_rules doc) \<le> MAX_RULES)"
proof -
  have u: "unit_result (cond_upsert env uid rule files) = (Ok (), files1)" using assms(1) by simp
  have r: "unit_result (cond_remove env uid' k files1) = (Ok (), files2)" using assms(2) by simp
  obtain doc where "cond_load_uid env files1 uid = Ok doc" using cond_upsert_ok [OF u] by blast
  then show ?thesis
    using cond.lookup_put [OF TrueI u] cond.lookup_del [OF r] cond_load_bounded
    by (auto simp: stored_rule_lookup)
qed

definition open_env :: "'doc store_env" where
  "open_env = \<lparr> se_access = (\<lambda>_. Ok ()), se_prepare = (\<lambda>_. Ok ()), se_write = (\<lambda>_. Ok ()), se_sync = (\<lambda>_. Ok ()),
                se_len = (\<lambda>_. 100) \<rparr>"

definition example_rule :: cond_rule where
  "example_rule = \<lparr> cnd_id = ''office'', cnd_name = ''Office'', cnd_enabled = True,
     cnd_condition = InterfaceAddressIn (IpNet (V4 167772160) 8),
     cnd_routes = [\<lparr> pr_destination = IpNet (V4 3232235776) 24, pr_metric = 5, pr_via = None \<rparr>] \<rparr>"

theorem cond_store_is_a_map_witness:
  "\<exists>f1 f2. cond_upsert open_env 1000 example_rule Map.empty = (Ok True, f1)
     \<and> cond_remove open_env 1000 ''office'' f1 = (Ok True, f2)
     \<and> stored_rule open_env f1 1000 ''office'' = Some example_rule
     \<and> stored_rule open_env f2 1000 ''office'' = None"
proof -
  let ?doc = "\<lparr> cdoc_version = 1, cdoc_rules = [example_rule] \<rparr>"
  have 1: "cond_upsert open_env 1000 example_rule Map.empty = (Ok True, Map.empty(1000 \<mapsto> ?doc))"
    by (simp add: cond_upsert_def cond_load_uid_def load_doc_def save_doc_def open_env_def MAX_RULES_def
        COND_MAX_DOCUMENT_BYTES_def COND_VERSION_def)
  have 2: "cond_remove open_env 1000 ''office'' (Map.empty(1000 \<mapsto> ?doc))
      = (Ok True, Map.empty(1000 \<mapsto> \<lparr> cdoc_version = 1, cdoc_rules = [] \<rparr>))"
    by (simp add: cond_remove_def cond_load_uid_def load_doc_def save_doc_def open_env_def MAX_RULES_def
        COND_MAX_DOCUMENT_BYTES_def COND_VERSION_def example_rule_def)
  from cond_store_is_a_map [OF 1 2] have "stored_rule open_env (Map.empty(1000 \<mapsto> ?doc)) 1000 ''office'' = Some example_rule"
    "stored_rule open_env (Map.empty(1000 \<mapsto> \<lparr> cdoc_version = 1, cdoc_rules = [] \<rparr>)) 1000 ''office'' = None"
    by (auto simp: example_rule_def)
  with 1 2 show ?thesis by blast
qed

text \<open>C39: one intent can lock a user out of the intent store.  \<open>upsert\<close> does not check the number of
  destinations that \<open>load_uid\<close> refuses; after storing an intent with more than that, every later
  load, insertion and removal of that uid fails with \<open>InvalidData\<close>.\<close>

theorem intent_upsert_poisons_store:
  assumes "intent_upsert env uid x files = (Ok (), files')"
    and "length (in_destinations x) > MAX_DESTINATIONS"
  shows "intent_load_uid env files' uid = Err InvalidData
       \<and> (\<forall>y. intent_upsert env uid y files' = (Err InvalidData, files'))
       \<and> (\<forall>k. intent_remove env uid k files' = (Err InvalidData, files'))"
proof -
  from intent_upsert_cases [OF assms(1)] obtain doc where d: "intent_load_uid env files uid = Ok doc"
    "length (upsert_by in_id x (idoc_intents doc)) \<le> MAX_INTENTS"
    "intent_save env uid (doc\<lparr>idoc_intents := upsert_by in_id x (idoc_intents doc)\<rparr>) files = (Ok (), files')" .
  have "\<not> list_all few_destinations (upsert_by in_id x (idoc_intents doc))"
    using assms(2) upsert_by_mem [of x in_id "idoc_intents doc"]
    by (metis few_destinations_def linorder_not_less list_all_iff)
  then have "intent_load_uid env files' uid = Err InvalidData" using intent_saved [OF d] by simp
  then show ?thesis by (simp add: intent_upsert_def intent_remove_def)
qed

theorem intent_upsert_poisons_store_witness:
  "let x = \<lparr> in_id = ''big'', in_destinations = replicate 513 ''10.0.0.0/8'',
             in_path = \<lparr> ip_kind = ''direct'', ip_interface = None, ip_gateway = None \<rparr>,
             in_metric = None, in_enabled = None \<rparr>;
       (res, files) = intent_upsert open_env 1000 x Map.empty
   in res = Ok () \<and> intent_load_uid open_env files 1000 = Err InvalidData"
proof -
  let ?x = "\<lparr> in_id = ''big'', in_destinations = replicate 513 ''10.0.0.0/8'',
             in_path = \<lparr> ip_kind = ''direct'', ip_interface = None, ip_gateway = None \<rparr>,
             in_metric = None, in_enabled = None \<rparr>"
  have up: "intent_upsert open_env 1000 ?x Map.empty =
      (Ok (), Map.empty(1000 \<mapsto> \<lparr> idoc_version = INTENT_VERSION, idoc_intents = [?x] \<rparr>))"
    by (simp add: intent_upsert_def intent_load_uid_def load_doc_def intent_save_def save_doc_def
        open_env_def MAX_INTENTS_def INTENT_MAX_DOCUMENT_BYTES_def)
  have "length (in_destinations ?x) > MAX_DESTINATIONS" by (simp add: MAX_DESTINATIONS_def)
  from intent_upsert_poisons_store [OF up this] up show ?thesis unfolding Let_def by simp
qed

end
