(* ===== verification/Attach.thy ===== *)
theory Attach
  imports Crash_Safety Keyed_Stores
begin

text \<open>
  Attach specifications and routing intents (\<open>crates/daemon/src/core.rs\<close>): which routes a
  specification wants on the present links and uplinks, the reconcile pass that converges an
  attached owner to them, and the \<open>net.intent\<close> requests that arm and disarm such owners.
\<close>

section \<open>What a specification wants\<close>

definition resolve_endpoint_ips :: "'k platform \<Rightarrow> string \<Rightarrow> 'k \<Rightarrow> ip_addr list" where
  "resolve_endpoint_ips P host w =
     (case addr_parse host of
        Some ip \<Rightarrow> [ip]
      | None \<Rightarrow> remdups_adj (sort (pf_resolve P host w)))"

definition uplink_next_hop ::
    "ipnet_crate \<Rightarrow> 'k platform \<Rightarrow> ip_net \<Rightarrow> 'k \<Rightarrow> (ip_addr option \<times> nat) option" where
  "uplink_next_hop N P destination w =
     (case pf_default_gateways P w of
        Err _ \<Rightarrow> None
      | Ok gateways \<Rightarrow>
          (case List.find (\<lambda>(g, _). is_ipv4 g = is_ipv4 (net_addr destination)) gateways of
             None \<Rightarrow> None
           | Some (g, oif) \<Rightarrow>
               (let on_link = list_ex (\<lambda>(iif, net). iif = oif \<and> net_has_net N net destination)
                                (unwrap_or [] (pf_on_link_networks P w))
                in Some (if on_link then None else Some g, oif))))"

definition uplink_host_route ::
    "ipnet_crate \<Rightarrow> 'k platform \<Rightarrow> ip_addr \<Rightarrow> nat \<Rightarrow> 'k \<Rightarrow> applied_route option" where
  "uplink_host_route N P host metric w =
     map_option (\<lambda>(g, oif). \<lparr> ar_destination = host_net host, ar_interface_index = oif,
         ar_metric = metric, ar_gateway = g, ar_table = None \<rparr>)
       (uplink_next_hop N P (host_net host) w)"

definition uplink_bypass_route :: "ipnet_crate \<Rightarrow> 'k platform \<Rightarrow> ip_addr \<Rightarrow> 'k \<Rightarrow> applied_route option" where
  "uplink_bypass_route N P host w = uplink_host_route N P host ENDPOINT_BYPASS_METRIC w"

definition uplink_spec_route ::
    "ipnet_crate \<Rightarrow> 'k platform \<Rightarrow> 'k \<Rightarrow> policy_route \<Rightarrow> applied_route option" where
  "uplink_spec_route N P w r =
     (let d = net_trunc N (pr_destination r) in
      map_option (\<lambda>(g, i). \<lparr> ar_destination = d, ar_interface_index = i, ar_metric = pr_metric r,
                              ar_gateway = g, ar_table = None \<rparr>)
        (uplink_next_hop N P d w))"

definition link_spec_route ::
    "ipnet_crate \<Rightarrow> 'k platform \<Rightarrow> 'k \<Rightarrow> nat \<Rightarrow> bool \<Rightarrow> policy_route \<Rightarrow> applied_route" where
  "link_spec_route N P w index physical r =
     (let d = net_trunc N (pr_destination r);
          on_link_here = list_ex (\<lambda>(oif, net). oif = index \<and> net_has_net N net d)
                           (unwrap_or [] (pf_on_link_networks P w));
          gateway = (case pr_via r of
             Some v \<Rightarrow> Some v
           | None \<Rightarrow>
               if physical \<and> \<not> on_link_here
               then map_option fst
                      (List.find (\<lambda>(g, oif). oif = index \<and> is_ipv4 g = is_ipv4 (net_addr d))
                         (unwrap_or [] (pf_default_gateways P w)))
               else None)
      in \<lparr> ar_destination = d, ar_interface_index = index, ar_metric = pr_metric r,
           ar_gateway = gateway, ar_table = None \<rparr>)"

definition push_bypass :: "applied_route option \<Rightarrow> applied_route list \<Rightarrow> applied_route list" where
  "push_bypass r desired =
     (case r of
        None \<Rightarrow> desired
      | Some r \<Rightarrow> if ar_destination r \<in> ar_destination ` set desired then desired else desired @ [r])"

definition attach_desired ::
    "ipnet_crate \<Rightarrow> 'k platform \<Rightarrow> attach_spec \<Rightarrow> 'k \<Rightarrow> applied_route list" where
  "attach_desired N P spec w =
     (let declared =
        (if as_uplink spec then List.map_filter (uplink_spec_route N P w) (as_routes spec)
         else if as_interface_name spec \<noteq> [] then
           (case lx_link_index (pf_links P) (as_interface_name spec) w of
              Ok (Some index) \<Rightarrow>
                (let physical = (lx_link_kind (pf_links P) (as_interface_name spec) w = Ok Link_Other)
                 in map (link_spec_route N P w index physical) (as_routes spec))
            | _ \<Rightarrow> [])
         else [])
      in fold (\<lambda>host desired. fold (\<lambda>ip. push_bypass (uplink_bypass_route N P ip w))
                (resolve_endpoint_ips P host w) desired)
           (as_endpoint_bypasses spec) declared)"

section \<open>The reconcile pass\<close>

fun entry_routes :: "owned_resource list \<Rightarrow> applied_route list" where
  "entry_routes [] = []"
| "entry_routes (Route r # rs) = r # entry_routes rs"
| "entry_routes (_ # rs) = entry_routes rs"

definition wanted_in :: "applied_route list \<Rightarrow> applied_route \<Rightarrow> bool" where
  "wanted_in desired r \<longleftrightarrow> list_ex (\<lambda>t. kernel_route t = kernel_route r) desired"

fun withdraw_loop ::
    "'k platform \<Rightarrow> applied_route list \<Rightarrow> applied_route list \<Rightarrow> bool \<times> applied_route list \<times> 'k
       \<Rightarrow> bool \<times> applied_route list \<times> 'k" where
  "withdraw_loop P desired [] st = st"
| "withdraw_loop P desired (r # rs) (changed, retained, w) =
     (if wanted_in desired r then withdraw_loop P desired rs (changed, retained, w)
      else case rx_remove (pf_routes P) r w of
        (Ok _, w') \<Rightarrow> withdraw_loop P desired rs (True, retained, w')
      | (Err e, w') \<Rightarrow>
          if e = NotFound then withdraw_loop P desired rs (True, retained, w')
          else withdraw_loop P desired rs (changed, retained @ [r], w'))"

fun install_loop ::
    "'k platform \<Rightarrow> applied_route list \<Rightarrow> applied_route list \<Rightarrow> bool \<times> 'k \<Rightarrow> bool \<times> 'k" where
  "install_loop P observed [] st = st"
| "install_loop P observed (r # rs) (changed, w) =
     (if wanted_in observed r then install_loop P observed rs (changed, w)
      else case rx_add (pf_routes P) r w of
        (Ok _, w') \<Rightarrow> install_loop P observed rs (True, w')
      | (Err _, w') \<Rightarrow> install_loop P observed rs (changed, w'))"

definition reconcile_attach ::
    "ipnet_crate \<Rightarrow> 'k platform \<Rightarrow> nat \<Rightarrow> attach_spec \<Rightarrow> applied_route list \<Rightarrow> 'k daemon
       \<Rightarrow> bool \<times> 'k daemon" where
  "reconcile_attach N P i spec observed d =
     (let desired = attach_desired N P spec (d_world d);
          (changed, retained, w) =
            withdraw_loop P desired (entry_routes (je_resources (d_journal d ! i))) (False, [], d_world d);
          (changed, w) = install_loop P observed desired (changed, w);
          d = d\<lparr>d_world := w\<rparr>;
          resources = AttachSpec spec # map Route desired @ map Route retained;
          differs = (je_resources (d_journal d ! i) \<noteq> resources);
          d = (if differs then set_entry i (\<lambda>e. e\<lparr>je_resources := resources\<rparr>) d else d)
      in if changed \<or> differs then (True, persist P d) else (False, d))"

section \<open>Convergence\<close>

text \<open>The kernel's side, on routes as the kernel stores them: calls do what they report, and \<open>NotFound\<close>
  is only reported for a route that is not there.\<close>

definition faithful_kernel :: "'k route_executor \<Rightarrow> ('k \<Rightarrow> applied_route set) \<Rightarrow> bool" where
  "faithful_kernel ex view \<longleftrightarrow>
     (\<forall>r w res w'. rx_add ex r w = (res, w') \<longrightarrow>
        view w' = (if is_ok res then insert (kernel_route r) (view w) else view w))
   \<and> (\<forall>r w res w'. rx_remove ex r w = (res, w') \<longrightarrow>
        view w' = (if is_ok res then view w - {kernel_route r} else view w)
        \<and> (res = Err NotFound \<longrightarrow> kernel_route r \<notin> view w))"

lemma faithful_kernelD:
  assumes "faithful_kernel ex view"
  shows "rx_add ex r w = (res, w') \<Longrightarrow>
           view w' = (if is_ok res then insert (kernel_route r) (view w) else view w)"
    and "rx_remove ex r w = (res, w') \<Longrightarrow>
           view w' = (if is_ok res then view w - {kernel_route r} else view w)
           \<and> (res = Err NotFound \<longrightarrow> kernel_route r \<notin> view w)"
proof -
  note c = assms [unfolded faithful_kernel_def]
  show "rx_add ex r w = (res, w') \<Longrightarrow>
      view w' = (if is_ok res then insert (kernel_route r) (view w) else view w)"
    by (rule c [THEN conjunct1, THEN spec, THEN spec, THEN spec, THEN spec, THEN mp])
  show "rx_remove ex r w = (res, w') \<Longrightarrow>
      view w' = (if is_ok res then view w - {kernel_route r} else view w)
      \<and> (res = Err NotFound \<longrightarrow> kernel_route r \<notin> view w)"
    by (rule c [THEN conjunct2, THEN spec, THEN spec, THEN spec, THEN spec, THEN mp])
qed

definition unwanted :: "applied_route list \<Rightarrow> applied_route list \<Rightarrow> applied_route set" where
  "unwanted desired rs = kernel_route ` {r \<in> set rs. \<not> wanted_in desired r}"

lemma wanted_in_iff: "wanted_in desired r \<longleftrightarrow> kernel_route r \<in> kernel_route ` set desired"
  unfolding wanted_in_def list_ex_iff image_iff by metis

lemma unwanted_Cons:
  "unwanted desired (r # rs) =
     (if wanted_in desired r then unwanted desired rs else insert (kernel_route r) (unwanted desired rs))"
  by (auto simp: unwanted_def)

lemma withdraw_loop_view:
  assumes "faithful_kernel (pf_routes P) view"
  shows "withdraw_loop P desired rs (c, ret, w) = (c', ret', w') \<Longrightarrow>
     view w' \<subseteq> view w \<and> view w - view w' \<subseteq> unwanted desired rs
     \<and> (\<exists>kept. ret' = ret @ kept \<and> set kept \<subseteq> set rs \<and> view w' \<inter> unwanted desired rs \<subseteq> kernel_route ` set kept)"
proof (induction rs arbitrary: c ret w)
  case (Cons r rs)
  show ?case
  proof (cases "wanted_in desired r")
    case True
    with Cons show ?thesis by (fastforce simp: unwanted_Cons)
  next
    case False
    obtain res w1 where rm: "rx_remove (pf_routes P) r w = (res, w1)" by (rule prod.exhaust)
    note v = faithful_kernelD(2) [OF assms rm]
    show ?thesis
    proof (cases "removed res")
      case True
      then have gone: "kernel_route r \<notin> view w1" and sub: "view w1 \<subseteq> view w" "view w - view w1 \<subseteq> {kernel_route r}"
        using v by (cases res; auto simp: removed_def)+
      have "withdraw_loop P desired rs (True, ret, w1) = (c', ret', w')"
        using Cons.prems False rm True by (cases res) (auto simp: removed_def)
      from Cons.IH [OF this] gone sub False show ?thesis by (auto simp: unwanted_Cons)
    next
      case nr: False
      then have same: "view w1 = view w" using v by (cases res) (auto simp: removed_def)
      have "withdraw_loop P desired rs (c, ret @ [r], w1) = (c', ret', w')"
        using Cons.prems False rm nr by (cases res) (auto simp: removed_def)
      from Cons.IH [OF this] obtain kept where
        "view w' \<subseteq> view w1" "view w1 - view w' \<subseteq> unwanted desired rs" "ret' = (ret @ [r]) @ kept"
        "set kept \<subseteq> set rs" "view w' \<inter> unwanted desired rs \<subseteq> kernel_route ` set kept" by blast
      then show ?thesis using same False by (auto simp: unwanted_Cons intro!: exI [of _ "r # kept"])
    qed
  qed
qed (simp add: unwanted_def)

lemma install_loop_view:
  assumes "faithful_kernel (pf_routes P) view"
  shows "install_loop P observed rs (c, w) = (c', w') \<Longrightarrow>
     view w \<subseteq> view w' \<and> view w' \<subseteq> view w \<union> kernel_route ` set rs"
proof (induction rs arbitrary: c w)
  case (Cons r rs)
  show ?case
  proof (cases "wanted_in observed r")
    case True
    with Cons show ?thesis by fastforce
  next
    case False
    obtain res w1 where ad: "rx_add (pf_routes P) r w = (res, w1)" by (rule prod.exhaust)
    note v = faithful_kernelD(1) [OF assms ad]
    obtain c1 where "install_loop P observed rs (c1, w1) = (c', w')"
      using Cons.prems False ad by (cases res) auto
    from Cons.IH [OF this] v show ?thesis by (auto split: if_splits)
  qed
qed simp

lemma entry_routes_map [simp]: "entry_routes (map Route rs) = rs"
  by (induction rs) auto

lemma entry_routes_append [simp]: "entry_routes (xs @ ys) = entry_routes xs @ entry_routes ys"
  by (induction xs rule: entry_routes.induct) auto

lemma reconcile_attach_cases:
  assumes "reconcile_attach N P i spec observed d = (ch, d')" and "i < length (d_journal d)"
  obtains c retained w1 c2 w2 where
    "withdraw_loop P (attach_desired N P spec (d_world d)) (entry_routes (je_resources (d_journal d ! i)))
       (False, [], d_world d) = (c, retained, w1)"
    and "install_loop P observed (attach_desired N P spec (d_world d)) (c, w1) = (c2, w2)"
    and "d_journal d' = (d_journal d)[i := (d_journal d ! i)\<lparr>je_resources :=
           AttachSpec spec # map Route (attach_desired N P spec (d_world d)) @ map Route retained\<rparr>]"
    and "d_world d' = w2 \<or> (\<exists>r. pf_save P (d_journal d') w2 = (r, d_world d'))"
proof -
  let ?D = "attach_desired N P spec (d_world d)" and ?e = "d_journal d ! i"
  obtain c retained w1 where wd: "withdraw_loop P ?D (entry_routes (je_resources ?e)) (False, [], d_world d)
      = (c, retained, w1)" by (metis prod.exhaust)
  obtain c2 w2 where inst: "install_loop P observed ?D (c, w1) = (c2, w2)" by (rule prod.exhaust)
  let ?rs = "AttachSpec spec # map Route ?D @ map Route retained"
  have upd: "je_resources ?e = ?rs \<Longrightarrow> (d_journal d)[i := ?e\<lparr>je_resources := ?rs\<rparr>] = d_journal d"
    by (metis journal_entry.surjective journal_entry.update_convs(4) list_update_id)
  define dk where "dk = (if je_resources ?e \<noteq> ?rs then set_entry i (\<lambda>e. e\<lparr>je_resources := ?rs\<rparr>) (d\<lparr>d_world := w2\<rparr>)
      else d\<lparr>d_world := w2\<rparr>)"
  have dk: "d_journal dk = (d_journal d)[i := ?e\<lparr>je_resources := ?rs\<rparr>]" "d_world dk = w2"
    using upd by (auto simp: dk_def)
  have "(ch, d') = (if c2 \<or> je_resources ?e \<noteq> ?rs then (True, persist P dk) else (False, dk))"
    using assms(1) wd inst by (auto simp: reconcile_attach_def Let_def dk_def)
  then have "d' = persist P dk \<or> d' = dk" by (auto split: if_splits)
  moreover obtain r w3 where "pf_save P (d_journal dk) (d_world dk) = (r, w3)" by (rule prod.exhaust)
  ultimately have "d_journal d' = d_journal dk" "d_world d' = w2 \<or> (\<exists>r. pf_save P (d_journal d') w2 = (r, d_world d'))"
    using dk by (auto simp: persist_def save_journal_def)
  then show ?thesis using that [OF wd inst] dk by simp
qed

text \<open>C20: the attach reconcile pass touches only what it owns and forgets nothing.  Whatever calls fail,
  routes that appear in the kernel are wanted by the specification now; routes that disappear were
  journaled for this owner and are not wanted now; every route of the old entry or of the new
  derivation that is in the kernel afterwards is listed in the owner's entry; no other journal entry
  changes.\<close>

theorem reconcile_attach_owns_its_changes:
  assumes "faithful_kernel (pf_routes P) view" and "saves_leave_routes P view"
    and "i < length (d_journal d)" and "reconcile_attach N P i spec observed d = (changed, d')"
  shows "let want = kernel_route ` set (attach_desired N P spec (d_world d));
             old = kernel_route ` set (entry_routes (je_resources (d_journal d ! i)));
             new = kernel_route ` set (entry_routes (je_resources (d_journal d' ! i)))
         in view (d_world d') - view (d_world d) \<subseteq> want
          \<and> view (d_world d) - view (d_world d') \<subseteq> old - want
          \<and> view (d_world d') \<inter> (old \<union> want) \<subseteq> new \<and> want \<subseteq> new
          \<and> d_journal d' = (d_journal d)[i := (d_journal d ! i)\<lparr>je_resources := je_resources (d_journal d' ! i)\<rparr>]"
proof -
  let ?D = "attach_desired N P spec (d_world d)" and ?rs = "entry_routes (je_resources (d_journal d ! i))"
  from reconcile_attach_cases [OF assms(4,3)] obtain c ret w1 c2 w2 where
    wd: "withdraw_loop P ?D ?rs (False, [], d_world d) = (c, ret, w1)"
    and inst: "install_loop P observed ?D (c, w1) = (c2, w2)"
    and J: "d_journal d' = (d_journal d)[i := (d_journal d ! i)\<lparr>je_resources :=
           AttachSpec spec # map Route ?D @ map Route ret\<rparr>]"
    and w: "d_world d' = w2 \<or> (\<exists>r. pf_save P (d_journal d') w2 = (r, d_world d'))" .
  have v2: "view (d_world d') = view w2" using w view_save [OF assms(2)] by auto
  have new: "kernel_route ` set (entry_routes (je_resources (d_journal d' ! i))) =
      kernel_route ` set ?D \<union> kernel_route ` set ret" using assms(3) by (simp add: J image_Un)
  have un: "unwanted ?D ?rs = kernel_route ` set ?rs - kernel_route ` set ?D"
    by (auto simp: unwanted_def wanted_in_iff)
  note wl = withdraw_loop_view [OF assms(1) wd] and il = install_loop_view [OF assms(1) inst]
  have "view (d_world d') - view (d_world d) \<subseteq> kernel_route ` set ?D" using wl il v2 by blast
  moreover have "view (d_world d) - view (d_world d') \<subseteq> kernel_route ` set ?rs - kernel_route ` set ?D"
    using wl il v2 un by blast
  moreover have "view (d_world d') \<inter> (kernel_route ` set ?rs \<union> kernel_route ` set ?D) \<subseteq>
      kernel_route ` set ?D \<union> kernel_route ` set ret" using wl il v2 un by auto
  ultimately show ?thesis unfolding Let_def new using assms(3) by (simp add: J)
qed

lemma wanted_inI: "r \<in> set rs \<Longrightarrow> wanted_in rs r"
  by (auto simp: wanted_in_iff)

lemma withdraw_loop_quiet:
  "\<forall>r \<in> set rs. wanted_in desired r \<Longrightarrow> withdraw_loop P desired rs (c, ret, w) = (c, ret, w)"
  by (induction rs) auto

lemma install_loop_quiet:
  "\<forall>r \<in> set rs. wanted_in observed r \<Longrightarrow> install_loop P observed rs (c, w) = (c, w)"
  by (induction rs) auto

text \<open>a converged owner is left alone.  When the entry lists exactly the specification and its present
  derivation, and all of it was observed in the kernel, the pass makes no call, neither to the kernel
  nor to the journal store, and reports no change.\<close>

theorem reconcile_attach_quiet:
  assumes "je_resources (d_journal d ! i) = AttachSpec spec # map Route (attach_desired N P spec (d_world d))"
    and "\<forall>r \<in> set (attach_desired N P spec (d_world d)). \<exists>s \<in> set observed. kernel_route s = kernel_route r"
  shows "reconcile_attach N P i spec observed d = (False, d)"
proof -
  have "\<forall>r \<in> set (attach_desired N P spec (d_world d)). wanted_in observed r"
    using assms(2) by (auto simp: wanted_in_def list_ex_iff)
  then show ?thesis
    using assms(1) by (simp add: reconcile_attach_def withdraw_loop_quiet install_loop_quiet wanted_inI)
qed

definition example_spec :: attach_spec where
  "example_spec = \<lparr> as_interface_name = ''tun7'',
     as_routes = [\<lparr> pr_destination = IpNet (V4 167772160) 8, pr_metric = 7, pr_via = None \<rparr>],
     as_endpoint_bypasses = [''203.0.113.7''], as_uplink = False \<rparr>"

definition example_attached :: "sim daemon" where
  "example_attached = fresh_daemon
     [\<lparr> je_uid = 1000, je_owner = ''lab'', je_state = Applied,
        je_resources = [AttachSpec example_spec, Route (example_route 1)] \<rparr>]
     (quiet_sim\<lparr>sim_links := [(''tun7'', 9)], sim_gateways := [(V4 3232235777, 2)],
                sim_routes := [example_route 1]\<rparr>)"

text \<open>The simulated host, storing routes the way the kernel does.\<close>

definition kernel_platform :: "sim platform" where
  "kernel_platform = sim_platform\<lparr>pf_routes :=
     \<lparr> rx_add = (\<lambda>r. rx_add sim_routes_executor (kernel_route r)),
       rx_remove = (\<lambda>r. rx_remove sim_routes_executor (kernel_route r)) \<rparr>\<rparr>"

lemma faithful_kernel_platform: "faithful_kernel (pf_routes kernel_platform) (set \<circ> sim_routes)"
  by (auto simp: faithful_kernel_def kernel_platform_def sim_routes_executor_def split: if_splits)

lemma saves_kernel_platform: "saves_leave_routes kernel_platform (set \<circ> sim_routes)"
  by (simp add: saves_leave_routes_def kernel_platform_def sim_platform_def)

theorem reconcile_attach_owns_its_changes_witness:
  "\<exists>d'. reconcile_attach word_ipnet kernel_platform 0 example_spec [] example_attached = (True, d')
     \<and> length (sim_routes (d_world d')) = 2 \<and> example_route 1 \<notin> set (sim_routes (d_world d'))
     \<and> set (sim_routes (d_world d')) - set (sim_routes (d_world example_attached))
         \<subseteq> kernel_route ` set (attach_desired word_ipnet kernel_platform example_spec (d_world example_attached))"
proof -
  let ?out = "reconcile_attach word_ipnet kernel_platform 0 example_spec [] example_attached"
  have f: "fst ?out = True" and k: "length (sim_routes (d_world (snd ?out))) = 2"
    "example_route 1 \<notin> set (sim_routes (d_world (snd ?out)))"
    and i: "0 < length (d_journal example_attached)" by code_simp+
  obtain c d' where out: "?out = (c, d')" by (rule prod.exhaust)
  from reconcile_attach_owns_its_changes [OF faithful_kernel_platform saves_kernel_platform i out]
  have "set (sim_routes (d_world d')) - set (sim_routes (d_world example_attached))
         \<subseteq> kernel_route ` set (attach_desired word_ipnet kernel_platform example_spec (d_world example_attached))"
    unfolding Let_def comp_def by (rule conjunct1)
  then show ?thesis using f k unfolding out fst_conv snd_conv using out by metis
qed

definition example_settled :: "sim daemon" where
  "example_settled = snd (reconcile_attach word_ipnet kernel_platform 0 example_spec [] example_attached)"

theorem reconcile_attach_quiet_witness:
  "reconcile_attach word_ipnet kernel_platform 0 example_spec (sim_routes (d_world example_settled)) example_settled
     = (False, example_settled)"
proof -
  have "je_resources (d_journal example_settled ! 0) =
      AttachSpec example_spec # map Route (attach_desired word_ipnet kernel_platform example_spec (d_world example_settled))"
    by code_simp
  moreover have "list_all (\<lambda>r. list_ex (\<lambda>s. kernel_route s = kernel_route r) (sim_routes (d_world example_settled)))
      (attach_desired word_ipnet kernel_platform example_spec (d_world example_settled))" by code_simp
  ultimately show ?thesis by (intro reconcile_attach_quiet) (auto simp: list_all_iff list_ex_iff)
qed

text \<open>the attach pass is not write-ahead.  It installs the routes it derives before it saves the
  journal that lists them: after a crash between the two, a route the daemon installed is in the
  kernel and in no saved journal.\<close>

theorem reconcile_attach_not_write_ahead:
  "\<exists>pre. prefix pre (trace_of (snd (reconcile_attach word_ipnet (traced kernel_platform) 0 example_spec []
            (fresh_daemon (d_journal example_attached) (d_world example_attached, [])))))
     \<and> \<not> recoverable (foldl observe
           \<lparr> rv_disk = d_journal example_attached, rv_effects = {Route (example_route 1)} \<rparr> pre)
     \<and> recoverable \<lparr> rv_disk = d_journal example_attached, rv_effects = {Route (example_route 1)} \<rparr>"
proof -
  let ?tr = "trace_of (snd (reconcile_attach word_ipnet (traced kernel_platform) 0 example_spec []
            (fresh_daemon (d_journal example_attached) (d_world example_attached, []))))"
  let ?new = "\<lparr> ar_destination = IpNet (V4 167772160) 8, ar_interface_index = 9, ar_metric = 7,
                ar_gateway = None, ar_table = None \<rparr>"
  let ?pre = "[Ev_Remove (example_route 1) (Ok ()), Ev_Add ?new (Ok ())]"
  have p: "prefix ?pre ?tr" by code_simp
  have "resources (d_journal example_attached) = {AttachSpec example_spec, Route (example_route 1)}"
    by (simp add: example_attached_def fresh_daemon_def resources_def)
  moreover have "?new \<noteq> example_route 1" by (simp add: example_route_def)
  ultimately show ?thesis using p
    by (intro exI [of _ ?pre]) (auto simp: recoverable_def settled_def)
qed

end
