(* ===== verification/Intents.thy ===== *)
theory Intents
  imports Attach
begin

text \<open>
  Routing intents (\<open>net.intent.set\<close>, \<open>net.intent.del\<close>, \<open>net.intent.list\<close> and the startup replay in
  \<open>crates/daemon/src/core.rs\<close>): an intent is compiled into an attach specification, armed as the
  journal owner \<open>intent:<id>\<close>, and recorded in the per-user intent store.
\<close>

definition INTENT_DEFAULT_METRIC :: nat where "INTENT_DEFAULT_METRIC = 100"

section \<open>Compiling an intent\<close>

fun parse_destinations :: "ipnet_crate \<Rightarrow> nat \<Rightarrow> string list \<Rightarrow> policy_route list io" where
  "parse_destinations N metric [] = Ok []"
| "parse_destinations N metric (raw # rest) =
     (case net_parse N (trim raw) of
        None \<Rightarrow> Err InvalidInput
      | Some net \<Rightarrow>
          (case parse_destinations N metric rest of
             Err e \<Rightarrow> Err e
           | Ok rs \<Rightarrow> Ok (\<lparr> pr_destination = net_trunc N net, pr_metric = metric, pr_via = None \<rparr> # rs)))"

definition intent_spec :: "ipnet_crate \<Rightarrow> intent_params \<Rightarrow> attach_spec io" where
  "intent_spec N params =
     (if in_destinations params = [] then Err InvalidInput
      else case parse_destinations N (opt_or INTENT_DEFAULT_METRIC (in_metric params)) (in_destinations params) of
        Err e \<Rightarrow> Err e
      | Ok routes \<Rightarrow>
          (let kind = ip_kind (in_path params);
               spec = (if kind = ''interface''
                       then Ok \<lparr> as_interface_name = opt_or [] (ip_interface (in_path params)),
                                 as_routes = routes, as_endpoint_bypasses = [], as_uplink = False \<rparr>
                       else if kind = ''direct''
                       then Ok \<lparr> as_interface_name = [], as_routes = routes,
                                 as_endpoint_bypasses = [], as_uplink = True \<rparr>
                       else Err InvalidInput)
           in case spec of
                Err e \<Rightarrow> Err e
              | Ok s \<Rightarrow> if validate_attach s then Ok s else Err InvalidInput))"

definition intent_owner :: "string \<Rightarrow> string io" where
  "intent_owner i =
     (if i = [] \<or> length i > 96
         \<or> list_ex (\<lambda>n. is_control_cp n \<or> is_whitespace_cp n \<or> n = 58) (utf8_chars i)
      then Err InvalidInput
      else (let owner = INTENT_OWNER_PREFIX @ i in
            if validate_owner owner then Ok owner else Err InvalidInput))"

section \<open>Requests\<close>

type_synonym 'k intent_state = "'k daemon \<times> intent_document files"

definition drop_owner_entry :: "'k platform \<Rightarrow> nat \<Rightarrow> string \<Rightarrow> 'k daemon \<Rightarrow> 'k daemon" where
  "drop_owner_entry P uid owner d =
     (case owner_position uid owner d of
        None \<Rightarrow> d
      | Some i \<Rightarrow> persist P (snd (teardown_entry P i d)))"

definition net_intent_set ::
    "ipnet_crate \<Rightarrow> 'k platform \<Rightarrow> intent_document store_env option \<Rightarrow> nat \<Rightarrow> intent_params
       \<Rightarrow> 'k intent_state \<Rightarrow> string io \<times> 'k intent_state" where
  "net_intent_set N P store uid params st =
     (let (d, files) = st in
      case intent_owner (in_id params) of
        Err e \<Rightarrow> (Err e, (d, files))
      | Ok owner \<Rightarrow>
          (case intent_spec N params of
             Err e \<Rightarrow> (Err e, (d, files))
           | Ok spec \<Rightarrow>
               (case store of
                  None \<Rightarrow> (Err NotConnected, (d, files))
                | Some env \<Rightarrow>
                    (let desired = attach_desired N P spec (d_world d);
                         torn = (case owner_position uid owner d of
                                   None \<Rightarrow> (Ok (), d)
                                 | Some i \<Rightarrow>
                                     (let (res, d) = teardown_entry P i d in
                                      (res, if is_ok res then persist P d else d)))
                     in case torn of
                          (Err e, d) \<Rightarrow> (Err e, (d, files))
                        | (Ok _, d) \<Rightarrow>
                            (let applied = (if opt_or True (in_enabled params)
                                            then apply_routes_inner N P uid owner desired (Some spec) d
                                            else (Ok 0, d))
                             in case applied of
                                  (Err e, d) \<Rightarrow> (Err e, (d, files))
                                | (Ok _, d) \<Rightarrow>
                                    (case intent_upsert env uid params files of
                                       (Err e, files) \<Rightarrow> (Err e, (drop_owner_entry P uid owner d, files))
                                     | (Ok _, files) \<Rightarrow> (Ok (in_id params), (d, files))))))))"

definition net_intent_del ::
    "'k platform \<Rightarrow> intent_document store_env option \<Rightarrow> nat \<Rightarrow> string \<Rightarrow> 'k intent_state
       \<Rightarrow> unit io \<times> 'k intent_state" where
  "net_intent_del P store uid i st =
     (let (d, files) = st in
      case intent_owner i of
        Err e \<Rightarrow> (Err e, (d, files))
      | Ok owner \<Rightarrow>
          (case store of
             None \<Rightarrow> (Err NotConnected, (d, files))
           | Some env \<Rightarrow>
               (case intent_remove env uid i files of
                  (Err e, files) \<Rightarrow> (Err e, (d, files))
                | (Ok _, files) \<Rightarrow>
                    if owner_position uid owner d \<noteq> None
                    then (let (res, d) = remove_owner_inner P uid owner d
                          in (map_result (\<lambda>_. ()) res, (d, files)))
                    else (Ok (), (d, files)))))"

definition replay_one ::
    "ipnet_crate \<Rightarrow> 'k platform \<Rightarrow> nat \<times> intent_params \<Rightarrow> nat \<times> nat \<times> 'k daemon \<Rightarrow> nat \<times> nat \<times> 'k daemon" where
  "replay_one N P up st =
     (let (uid, params) = up; (armed, failed, d) = st in
      if in_enabled params = Some False then (armed, failed, d)
      else case intent_spec N params of
        Err _ \<Rightarrow> (armed, failed + 1, d)
      | Ok spec \<Rightarrow>
          (case intent_owner (in_id params) of
             Err _ \<Rightarrow> (armed, failed + 1, d)
           | Ok owner \<Rightarrow>
               (case apply_routes_inner N P uid owner (attach_desired N P spec (d_world d)) (Some spec) d of
                  (Ok _, d) \<Rightarrow> (armed + 1, failed, d)
                | (Err _, d) \<Rightarrow> (armed, failed + 1, d))))"

text \<open>\<open>load_all\<close> reads an unreadable store as an empty document; \<open>found\<close> is the outcome of listing the
  uid directories.\<close>

definition intent_load_all ::
    "intent_document store_env \<Rightarrow> nat list io \<Rightarrow> intent_document files \<Rightarrow> (nat \<times> intent_document) list io" where
  "intent_load_all env found files =
     map_result (\<lambda>uids. map (\<lambda>uid.
         (uid, unwrap_or \<lparr> idoc_version = 0, idoc_intents = [] \<rparr> (intent_load_uid env files uid)))
       (sort uids)) found"

definition replay_intents ::
    "ipnet_crate \<Rightarrow> 'k platform \<Rightarrow> intent_document store_env option \<Rightarrow> nat list io \<Rightarrow> 'k intent_state
       \<Rightarrow> (nat \<times> nat) \<times> 'k daemon" where
  "replay_intents N P store found st =
     (let (d, files) = st in
      case store of
        None \<Rightarrow> ((0, 0), d)
      | Some env \<Rightarrow>
          (case intent_load_all env found files of
             Err _ \<Rightarrow> ((0, 0), d)
           | Ok documents \<Rightarrow>
               (let (armed, failed, d) = fold (replay_one N P)
                      (concat (map (\<lambda>(uid, doc). map (Pair uid) (idoc_intents doc)) documents)) (0, 0, d)
                in ((armed, failed), d))))"

section \<open>Status\<close>

datatype explain_status = Active | Effective | Conflicted | Missing | Deferred | Disabled

definition intent_view_status ::
    "attach_spec \<Rightarrow> applied_route list \<Rightarrow> nat \<Rightarrow> net_tables option \<Rightarrow> explain_status" where
  "intent_view_status spec desired installed tables =
     (if desired = [] then Deferred
      else if installed = length desired then Effective
      else if list_ex (\<lambda>route. case tables of None \<Rightarrow> False
              | Some t \<Rightarrow> list_ex (\<lambda>s. \<not> sr_managed s \<and> sr_destination s = ar_destination route
                    \<and> sr_table s = RT_TABLE_MAIN \<and> sr_kind s = ''unicast'') (nt_routes t)) desired
      then Conflicted
      else Missing)"

record intent_view =
  iv_id :: string
  iv_destinations :: "ip_net list"
  iv_path_kind :: string
  iv_path_interface :: "string option"
  iv_metric :: nat
  iv_enabled :: bool
  iv_status :: explain_status
  iv_installed :: nat
  iv_wanted :: nat

definition intent_view_of ::
    "ipnet_crate \<Rightarrow> 'k platform \<Rightarrow> 'k \<Rightarrow> intent_params \<Rightarrow> intent_view option" where
  "intent_view_of N P w params =
     (case intent_spec N params of
        Err _ \<Rightarrow> None
      | Ok spec \<Rightarrow>
          (let enabled = opt_or True (in_enabled params);
               tables = ok_option (pf_net_tables P w);
               desired = attach_desired N P spec w;
               installed = length (filter (\<lambda>r. case tables of None \<Rightarrow> False
                             | Some t \<Rightarrow> list_ex (\<lambda>s. same_route s r) (nt_routes t)) desired)
           in Some \<lparr> iv_id = in_id params,
                iv_destinations = map pr_destination (as_routes spec),
                iv_path_kind = (if as_uplink spec then ''direct'' else ''interface''),
                iv_path_interface = (if as_uplink spec then None else Some (as_interface_name spec)),
                iv_metric = (case as_routes spec of r # _ \<Rightarrow> pr_metric r | [] \<Rightarrow> INTENT_DEFAULT_METRIC),
                iv_enabled = enabled,
                iv_status = (if enabled then intent_view_status spec desired installed tables else Disabled),
                iv_installed = installed, iv_wanted = length desired \<rparr>))"

definition net_intent_list ::
    "ipnet_crate \<Rightarrow> 'k platform \<Rightarrow> intent_document store_env option \<Rightarrow> nat \<Rightarrow> 'k intent_state
       \<Rightarrow> intent_view list io" where
  "net_intent_list N P store uid st =
     (let (d, files) = st in
      case store of
        None \<Rightarrow> Ok []
      | Some env \<Rightarrow> map_result (\<lambda>doc. List.map_filter (intent_view_of N P (d_world d)) (idoc_intents doc))
                     (intent_load_uid env files uid))"

section \<open>Frame facts\<close>

definition stored_intent ::
    "intent_document store_env \<Rightarrow> intent_document files \<Rightarrow> nat \<Rightarrow> string \<Rightarrow> intent_params option" where
  "stored_intent env files uid k =
     (case intent_load_uid env files uid of Ok doc \<Rightarrow> find_by in_id k (idoc_intents doc) | Err _ \<Rightarrow> None)"

lemma stored_intent_lookup: "stored_intent env files uid k = intents.lookup env files uid k"
  by (cases "intent_load_uid env files uid") (simp_all add: stored_intent_def intents.lookup_def)

text \<open>Entries of other owners.\<close>

abbreviation others :: "nat \<Rightarrow> string \<Rightarrow> 'k daemon \<Rightarrow> journal" where
  "others uid owner d \<equiv> filter (\<lambda>e. je_key e \<noteq> (uid, owner)) (d_journal d)"

lemma teardown_owner_ok:
  assumes "owner_position uid owner d = Some i" and "teardown_entry P i d = (Ok u, d')" and "keys_distinct d"
  shows "owner_position uid owner d' = None" and "others uid owner d' = others uid owner d"
    and "keys_distinct d'"
proof -
  note i = owner_position_SomeD [OF assms(1)]
  have J: "d_journal d' = remove_nth i (d_journal d)" using i any.td_ok [OF _ assms(2)] by blast
  show "owner_position uid owner d' = None"
    using i assms(3) distinct_remove_nth_not_in [of "map je_key (d_journal d)" i]
    by (simp add: owner_position_None_iff J keys_distinct_def flip: map_remove_nth set_map)
  show "others uid owner d' = others uid owner d"
    using any.others_untouched [OF _ assms(2)] i by simp
  show "keys_distinct d'"
    using assms(3) by (simp add: keys_distinct_def J map_remove_nth distinct_remove_nth)
qed

lemma others_persist [simp]: "others uid owner (persist P d) = others uid owner d"
  "owner_position uid owner (persist P d) = owner_position uid owner d"
  by (simp_all add: owner_position_def)

lemma apply_ok_journal:
  "apply_routes_inner N P uid owner routes attach d = (Ok n, d') \<Longrightarrow>
     d_journal d' = d_journal d @ [\<lparr> je_uid = uid, je_owner = owner, je_state = Applied,
                        je_resources = attach_resources attach @ map Route routes \<rparr>]"
  by (drule apply_routes_inner_outcome) (simp add: apply_outcome_def)

section \<open>Properties\<close>

text \<open>The journal after a successful \<open>net.intent.set\<close>: the owner has exactly the applied entry of the
  compiled specification, or none when the intent is disabled.\<close>

definition armed ::
    "ipnet_crate \<Rightarrow> 'k platform \<Rightarrow> nat \<Rightarrow> string \<Rightarrow> attach_spec \<Rightarrow> bool \<Rightarrow> 'k \<Rightarrow> 'k daemon \<Rightarrow> bool" where
  "armed N P uid owner spec enabled w d \<longleftrightarrow>
     filter (\<lambda>e. je_key e = (uid, owner)) (d_journal d) =
       (if enabled then [\<lparr> je_uid = uid, je_owner = owner, je_state = Applied,
            je_resources = AttachSpec spec # map Route (attach_desired N P spec w) \<rparr>] else [])"

lemma no_entry: "owner_position uid owner d = None \<Longrightarrow> filter (\<lambda>e. je_key e = (uid, owner)) (d_journal d) = []"
  by (simp add: owner_position_None_iff filter_empty_conv image_iff) metis

lemma set_applied:
  assumes "owner_position uid owner d = None"
    and "(if enabled then apply_routes_inner N P uid owner (attach_desired N P spec w) (Some spec) d else (Ok 0, d)) = (Ok n, d')"
  shows "armed N P uid owner spec enabled w d'" and "others uid owner d' = others uid owner d"
  using assms no_entry [OF assms(1)]
  by (auto simp: armed_def attach_resources_def je_key_def split: if_splits dest!: apply_ok_journal)

text \<open>C21: a successful \<open>net.intent.set\<close> of an intent with at most 512 destinations does what it says.  The owner \<open>intent:<id>\<close> has one applied entry
  holding the compiled specification and the routes it wants now (no entry when the intent is
  disabled), every other owner's entries are unchanged, and the store maps the id to the new
  parameters and every other id of every uid to what it had before.\<close>

theorem net_intent_set_arms:
  assumes "net_intent_set N P (Some env) uid params (d, files) = (Ok i, (d', files'))"
    and "keys_distinct d" and "length (in_destinations params) \<le> MAX_DESTINATIONS"
  shows "\<exists>owner spec. intent_owner i = Ok owner \<and> intent_spec N params = Ok spec
     \<and> armed N P uid owner spec (in_enabled params \<noteq> Some False) (d_world d) d'
     \<and> others uid owner d' = others uid owner d
     \<and> (\<forall>u k. stored_intent env files' u k =
           (if u = uid \<and> k = i then Some params else stored_intent env files u k))"
proof -
  obtain owner where ow: "intent_owner (in_id params) = Ok owner"
    using assms(1) by (auto simp: net_intent_set_def split: result.splits)
  obtain spec where sp: "intent_spec N params = Ok spec"
    using assms(1) ow by (auto simp: net_intent_set_def split: result.splits)
  let ?en = "opt_or True (in_enabled params)"
  obtain d1 d2 n where
    d1: "owner_position uid owner d1 = None" "others uid owner d1 = others uid owner d"
    and ap: "(if ?en then apply_routes_inner N P uid owner (attach_desired N P spec (d_world d)) (Some spec) d1
              else (Ok 0, d1)) = (Ok n, d2)"
    and up: "intent_upsert env uid params files = (Ok (), files')"
    and fin: "i = in_id params" "d' = d2"
  proof (cases "owner_position uid owner d")
    case None
    then show ?thesis using assms(1) ow sp that [of d]
      by (auto simp: net_intent_set_def split: result.splits prod.splits)
  next
    case (Some j)
    obtain res d1 where td: "teardown_entry P j d = (res, d1)" by (rule prod.exhaust)
    then obtain u where res: "res = Ok u"
      using assms(1) ow sp Some by (cases res) (auto simp: net_intent_set_def split: result.splits prod.splits)
    note t = teardown_owner_ok [OF Some td [unfolded res] assms(2)]
    show ?thesis using assms(1) ow sp Some td res t that [of "persist P d1"]
      by (auto simp: net_intent_set_def split: result.splits prod.splits)
  qed
  note a = set_applied [OF d1(1) ap]
  have "?en \<longleftrightarrow> in_enabled params \<noteq> Some False" by (cases "in_enabled params") (auto simp: opt_or_def)
  moreover have "few_destinations params" using assms(3) by (simp add: few_destinations_def)
  ultimately show ?thesis
    using ow sp fin a d1(2) intents.lookup_put [OF _ up] by (auto simp: stored_intent_lookup)
qed

definition example_crate :: ipnet_crate where
  "example_crate = word_ipnet\<lparr>net_parse :=
     (\<lambda>t. if t = ''10.0.0.0/8'' then Some (IpNet (V4 167772160) 8) else None)\<rparr>"

definition example_intent :: "string list \<Rightarrow> intent_params" where
  "example_intent dests = \<lparr> in_id = ''lab'', in_destinations = dests,
     in_path = \<lparr> ip_kind = ''interface'', ip_interface = Some ''tun7'', ip_gateway = None \<rparr>,
     in_metric = None, in_enabled = None \<rparr>"

definition example_idle :: "sim daemon" where
  "example_idle = fresh_daemon [] (quiet_sim\<lparr>sim_links := [(''tun7'', 9)]\<rparr>)"

definition example_set :: "string list \<Rightarrow> sim intent_state \<Rightarrow> string io \<times> sim intent_state" where
  "example_set dests = net_intent_set example_crate sim_platform (Some open_env) 1000 (example_intent dests)"

theorem net_intent_set_arms_witness:
  "\<exists>d' files'. example_set ['' 10.0.0.0/8 ''] (example_idle, Map.empty) = (Ok ''lab'', (d', files'))
     \<and> length (d_journal d') = 1 \<and> length (sim_routes (d_world d')) = 1
     \<and> stored_intent open_env files' 1000 ''lab'' = Some (example_intent ['' 10.0.0.0/8 ''])"
proof -
  let ?out = "example_set ['' 10.0.0.0/8 ''] (example_idle, Map.empty)"
  have f: "fst ?out = Ok ''lab''" "length (d_journal (fst (snd ?out))) = 1"
    "length (sim_routes (d_world (fst (snd ?out)))) = 1" by code_simp+
  have k: "keys_distinct example_idle"
    "length (in_destinations (example_intent ['' 10.0.0.0/8 ''])) \<le> MAX_DESTINATIONS" by code_simp+
  obtain r d' files' where out: "?out = (r, (d', files'))" by (metis prod.exhaust)
  then have r: "?out = (Ok ''lab'', (d', files'))" using f(1) by simp
  from net_intent_set_arms [OF r [unfolded example_set_def] k]
  have "stored_intent open_env files' 1000 ''lab'' = Some (example_intent ['' 10.0.0.0/8 ''])" by auto
  with r f(2,3) show ?thesis by simp
qed

text \<open>a successful \<open>net.intent.del\<close> leaves neither a stored intent of that id nor a journal entry of its
  owner, and changes nothing of any other intent or owner.\<close>

theorem net_intent_del_disarms:
  assumes "net_intent_del P (Some env) uid i (d, files) = (Ok (), (d', files'))" and "keys_distinct d"
  shows "\<exists>owner. intent_owner i = Ok owner \<and> owner_position uid owner d' = None
     \<and> others uid owner d' = others uid owner d
     \<and> (\<forall>u k. stored_intent env files' u k =
           (if u = uid \<and> k = i then None else stored_intent env files u k))"
proof -
  obtain owner where ow: "intent_owner i = Ok owner"
    using assms(1) by (auto simp: net_intent_del_def split: result.splits)
  obtain b where rm: "intent_remove env uid i files = (Ok b, files')"
    using assms(1) ow
    by (auto simp: net_intent_del_def remove_owner_inner_def split: result.splits prod.splits if_splits)
  have store: "stored_intent env files' u k = (if u = uid \<and> k = i then None else stored_intent env files u k)"
    for u k using rm intents.lookup_del [of env uid i files files'] by (simp add: stored_intent_lookup)
  show ?thesis
  proof (cases "owner_position uid owner d")
    case None
    then show ?thesis using assms(1) ow rm store by (auto simp: net_intent_del_def)
  next
    case (Some j)
    obtain res d1 where td: "teardown_entry P j d = (res, d1)" by (rule prod.exhaust)
    then obtain u where res: "res = Ok u" and d': "d' = persist P d1"
      using assms(1) ow rm Some by (cases res) (auto simp: net_intent_del_def remove_owner_inner_def)
    show ?thesis
      using teardown_owner_ok [OF Some td [unfolded res] assms(2)] ow d' store by auto
  qed
qed

definition example_armed :: "sim intent_state" where
  "example_armed = snd (example_set [''10.0.0.0/8''] (example_idle, Map.empty))"

lemma apply_err_stale:
  assumes "apply_routes_inner N P uid owner routes attach d = (Err e, d')" and "owner_position uid owner d = None"
  shows "others uid owner d' = others uid owner d \<and> (\<forall>x \<in> set (d_journal d'). je_key x = (uid, owner) \<longrightarrow> je_state x = Stale)"
proof -
  have none: "je_key x \<noteq> (uid, owner)" if "x \<in> set (d_journal d)" for x
    using that assms(2) by (auto simp: owner_position_None_iff image_iff)
  consider "d_journal d' = d_journal d" | rs where "d_journal d' = d_journal d @ [\<lparr> je_uid = uid, je_owner = owner, je_state = Stale, je_resources = rs \<rparr>]"
    using apply_routes_inner_outcome [OF assms(1)] by (auto simp: apply_outcome_def)
  then show ?thesis by cases (simp_all add: none je_key_def [of "\<lparr> je_uid = uid, je_owner = owner, je_state = Stale, je_resources = rs \<rparr>" for rs])
qed

text \<open>C34: a failing \<open>net.intent.set\<close> switches an intent off.  The existing entry is torn down before the new routes are
  checked and applied.  So when a request replaces an intent, its id and specification are fine, the old routes are removed
  and the store takes the new document, but the request fails all the same (the new routes name one prefix twice, the
  journal cannot be saved, or the kernel refuses a route), no entry of the intent is in force any more: what is
  left in the journal under its owner, if anything, is a stale entry.  The store still lists the old intent, and the other
  owners keep their entries.\<close>

theorem net_intent_set_failure_disarms:
  assumes "net_intent_set N P (Some env) uid params (d, files) = (Err e, (d', files'))"
    and "intent_owner (in_id params) = Ok owner" and "intent_spec N params = Ok spec"
    and "owner_position uid owner d = Some i" and "teardown_entry P i d = (Ok (), d1)"
    and "is_ok (fst (intent_upsert env uid params files))" and "keys_distinct d"
  shows "files' = files \<and> others uid owner d' = others uid owner d
    \<and> (\<forall>x \<in> set (d_journal d'). je_key x = (uid, owner) \<longrightarrow> je_state x = Stale)"
proof -
  let ?d = "persist P d1" and ?rs = "attach_desired N P spec (d_world d)"
  note t = teardown_owner_ok [OF assms(4,5,7)]
  obtain f where up: "intent_upsert env uid params files = (Ok (), f)" using assms(6)
    by (cases "intent_upsert env uid params files"; cases "fst (intent_upsert env uid params files)") simp_all
  then have "files' = files" "apply_routes_inner N P uid owner ?rs (Some spec) ?d = (Err e, d')"
    using assms(1-5) by (auto simp: net_intent_set_def split: result.splits prod.splits if_splits)
  then show ?thesis using apply_err_stale [of N P uid owner ?rs "Some spec" ?d e d'] t by simp
qed

theorem net_intent_set_failure_disarms_witness:
  "\<exists>d' files. snd example_armed = files
     \<and> example_set [''10.0.0.0/8'', ''10.0.0.0/8''] example_armed = (Err InvalidInput, (d', files))
     \<and> map je_state (d_journal (fst example_armed)) = [Applied] \<and> (\<forall>x \<in> set (d_journal d'). je_key x = (1000, ''intent:lab'') \<longrightarrow> je_state x = Stale)"
proof -
  let ?p = "example_intent [''10.0.0.0/8'', ''10.0.0.0/8'']" and ?out = "example_set [''10.0.0.0/8'', ''10.0.0.0/8''] example_armed"
  obtain d files where a: "example_armed = (d, files)" by (rule prod.exhaust)
  let ?r = "\<lparr> pr_destination = IpNet (V4 167772160) 8, pr_metric = 100, pr_via = None \<rparr>"
  have sp: "intent_spec example_crate ?p = Ok \<lparr> as_interface_name = ''tun7'', as_routes = [?r, ?r],
            as_endpoint_bypasses = [], as_uplink = False \<rparr>" by code_simp
  have ow: "intent_owner (in_id ?p) = Ok ''intent:lab''"
    and pos: "owner_position 1000 ''intent:lab'' (fst example_armed) = Some 0"
    and td: "fst (teardown_entry sim_platform 0 (fst example_armed)) = Ok ()"
    and k: "keys_distinct (fst example_armed)" and st: "map je_state (d_journal (fst example_armed)) = [Applied]"
    by code_simp+
  have up: "is_ok (fst (intent_upsert open_env 1000 ?p (snd example_armed)))" by code_simp
  have e: "fst ?out = Err InvalidInput" by code_simp
  obtain res d1 where t: "teardown_entry sim_platform 0 d = (res, d1)" by (rule prod.exhaust)
  with td have t: "teardown_entry sim_platform 0 d = (Ok (), d1)" by (simp add: a)
  have pos': "owner_position 1000 ''intent:lab'' d = Some 0" and k': "keys_distinct d"
    and up': "is_ok (fst (intent_upsert open_env 1000 ?p files))" using pos k up unfolding a fst_conv snd_conv by - assumption+
  obtain r d' files' where out: "?out = (r, (d', files'))" by (metis prod.exhaust)
  then have out: "?out = (Err InvalidInput, (d', files'))" using e by simp
  have "files' = files \<and> (\<forall>x \<in> set (d_journal d'). je_key x = (1000, ''intent:lab'') \<longrightarrow> je_state x = Stale)"
    using net_intent_set_failure_disarms [OF out [unfolded a example_set_def] ow sp pos' t up' k'] by blast
  then show ?thesis using out st unfolding a snd_conv by (intro exI [of _ d'] exI [of _ files]) simp
qed

end
