(* ===== verification/Failover.thy ===== *)
theory Failover
  imports Net_Types
begin

text \<open>
  Multinode failover of an Xray tunnel (\<open>crates/daemon/src/failover.rs\<close>) with the loopback ports it
  uses (\<open>crates/daemon/src/xray.rs\<close>, \<open>crates/daemon/src/proxy_exits.rs\<close>) and the validation of named
  exits (\<open>crates/core/src/proxy_exits.rs\<close>).  Probing, the balancer call and the stop flag are the
  environment of a supervision round.
\<close>

section \<open>Loopback ports\<close>

definition POLICY_MARK_BASE :: nat where "POLICY_MARK_BASE = 51820"
definition API_PORT_BASE :: nat where "API_PORT_BASE = 10185"
definition PROBE_PORT_BASE :: nat where "PROBE_PORT_BASE = 11185"

text \<open>\<open>as u16\<close> and \<open>as u32\<close> keep the low bits; \<open>u16::try_from\<close> refuses what does not fit.\<close>

definition as_u16 :: "nat \<Rightarrow> nat" where "as_u16 n = n mod 2 ^ 16"
definition as_u32 :: "nat \<Rightarrow> nat" where "as_u32 n = n mod 2 ^ 32"

definition try_u16 :: "nat \<Rightarrow> nat \<Rightarrow> nat" where
  "try_u16 fallback n = (if n < 2 ^ 16 then n else as_u16 fallback)"

text \<open>\<open>mark.saturating_sub(POLICY_MARK_BASE).min(127)\<close>.\<close>

definition policy_slot :: "nat \<Rightarrow> nat" where
  "policy_slot mark = min (mark - POLICY_MARK_BASE) 127"

definition xray_probe_port :: "nat \<Rightarrow> nat \<Rightarrow> nat" where
  "xray_probe_port mark index = try_u16 PROBE_PORT_BASE (PROBE_PORT_BASE + policy_slot mark * 8 + min index 7)"

definition xray_api_port :: "nat \<Rightarrow> nat" where
  "xray_api_port mark = try_u16 API_PORT_BASE (API_PORT_BASE + policy_slot mark)"

definition xray_pin_probe_port :: "nat \<Rightarrow> nat \<Rightarrow> nat" where
  "xray_pin_probe_port mark index = as_u16 (13000 + policy_slot mark * 40 + min index 32)"

definition exit_ports :: "nat \<Rightarrow> nat \<Rightarrow> nat \<times> nat" where
  "exit_ports mark index =
     (let socks = as_u16 (as_u32 (24000 + policy_slot mark * 32 + as_u32 index * 2))
      in (socks, as_u16 (socks + 1)))"

section \<open>Named exits\<close>

definition MAX_PROXY_EXITS :: nat where "MAX_PROXY_EXITS = 16"
definition MAX_POOL_KEYS :: nat where "MAX_POOL_KEYS = 8"
definition MAX_NO_PROXY :: nat where "MAX_NO_PROXY = 32"
definition MAX_NO_PROXY_LEN :: nat where "MAX_NO_PROXY_LEN = 253"
definition MAX_FAILOVER_NODES :: nat where "MAX_FAILOVER_NODES = 8"
definition RESERVED_NAMES :: "string list" where
  "RESERVED_NAMES = [''list'', ''set'', ''remove'', ''help'']"

definition valid_proxy_exit_name :: "string \<Rightarrow> bool" where
  "valid_proxy_exit_name name \<longleftrightarrow>
     1 \<le> length name \<and> length name \<le> 32 \<and> is_ascii_alphanumeric (hd name)
     \<and> list_all (\<lambda>b. is_ascii_lower b \<or> is_ascii_digit b \<or> b \<in> set ''-_'') name
     \<and> name \<notin> set RESERVED_NAMES"

definition valid_no_proxy_entry :: "string \<Rightarrow> bool" where
  "valid_no_proxy_entry entry \<longleftrightarrow>
     entry \<noteq> [] \<and> length entry \<le> MAX_NO_PROXY_LEN
     \<and> list_all (\<lambda>b. is_ascii_alphanumeric b \<or> b \<in> set ''.-_:[]/*'') entry"

definition valid_endpoint_key :: "string \<Rightarrow> bool" where
  "valid_endpoint_key key \<longleftrightarrow>
     length key = 16 \<and> list_all (\<lambda>b. is_ascii_digit b \<or> b \<in> set ''abcdef'') key"

definition valid_target :: "proxy_target \<Rightarrow> bool" where
  "valid_target t =
     (case t of
        Rules \<Rightarrow> True
      | Direct \<Rightarrow> True
      | Node key \<Rightarrow> valid_endpoint_key key
      | Pool keys \<Rightarrow> keys \<noteq> [] \<and> length keys \<le> MAX_POOL_KEYS
          \<and> list_all valid_endpoint_key keys \<and> distinct keys)"

fun validate_exits_from :: "string set \<Rightarrow> named_proxy_exit list \<Rightarrow> unit io" where
  "validate_exits_from names [] = Ok ()"
| "validate_exits_from names (e # es) =
     (if \<not> valid_proxy_exit_name (ne_name e) then Err InvalidInput
      else if ne_name e \<in> names then Err InvalidInput
      else if \<not> valid_target (ne_target e) then Err InvalidInput
      else if length (ne_no_proxy e) > MAX_NO_PROXY then Err InvalidInput
      else if list_ex (\<lambda>x. \<not> valid_no_proxy_entry x) (ne_no_proxy e) then Err InvalidInput
      else validate_exits_from (insert (ne_name e) names) es)"

definition validate_proxy_exits :: "named_proxy_exit list \<Rightarrow> unit io" where
  "validate_proxy_exits exits =
     (if length exits > MAX_PROXY_EXITS then Err InvalidInput else validate_exits_from {} exits)"

definition balancer_tag :: "string \<Rightarrow> string" where
  "balancer_tag name = ''proxy-pool-'' @ name"

definition pool_params :: "proxy_exit_binding \<Rightarrow> string \<Rightarrow> nat \<Rightarrow> failover_params option" where
  "pool_params exit probe_url interval_secs =
     (case pb_target exit of
        Pool (k # ks) \<Rightarrow> Some \<lparr> fp_nodes = k # ks, fp_primary_key = k, fp_auto_return_primary = True,
                               fp_probe_url = probe_url, fp_interval_secs = interval_secs \<rparr>
      | _ \<Rightarrow> None)"

section \<open>Tracking one node\<close>

definition STREAK_REQUIRED :: int where "STREAK_REQUIRED = 2"
definition UNAVAILABLE_TAG :: string where "UNAVAILABLE_TAG = ''unavailable''"
definition FAILOVER_BALANCER :: string where "FAILOVER_BALANCER = ''failover''"

record probe_sample =
  ps_healthy :: bool
  ps_latency_ms :: "nat option"

record tracked_node =
  tn_key :: string
  tn_probe_port :: nat
  tn_committed :: "bool option"
  tn_streak :: int
  tn_last_probe_unix :: "nat option"
  tn_latency_ms :: "nat option"

text \<open>\<open>now\<close> is the clock reading in seconds; the streak is an \<open>i8\<close> in the code.\<close>

definition observe_probe :: "probe_sample \<Rightarrow> nat \<Rightarrow> tracked_node \<Rightarrow> tracked_node" where
  "observe_probe sample now n =
     (let n = n\<lparr>tn_last_probe_unix := Some now, tn_latency_ms := ps_latency_ms sample\<rparr> in
      case tn_committed n of
        None \<Rightarrow> n\<lparr>tn_committed := Some (ps_healthy sample)\<rparr>
      | Some c \<Rightarrow>
          if c = ps_healthy sample then n\<lparr>tn_streak := 0\<rparr>
          else (let streak = tn_streak n + (if ps_healthy sample then 1 else -1) in
                if \<bar>streak\<bar> \<ge> STREAK_REQUIRED
                then n\<lparr>tn_streak := 0, tn_committed := Some (ps_healthy sample)\<rparr>
                else n\<lparr>tn_streak := streak\<rparr>))"

record node_health =
  nh_key :: string
  nh_healthy :: "bool option"
  nh_last_probe_unix :: "nat option"
  nh_latency_ms :: "nat option"

definition health :: "tracked_node \<Rightarrow> node_health" where
  "health n = \<lparr> nh_key = tn_key n, nh_healthy = tn_committed n,
     nh_last_probe_unix = tn_last_probe_unix n, nh_latency_ms = tn_latency_ms n \<rparr>"

section \<open>Choosing the outbound\<close>

datatype outbound_kind = Kind_Node | Kind_Pin

fun kind_prefix :: "outbound_kind \<Rightarrow> string" where
  "kind_prefix Kind_Node = ''node-''"
| "kind_prefix Kind_Pin = ''pin-''"

definition kind_tag :: "outbound_kind \<Rightarrow> string \<Rightarrow> string" where
  "kind_tag kind key = kind_prefix kind @ key"

record balancer_target =
  bt_tag :: string
  bt_kind :: outbound_kind

definition first_healthy :: "string list \<Rightarrow> bool option list \<Rightarrow> outbound_kind \<Rightarrow> string" where
  "first_healthy candidates healthy kind =
     (case List.find (\<lambda>(_, h). h = Some True) (zip candidates healthy) of
        Some (key, _) \<Rightarrow> kind_tag kind key
      | None \<Rightarrow> UNAVAILABLE_TAG)"

definition select_tag ::
    "string list \<Rightarrow> bool option list \<Rightarrow> string option \<Rightarrow> bool \<Rightarrow> outbound_kind \<Rightarrow> string" where
  "select_tag candidates healthy current auto_return kind =
     (let kept =
        (if auto_return then None
         else case current of
           None \<Rightarrow> None
         | Some tag \<Rightarrow>
             (case position (\<lambda>key. strip_prefix (kind_prefix kind) tag = Some key) candidates of
                None \<Rightarrow> None
              | Some i \<Rightarrow>
                  if i < length healthy \<and> healthy ! i = Some True \<and> i > 0 then Some tag else None))
      in case kept of Some tag \<Rightarrow> tag | None \<Rightarrow> first_healthy candidates healthy kind)"

section \<open>The supervisor\<close>

record failover_status =
  fs_primary_key :: string
  fs_active_key :: string
  fs_auto_return_primary :: bool
  fs_failover_active :: bool
  fs_nodes :: "node_health list"

record supervisor =
  su_params :: failover_params
  su_api_port :: nat
  su_balancer :: balancer_target
  su_nodes :: "tracked_node list"
  su_applied :: "string option"
  su_status :: failover_status

definition fresh_node :: "string \<Rightarrow> nat \<Rightarrow> tracked_node" where
  "fresh_node key port = \<lparr> tn_key = key, tn_probe_port = port, tn_committed = None, tn_streak = 0,
     tn_last_probe_unix = None, tn_latency_ms = None \<rparr>"

definition spawn_supervisor ::
    "failover_params \<Rightarrow> nat \<Rightarrow> balancer_target \<Rightarrow> (nat \<Rightarrow> nat) \<Rightarrow> supervisor" where
  "spawn_supervisor params api_port balancer probe_port_of =
     (let nodes = map (\<lambda>(i, key). fresh_node key (probe_port_of i)) (List.enumerate 0 (fp_nodes params))
      in \<lparr> su_params = params, su_api_port = api_port, su_balancer = balancer, su_nodes = nodes,
           su_applied = None,
           su_status = \<lparr> fs_primary_key = fp_primary_key params, fs_active_key = UNAVAILABLE_TAG,
             fs_auto_return_primary = fp_auto_return_primary params, fs_failover_active = False,
             fs_nodes = map health nodes \<rparr> \<rparr>)"

text \<open>The environment of one round: the readings of the stop flag in the order of the checks (0 is the
  loop condition), the sample and clock reading of each probed node, the outcome of the balancer
  call.\<close>

record round_env =
  re_stop :: "nat \<Rightarrow> bool"
  re_probe :: "nat \<Rightarrow> probe_sample"
  re_now :: "nat \<Rightarrow> nat"
  re_override :: "string \<Rightarrow> string \<Rightarrow> unit io"

fun probe_nodes :: "round_env \<Rightarrow> nat \<Rightarrow> tracked_node list \<Rightarrow> bool \<times> tracked_node list" where
  "probe_nodes E i [] = (False, [])"
| "probe_nodes E i (n # ns) =
     (if re_stop E (Suc i) then (True, n # ns)
      else (let (stopped, ns) = probe_nodes E (Suc i) ns
            in (stopped, observe_probe (re_probe E i) (re_now E i) n # ns)))"

definition active_key :: "outbound_kind \<Rightarrow> string option \<Rightarrow> string" where
  "active_key kind applied =
     (case applied of
        None \<Rightarrow> UNAVAILABLE_TAG
      | Some tag \<Rightarrow> (case strip_prefix (kind_prefix kind) tag of Some key \<Rightarrow> key | None \<Rightarrow> tag))"

definition failover_report ::
    "failover_params \<Rightarrow> outbound_kind \<Rightarrow> string option \<Rightarrow> tracked_node list \<Rightarrow> failover_status" where
  "failover_report params kind applied nodes =
     \<lparr> fs_primary_key = fp_primary_key params, fs_active_key = active_key kind applied,
       fs_auto_return_primary = fp_auto_return_primary params,
       fs_failover_active = (case applied of None \<Rightarrow> False
         | Some tag \<Rightarrow> tag \<noteq> UNAVAILABLE_TAG \<and> tag \<noteq> kind_tag kind (fp_primary_key params)),
       fs_nodes = map health nodes \<rparr>"

definition run_round :: "round_env \<Rightarrow> supervisor \<Rightarrow> bool \<times> supervisor" where
  "run_round E s =
     (let (stopped, nodes) = probe_nodes E 0 (su_nodes s);
          s = s\<lparr>su_nodes := nodes\<rparr>;
          kind = bt_kind (su_balancer s)
      in if stopped then (True, s)
         else (let wanted = select_tag (map tn_key nodes) (map tn_committed nodes) (su_applied s)
                              (fp_auto_return_primary (su_params s)) kind
               in if re_stop E (Suc (length nodes)) then (True, s)
                  else (let applied =
                              (if su_applied s \<noteq> Some wanted
                               then (case re_override E (bt_tag (su_balancer s)) wanted of
                                       Ok _ \<Rightarrow> Some wanted | Err _ \<Rightarrow> su_applied s)
                               else su_applied s)
                        in (False, s\<lparr>su_applied := applied,
                              su_status := failover_report (su_params s) kind applied nodes\<rparr>))))"

text \<open>\<open>run\<close>: one element of the list per round that comes due; the loop leaves when the stop flag is
  read as set.\<close>

fun run_supervisor :: "round_env list \<Rightarrow> supervisor \<Rightarrow> bool \<times> supervisor" where
  "run_supervisor [] s = (False, s)"
| "run_supervisor (E # Es) s =
     (if re_stop E 0 then (True, s)
      else case run_round E s of (True, s) \<Rightarrow> (True, s) | (False, s) \<Rightarrow> run_supervisor Es s)"

section \<open>All supervisors of a tunnel\<close>

record supervisors =
  sp_main :: "supervisor option"
  sp_named :: "string \<rightharpoonup> supervisor"

text \<open>\<open>thread\<close> tells whether the worker of a balancer could be started.\<close>

definition exit_supervisor ::
    "(string \<Rightarrow> bool) \<Rightarrow> string list \<Rightarrow> nat \<Rightarrow> string \<Rightarrow> nat \<Rightarrow> proxy_exit_binding \<Rightarrow> supervisor option" where
  "exit_supervisor thread pinned_keys mark url interval exit =
     (case pool_params exit url interval of
        None \<Rightarrow> None
      | Some params \<Rightarrow>
          (let ports = map (\<lambda>key. case position (\<lambda>k. k = key) pinned_keys of
                              Some i \<Rightarrow> xray_pin_probe_port mark i | None \<Rightarrow> 0) (fp_nodes params);
               tag = balancer_tag (pb_name exit)
           in if thread tag
              then Some (spawn_supervisor params (xray_api_port mark)
                           \<lparr> bt_tag = tag, bt_kind = Kind_Pin \<rparr> (\<lambda>i. ports ! i))
              else None))"

definition spawn_supervisors ::
    "(string \<Rightarrow> bool) \<Rightarrow> failover_params option \<Rightarrow> proxy_exit_binding list \<Rightarrow> string option
       \<Rightarrow> string list \<Rightarrow> nat \<Rightarrow> supervisors" where
  "spawn_supervisors thread failover exits probe_url pinned_keys mark =
     (let main = (case failover of None \<Rightarrow> None
            | Some params \<Rightarrow>
                if thread FAILOVER_BALANCER
                then Some (spawn_supervisor params (xray_api_port mark)
                             \<lparr> bt_tag = FAILOVER_BALANCER, bt_kind = Kind_Node \<rparr> (xray_probe_port mark))
                else None);
          url = (case probe_url of Some u \<Rightarrow> Some u | None \<Rightarrow> map_option fp_probe_url failover);
          interval = (case failover of None \<Rightarrow> 10 | Some params \<Rightarrow> fp_interval_secs params)
      in \<lparr> sp_main = main,
           sp_named = (case url of None \<Rightarrow> Map.empty
             | Some u \<Rightarrow> foldl (\<lambda>m exit. case exit_supervisor thread pinned_keys mark u interval exit of
                           None \<Rightarrow> m | Some s \<Rightarrow> m(pb_name exit \<mapsto> s)) Map.empty exits) \<rparr>)"

record proxy_exit_status =
  pe_name :: string
  pe_target :: proxy_target
  pe_socks_port :: nat
  pe_http_port :: nat
  pe_pool :: "failover_status option"

definition exit_statuses :: "supervisors \<Rightarrow> proxy_exit_binding list \<Rightarrow> nat \<Rightarrow> proxy_exit_status list" where
  "exit_statuses s exits mark =
     map (\<lambda>(i, exit). \<lparr> pe_name = pb_name exit, pe_target = pb_target exit,
            pe_socks_port = fst (exit_ports mark i), pe_http_port = snd (exit_ports mark i),
            pe_pool = map_option su_status (sp_named s (pb_name exit)) \<rparr>)
       (List.enumerate 0 exits)"

section \<open>Ports of concurrently running tunnels\<close>

text \<open>Every loopback port one tunnel listens on: the API, a probe per failover node, a probe per pinned
  endpoint, and a SOCKS/HTTP pair per named exit.\<close>

definition listeners :: "nat \<Rightarrow> nat \<Rightarrow> nat \<Rightarrow> nat \<Rightarrow> nat list" where
  "listeners mark nodes pins exits =
     xray_api_port mark # map (xray_probe_port mark) [0..<nodes] @ map (xray_pin_probe_port mark) [0..<pins]
       @ concat (map (\<lambda>i. [fst (exit_ports mark i), snd (exit_ports mark i)]) [0..<exits])"

lemma port_values:
  "xray_api_port mark = 10185 + policy_slot mark"
  "xray_probe_port mark i = 11185 + policy_slot mark * 8 + min i 7"
  "xray_pin_probe_port mark i = 13000 + policy_slot mark * 40 + min i 32"
  "i \<le> 1000 \<Longrightarrow> exit_ports mark i = (24000 + policy_slot mark * 32 + i * 2, 24000 + policy_slot mark * 32 + i * 2 + 1)"
proof -
  have s: "policy_slot mark \<le> 127" by (simp add: policy_slot_def)
  show "xray_api_port mark = 10185 + policy_slot mark"
    using s by (simp add: xray_api_port_def try_u16_def API_PORT_BASE_def)
  show "xray_probe_port mark i = 11185 + policy_slot mark * 8 + min i 7"
    using s by (simp add: xray_probe_port_def try_u16_def PROBE_PORT_BASE_def min_def)
  show "xray_pin_probe_port mark i = 13000 + policy_slot mark * 40 + min i 32"
    using s by (simp add: xray_pin_probe_port_def as_u16_def min_def)
  show "exit_ports mark i = (24000 + policy_slot mark * 32 + i * 2, 24000 + policy_slot mark * 32 + i * 2 + 1)"
    if "i \<le> 1000" using s that by (simp add: exit_ports_def as_u16_def as_u32_def)
qed

lemma policy_slot_inj:
  "POLICY_MARK_BASE \<le> m \<Longrightarrow> m < POLICY_MARK_BASE + 128 \<Longrightarrow> policy_slot m = m - POLICY_MARK_BASE"
  by (simp add: policy_slot_def)

lemma concat_pairs: "concat (map (\<lambda>i. [a + i * 2, a + i * 2 + 1]) [0..<e]) = [a..<a + e * (2::nat)]"
proof (induction e)
  case (Suc e)
  have "a + Suc e * 2 = Suc (Suc (a + e * 2))" by simp
  then have "[a..<a + Suc e * 2] = [a..<a + e * 2] @ [a + e * 2, a + e * 2 + 1]"
    by (simp only: upt_Suc_append le_add1 le_SucI) simp
  with Suc show ?case by simp
qed simp

lemma map_min_upt: "n \<le> Suc c \<Longrightarrow> map (\<lambda>i. a + min i c) [0..<n] = [a..<a + n]"
  by (rule nth_equalityI) auto

text \<open>The ports of policy slot \<open>k\<close> are four intervals.\<close>

lemma listeners_intervals:
  assumes "nodes \<le> 8" "pins \<le> 33" "exits \<le> 16"
  shows "listeners mark nodes pins exits =
     (let k = policy_slot mark in [10185 + k] @ [11185 + k * 8..<11185 + k * 8 + nodes]
        @ [13000 + k * 40..<13000 + k * 40 + pins] @ [24000 + k * 32..<24000 + k * 32 + exits * 2])"
proof -
  have e: "map (\<lambda>i. [fst (exit_ports mark i), snd (exit_ports mark i)]) [0..<exits] =
      map (\<lambda>i. [24000 + policy_slot mark * 32 + i * 2, 24000 + policy_slot mark * 32 + i * 2 + 1]) [0..<exits]"
    by (rule map_cong [OF refl]) (use assms(3) in \<open>simp add: port_values(4)\<close>)
  have "map (xray_probe_port mark) [0..<nodes] = [11185 + policy_slot mark * 8..<11185 + policy_slot mark * 8 + nodes]"
    using map_min_upt [of nodes 7] assms(1) by (simp add: port_values(2) cong: map_cong)
  moreover have "map (xray_pin_probe_port mark) [0..<pins] = [13000 + policy_slot mark * 40..<13000 + policy_slot mark * 40 + pins]"
    using map_min_upt [of pins 32] assms(2) by (simp add: port_values(3) cong: map_cong)
  ultimately show ?thesis
    unfolding listeners_def e concat_pairs Let_def by (simp add: port_values(1))
qed

lemma slot_stride: "(j::nat) < k \<Longrightarrow> j * c + c \<le> k * c"
  by (metis Suc_leI add.commute mult_Suc mult_le_mono1)

lemma slots_apart:
  assumes "nodes \<le> 8" "pins \<le> 33" "exits \<le> 16" "nodes' \<le> 8" "pins' \<le> 33" "exits' \<le> 16"
    and "policy_slot m < policy_slot m'"
  shows "set (listeners m nodes pins exits) \<inter> set (listeners m' nodes' pins' exits') = {}"
proof -
  have "policy_slot m' \<le> 127" by (simp add: policy_slot_def)
  then show ?thesis
    using assms slot_stride [OF assms(7), of 8] slot_stride [OF assms(7), of 40] slot_stride [OF assms(7), of 32]
    by (simp add: listeners_intervals Let_def) auto
qed

text \<open>no two listeners collide.  With at most 8 failover nodes, 33 pinned endpoints and 16 named exits,
  all loopback ports of one tunnel are different, non-privileged and fit in 16 bits, and two tunnels
  with different policy marks share none.\<close>

theorem listeners_never_collide:
  assumes "nodes \<le> MAX_FAILOVER_NODES" "pins \<le> 33" "exits \<le> MAX_PROXY_EXITS"
    and "nodes' \<le> MAX_FAILOVER_NODES" "pins' \<le> 33" "exits' \<le> MAX_PROXY_EXITS"
    and "m \<in> {POLICY_MARK_BASE ..< POLICY_MARK_BASE + 128}" "m' \<in> {POLICY_MARK_BASE ..< POLICY_MARK_BASE + 128}"
  shows "distinct (listeners m nodes pins exits)
    \<and> (\<forall>p \<in> set (listeners m nodes pins exits). 1024 < p \<and> p < 2 ^ 16)
    \<and> (m \<noteq> m' \<longrightarrow> set (listeners m nodes pins exits) \<inter> set (listeners m' nodes' pins' exits') = {})"
proof (intro conjI impI)
  note le = assms(1-6) [unfolded MAX_FAILOVER_NODES_def MAX_PROXY_EXITS_def]
  have sl: "policy_slot m \<le> 127" by (simp add: policy_slot_def)
  show "distinct (listeners m nodes pins exits)" using le(1-3) sl
    by (simp add: listeners_intervals Let_def) auto
  show "\<forall>p \<in> set (listeners m nodes pins exits). 1024 < p \<and> p < 2 ^ 16"
    using le(1-3) sl by (simp add: listeners_intervals Let_def) auto
  show "set (listeners m nodes pins exits) \<inter> set (listeners m' nodes' pins' exits') = {}" if "m \<noteq> m'"
  proof -
    have "policy_slot m < policy_slot m' \<or> policy_slot m' < policy_slot m"
      using that assms(7,8) by (auto simp: policy_slot_inj)
    then show ?thesis using slots_apart [OF le] slots_apart [OF le(4-6) le(1-3)] by blast
  qed
qed

theorem listeners_never_collide_witness:
  "distinct (listeners 51820 8 33 16) \<and> set (listeners 51820 8 33 16) \<inter> set (listeners 51947 8 33 16) = {}
   \<and> length (listeners 51820 8 33 16) = 74"
  using listeners_never_collide [of 8 33 16 8 33 16 51820 51947]
  by (simp add: MAX_FAILOVER_NODES_def MAX_PROXY_EXITS_def POLICY_MARK_BASE_def listeners_intervals Let_def)

section \<open>Smoothing of verdicts\<close>

text \<open>The reference: the first sample counts at face value, after that the verdict is the latest value
  two consecutive samples agreed on.\<close>

fun smoothed :: "bool list \<Rightarrow> bool option" where
  "smoothed [] = None"
| "smoothed [a] = Some a"
| "smoothed (b # a # older) = (if a = b then Some b else smoothed (a # older))"

definition observe_all :: "(probe_sample \<times> nat) list \<Rightarrow> tracked_node \<Rightarrow> tracked_node" where
  "observe_all = fold (\<lambda>(sample, now). observe_probe sample now)"

text \<open>The streak is zero exactly when the last sample agreed with the verdict, and never leaves
  \<open>-1 \<dots> 1\<close>.\<close>

definition streak_of :: "bool list \<Rightarrow> int" where
  "streak_of samples = (case samples of [] \<Rightarrow> 0
     | b # _ \<Rightarrow> if smoothed samples = Some b then 0 else if b then 1 else -1)"

lemma smoothed_some: "xs \<noteq> [] \<Longrightarrow> \<exists>c. smoothed xs = Some c"
  by (induction xs rule: smoothed.induct) auto

lemma observe_probe_smoothed:
  assumes "tn_committed n = smoothed older" and "tn_streak n = streak_of older"
  shows "tn_committed (observe_probe x now n) = smoothed (ps_healthy x # older)
       \<and> tn_streak (observe_probe x now n) = streak_of (ps_healthy x # older)"
proof (cases older)
  case Nil
  with assms show ?thesis by (simp add: observe_probe_def streak_of_def)
next
  case (Cons a rest)
  then obtain c where c: "smoothed older = Some c" using smoothed_some by blast
  with assms Cons show ?thesis
    by (cases a; cases c; cases "ps_healthy x")
      (simp_all add: observe_probe_def streak_of_def STREAK_REQUIRED_def Let_def)
qed

lemma observe_all_smoothed:
  "tn_committed n = smoothed older \<Longrightarrow> tn_streak n = streak_of older \<Longrightarrow>
   tn_committed (observe_all xs n) = smoothed (rev (map (ps_healthy \<circ> fst) xs) @ older)
   \<and> tn_streak (observe_all xs n) = streak_of (rev (map (ps_healthy \<circ> fst) xs) @ older)"
proof (induction xs arbitrary: n older)
  case (Cons x xs)
  show ?case
    using Cons.IH [of "observe_probe (fst x) (snd x) n" "ps_healthy (fst x) # older"]
      observe_probe_smoothed [OF Cons.prems, of "fst x" "snd x"]
    by (simp add: observe_all_def case_prod_beta)
qed (simp add: observe_all_def)

text \<open>the streak counter computes the intended smoothing.  After any sequence of probes the committed
  verdict of a node is none before the first probe, the first sample until two consecutive samples
  agree, and from then on the value of the latest two consecutive samples that agreed; the \<open>i8\<close> streak
  never leaves \<open>-1 \<dots> 1\<close>, so it cannot overflow.\<close>

theorem verdict_is_smoothed:
  "tn_committed (observe_all xs (fresh_node key port)) = smoothed (rev (map (ps_healthy \<circ> fst) xs))
   \<and> \<bar>tn_streak (observe_all xs (fresh_node key port))\<bar> \<le> 1"
proof -
  have "\<bar>streak_of ys\<bar> \<le> 1" for ys by (simp add: streak_of_def split: list.split)
  then show ?thesis
    using observe_all_smoothed [of "fresh_node key port" "[]" xs]
    by (simp add: fresh_node_def streak_of_def)
qed

section \<open>Which outbound is selected\<close>

lemma first_healthy_cases:
  assumes "length candidates = length healthy"
  shows "(\<exists>i < length candidates. healthy ! i = Some True \<and> (\<forall>j < i. healthy ! j \<noteq> Some True)
            \<and> first_healthy candidates healthy kind = kind_tag kind (candidates ! i))
       \<or> (Some True \<notin> set healthy \<and> first_healthy candidates healthy kind = UNAVAILABLE_TAG)"
  using assms
proof (induction candidates healthy rule: list_induct2)
  case (Cons c cs h hs)
  show ?case
  proof (cases "h = Some True")
    case True
    then show ?thesis by (auto simp: first_healthy_def intro: exI [of _ 0])
  next
    case False
    then have eq: "first_healthy (c # cs) (h # hs) kind = first_healthy cs hs kind"
      by (auto simp: first_healthy_def)
    from Cons.IH show ?thesis
    proof
      assume "\<exists>i<length cs. hs ! i = Some True \<and> (\<forall>j<i. hs ! j \<noteq> Some True)
          \<and> first_healthy cs hs kind = kind_tag kind (cs ! i)"
      then obtain i where i: "i < length cs" "hs ! i = Some True" "\<forall>j<i. hs ! j \<noteq> Some True"
        "first_healthy cs hs kind = kind_tag kind (cs ! i)" by blast
      have "\<forall>j < Suc i. (h # hs) ! j \<noteq> Some True" using i(3) False by (auto simp: less_Suc_eq_0_disj)
      with i eq show ?thesis by (intro disjI1 exI [of _ "Suc i"]) simp
    qed (use False eq in auto)
  qed
qed (simp add: first_healthy_def)

lemma tag_not_unavailable [simp]: "kind_tag kind key \<noteq> UNAVAILABLE_TAG" "UNAVAILABLE_TAG \<noteq> kind_tag kind key"
  by (cases kind; simp add: kind_tag_def UNAVAILABLE_TAG_def)+

text \<open>the balancer fails closed.  The selected tag is the tag of a candidate whose committed verdict is
  healthy, or \<open>unavailable\<close> and then no candidate is healthy.  With auto-return it is the first
  healthy candidate; without, a healthy backup that is already selected stays selected, and otherwise
  the first healthy candidate is taken.\<close>

theorem select_tag_fails_closed:
  assumes "length candidates = length healthy"
  shows "((\<exists>i < length candidates. healthy ! i = Some True
              \<and> select_tag candidates healthy current auto_return kind = kind_tag kind (candidates ! i))
          \<or> (Some True \<notin> set healthy \<and> select_tag candidates healthy current auto_return kind = UNAVAILABLE_TAG))
       \<and> (auto_return \<longrightarrow> select_tag candidates healthy current auto_return kind = first_healthy candidates healthy kind)
       \<and> (\<forall>i. 0 < i \<and> i < length candidates \<and> distinct candidates \<and> healthy ! i = Some True \<and> \<not> auto_return
            \<and> current = Some (kind_tag kind (candidates ! i))
            \<longrightarrow> select_tag candidates healthy current auto_return kind = kind_tag kind (candidates ! i))"
proof -
  have pos: "position (\<lambda>key. strip_prefix (kind_prefix kind) tag = Some key) candidates = Some i \<Longrightarrow>
      i < length candidates \<and> tag = kind_tag kind (candidates ! i)" for tag i
    by (drule position_SomeD) (simp add: strip_prefix_Some_iff kind_tag_def)
  have at: "position (\<lambda>key. strip_prefix (kind_prefix kind) (kind_tag kind (candidates ! i)) = Some key) candidates = Some i"
    if "distinct candidates" "i < length candidates" for i
  proof -
    have "position (\<lambda>key. candidates ! i = key) candidates \<noteq> None"
      using that(2) by (auto simp: position_None_iff)
    then obtain j where j: "position (\<lambda>key. candidates ! i = key) candidates = Some j" by auto
    then have "j = i" using position_SomeD [OF j] that nth_eq_iff_index_eq by metis
    with j show ?thesis by (simp add: kind_tag_def)
  qed
  have sel: "select_tag candidates healthy current auto_return kind = first_healthy candidates healthy kind
      \<or> (\<exists>i < length candidates. healthy ! i = Some True
           \<and> select_tag candidates healthy current auto_return kind = kind_tag kind (candidates ! i))"
    by (auto simp: select_tag_def Let_def split: option.splits if_splits dest!: pos)
  then have "(\<exists>i < length candidates. healthy ! i = Some True
              \<and> select_tag candidates healthy current auto_return kind = kind_tag kind (candidates ! i))
          \<or> (Some True \<notin> set healthy \<and> select_tag candidates healthy current auto_return kind = UNAVAILABLE_TAG)"
    using first_healthy_cases [OF assms, of kind] by metis
  then show ?thesis using at assms by (auto simp: select_tag_def)
qed

theorem select_tag_fails_closed_witness:
  "select_tag [''a'', ''b''] [Some True, Some True] (Some ''node-b'') False Kind_Node = ''node-b''
   \<and> select_tag [''a'', ''b''] [Some True, Some True] (Some ''node-b'') True Kind_Node = ''node-a''
   \<and> select_tag [''a'', ''b''] [Some False, None] (Some ''node-b'') False Kind_Node = ''unavailable''"
proof -
  have "select_tag [''a'', ''b''] [Some True, Some True] (Some ''node-b'') False Kind_Node = ''node-b''"
    using select_tag_fails_closed [of "[''a'', ''b'']" "[Some True, Some True]" "Some ''node-b''" False Kind_Node,
        THEN conjunct2, THEN conjunct2, THEN spec, of 1] by (simp add: kind_tag_def)
  moreover have "select_tag [''a'', ''b''] [Some True, Some True] (Some ''node-b'') True Kind_Node = ''node-a''"
    "select_tag [''a'', ''b''] [Some False, None] (Some ''node-b'') False Kind_Node = ''unavailable''" by code_simp+
  ultimately show ?thesis by blast
qed

section \<open>Supervision over time\<close>

definition tracked_ok :: "tracked_node \<Rightarrow> bool" where
  "tracked_ok n \<longleftrightarrow> (\<exists>older. tn_committed n = smoothed older \<and> tn_streak n = streak_of older)"

lemma tracked_ok_fresh [simp]: "tracked_ok (fresh_node key port)"
  unfolding tracked_ok_def by (rule exI [of _ "[]"]) (simp add: fresh_node_def streak_of_def)

lemma tracked_ok_observe: "tracked_ok n \<Longrightarrow> tracked_ok (observe_probe x now n)"
  using observe_probe_smoothed unfolding tracked_ok_def by blast

lemma observe_probe_key [simp]: "tn_key (observe_probe x now n) = tn_key n"
  by (simp add: observe_probe_def Let_def split: option.split)

lemma probe_nodes_frame:
  "probe_nodes E i ns = (stopped, ns') \<Longrightarrow> list_all tracked_ok ns \<Longrightarrow>
     map tn_key ns' = map tn_key ns \<and> list_all tracked_ok ns'"
  by (induction ns arbitrary: i stopped ns')
    (auto split: if_splits prod.splits intro: tracked_ok_observe)

text \<open>What holds of a supervisor at all times (\<open>fresh\<close>: its last round was completed).\<close>

definition supervisor_ok :: "failover_params \<Rightarrow> balancer_target \<Rightarrow> bool \<Rightarrow> supervisor \<Rightarrow> bool" where
  "supervisor_ok params balancer fresh s \<longleftrightarrow>
     su_params s = params \<and> su_balancer s = balancer
     \<and> map tn_key (su_nodes s) = fp_nodes params \<and> list_all tracked_ok (su_nodes s)
     \<and> (case su_applied s of None \<Rightarrow> True
        | Some tag \<Rightarrow> tag = UNAVAILABLE_TAG \<or> tag \<in> kind_tag (bt_kind balancer) ` set (fp_nodes params))
     \<and> (fresh \<longrightarrow> su_status s = failover_report params (bt_kind balancer) (su_applied s) (su_nodes s))"

lemma spawn_supervisor_ok: "supervisor_ok params balancer True (spawn_supervisor params port balancer ports)"
proof -
  have "map tn_key (map (\<lambda>(i, key). fresh_node key (ports i)) (List.enumerate 0 (fp_nodes params))) = fp_nodes params"
    by (simp add: comp_def case_prod_beta fresh_node_def flip: map_map [of snd id, simplified])
  then show ?thesis
    by (simp add: supervisor_ok_def spawn_supervisor_def failover_report_def active_key_def Let_def
        list_all_iff case_prod_beta)
qed

lemma selected_safe:
  assumes "length keys = length healthy"
  shows "select_tag keys healthy current auto kind = UNAVAILABLE_TAG
       \<or> select_tag keys healthy current auto kind \<in> kind_tag kind ` set keys"
proof -
  have pos: "position (\<lambda>key. strip_prefix (kind_prefix kind) tag = Some key) keys = Some i \<Longrightarrow>
      tag \<in> kind_tag kind ` set keys" for tag i
    by (drule position_SomeD) (auto simp: strip_prefix_Some_iff kind_tag_def)
  have "first_healthy keys healthy kind = UNAVAILABLE_TAG \<or> first_healthy keys healthy kind \<in> kind_tag kind ` set keys"
    using first_healthy_cases [OF assms, of kind] by auto
  then show ?thesis
    by (auto simp: select_tag_def Let_def split: option.splits if_splits dest!: pos)
qed

lemma run_round_ok:
  assumes "supervisor_ok params balancer fresh s" and "run_round E s = (stopped, s')"
  shows "supervisor_ok params balancer (\<not> stopped) s'"
proof -
  obtain st nodes where p: "probe_nodes E 0 (su_nodes s) = (st, nodes)" by (rule prod.exhaust)
  have n: "map tn_key nodes = fp_nodes params" "list_all tracked_ok nodes"
    using probe_nodes_frame [OF p] assms(1) by (simp_all add: supervisor_ok_def)
  have "length (map tn_key nodes) = length (map tn_committed nodes)" by simp
  note sel = selected_safe [OF this, of "su_applied s" "fp_auto_return_primary params" "bt_kind balancer"]
  show ?thesis using assms p n sel
    by (auto simp: run_round_def supervisor_ok_def Let_def split: if_splits result.splits)
qed

lemma run_supervisor_ok:
  "supervisor_ok params balancer True s \<Longrightarrow> run_supervisor Es s = (stopped, s') \<Longrightarrow>
     supervisor_ok params balancer (\<not> stopped) s'"
proof (induction Es arbitrary: s)
  case (Cons E Es)
  obtain st s1 where r: "run_round E s = (st, s1)" by (rule prod.exhaust)
  show ?case
  proof (cases "re_stop E 0")
    case True
    with Cons.prems show ?thesis by (auto simp: supervisor_ok_def)
  next
    case False
    with Cons r run_round_ok [OF Cons.prems(1) r] show ?thesis by (cases st) auto
  qed
qed simp

text \<open>whatever the probes, the balancer calls and the stop flag do, the balancer of a supervised tunnel
  is only ever pointed at \<open>unavailable\<close> or at one of the declared candidates (never at the direct or
  another outbound), and the published status always tells what was applied.\<close>

theorem supervisor_balancer_safe:
  assumes "run_supervisor Es (spawn_supervisor params port balancer ports) = (stopped, s)"
  shows "(su_applied s = None \<or> su_applied s = Some UNAVAILABLE_TAG
            \<or> (\<exists>key \<in> set (fp_nodes params). su_applied s = Some (kind_tag (bt_kind balancer) key)))
       \<and> map tn_key (su_nodes s) = fp_nodes params
       \<and> (\<not> stopped \<longrightarrow> su_status s = failover_report params (bt_kind balancer) (su_applied s) (su_nodes s))"
  using run_supervisor_ok [OF spawn_supervisor_ok assms]
  by (auto simp: supervisor_ok_def split: option.splits)

text \<open>A round in which nothing interferes: the stop flag is never set, node \<open>i\<close> answers as \<open>h i\<close>, the
  balancer call succeeds.\<close>

definition steady :: "(nat \<Rightarrow> bool) \<Rightarrow> round_env \<Rightarrow> bool" where
  "steady h E \<longleftrightarrow> (\<forall>i. \<not> re_stop E i) \<and> (\<forall>i. ps_healthy (re_probe E i) = h i)
     \<and> (\<forall>b t. is_ok (re_override E b t))"

lemma probe_nodes_steady:
  "steady h E \<Longrightarrow> probe_nodes E i ns =
     (False, map (\<lambda>(j, n). observe_probe (re_probe E j) (re_now E j) n) (List.enumerate i ns))"
  by (induction ns arbitrary: i) (simp_all add: steady_def)

lemma observe_twice:
  assumes "tracked_ok n" and "ps_healthy x = b" "ps_healthy y = b"
  shows "tn_committed (observe_probe y t' (observe_probe x t n)) = Some b"
proof -
  obtain older where "tn_committed n = smoothed older" "tn_streak n = streak_of older"
    using assms(1) by (auto simp: tracked_ok_def)
  from observe_probe_smoothed [OF this, of x t]
  show ?thesis using observe_probe_smoothed [of "observe_probe x t n" "ps_healthy x # older" y t'] assms(2,3)
    by simp
qed

lemma run_round_steady:
  assumes "steady h E" and "run_round E s = (stopped, s')"
  shows "\<not> stopped \<and> su_params s' = su_params s \<and> su_balancer s' = su_balancer s
     \<and> su_nodes s' = map (\<lambda>(j, n). observe_probe (re_probe E j) (re_now E j) n) (List.enumerate 0 (su_nodes s))
     \<and> su_applied s' = Some (select_tag (map tn_key (su_nodes s')) (map tn_committed (su_nodes s')) (su_applied s)
           (fp_auto_return_primary (su_params s)) (bt_kind (su_balancer s)))"
proof -
  have "is_ok (re_override E b t)" "\<not> re_stop E i" for b t i using assms(1) by (simp_all add: steady_def)
  then show ?thesis using assms(2) probe_nodes_steady [OF assms(1), of 0 "su_nodes s"]
    by (auto simp: run_round_def Let_def is_ok_iff split: if_splits result.splits)
qed

text \<open>C19: the supervisor converges.  From any state it can be in, two undisturbed rounds in which every node
  gives the same answer twice make the committed verdicts equal those answers; with auto-return the
  balancer then points at the first healthy candidate, or at \<open>unavailable\<close> when there is none.\<close>

theorem supervisor_converges:
  assumes "run_supervisor Es (spawn_supervisor params port balancer ports) = (False, s0)"
    and "steady h E1" "steady h E2" and "fp_auto_return_primary params"
  shows "\<exists>s. run_supervisor [E1, E2] s0 = (False, s)
     \<and> map tn_committed (su_nodes s) = map (Some \<circ> h) [0..<length (fp_nodes params)]
     \<and> su_applied s = Some (first_healthy (fp_nodes params) (map (Some \<circ> h) [0..<length (fp_nodes params)])
                                          (bt_kind balancer))"
proof -
  note ok = run_supervisor_ok [OF spawn_supervisor_ok assms(1)]
  obtain st1 s1 where r1: "run_round E1 s0 = (st1, s1)" by (rule prod.exhaust)
  obtain st2 s2 where r2: "run_round E2 s1 = (st2, s2)" by (rule prod.exhaust)
  note 1 = run_round_steady [OF assms(2) r1] and 2 = run_round_steady [OF assms(3) r2]
  have len: "length (su_nodes s0) = length (fp_nodes params)"
    using ok by (metis length_map supervisor_ok_def)
  have c: "map tn_committed (su_nodes s2) = map (Some \<circ> h) [0..<length (fp_nodes params)]"
  proof (rule nth_equalityI)
    fix i assume i: "i < length (map tn_committed (su_nodes s2))"
    then have i': "i < length (su_nodes s0)" using 1 2 by simp
    then have "tracked_ok (su_nodes s0 ! i)" using ok by (simp add: supervisor_ok_def list_all_length)
    then show "map tn_committed (su_nodes s2) ! i = map (Some \<circ> h) [0..<length (fp_nodes params)] ! i"
      using 1 2 i' len assms(2,3) observe_twice [of "su_nodes s0 ! i" "re_probe E1 i" "h i" "re_probe E2 i"]
      by (simp add: nth_enumerate_eq steady_def)
  qed (use 1 2 len in simp)
  have k: "supervisor_ok params balancer (\<not> st2) s2"
    using run_round_ok [OF run_round_ok [OF ok r1] r2] .
  have "run_supervisor [E1, E2] s0 = (False, s2)"
    using 1 2 r1 r2 assms(2,3) by (simp add: steady_def)
  moreover have "su_applied s2 = Some (first_healthy (fp_nodes params) (map tn_committed (su_nodes s2)) (bt_kind balancer))"
    using 1 2 k ok assms(4) by (simp add: supervisor_ok_def select_tag_def)
  ultimately show ?thesis using c by auto
qed

definition example_params :: failover_params where
  "example_params = \<lparr> fp_nodes = [''a'', ''b''], fp_primary_key = ''a'', fp_auto_return_primary = True,
     fp_probe_url = ''https://probe.test'', fp_interval_secs = 10 \<rparr>"

definition example_supervisor :: supervisor where
  "example_supervisor = spawn_supervisor example_params 10185
     \<lparr> bt_tag = FAILOVER_BALANCER, bt_kind = Kind_Node \<rparr> (xray_probe_port 51820)"

text \<open>A round in which only the nodes in the list answer.\<close>

definition example_round :: "nat list \<Rightarrow> round_env" where
  "example_round up = \<lparr> re_stop = (\<lambda>_. False),
     re_probe = (\<lambda>i. \<lparr> ps_healthy = (i \<in> set up), ps_latency_ms = Some 20 \<rparr>), re_now = (\<lambda>_. 7),
     re_override = (\<lambda>_ _. Ok ()) \<rparr>"

lemma steady_example: "steady (\<lambda>i. i \<in> set up) (example_round up)"
  by (simp add: steady_def example_round_def)

theorem supervisor_balancer_safe_witness:
  "\<exists>s. run_supervisor [example_round [0, 1], example_round []] example_supervisor = (False, s)
     \<and> (su_applied s = None \<or> su_applied s = Some UNAVAILABLE_TAG
        \<or> (\<exists>key \<in> set (fp_nodes example_params). su_applied s = Some (kind_tag Kind_Node key)))
     \<and> su_applied s = Some ''node-a''"
proof -
  let ?run = "run_supervisor [example_round [0, 1], example_round []] example_supervisor"
  have f: "fst ?run = False" "su_applied (snd ?run) = Some ''node-a''" by code_simp+
  obtain stopped s where run: "?run = (stopped, s)" by (rule prod.exhaust)
  from supervisor_balancer_safe [OF run [unfolded example_supervisor_def]] run f show ?thesis by auto
qed

theorem supervisor_converges_witness:
  "\<exists>s0 s. run_supervisor [example_round [0, 1]] example_supervisor = (False, s0)
     \<and> su_applied s0 = Some ''node-a''
     \<and> run_supervisor [example_round [1], example_round [1]] s0 = (False, s) \<and> su_applied s = Some ''node-b''"
proof -
  let ?run = "run_supervisor [example_round [0, 1]] example_supervisor"
  have f: "fst ?run = False" "su_applied (snd ?run) = Some ''node-a''" by code_simp+
  obtain s0 where run: "?run = (False, s0)" using f by (cases ?run) auto
  have a: "fp_auto_return_primary example_params" by (simp add: example_params_def)
  obtain s where s: "run_supervisor [example_round [1], example_round [1]] s0 = (False, s)"
    "su_applied s = Some (first_healthy (fp_nodes example_params)
       (map (Some \<circ> (\<lambda>i. i \<in> set [1])) [0..<length (fp_nodes example_params)]) Kind_Node)"
    using supervisor_converges [OF run [unfolded example_supervisor_def] steady_example steady_example a, of "[1]"]
    by auto
  have "first_healthy (fp_nodes example_params)
       (map (Some \<circ> (\<lambda>i. i \<in> set [1])) [0..<length (fp_nodes example_params)]) Kind_Node = ''node-b''" by code_simp
  with s run f show ?thesis by auto
qed

end
