(* ===== verification/Egress.thy ===== *)
theory Egress
  imports Net_Types "HOL-Library.Product_Lexorder" "HOL-Library.Option_ord"
begin

text \<open>
  The identity of the effective underlay (\<open>crates/daemon/src/egress.rs\<close>): which physical paths carry the
  default route now, and the tracker that turns successive samples into change events.  Files under
  \<open>/sys\<close>, the source address selection of the kernel and the routing tables are observations.
\<close>

record egress_path =
  ep_gateway :: "ip_addr option"
  ep_device_index :: nat
  ep_source :: ip_addr
  ep_carrier_changes :: "nat option"

type_synonym egress_signature = "egress_path list"

record egress_sample =
  es_signature :: "egress_signature option"
  es_interrupted :: bool

section \<open>The tracker\<close>

datatype egress_event = Stable | Changed | Flap | Lost | Online

record egress_tracker =
  et_last :: "egress_signature option"
  et_offline :: bool

definition new_tracker :: egress_tracker where
  "new_tracker = \<lparr> et_last = None, et_offline = False \<rparr>"

definition track_egress :: "egress_sample \<Rightarrow> egress_tracker \<Rightarrow> egress_event \<times> egress_tracker" where
  "track_egress sample t =
     (case es_signature sample of
        None \<Rightarrow> (if et_last t \<noteq> None \<and> \<not> et_offline t then Lost else Stable, t\<lparr>et_offline := True\<rparr>)
      | Some now \<Rightarrow>
          (case et_last t of
             None \<Rightarrow> Online
           | Some prev \<Rightarrow>
               if prev \<noteq> now then Changed
               else if et_offline t \<or> es_interrupted sample then Flap else Stable,
           \<lparr> et_last = Some now, et_offline = False \<rparr>))"

section \<open>Sampling\<close>

text \<open>An address of a local interface (\<open>cond_rules::IfaceAddr\<close>).\<close>

record iface_addr =
  ia_ifindex :: nat
  ia_name :: string
  ia_address :: ip_net
  ia_scope :: nat

record egress_view =
  ev_tables :: "net_tables io"
  ev_addresses :: "iface_addr list io"
  ev_link_up :: "string \<Rightarrow> bool io"
  ev_carrier_down :: "string \<Rightarrow> bool"
  ev_carrier_changes :: "string \<Rightarrow> nat option"
  ev_selected_source :: "string \<Rightarrow> nat \<Rightarrow> nat \<Rightarrow> ip_addr \<Rightarrow> ip_addr io"

record egress_sampler =
  sm_mark :: nat
  sm_excluded :: string
  sm_targets :: "ip_addr list"
  sm_selected :: "egress_path list"
  sm_interrupted :: bool

definition main_default :: "system_route \<Rightarrow> ip_family \<Rightarrow> string \<Rightarrow> bool" where
  "main_default route family excluded \<longleftrightarrow>
     sr_table route = 254 \<and> sr_family route = family \<and> sr_kind route = ''unicast''
     \<and> net_prefix (sr_destination route) = 0 \<and> sr_interface_name route \<noteq> Some excluded"

definition route_metric :: "system_route \<Rightarrow> nat" where
  "route_metric route = opt_or 0 (sr_metric route)"

type_synonym hop = "nat \<times> string \<times> ip_addr option"

definition route_hops :: "system_route \<Rightarrow> hop list" where
  "route_hops route =
     (case (sr_interface_index route, sr_interface_name route) of
        (Some index, Some name) \<Rightarrow> [(index, name, sr_gateway route)]
      | _ \<Rightarrow> List.map_filter (\<lambda>h. map_option (\<lambda>name. (nh_interface_index h, name, nh_gateway h))
               (nh_interface_name h)) (sr_nexthops route))"

definition family_target :: "ip_addr list \<Rightarrow> bool \<Rightarrow> ip_addr option" where
  "family_target targets ipv4 = List.find (\<lambda>ip. is_ipv4 ip = ipv4 \<and> \<not> is_loopback ip) targets"

definition add_hop ::
    "egress_view \<Rightarrow> egress_sampler \<Rightarrow> iface_addr list \<Rightarrow> bool \<Rightarrow> hop \<Rightarrow> egress_path list \<Rightarrow> egress_path list io" where
  "add_hop V s addresses ipv4 hop paths =
     (let (index, name, gateway) = hop in
      if name = sm_excluded s then Ok paths
      else case ev_link_up V name of
        Err e \<Rightarrow> Err e
      | Ok up \<Rightarrow>
          if \<not> up then Ok paths
          else if ev_carrier_down V name then Ok paths
          else case (case gateway of Some g \<Rightarrow> Some g | None \<Rightarrow> family_target (sm_targets s) ipv4) of
            None \<Rightarrow> Ok paths
          | Some target \<Rightarrow>
              (case ev_selected_source V name index (sm_mark s) target of
                 Err _ \<Rightarrow> Ok paths
               | Ok source \<Rightarrow>
                   if \<not> list_ex (\<lambda>a. ia_ifindex a = index \<and> net_addr (ia_address a) = source) addresses
                   then Ok paths
                   else (let paths = paths @ [\<lparr> ep_gateway = gateway, ep_device_index = index,
                               ep_source = source, ep_carrier_changes = ev_carrier_changes V name \<rparr>]
                         in if length paths > 16 then Err Other else Ok paths)))"

text \<open>A loop that may leave with an error.\<close>

fun fold_io :: "('a \<Rightarrow> 's \<Rightarrow> 's io) \<Rightarrow> 'a list \<Rightarrow> 's \<Rightarrow> 's io" where
  "fold_io f [] s = Ok s"
| "fold_io f (x # xs) s = (case f x s of Err e \<Rightarrow> Err e | Ok s \<Rightarrow> fold_io f xs s)"

definition family_routes :: "net_tables \<Rightarrow> ip_family \<Rightarrow> string \<Rightarrow> system_route list" where
  "family_routes tables family excluded =
     (let defaults = filter (\<lambda>r. main_default r family excluded) (nt_routes tables)
      in filter (\<lambda>r. list_all (\<lambda>q. route_metric r \<le> route_metric q) defaults) defaults)"

definition sample_family ::
    "egress_view \<Rightarrow> egress_sampler \<Rightarrow> net_tables \<Rightarrow> iface_addr list \<Rightarrow> ip_family \<Rightarrow> egress_path list \<Rightarrow> egress_path list io" where
  "sample_family V s tables addresses family paths =
     (let ipv4 = (family = Ipv4) in
      if sm_targets s \<noteq> [] \<and> family_target (sm_targets s) ipv4 = None then Ok paths
      else fold_io (add_hop V s addresses ipv4)
             (concat (map route_hops (family_routes tables family (sm_excluded s)))) paths)"

definition path_key :: "egress_path \<Rightarrow> bool \<times> nat \<times> ip_addr option \<times> ip_addr" where
  "path_key p = (\<not> is_ipv4 (ep_source p), ep_device_index p, ep_gateway p, ep_source p)"

definition sample_egress :: "egress_view \<Rightarrow> egress_sampler \<Rightarrow> egress_sample io \<times> egress_sampler" where
  "sample_egress V s =
     (case ev_tables V of
        Err e \<Rightarrow> (Err e, s)
      | Ok tables \<Rightarrow>
          (case ev_addresses V of
             Err e \<Rightarrow> (Err e, s)
           | Ok addresses \<Rightarrow>
               (case fold_io (sample_family V s tables addresses) [Ipv4, Ipv6] [] of
                  Err e \<Rightarrow> (Err e, s)
                | Ok paths \<Rightarrow>
                    (let paths = (if paths = [] \<and> sm_targets s \<noteq> [] \<and> list_all is_loopback (sm_targets s)
                                  then [\<lparr> ep_gateway = None, ep_device_index = 1, ep_source = hd (sm_targets s),
                                          ep_carrier_changes = None \<rparr>]
                                  else paths);
                         paths = remdups_adj (sort_key path_key paths)
                     in (Ok \<lparr> es_signature = (if paths = [] then None else Some paths),
                              es_interrupted = sm_interrupted s \<rparr>,
                         s\<lparr>sm_selected := paths, sm_interrupted := False\<rparr>)))))"

text \<open>The listener: a destructive message about a selected path latches the interruption.\<close>

datatype netlink_event =
    DelLink nat
  | NewLinkDown nat
  | DelAddress nat "ip_addr list"
  | DelRoute nat nat
  | OtherMessage

fun destructive_for :: "egress_path list \<Rightarrow> netlink_event \<Rightarrow> bool" where
  "destructive_for paths (DelLink index) = list_ex (\<lambda>p. ep_device_index p = index) paths"
| "destructive_for paths (NewLinkDown index) = list_ex (\<lambda>p. ep_device_index p = index) paths"
| "destructive_for paths (DelAddress index ips) =
     list_ex (\<lambda>p. ep_device_index p = index \<and> ep_source p \<in> set ips) paths"
| "destructive_for paths _ = False"

text \<open>Returns whether the permission to recover is withdrawn.  \<open>DelRoute\<close> carries the prefix length and the
  table of the deleted route.\<close>

definition netlink_message :: "netlink_event \<Rightarrow> egress_sampler \<Rightarrow> bool \<times> egress_sampler" where
  "netlink_message event s =
     (let destructive = destructive_for (sm_selected s) event
      in (destructive \<or> (case event of DelRoute len table \<Rightarrow> len = 0 \<and> table = 254 | _ \<Rightarrow> False),
          if destructive then s\<lparr>sm_interrupted := True\<rparr> else s))"

section \<open>Properties\<close>

definition track_all :: "egress_sample list \<Rightarrow> egress_tracker" where
  "track_all samples = foldl (\<lambda>t x. snd (track_egress x t)) new_tracker samples"

lemma track_all_snoc [simp]: "track_all (xs @ [x]) = snd (track_egress x (track_all xs))"
  by (simp add: track_all_def)

lemma track_all_Nil [simp]: "track_all [] = new_tracker"
  by (simp add: track_all_def)

lemma track_all_offline:
  "list_all (\<lambda>x. es_signature x = None) gap \<Longrightarrow>
     et_last (track_all (before @ gap)) = et_last (track_all before)
     \<and> et_offline (track_all (before @ gap)) = (et_offline (track_all before) \<or> gap \<noteq> [])"
proof (induction gap rule: rev_induct)
  case (snoc x gap)
  then show ?case by (simp add: track_egress_def flip: append_assoc)
qed simp

text \<open>an outage never passes unnoticed.  Take two samples with an underlay and only samples without one
  between them: the second is reported as \<open>Changed\<close> when the underlay differs, as \<open>Flap\<close> when it is the
  same but samples were lost between or an interruption was latched, and as \<open>Stable\<close> only when nothing
  happened; the first loss in between is reported as \<open>Lost\<close>.\<close>

theorem egress_outage_noticed:
  assumes "es_signature x = Some old" and "list_all (\<lambda>y. es_signature y = None) gap"
    and "es_signature z = Some new"
  shows "fst (track_egress z (track_all (before @ [x] @ gap))) =
           (if new \<noteq> old then Changed else if gap \<noteq> [] \<or> es_interrupted z then Flap else Stable)
       \<and> (gap \<noteq> [] \<longrightarrow> fst (track_egress (hd gap) (track_all (before @ [x]))) = Lost)"
proof -
  have x: "et_last (track_all (before @ [x])) = Some old" "\<not> et_offline (track_all (before @ [x]))"
    using assms(1) by (simp_all add: track_egress_def)
  have "et_last (track_all (before @ [x] @ gap)) = Some old"
    "et_offline (track_all (before @ [x] @ gap)) \<longleftrightarrow> gap \<noteq> []"
    using track_all_offline [OF assms(2), of "before @ [x]"] x by simp_all
  moreover have "gap \<noteq> [] \<Longrightarrow> es_signature (hd gap) = None" using assms(2) by (cases gap) auto
  ultimately show ?thesis using assms(3) x by (auto simp: track_egress_def)
qed

theorem egress_outage_noticed_witness:
  "let path = \<lparr> ep_gateway = Some (V4 1), ep_device_index = 2, ep_source = V4 9, ep_carrier_changes = Some 3 \<rparr>;
       up = \<lparr> es_signature = Some [path], es_interrupted = False \<rparr>;
       down = \<lparr> es_signature = None, es_interrupted = False \<rparr>
   in fst (track_egress up (track_all [up, down])) = Flap \<and> fst (track_egress up (track_all [up])) = Stable"
proof -
  let ?path = "\<lparr> ep_gateway = Some (V4 1), ep_device_index = 2, ep_source = V4 9, ep_carrier_changes = Some 3 \<rparr>"
  let ?up = "\<lparr> es_signature = Some [?path], es_interrupted = False \<rparr>"
  let ?down = "\<lparr> es_signature = None, es_interrupted = False \<rparr>"
  show ?thesis
    using egress_outage_noticed [of ?up "[?path]" "[?down]" ?up "[?path]" "[]"]
      egress_outage_noticed [of ?up "[?path]" "[]" ?up "[?path]" "[]"] unfolding Let_def by simp
qed

lemma sorted_remdups_adj_key: "sorted (map f xs) \<Longrightarrow> sorted (map f (remdups_adj xs))"
  by (induction xs rule: remdups_adj.induct) auto

lemma fold_io_inv:
  assumes "\<And>x s s'. x \<in> set xs \<Longrightarrow> I s \<Longrightarrow> f x s = Ok s' \<Longrightarrow> I s'"
  shows "I s \<Longrightarrow> fold_io f xs s = Ok s' \<Longrightarrow> I s'"
  using assms
proof (induction xs arbitrary: s)
  case (Cons x xs)
  show ?case
  proof (cases "f x s")
    case (Ok s1)
    have "I s1" using Cons.prems(3) [of x s s1] Cons.prems(1) Ok by simp
    moreover have "fold_io f xs s1 = Ok s'" using Cons.prems(2) Ok by simp
    ultimately show ?thesis using Cons.IH Cons.prems(3) by (meson list.set_intros(2))
  qed (use Cons.prems in simp)
qed simp

text \<open>A path that may carry the tunnel's transport: on a link that is up, with an address of that link as
  source, reached by a default route of the main table with the best metric, not through the tunnel
  itself.\<close>

definition genuine_path ::
    "egress_view \<Rightarrow> egress_sampler \<Rightarrow> net_tables \<Rightarrow> iface_addr list \<Rightarrow> egress_path \<Rightarrow> bool" where
  "genuine_path V s tables addresses p \<longleftrightarrow>
     (\<exists>family route name. route \<in> set (family_routes tables family (sm_excluded s))
        \<and> (ep_device_index p, name, ep_gateway p) \<in> set (route_hops route)
        \<and> name \<noteq> sm_excluded s \<and> ev_link_up V name = Ok True \<and> \<not> ev_carrier_down V name)
     \<and> (\<exists>a \<in> set addresses. ia_ifindex a = ep_device_index p \<and> net_addr (ia_address a) = ep_source p)"

definition genuine_paths ::
    "egress_view \<Rightarrow> egress_sampler \<Rightarrow> net_tables \<Rightarrow> iface_addr list \<Rightarrow> egress_path list \<Rightarrow> bool" where
  "genuine_paths V s tables addresses ps \<longleftrightarrow>
     list_all (genuine_path V s tables addresses) ps \<and> length ps \<le> 16"

lemma add_hop_genuine:
  assumes "add_hop V s addresses ipv4 (index, name, gateway) paths = Ok paths'"
    and "route \<in> set (family_routes tables family (sm_excluded s))"
    and "(index, name, gateway) \<in> set (route_hops route)"
    and "genuine_paths V s tables addresses paths"
  shows "genuine_paths V s tables addresses paths'"
proof (cases "paths' = paths")
  case False
  then obtain source where p: "paths' = paths @ [\<lparr> ep_gateway = gateway, ep_device_index = index,
        ep_source = source, ep_carrier_changes = ev_carrier_changes V name \<rparr>]" "length paths' \<le> 16"
    "name \<noteq> sm_excluded s" "ev_link_up V name = Ok True" "\<not> ev_carrier_down V name"
    "\<exists>a \<in> set addresses. ia_ifindex a = index \<and> net_addr (ia_address a) = source"
    using assms(1) by (auto simp: add_hop_def Let_def list_ex_iff split: if_splits result.splits option.splits)
  then show ?thesis using assms(2,3,4) by (auto simp: genuine_path_def genuine_paths_def)
qed (use assms(4) in simp)

lemma sample_family_genuine:
  assumes "sample_family V s tables addresses family paths = Ok paths'"
    and "genuine_paths V s tables addresses paths"
  shows "genuine_paths V s tables addresses paths'"
proof (cases "sm_targets s \<noteq> [] \<and> family_target (sm_targets s) (family = Ipv4) = None")
  case False
  let ?hops = "concat (map route_hops (family_routes tables family (sm_excluded s)))"
  have "fold_io (add_hop V s addresses (family = Ipv4)) ?hops paths = Ok paths'"
    using assms(1) False by (auto simp: sample_family_def Let_def)
  then show ?thesis
    by (rule fold_io_inv [rotated 2]) (use assms(2) in \<open>auto intro: add_hop_genuine\<close>)
qed (use assms in \<open>simp add: sample_family_def Let_def\<close>)

text \<open>a signature only contains paths of the physical underlay: each path belongs to a default route of
  the main table with the best metric of its family, on a link that is up and is not the tunnel
  itself, with a source address assigned to that link; there are at most 16, sorted, and an
  interruption latched before the sample is reported and cleared.  The one exception is the loopback
  path used when every target is local.\<close>

theorem sample_egress_genuine:
  assumes "sample_egress V s = (Ok sample, s')"
  shows "\<exists>tables addresses. ev_tables V = Ok tables \<and> ev_addresses V = Ok addresses
     \<and> (\<forall>p \<in> set (sm_selected s'). genuine_path V s tables addresses p
          \<or> (ep_device_index p = 1 \<and> ep_gateway p = None \<and> list_all is_loopback (sm_targets s)))
     \<and> length (sm_selected s') \<le> 16 \<and> sorted (map path_key (sm_selected s'))
     \<and> es_signature sample = (if sm_selected s' = [] then None else Some (sm_selected s'))
     \<and> es_interrupted sample = sm_interrupted s \<and> \<not> sm_interrupted s'"
proof -
  obtain tables addresses paths where run: "ev_tables V = Ok tables" "ev_addresses V = Ok addresses"
    "fold_io (sample_family V s tables addresses) [Ipv4, Ipv6] [] = Ok paths"
    using assms by (auto simp: sample_egress_def split: result.splits)
  have "genuine_paths V s tables addresses paths"
    by (rule fold_io_inv [OF _ _ run(3)]) (auto intro: sample_family_genuine simp: genuine_paths_def [of V s tables addresses "[]"])
  then have gen: "list_all (genuine_path V s tables addresses) paths" "length paths \<le> 16"
    by (simp_all add: genuine_paths_def)
  let ?local = "paths = [] \<and> sm_targets s \<noteq> [] \<and> list_all is_loopback (sm_targets s)"
  let ?ps = "if ?local then [\<lparr> ep_gateway = None, ep_device_index = 1, ep_source = hd (sm_targets s),
      ep_carrier_changes = None \<rparr>] else paths"
  have sel: "sm_selected s' = remdups_adj (sort_key path_key ?ps)"
    and rest: "es_signature sample = (if sm_selected s' = [] then None else Some (sm_selected s'))"
      "es_interrupted sample = sm_interrupted s" "\<not> sm_interrupted s'"
    using assms run by (auto simp: sample_egress_def Let_def)
  have "length (sm_selected s') \<le> length ?ps"
    using remdups_adj_length [of "sort_key path_key ?ps"] unfolding sel by simp
  then have "length (sm_selected s') \<le> 16" using gen by (simp split: if_splits)
  moreover have "sorted (map path_key (sm_selected s'))"
    unfolding sel by (rule sorted_remdups_adj_key) simp
  moreover have "set (sm_selected s') = set ?ps" unfolding sel by simp
  ultimately show ?thesis using run(1,2) gen rest
    by (intro exI [of _ tables] exI [of _ addresses]) (auto simp: list_all_iff split: if_splits)
qed

definition example_view :: egress_view where
  "example_view =
     (let route = \<lambda>i m. \<lparr> sr_family = Ipv4, sr_destination = IpNet (V4 0) 0, sr_table = 254,
            sr_kind = ''unicast'', sr_scope = ''global'', sr_protocol = 3, sr_managed = False,
            sr_gateway = Some (V4 (3232235776 + i)), sr_interface_index = Some (unat i),
            sr_interface_name = Some (if i = 2 then ''eth0'' else ''wlan0''), sr_metric = Some m,
            sr_pref_source = None, sr_nexthops = [] \<rparr>;
          addr = \<lambda>i. \<lparr> ia_ifindex = i, ia_name = ''x'', ia_address = IpNet (V4 7) 24, ia_scope = 0 \<rparr>
      in \<lparr> ev_tables = Ok \<lparr> nt_routes = [route 3 600, route 2 100], nt_rules = [], nt_available = True \<rparr>,
           ev_addresses = Ok [addr 2, addr 3], ev_link_up = (\<lambda>_. Ok True), ev_carrier_down = (\<lambda>_. False),
           ev_carrier_changes = (\<lambda>_. Some 1), ev_selected_source = (\<lambda>_ _ _ _. Ok (V4 7)) \<rparr>)"

theorem sample_egress_genuine_witness:
  "let s = \<lparr> sm_mark = 1, sm_excluded = ''xray0'', sm_targets = [], sm_selected = [], sm_interrupted = True \<rparr>
   in \<exists>sample s'. sample_egress example_view s = (Ok sample, s') \<and> map ep_device_index (sm_selected s') = [2]
        \<and> es_interrupted sample \<and> length (sm_selected s') \<le> 16"
proof -
  let ?s = "\<lparr> sm_mark = 1, sm_excluded = ''xray0'', sm_targets = [], sm_selected = [], sm_interrupted = True \<rparr>"
  let ?out = "sample_egress example_view ?s"
  have f: "is_ok (fst ?out)" "map ep_device_index (sm_selected (snd ?out)) = [2]" by code_simp+
  obtain res s' where out: "?out = (res, s')" by (rule prod.exhaust)
  from f(1) out obtain sample where "?out = (Ok sample, s')" by (auto simp: is_ok_iff)
  from this sample_egress_genuine [OF this] f(2) out show ?thesis by auto
qed

end
