(* ===== verification/Watchdog.thy ===== *)
theory Watchdog
  imports Egress
begin

text \<open>
  The per-tunnel watchdog (\<open>crates/daemon/src/watchdog.rs\<close>): the recovery state, and the worker thread
  interleaved with the daemon core, which takes recovery requests and reports recoveries through the
  shared state.  Each mutex-protected section of the worker is one step.  Times are milliseconds of a
  monotonic clock; probe outcomes and socket reports are observations.
\<close>

definition PROBE_INTERVAL :: nat where "PROBE_INTERVAL = 5000"
definition EGRESS_INTERVAL :: nat where "EGRESS_INTERVAL = 2000"
definition SETTLE_DELAY :: nat where "SETTLE_DELAY = 12000"
definition STALL_COOLDOWN :: nat where "STALL_COOLDOWN = 600000"
definition EGRESS_COOLDOWN :: nat where "EGRESS_COOLDOWN = 60000"
definition STALL_LIMIT :: nat where "STALL_LIMIT = 3"
definition UDP_LIMIT :: nat where "UDP_LIMIT = 2000"

datatype recovery_reason = By_Egress | HttpsStall | UdpLeak

datatype probe_outcome = Skipped | Healthy nat | Stalled

record conn_storm =
  cs_destination :: string
  cs_process :: "string option"
  cs_count :: nat

record socket_report =
  so_udp_sockets :: nat
  so_storm :: "conn_storm option"

record watchdog_status =
  ws_uplink :: "bool option"
  ws_egress_signature :: "string option"
  ws_last_egress_change_unix :: "nat option"
  ws_https_stall_streak :: nat
  ws_https_latency_ms :: "nat option"
  ws_dns_stall_streak :: nat
  ws_xray_udp_sockets :: nat
  ws_conn_storm :: "conn_storm option"
  ws_last_recovery_unix :: "nat option"
  ws_anomalies :: "string list"

definition default_status :: watchdog_status where
  "default_status = \<lparr> ws_uplink = None, ws_egress_signature = None, ws_last_egress_change_unix = None,
     ws_https_stall_streak = 0, ws_https_latency_ms = None, ws_dns_stall_streak = 0,
     ws_xray_udp_sockets = 0, ws_conn_storm = None, ws_last_recovery_unix = None, ws_anomalies = [] \<rparr>"

section \<open>Recovery state\<close>

record recovery_state =
  rs_status :: watchdog_status
  rs_probe_after :: nat
  rs_pending_egress :: bool
  rs_pending_stall :: "recovery_reason option"
  rs_last_egress_attempt :: "nat option"
  rs_last_egress_change :: "nat option"
  rs_last_stall_attempt :: "nat option"
  rs_stall_before_request :: "nat option"
  rs_resources_unavailable :: bool

definition new_recovery_state :: "nat \<Rightarrow> recovery_state" where
  "new_recovery_state now = \<lparr> rs_status = default_status, rs_probe_after = now + SETTLE_DELAY,
     rs_pending_egress = False, rs_pending_stall = None, rs_last_egress_attempt = None,
     rs_last_egress_change = None, rs_last_stall_attempt = None, rs_stall_before_request = None,
     rs_resources_unavailable = False \<rparr>"

abbreviation on_status :: "(watchdog_status \<Rightarrow> watchdog_status) \<Rightarrow> recovery_state \<Rightarrow> recovery_state" where
  "on_status f s \<equiv> s\<lparr>rs_status := f (rs_status s)\<rparr>"

text \<open>\<open>fingerprint\<close> is the hash of a signature.\<close>

definition state_egress ::
    "(egress_signature \<Rightarrow> string) \<Rightarrow> egress_event \<Rightarrow> egress_signature option \<Rightarrow> nat \<Rightarrow> nat
       \<Rightarrow> recovery_state \<Rightarrow> recovery_state" where
  "state_egress fingerprint event signature now unix s =
     (let s = on_status (\<lambda>t. t\<lparr>ws_uplink := Some (signature \<noteq> None),
                               ws_egress_signature := map_option fingerprint signature\<rparr>) s
      in if event \<in> {Changed, Flap}
         then s\<lparr>rs_pending_egress := True, rs_last_egress_change := Some now,
                rs_probe_after := now + SETTLE_DELAY,
                rs_status := (rs_status s)\<lparr>ws_last_egress_change_unix := Some unix,
                  ws_https_stall_streak := 0, ws_dns_stall_streak := 0, ws_https_latency_ms := None\<rparr>\<rparr>
         else s)"

definition observe_https :: "probe_outcome \<Rightarrow> bool \<Rightarrow> recovery_state \<Rightarrow> recovery_state" where
  "observe_https https node_reachable s =
     (case https of
        Healthy latency \<Rightarrow>
          on_status (\<lambda>t. t\<lparr>ws_https_stall_streak := 0, ws_https_latency_ms := Some latency\<rparr>) s
      | Stalled \<Rightarrow>
          (let s = on_status (\<lambda>t. t\<lparr>ws_https_stall_streak := sat_succ_u32 (ws_https_stall_streak t),
                                    ws_https_latency_ms := None\<rparr>) s
           in if ws_https_stall_streak (rs_status s) \<ge> STALL_LIMIT \<and> node_reachable
              then s\<lparr>rs_pending_stall := Some HttpsStall\<rparr> else s)
      | Skipped \<Rightarrow> s)"

definition observe_dns :: "probe_outcome \<Rightarrow> recovery_state \<Rightarrow> recovery_state" where
  "observe_dns dns s =
     (case dns of
        Healthy _ \<Rightarrow> on_status (\<lambda>t. t\<lparr>ws_dns_stall_streak := 0\<rparr>) s
      | Stalled \<Rightarrow> on_status (\<lambda>t. t\<lparr>ws_dns_stall_streak := sat_succ_u32 (ws_dns_stall_streak t)\<rparr>) s
      | Skipped \<Rightarrow> s)"

definition state_observe ::
    "probe_outcome \<Rightarrow> probe_outcome \<Rightarrow> bool \<Rightarrow> socket_report option \<Rightarrow> recovery_state \<Rightarrow> recovery_state" where
  "state_observe https dns node_reachable resources s =
     (let s = s\<lparr>rs_pending_stall := None\<rparr>;
          s = observe_dns dns (observe_https https node_reachable s);
          s = s\<lparr>rs_resources_unavailable := (resources = None)\<rparr>
      in case resources of
           None \<Rightarrow> s
         | Some r \<Rightarrow>
             (let s = on_status (\<lambda>t. t\<lparr>ws_xray_udp_sockets := so_udp_sockets r, ws_conn_storm := so_storm r\<rparr>) s
              in if so_udp_sockets r > UDP_LIMIT then s\<lparr>rs_pending_stall := Some UdpLeak\<rparr> else s))"

text \<open>\<open>last.is_none_or(|last| now.duration_since(last) >= cooldown)\<close>.\<close>

definition cooled :: "nat \<Rightarrow> nat \<Rightarrow> nat option \<Rightarrow> bool" where
  "cooled cooldown now last_attempt = (case last_attempt of None \<Rightarrow> True | Some t \<Rightarrow> now - t \<ge> cooldown)"

definition state_recovery :: "nat \<Rightarrow> recovery_state \<Rightarrow> recovery_reason option \<times> recovery_state" where
  "state_recovery now s =
     (if ws_uplink (rs_status s) \<noteq> Some True then (None, s)
      else if rs_pending_egress s \<and> cooled EGRESS_COOLDOWN now (rs_last_egress_attempt s)
      then (Some By_Egress, s\<lparr>rs_pending_egress := False, rs_last_egress_attempt := Some now\<rparr>)
      else if rs_pending_stall s \<noteq> None \<and> cooled STALL_COOLDOWN now (rs_last_stall_attempt s)
      then (rs_pending_stall s,
            s\<lparr>rs_stall_before_request := rs_last_stall_attempt s, rs_last_stall_attempt := Some now,
              rs_pending_stall := None\<rparr>)
      else (None, s))"

definition acknowledge :: "nat \<Rightarrow> recovery_state \<Rightarrow> recovery_state" where
  "acknowledge when s =
     (let s = (if case rs_last_egress_change s of None \<Rightarrow> True | Some c \<Rightarrow> c \<le> when
               then s\<lparr>rs_pending_egress := False\<rparr> else s)
      in s\<lparr>rs_pending_stall := None, rs_last_egress_attempt := Some when,
           rs_stall_before_request := None, rs_probe_after := when + SETTLE_DELAY,
           rs_status := (rs_status s)\<lparr>ws_https_stall_streak := 0, ws_dns_stall_streak := 0,
             ws_https_latency_ms := None\<rparr>\<rparr>)"

definition cancel_cleared_request ::
    "recovery_reason \<Rightarrow> probe_outcome \<Rightarrow> nat option \<Rightarrow> recovery_state \<Rightarrow> bool \<times> recovery_state" where
  "cancel_cleared_request reason https udp_sockets s =
     (let cleared = (case reason of
            HttpsStall \<Rightarrow> (case https of Healthy _ \<Rightarrow> True | _ \<Rightarrow> False)
          | UdpLeak \<Rightarrow> (case udp_sockets of None \<Rightarrow> False | Some c \<Rightarrow> c \<le> UDP_LIMIT)
          | By_Egress \<Rightarrow> False)
      in (cleared,
          if cleared then s\<lparr>rs_last_stall_attempt := rs_stall_before_request s, rs_stall_before_request := None\<rparr>
          else s))"

definition refresh_anomalies :: "recovery_state \<Rightarrow> recovery_state" where
  "refresh_anomalies s =
     on_status (\<lambda>t. t\<lparr>ws_anomalies :=
        (if ws_uplink t = Some False then [''uplink-offline''] else [])
        @ (if ws_uplink t = None then [''egress-observation-unavailable''] else [])
        @ (if ws_https_stall_streak t \<ge> STALL_LIMIT then [''https-stalled''] else [])
        @ (if ws_dns_stall_streak t \<ge> STALL_LIMIT then [''dns-stalled''] else [])
        @ (if ws_xray_udp_sockets t > UDP_LIMIT then [''udp-socket-limit''] else [])
        @ (if ws_conn_storm t \<noteq> None then [''connection-storm''] else [])
        @ (if rs_resources_unavailable s then [''socket-observation-unavailable''] else [])\<rparr>) s"

section \<open>Worker and core\<close>

record shared =
  sh_status :: watchdog_status
  sh_observed_at :: "nat option"
  sh_request :: "recovery_reason option"
  sh_recovered_at :: "nat option"

record probe_round =
  pr_https :: probe_outcome
  pr_dns :: probe_outcome
  pr_node_reachable :: bool
  pr_resources :: "socket_report option"

text \<open>Where the worker is in its loop; \<open>now\<close> is the reading taken at the top of the iteration.\<close>

datatype phase = Top | At_Egress nat | At_Probe nat | At_Sync probe_round | At_Observe probe_round | At_Publish | Finished

record watchdog =
  w_state :: recovery_state
  w_tracker :: egress_tracker
  w_acknowledged :: "nat option"
  w_next_egress :: nat
  w_next_probe :: nat
  w_rotation :: nat
  w_authorized :: bool
  w_shared :: shared
  w_phase :: phase

definition fresh_watchdog :: "nat \<Rightarrow> watchdog" where
  "fresh_watchdog now = \<lparr> w_state = new_recovery_state now, w_tracker = new_tracker, w_acknowledged = None,
     w_next_egress = now, w_next_probe = now, w_rotation = 0, w_authorized = False,
     w_shared = \<lparr> sh_status = default_status, sh_observed_at = None, sh_request = None, sh_recovered_at = None \<rparr>,
     w_phase = Top \<rparr>"

definition sync_recovery :: "watchdog \<Rightarrow> bool \<times> watchdog" where
  "sync_recovery w =
     (let current = sh_recovered_at (w_shared w) in
      if current = w_acknowledged w then (False, w)
      else (True, w\<lparr>w_state := (case current of Some when \<Rightarrow> acknowledge when (w_state w) | None \<Rightarrow> w_state w),
                    w_acknowledged := current\<rparr>))"

definition wd_top :: "nat \<Rightarrow> watchdog \<Rightarrow> watchdog" where
  "wd_top now w = (snd (sync_recovery w))\<lparr>w_phase := At_Egress now\<rparr>"

definition wd_egress ::
    "(egress_signature \<Rightarrow> string) \<Rightarrow> egress_sample io \<Rightarrow> nat \<Rightarrow> nat \<Rightarrow> nat \<Rightarrow> watchdog \<Rightarrow> watchdog" where
  "wd_egress fingerprint sampled t unix now w =
     (if now \<ge> w_next_egress w
      then (let w = (case sampled of
              Ok sample \<Rightarrow>
                (let (event, tracker) = track_egress sample (w_tracker w)
                 in w\<lparr>w_tracker := tracker,
                      w_state := state_egress fingerprint event (es_signature sample) t unix (w_state w),
                      w_authorized := (es_signature sample \<noteq> None),
                      w_shared := (w_shared w)\<lparr>sh_observed_at := Some t\<rparr>\<rparr>)
            | Err _ \<Rightarrow> w\<lparr>w_state := on_status (\<lambda>s. s\<lparr>ws_uplink := None\<rparr>) (w_state w), w_authorized := False\<rparr>)
            in w\<lparr>w_next_egress := t + EGRESS_INTERVAL, w_phase := At_Probe now\<rparr>)
      else w\<lparr>w_phase := At_Probe now\<rparr>)"

text \<open>The raw observations of a probe round: what the HTTPS client and the DNS client would report (absent
  without a probe URL or servers), which nodes accept a connection, the socket report.\<close>

record probe_inputs =
  pi_https :: "probe_outcome option"
  pi_dns :: "nat \<Rightarrow> probe_outcome option"
  pi_nodes :: nat
  pi_reachable :: "nat \<Rightarrow> bool"
  pi_resources :: "socket_report option"

definition probe_once :: "probe_inputs \<Rightarrow> watchdog \<Rightarrow> probe_round" where
  "probe_once inp w =
     (let online = (ws_uplink (rs_status (w_state w)) = Some True \<and> w_authorized w);
          https = (if online then opt_or Skipped (pi_https inp) else Skipped);
          dns = (if online then opt_or Skipped (pi_dns inp (w_rotation w)) else Skipped);
          reachable = (online \<and> https = Stalled \<and> et_last (w_tracker w) \<noteq> None
            \<and> list_ex (\<lambda>offset. pi_reachable inp ((w_rotation w + offset) mod pi_nodes inp))
                [0..<min (pi_nodes inp) 2])
      in \<lparr> pr_https = https, pr_dns = dns, pr_node_reachable = reachable, pr_resources = pi_resources inp \<rparr>)"

definition wd_probe :: "probe_inputs \<Rightarrow> nat \<Rightarrow> watchdog \<Rightarrow> watchdog" where
  "wd_probe inp now w =
     (if now \<ge> w_next_probe w \<and> now \<ge> rs_probe_after (w_state w)
      then w\<lparr>w_phase := At_Sync (probe_once inp w)\<rparr>
      else w\<lparr>w_phase := At_Publish\<rparr>)"

definition wd_sync :: "probe_round \<Rightarrow> watchdog \<Rightarrow> watchdog" where
  "wd_sync r w =
     (let (replaced, w) = sync_recovery w
      in w\<lparr>w_phase := (if replaced then Top else At_Observe r)\<rparr>)"

definition wd_observe :: "probe_round \<Rightarrow> nat \<Rightarrow> watchdog \<Rightarrow> watchdog" where
  "wd_observe r t w =
     (let s = state_observe (pr_https r) (pr_dns r) (pr_node_reachable r) (pr_resources r) (w_state w);
          (cleared, s) = (case sh_request (w_shared w) of
             None \<Rightarrow> (False, s)
           | Some reason \<Rightarrow>
               cancel_cleared_request reason (pr_https r) (map_option so_udp_sockets (pr_resources r)) s);
          w = w\<lparr>w_state := s\<rparr>;
          w = (if cleared then w\<lparr>w_shared := (w_shared w)\<lparr>sh_request := None\<rparr>\<rparr> else w)
      in w\<lparr>w_rotation := (w_rotation w + 1) mod 2 ^ 64, w_next_probe := t + PROBE_INTERVAL,
           w_phase := At_Publish\<rparr>)"

definition wd_publish :: "nat \<Rightarrow> watchdog \<Rightarrow> watchdog" where
  "wd_publish t w =
     (let w = w\<lparr>w_state := refresh_anomalies (w_state w)\<rparr> in
      if sh_recovered_at (w_shared w) \<noteq> w_acknowledged w then w\<lparr>w_phase := Top\<rparr>
      else (let s = on_status (\<lambda>st. st\<lparr>ws_last_recovery_unix := ws_last_recovery_unix (sh_status (w_shared w))\<rparr>)
                      (w_state w);
                sh = (w_shared w)\<lparr>sh_status := rs_status s\<rparr>
            in if sh_request sh = None \<and> w_authorized w
               then (let (request, s) = state_recovery t s
                     in w\<lparr>w_state := s, w_shared := sh\<lparr>sh_request := request\<rparr>, w_phase := Top\<rparr>)
               else w\<lparr>w_state := s, w_shared := sh, w_phase := Top\<rparr>))"

text \<open>The core's side.\<close>

definition online :: "nat \<Rightarrow> watchdog \<Rightarrow> bool" where
  "online now w \<longleftrightarrow>
     w_authorized w \<and> ws_uplink (sh_status (w_shared w)) = Some True
     \<and> (case sh_observed_at (w_shared w) of None \<Rightarrow> False | Some t \<Rightarrow> now - t < 30000)"

definition watchdog_status_of :: "nat \<Rightarrow> watchdog \<Rightarrow> watchdog_status" where
  "watchdog_status_of now w =
     (let status = sh_status (w_shared w) in
      if ws_uplink status = Some True \<and> \<not> online now w then status\<lparr>ws_uplink := None\<rparr> else status)"

definition take_request :: "nat \<Rightarrow> watchdog \<Rightarrow> recovery_reason option \<times> watchdog" where
  "take_request now w =
     (if \<not> online now w then (None, w)
      else (sh_request (w_shared w), w\<lparr>w_shared := (w_shared w)\<lparr>sh_request := None\<rparr>\<rparr>))"

definition recovered :: "nat \<Rightarrow> nat \<Rightarrow> watchdog \<Rightarrow> watchdog" where
  "recovered now unix w =
     w\<lparr>w_shared := (w_shared w)\<lparr>
         sh_status := (sh_status (w_shared w))\<lparr>ws_last_recovery_unix := Some unix\<rparr>,
         sh_recovered_at := Some now, sh_request := None\<rparr>\<rparr>"

text \<open>The worker's closure after \<open>run\<close> failed.\<close>

definition watchdog_failed :: "watchdog \<Rightarrow> watchdog" where
  "watchdog_failed w =
     w\<lparr>w_authorized := False, w_phase := Finished,
       w_shared := (w_shared w)\<lparr>sh_status := (sh_status (w_shared w))\<lparr>
         ws_uplink := None, ws_anomalies := [''watchdog-unavailable'']\<rparr>\<rparr>\<rparr>"

section \<open>Executions\<close>

text \<open>The log, newest first: a request published by the worker, a request taken by the core (with the time
  it was published), a recovery reported by the core.\<close>

datatype wd_event = Issued recovery_reason nat | Taken recovery_reason nat | Recovered nat

fun issued_at :: "wd_event list \<Rightarrow> nat" where
  "issued_at [] = 0"
| "issued_at (Issued _ t # _) = t"
| "issued_at (_ # l) = issued_at l"

definition publish_log :: "nat \<Rightarrow> watchdog \<Rightarrow> wd_event list \<Rightarrow> wd_event list" where
  "publish_log t w l =
     (case (sh_request (w_shared w), sh_request (w_shared (wd_publish t w))) of
        (None, Some reason) \<Rightarrow> Issued reason t # l
      | _ \<Rightarrow> l)"

text \<open>All interleavings of the worker with the core and the netlink listener, against a clock that never
  goes back.\<close>

inductive wd_reach :: "nat \<Rightarrow> watchdog \<Rightarrow> wd_event list \<Rightarrow> bool" where
  init: "wd_reach t (fresh_watchdog t) []"
| tick: "wd_reach c w l \<Longrightarrow> c \<le> c' \<Longrightarrow> wd_reach c' w l"
| top: "wd_reach c w l \<Longrightarrow> w_phase w = Top \<Longrightarrow> wd_reach c (wd_top c w) l"
| egress: "wd_reach c w l \<Longrightarrow> w_phase w = At_Egress now \<Longrightarrow>
    wd_reach c (wd_egress fingerprint sampled c unix now w) l"
| probe: "wd_reach c w l \<Longrightarrow> w_phase w = At_Probe now \<Longrightarrow> wd_reach c (wd_probe inp now w) l"
| sync: "wd_reach c w l \<Longrightarrow> w_phase w = At_Sync r \<Longrightarrow> wd_reach c (wd_sync r w) l"
| observed: "wd_reach c w l \<Longrightarrow> w_phase w = At_Observe r \<Longrightarrow> wd_reach c (wd_observe r c w) l"
| publish: "wd_reach c w l \<Longrightarrow> w_phase w = At_Publish \<Longrightarrow> wd_reach c (wd_publish c w) (publish_log c w l)"
| stop: "wd_reach c w l \<Longrightarrow> wd_reach c (w\<lparr>w_phase := Finished\<rparr>) l"
| failed: "wd_reach c w l \<Longrightarrow> wd_reach c (watchdog_failed w) l"
| listener: "wd_reach c w l \<Longrightarrow> wd_reach c (w\<lparr>w_authorized := False\<rparr>) l"
| take_none: "wd_reach c w l \<Longrightarrow> take_request c w = (None, w') \<Longrightarrow> wd_reach c w' l"
| take_some: "wd_reach c w l \<Longrightarrow> take_request c w = (Some r, w') \<Longrightarrow> wd_reach c w' (Taken r (issued_at l) # l)"
| recover: "wd_reach c w l \<Longrightarrow> wd_reach c (recovered c unix w) (Recovered c # l)"

fun spaced :: "nat \<Rightarrow> nat list \<Rightarrow> bool" where
  "spaced c (t # u # ts) = (u + c \<le> t \<and> spaced c (u # ts))"
| "spaced c ts = True"

fun egress_issues :: "wd_event list \<Rightarrow> nat list" where
  "egress_issues [] = []"
| "egress_issues (Issued By_Egress t # l) = t # egress_issues l"
| "egress_issues (_ # l) = egress_issues l"

fun stall_takes :: "wd_event list \<Rightarrow> nat list" where
  "stall_takes [] = []"
| "stall_takes (Taken r t # l) = (if r = By_Egress then stall_takes l else t # stall_takes l)"
| "stall_takes (_ # l) = stall_takes l"

fun taken_fresh :: "wd_event list \<Rightarrow> bool" where
  "taken_fresh [] = True"
| "taken_fresh (Taken r t # l) = (l \<noteq> [] \<and> hd l = Issued r t \<and> taken_fresh l)"
| "taken_fresh (_ # l) = taken_fresh l"

section \<open>The invariant\<close>

text \<open>The part of the state that decides about requests: the attempts, the request slot, and the recovery
  the worker has acknowledged.\<close>

type_synonym core_view = "nat option \<times> nat option \<times> nat option \<times> recovery_reason option \<times> nat option \<times> nat option"

definition view :: "watchdog \<Rightarrow> core_view" where
  "view w = (rs_last_egress_attempt (w_state w), rs_last_stall_attempt (w_state w),
     rs_stall_before_request (w_state w), sh_request (w_shared w), sh_recovered_at (w_shared w), w_acknowledged w)"

text \<open>\<open>below ts a\<close>: the newest of the times \<open>ts\<close> is at most \<open>a\<close>.\<close>

definition below :: "nat list \<Rightarrow> nat option \<Rightarrow> bool" where
  "below ts a \<longleftrightarrow> ts = [] \<or> (\<exists>t. a = Some t \<and> hd ts \<le> t)"

fun wd_inv :: "nat \<Rightarrow> wd_event list \<Rightarrow> core_view \<Rightarrow> bool" where
  "wd_inv c l (la, ls, sb, rq, ra, ak) \<longleftrightarrow>
     spaced EGRESS_COOLDOWN (egress_issues l) \<and> spaced STALL_COOLDOWN (stall_takes l) \<and> taken_fresh l
     \<and> (\<forall>t \<in> set (egress_issues l). t \<le> c)
     \<and> below (egress_issues l) la
     \<and> (ra \<noteq> ak \<longrightarrow> rq = None \<and> below (egress_issues l) ra \<and> ra \<noteq> None)
     \<and> (\<forall>t. la = Some t \<or> ra = Some t \<longrightarrow> t \<le> c)
     \<and> (case rq of
          None \<Rightarrow> below (stall_takes l) ls
        | Some r \<Rightarrow> (\<exists>t rest. l = Issued r t # rest
            \<and> (if r = By_Egress then below (stall_takes l) ls
               else ls = Some t \<and> below (stall_takes l) sb \<and> spaced STALL_COOLDOWN (t # stall_takes l))))"

lemma spaced_hd: "spaced c (t # ts) \<longleftrightarrow> (ts = [] \<or> hd ts + c \<le> t) \<and> spaced c ts"
  by (cases ts) auto

lemma below_cooled: "below ts a \<Longrightarrow> cooled c t a \<Longrightarrow> spaced c ts \<Longrightarrow> c > 0 \<Longrightarrow> spaced c (t # ts)"
  by (auto simp: below_def cooled_def spaced_hd split: option.splits)

lemma below_bound: "\<forall>t \<in> set ts. t \<le> c \<Longrightarrow> below ts (Some c)"
  by (cases ts) (auto simp: below_def)

lemmas view_defs = view_def state_egress_def observe_https_def observe_dns_def state_observe_def
  refresh_anomalies_def acknowledge_def Let_def

lemma view_frames:
  "view (wd_egress fp sampled t unix now w) = view w"
  "view (wd_probe inp now w) = view w"
  "view (w\<lparr>w_phase := p\<rparr>) = view w"
  "view (watchdog_failed w) = view w"
  "view (w\<lparr>w_authorized := a\<rparr>) = view w"
  by (auto simp: view_defs wd_egress_def wd_probe_def watchdog_failed_def split: result.splits prod.splits)

lemma inv_tick: "wd_inv c l v \<Longrightarrow> c \<le> c' \<Longrightarrow> wd_inv c' l v"
  by (cases v) (auto intro: order.trans)

lemma inv_sync: "wd_inv c l (view w) \<Longrightarrow> wd_inv c l (view (snd (sync_recovery w)))"
  by (auto simp: sync_recovery_def view_defs split: option.splits)

lemma view_wd_sync: "view (wd_sync r w) = view (snd (sync_recovery w))"
  by (simp add: wd_sync_def case_prod_beta view_frames(3) Let_def)

lemma view_wd_top: "view (wd_top c w) = view (snd (sync_recovery w))"
  by (simp add: wd_top_def view_frames(3))

lemma view_wd_observe:
  "view (wd_observe r t w) =
     (let (la, ls, sb, rq, ra, ak) = view w in
      case rq of
        None \<Rightarrow> view w
      | Some reason \<Rightarrow>
          if fst (cancel_cleared_request reason (pr_https r) (map_option so_udp_sockets (pr_resources r)) (w_state w))
          then (la, sb, None, None, ra, ak) else view w)"
  by (auto simp: wd_observe_def view_defs cancel_cleared_request_def
      split: option.splits probe_outcome.splits recovery_reason.splits)

lemma inv_observe: "wd_inv c l (view w) \<Longrightarrow> wd_inv c l (view (wd_observe r t w))"
  by (cases "view w")
    (auto simp: view_wd_observe cancel_cleared_request_def split: option.splits recovery_reason.splits if_splits)

lemma state_recovery_cases:
  assumes "state_recovery t s = (res, s')"
  obtains (none) "res = None" and "s' = s"
  | (egress) "res = Some By_Egress" and "cooled EGRESS_COOLDOWN t (rs_last_egress_attempt s)"
      and "s' = s\<lparr>rs_pending_egress := False, rs_last_egress_attempt := Some t\<rparr>"
  | (stall) "res = rs_pending_stall s" and "res \<noteq> None" and "cooled STALL_COOLDOWN t (rs_last_stall_attempt s)"
      and "s' = s\<lparr>rs_stall_before_request := rs_last_stall_attempt s, rs_last_stall_attempt := Some t,
                  rs_pending_stall := None\<rparr>"
proof -
  consider (off) "ws_uplink (rs_status s) \<noteq> Some True"
    | (eg) "ws_uplink (rs_status s) = Some True" "rs_pending_egress s \<and> cooled EGRESS_COOLDOWN t (rs_last_egress_attempt s)"
    | (st) "ws_uplink (rs_status s) = Some True" "\<not> (rs_pending_egress s \<and> cooled EGRESS_COOLDOWN t (rs_last_egress_attempt s))"
        "rs_pending_stall s \<noteq> None \<and> cooled STALL_COOLDOWN t (rs_last_stall_attempt s)"
    | (no) "ws_uplink (rs_status s) = Some True" "\<not> (rs_pending_egress s \<and> cooled EGRESS_COOLDOWN t (rs_last_egress_attempt s))"
        "\<not> (rs_pending_stall s \<noteq> None \<and> cooled STALL_COOLDOWN t (rs_last_stall_attempt s))"
    by blast
  then show ?thesis
  proof cases
    case off
    then show ?thesis using assms by (intro none) (simp_all add: state_recovery_def)
  next
    case eg
    then show ?thesis using assms by (intro egress) (simp_all add: state_recovery_def)
  next
    case st
    have "state_recovery t s = (rs_pending_stall s, s\<lparr>rs_stall_before_request := rs_last_stall_attempt s,
        rs_last_stall_attempt := Some t, rs_pending_stall := None\<rparr>)"
      unfolding state_recovery_def by (subst if_not_P, simp add: st(1), subst if_not_P, rule st(2), subst if_P, rule st(3), rule refl)
    with assms st(3) show ?thesis by (intro stall) (auto dest: sym)
  next
    case no
    have "state_recovery t s = (None, s)"
      unfolding state_recovery_def by (subst if_not_P, simp add: no(1), subst if_not_P, rule no(2), subst if_not_P, rule no(3), rule refl)
    with assms show ?thesis by (intro none) auto
  qed
qed

lemma wd_publish_cases:
  obtains (quiet) "view (wd_publish t w) = view w"
  | (issue) res s' s where "sh_recovered_at (w_shared w) = w_acknowledged w" and "sh_request (w_shared w) = None"
      and "state_recovery t s = (res, s')"
      and "rs_last_egress_attempt s = rs_last_egress_attempt (w_state w)"
      and "rs_last_stall_attempt s = rs_last_stall_attempt (w_state w)"
      and "rs_stall_before_request s = rs_stall_before_request (w_state w)"
      and "rs_pending_stall s = rs_pending_stall (w_state w)"
      and "view (wd_publish t w) = (rs_last_egress_attempt s', rs_last_stall_attempt s', rs_stall_before_request s',
             res, sh_recovered_at (w_shared w), w_acknowledged w)"
proof (cases "sh_recovered_at (w_shared w) = w_acknowledged w \<and> sh_request (w_shared w) = None \<and> w_authorized w")
  case False
  have "view (wd_publish t w) = view w"
  proof (cases "sh_recovered_at (w_shared w) = w_acknowledged w")
    case True
    with False have no: "\<not> (sh_request (w_shared w) = None \<and> w_authorized w)" by blast
    show ?thesis
      unfolding wd_publish_def Let_def view_def refresh_anomalies_def by (simp add: True no)
  next
    case False
    then show ?thesis unfolding wd_publish_def Let_def view_def refresh_anomalies_def by simp
  qed
  then show ?thesis by (rule quiet)
next
  case True
  let ?s = "on_status (\<lambda>st. st\<lparr>ws_last_recovery_unix := ws_last_recovery_unix (sh_status (w_shared w))\<rparr>)
              (refresh_anomalies (w_state w))"
  obtain res s' where r: "state_recovery t ?s = (res, s')" by (rule prod.exhaust)
  show ?thesis
    by (rule issue [OF _ _ r]) (use True r in \<open>simp_all add: wd_publish_def view_def Let_def refresh_anomalies_def\<close>)
qed

lemma cooldowns_positive: "0 < EGRESS_COOLDOWN" "0 < STALL_COOLDOWN"
  by (simp_all add: EGRESS_COOLDOWN_def STALL_COOLDOWN_def)

lemma inv_publish:
  assumes "wd_inv c l (view w)" and "rs_pending_stall (w_state w) \<noteq> Some By_Egress"
  shows "wd_inv c (publish_log c w l) (view (wd_publish c w))"
proof (cases rule: wd_publish_cases [of c w])
  case quiet
  then have "publish_log c w l = l" by (auto simp: publish_log_def view_def split: option.splits)
  with quiet assms show ?thesis by simp
next
  case (issue res s' s)
  have log: "publish_log c w l = (case res of None \<Rightarrow> l | Some r \<Rightarrow> Issued r c # l)"
    using issue(2,8) by (simp add: publish_log_def view_def split: option.splits)
  note inv = assms(1) [unfolded view_def issue(1,2)]
  from issue(3) show ?thesis
  proof (cases rule: state_recovery_cases)
    case none
    with log issue inv show ?thesis by simp
  next
    case egress
    have "spaced EGRESS_COOLDOWN (c # egress_issues l)"
      using below_cooled [OF _ egress(2) _ cooldowns_positive(1)] inv issue(4) by simp
    then show ?thesis using inv log issue egress by (simp add: below_def)
  next
    case stall
    then obtain r where r: "rs_pending_stall (w_state w) = Some r" "r \<noteq> By_Egress"
      using issue(7) assms(2) by auto
    have "spaced STALL_COOLDOWN (c # stall_takes l)"
      using below_cooled [OF _ stall(3) _ cooldowns_positive(2)] inv issue(5) by simp
    moreover have "egress_issues (Issued r c # l) = egress_issues l" using r(2) by (cases r) auto
    ultimately show ?thesis using inv log issue stall r by simp
  qed
qed

lemma inv_take_some:
  assumes "wd_inv c l (view w)" and "take_request c w = (Some r, w')"
  shows "wd_inv c (Taken r (issued_at l) # l) (view w')"
proof -
  have rq: "sh_request (w_shared w) = Some r" and w': "w' = w\<lparr>w_shared := (w_shared w)\<lparr>sh_request := None\<rparr>\<rparr>"
    using assms(2) by (auto simp: take_request_def split: if_splits)
  obtain t rest where l: "l = Issued r t # rest" using assms(1) by (auto simp: view_def rq)
  show ?thesis
  proof (cases "r = By_Egress")
    case True
    with assms(1) show ?thesis by (simp add: view_def rq w' l)
  next
    case False
    with assms(1) show ?thesis by (simp add: view_def rq w' l below_def)
  qed
qed

lemma inv_take_none: "wd_inv c l (view w) \<Longrightarrow> take_request c w = (None, w') \<Longrightarrow> wd_inv c l (view w')"
proof -
  assume inv: "wd_inv c l (view w)" and "take_request c w = (None, w')"
  then have "view w' = view w" by (auto simp: take_request_def view_def split: if_splits)
  with inv show ?thesis by simp
qed

lemma inv_recovered: "wd_inv c l (view w) \<Longrightarrow> wd_inv c (Recovered c # l) (view (recovered c unix w))"
  by (auto simp: view_def recovered_def spaced_hd below_def split: option.splits if_splits intro: below_bound)

section \<open>Properties\<close>

abbreviation stall_kind :: "watchdog \<Rightarrow> bool" where
  "stall_kind w \<equiv> rs_pending_stall (w_state w) \<noteq> Some By_Egress"

lemma stall_kind_steps:
  "stall_kind w \<Longrightarrow> stall_kind (wd_top c w)"
  "stall_kind w \<Longrightarrow> stall_kind (wd_egress fp sampled t unix now w)"
  "stall_kind w \<Longrightarrow> stall_kind (wd_probe inp now w)"
  "stall_kind w \<Longrightarrow> stall_kind (wd_sync r w)"
  "stall_kind (wd_observe r t w)"
  by (auto simp: wd_top_def wd_sync_def sync_recovery_def wd_egress_def wd_probe_def acknowledge_def
      state_egress_def wd_observe_def cancel_cleared_request_def state_observe_def observe_https_def
      observe_dns_def Let_def split: option.splits result.splits prod.splits probe_outcome.splits)

lemma stall_kind_publish: "stall_kind w \<Longrightarrow> stall_kind (wd_publish t w)"
  by (auto simp: wd_publish_def refresh_anomalies_def state_recovery_def Let_def split: prod.splits if_splits)

lemma wd_reach_inv: "wd_reach c w l \<Longrightarrow> wd_inv c l (view w) \<and> stall_kind w"
proof (induction rule: wd_reach.induct)
  case (init t)
  show ?case by (simp add: view_def fresh_watchdog_def new_recovery_state_def below_def)
next
  case (tick c w l c')
  then show ?case using inv_tick by blast
next
  case (publish c w l)
  then show ?case using inv_publish stall_kind_publish by blast
next
  case (take_none c w l w')
  then have "w_state w' = w_state w" by (auto simp: take_request_def split: if_splits)
  with take_none inv_take_none show ?case by metis
next
  case (take_some c w l r w')
  then have "w_state w' = w_state w" by (auto simp: take_request_def split: if_splits)
  with take_some inv_take_some show ?case by metis
next
  case (recover c w l unix)
  then show ?case using inv_recovered by (simp add: recovered_def)
next
  case (failed c w l)
  moreover have "w_state (watchdog_failed w) = w_state w" by (simp add: watchdog_failed_def)
  ultimately show ?case by (metis view_frames(4))
qed (simp_all add: view_frames view_wd_top view_wd_sync inv_sync inv_observe stall_kind_steps)

text \<open>C16: recovery is rate limited and never acts on stale information, for every interleaving of the worker,
  the core and the netlink listener.  Requests because of a changed underlay are published at least
  60 seconds apart; stall and leak requests that the core takes were published at least 600 seconds
  apart, although a request that clears before it is taken gives its slot back; and a request is
  taken at most once and only when no recovery was reported since it was published.\<close>

theorem watchdog_rate_limited:
  assumes "wd_reach c w l"
  shows "spaced EGRESS_COOLDOWN (egress_issues l) \<and> spaced STALL_COOLDOWN (stall_takes l) \<and> taken_fresh l"
  using wd_reach_inv [OF assms] by (cases "view w") auto

text \<open>What the worker does to its recovery state, newest first.\<close>

datatype watch_op =
    Op_Observe probe_outcome probe_outcome bool "socket_report option"
  | Op_Ack nat
  | Op_Egress egress_event "egress_signature option" nat nat
  | Op_Recovery nat

fun run_op :: "(egress_signature \<Rightarrow> string) \<Rightarrow> watch_op \<Rightarrow> recovery_state \<Rightarrow> recovery_state" where
  "run_op fp (Op_Observe https dns reachable resources) s = state_observe https dns reachable resources s"
| "run_op fp (Op_Ack when) s = acknowledge when s"
| "run_op fp (Op_Egress event signature now unix) s = state_egress fp event signature now unix s"
| "run_op fp (Op_Recovery now) s = snd (state_recovery now s)"

definition run_ops :: "(egress_signature \<Rightarrow> string) \<Rightarrow> nat \<Rightarrow> watch_op list \<Rightarrow> recovery_state" where
  "run_ops fp start ops = foldr (run_op fp) ops (new_recovery_state start)"

text \<open>Stalled HTTPS probes since the last healthy probe, underlay change or recovery.\<close>

fun stalls_since :: "watch_op list \<Rightarrow> nat" where
  "stalls_since [] = 0"
| "stalls_since (Op_Observe https _ _ _ # ops) =
     (case https of Stalled \<Rightarrow> Suc (stalls_since ops) | Healthy _ \<Rightarrow> 0 | Skipped \<Rightarrow> stalls_since ops)"
| "stalls_since (Op_Ack _ # ops) = 0"
| "stalls_since (Op_Egress event _ _ _ # ops) = (if event \<in> {Changed, Flap} then 0 else stalls_since ops)"
| "stalls_since (Op_Recovery _ # ops) = stalls_since ops"

fun keeps_pending :: "watch_op \<Rightarrow> bool" where
  "keeps_pending (Op_Egress _ _ _ _) = True"
| "keeps_pending (Op_Recovery _) = True"
| "keeps_pending _ = False"

lemma recovery_frame:
  "rs_status (snd (state_recovery now s)) = rs_status s"
  "rs_pending_stall (snd (state_recovery now s)) = Some r \<Longrightarrow> rs_pending_stall s = Some r"
  by (simp_all add: state_recovery_def split: if_splits)

lemma run_ops_Cons [simp]: "run_ops fp start (op # ops) = run_op fp op (run_ops fp start ops)"
  by (simp add: run_ops_def)

lemma streak_counts:
  "ws_https_stall_streak (rs_status (run_ops fp start ops)) = min (stalls_since ops) u32_max"
proof (induction ops)
  case Nil
  show ?case by (simp add: run_ops_def new_recovery_state_def default_status_def)
next
  case (Cons op ops)
  show ?case
    by (cases op) (use Cons in \<open>auto simp: state_observe_def observe_https_def observe_dns_def Let_def
        acknowledge_def state_egress_def recovery_frame sat_succ_u32_def split: probe_outcome.splits option.splits\<close>)
qed

lemma observe_https_stall:
  "rs_pending_stall (state_observe https dns reachable resources s) = Some HttpsStall \<Longrightarrow>
     https = Stalled \<and> reachable \<and> STALL_LIMIT \<le> sat_succ_u32 (ws_https_stall_streak (rs_status s))"
  by (auto simp: state_observe_def observe_https_def observe_dns_def Let_def
      split: probe_outcome.splits option.splits if_splits)

text \<open>a restart for stalled HTTPS rests on three stalled probes in a row.  Whenever such a restart is
  pending, the latest probe round stalled with a node reachable outside the tunnel, at least two
  stalled rounds preceded it since the last healthy probe, underlay change or recovery, and since
  that round neither another round nor a recovery was seen; the saturating counter counts exactly
  those rounds.\<close>

theorem https_stall_needs_three_probes:
  assumes "rs_pending_stall (run_ops fp start ops) = Some HttpsStall"
  shows "\<exists>newer dns resources older. ops = newer @ Op_Observe Stalled dns True resources # older
     \<and> list_all keeps_pending newer \<and> stalls_since older \<ge> 2
     \<and> ws_https_stall_streak (rs_status (run_ops fp start older)) = min (stalls_since older) u32_max"
  using assms
proof (induction ops)
  case Nil
  then show ?case by (simp add: run_ops_def new_recovery_state_def)
next
  case (Cons op ops)
  have keep: ?case if "keeps_pending op" "rs_pending_stall (run_ops fp start ops) = Some HttpsStall"
  proof -
    from Cons.IH [OF that(2)] obtain newer dns resources older where
      "ops = newer @ Op_Observe Stalled dns True resources # older" "list_all keeps_pending newer" "stalls_since older \<ge> 2"
      by blast
    then show ?thesis using that(1) streak_counts by (intro exI [of _ "op # newer"]) auto
  qed
  show ?case
  proof (cases op)
    case (Op_Observe https dns reachable resources)
    with Cons.prems have "rs_pending_stall (state_observe https dns reachable resources (run_ops fp start ops)) = Some HttpsStall"
      by simp
    from observe_https_stall [OF this]
    have o: "https = Stalled" "reachable" "3 \<le> sat_succ_u32 (min (stalls_since ops) u32_max)"
      by (simp_all add: STALL_LIMIT_def streak_counts)
    then have "stalls_since ops \<ge> 2" by (auto simp: sat_succ_u32_def u32_max_def split: if_splits)
    with Op_Observe o streak_counts show ?thesis by (intro exI [of _ "[]"]) auto
  next
    case (Op_Ack t)
    with Cons.prems show ?thesis by (simp add: acknowledge_def Let_def)
  next
    case (Op_Egress event signature now unix)
    with Cons.prems show ?thesis by (intro keep) (auto simp: state_egress_def Let_def split: if_splits)
  next
    case (Op_Recovery now)
    with Cons.prems have "rs_pending_stall (snd (state_recovery now (run_ops fp start ops))) = Some HttpsStall" by simp
    from keep [OF _ recovery_frame(2) [OF this]] Op_Recovery show ?thesis by simp
  qed
qed

section \<open>Worked examples\<close>

definition example_up :: egress_sample where
  "example_up = \<lparr> es_signature = Some [\<lparr> ep_gateway = None, ep_device_index = 2, ep_source = V4 9,
     ep_carrier_changes = None \<rparr>], es_interrupted = False \<rparr>"

definition example_flap :: egress_sample where
  "example_flap = example_up\<lparr>es_interrupted := True\<rparr>"

text \<open>One iteration of the worker in which the underlay is sampled and no probe is due.\<close>

definition example_loop :: "egress_sample \<Rightarrow> nat \<Rightarrow> watchdog \<Rightarrow> watchdog" where
  "example_loop sample t w = wd_publish t (wd_probe \<lparr> pi_https = None, pi_dns = (\<lambda>_. None), pi_nodes = 0,
      pi_reachable = (\<lambda>_. False), pi_resources = None \<rparr> t (wd_egress (\<lambda>_. ''sig'') (Ok sample) t 7 t (wd_top t w)))"

definition example_watchdog :: watchdog where
  "example_watchdog = example_loop example_flap 2000 (example_loop example_up 0 (fresh_watchdog 0))"

lemma example_loop_reach:
  assumes "wd_reach t w l" and "w_phase w = Top"
    and "rs_probe_after (w_state (wd_egress (\<lambda>_. ''sig'') (Ok sample) t 7 t (wd_top t w))) > t"
  shows "\<exists>w'. wd_reach t (example_loop sample t w) (publish_log t w' l) \<and> wd_publish t w' = example_loop sample t w"
proof -
  let ?w1 = "wd_egress (\<lambda>_. ''sig'') (Ok sample) t 7 t (wd_top t w)"
  have top: "wd_reach t (wd_top t w) l" "w_phase (wd_top t w) = At_Egress t"
    using wd_reach.top [OF assms(1,2)] by (simp_all add: wd_top_def)
  have "wd_reach t ?w1 l" by (rule wd_reach.egress [OF top])
  moreover have "w_phase ?w1 = At_Probe t" by (simp add: wd_egress_def Let_def split: result.splits prod.splits)
  ultimately have p: "wd_reach t (wd_probe inp t ?w1) l" for inp by (rule wd_reach.probe)
  have "w_phase (wd_probe inp t ?w1) = At_Publish" for inp using assms(3) by (simp add: wd_probe_def)
  from wd_reach.publish [OF p this] show ?thesis unfolding example_loop_def by blast
qed

theorem watchdog_rate_limited_witness:
  "\<exists>l. wd_reach 2000 example_watchdog l \<and> egress_issues l = [2000]
     \<and> spaced EGRESS_COOLDOWN (egress_issues l) \<and> sh_request (w_shared example_watchdog) = Some By_Egress"
proof -
  let ?w0 = "example_loop example_up 0 (fresh_watchdog 0)"
  have a: "w_phase (fresh_watchdog 0) = Top" "w_phase ?w0 = Top"
    "rs_probe_after (w_state (wd_egress (\<lambda>_. ''sig'') (Ok example_up) 0 7 0 (wd_top 0 (fresh_watchdog 0)))) > 0"
    "rs_probe_after (w_state (wd_egress (\<lambda>_. ''sig'') (Ok example_flap) 2000 7 2000 (wd_top 2000 ?w0))) > 2000"
    "sh_request (w_shared ?w0) = None" "sh_request (w_shared example_watchdog) = Some By_Egress" by code_simp+
  obtain w' where w': "wd_reach 0 ?w0 (publish_log 0 w' [])" "wd_publish 0 w' = ?w0"
    using example_loop_reach [OF wd_reach.init a(1,3)] by blast
  then have r0: "wd_reach 0 ?w0 []" using a(5) by (simp add: publish_log_def split: option.splits)
  obtain w'' where w'': "wd_reach 2000 example_watchdog (publish_log 2000 w'' [])"
    "wd_publish 2000 w'' = example_watchdog"
    using example_loop_reach [OF wd_reach.tick [OF r0, of 2000] a(2,4)] unfolding example_watchdog_def by auto
  have "sh_request (w_shared w'') = None"
  proof (rule ccontr)
    assume "sh_request (w_shared w'') \<noteq> None"
    then have "publish_log 2000 w'' [] = []" by (auto simp: publish_log_def split: option.splits)
    with w''(1) have "wd_inv 2000 [] (view example_watchdog)" using wd_reach_inv by metis
    then show False by (simp add: view_def a(6))
  qed
  then have "publish_log 2000 w'' [] = [Issued By_Egress 2000]"
    using w''(2) a(6) by (simp add: publish_log_def)
  with w''(1) have r: "wd_reach 2000 example_watchdog [Issued By_Egress 2000]" by simp
  from watchdog_rate_limited [OF r] r a(6) show ?thesis by (intro exI [of _ "[Issued By_Egress 2000]"]) simp
qed

end
