(* ===== verification/Xray_Validate.thy ===== *)
theory Xray_Validate
  imports Json Failover
begin

text \<open>
  The allowlist for client-supplied Xray configurations (\<open>crates/daemon/src/xray.rs\<close>): one definition per
  validator, in the order of the code.  All rejections are \<open>InvalidInput\<close>.
\<close>

section \<open>Building blocks\<close>

text \<open>\<open>object\<close>, \<open>string\<close>, \<open>maybe_string\<close>, \<open>port\<close>, \<open>one\<close>.\<close>

definition xobject :: "json \<Rightarrow> string list \<Rightarrow> verdict" where
  "xobject v allowed = (case as_object v of None \<Rightarrow> Reject
     | Some m \<Rightarrow> require (list_all (\<lambda>(k, _). k \<in> set allowed) m))"

definition xstring :: "json \<Rightarrow> verdict" where
  "xstring v = require (case as_str v of None \<Rightarrow> False | Some s \<Rightarrow> s \<noteq> [])"

definition maybe_string :: "json \<Rightarrow> verdict" where
  "maybe_string v = require (case as_str v of None \<Rightarrow> False | Some s \<Rightarrow> length s \<le> 256)"

definition xport :: "json \<Rightarrow> verdict" where
  "xport v = require (case as_u64 v of None \<Rightarrow> False | Some p \<Rightarrow> 1 \<le> p \<and> p \<le> 65535)"

definition xone :: "(json \<Rightarrow> verdict) \<Rightarrow> json \<Rightarrow> verdict" where
  "xone f v = (case as_array v of Some [x] \<Rightarrow> f x | _ \<Rightarrow> Reject)"

definition xbool :: "json \<Rightarrow> verdict" where "xbool v = require (is_boolean v)"
definition value_u64 :: "json \<Rightarrow> verdict" where "value_u64 v = require (as_u64 v \<noteq> None)"

text \<open>A non-empty array of at most \<open>n\<close> elements that all pass.\<close>

definition xlist :: "nat \<Rightarrow> (json \<Rightarrow> verdict) \<Rightarrow> json \<Rightarrow> verdict" where
  "xlist n f v = required (\<lambda>xs. checks [require (xs \<noteq> [] \<and> length xs \<le> n), each f xs]) (as_array v)"

definition str_in :: "string list \<Rightarrow> json \<Rightarrow> bool" where
  "str_in options v = (case as_str v of None \<Rightarrow> False | Some s \<Rightarrow> s \<in> set options)"

abbreviation field :: "json \<Rightarrow> string \<Rightarrow> (json \<Rightarrow> verdict) \<Rightarrow> verdict" where
  "field v k f \<equiv> optional f (map_of (jfields v) k)"

section \<open>Selectors\<close>

definition routing_selector :: "ipnet_crate \<Rightarrow> string \<Rightarrow> string \<Rightarrow> verdict" where
  "routing_selector N key item = require
     (if key = ''ip'' then
        (case strip_prefix ''geoip:'' item of
           Some code \<Rightarrow> code \<noteq> [] \<and> length code \<le> 64
             \<and> list_all (\<lambda>b. is_ascii_alphanumeric b \<or> b \<in> set ''-_'') code
         | None \<Rightarrow> addr_parse item \<noteq> None \<or> net_parse N item \<noteq> None)
      else case split_once CHR '':'' item of
        Some (kind, value) \<Rightarrow>
          if kind = ''geosite'' then
            (case splitn2 CHR ''@'' value of
               name # rest \<Rightarrow>
                 name \<noteq> [] \<and> length name \<le> 64
                 \<and> list_all (\<lambda>b. is_ascii_alphanumeric b \<or> b \<in> set ''-_!'') name
                 \<and> (case rest of [] \<Rightarrow> True
                    | attr # _ \<Rightarrow> attr \<noteq> [] \<and> length attr \<le> 64
                        \<and> list_all (\<lambda>b. is_ascii_alphanumeric b \<or> b \<in> set ''-_*'') attr)
             | [] \<Rightarrow> False)
          else if kind \<in> {''domain'', ''full'', ''keyword'', ''regexp''} then value \<noteq> []
          else False
      | None \<Rightarrow> CHR ''/'' \<notin> set item \<and> char_of (92 :: nat) \<notin> set item)"

definition selector_item :: "ipnet_crate \<Rightarrow> string \<Rightarrow> json \<Rightarrow> verdict" where
  "selector_item N key v = checks [xstring v, routing_selector N key (opt_or [] (as_str v))]"

section \<open>Sections of the configuration\<close>

definition dns_host :: "string \<times> json \<Rightarrow> verdict" where
  "dns_host kv = (let (name, value) = kv in checks
     [require (name \<noteq> [] \<and> length name \<le> 253),
      (case value of
         JStr entry \<Rightarrow> require (entry \<noteq> [] \<and> length entry \<le> 256)
       | JArr entries \<Rightarrow> xlist 8 xstring value
       | _ \<Rightarrow> Reject)])"

definition dns_server :: "json \<Rightarrow> verdict" where
  "dns_server server =
     (case server of
        JStr address \<Rightarrow> require (address \<noteq> [] \<and> length address \<le> 256)
      | JObj _ \<Rightarrow> checks
          [xobject server [''address'', ''port'', ''domains'', ''skipFallback'', ''queryStrategy''],
           map_index xstring server ''address'',
           field server ''port'' xport,
           field server ''domains'' (xlist 64 xstring),
           field server ''skipFallback'' xbool,
           field server ''queryStrategy'' xstring]
      | _ \<Rightarrow> Reject)"

definition validate_dns :: "json \<Rightarrow> verdict" where
  "validate_dns dns = checks
     [xobject dns [''hosts'', ''servers'', ''queryStrategy'', ''tag'', ''enableParallelQuery'',
        ''disableCache'', ''serveStale'', ''clientIp''],
      field dns ''queryStrategy'' xstring,
      field dns ''tag'' xstring, field dns ''clientIp'' xstring,
      field dns ''enableParallelQuery'' xbool, field dns ''disableCache'' xbool, field dns ''serveStale'' xbool,
      field dns ''hosts'' (\<lambda>hosts. required (\<lambda>m. checks [require (length m \<le> 128), each dns_host m])
        (as_object hosts)),
      field dns ''servers'' (xlist 16 dns_server)]"

definition fakedns_pool :: "ipnet_crate \<Rightarrow> json \<Rightarrow> verdict" where
  "fakedns_pool N pool = checks
     [xobject pool [''ipPool'', ''poolSize''],
      map_index (\<lambda>v. checks [xstring v, require (net_parse N (opt_or [] (as_str v)) \<noteq> None)]) pool ''ipPool'',
      map_index (\<lambda>v. require (case as_u64 v of None \<Rightarrow> False | Some n \<Rightarrow> n \<noteq> 0 \<and> n \<le> 65535)) pool ''poolSize'']"

definition validate_fakedns :: "ipnet_crate \<Rightarrow> json \<Rightarrow> verdict" where
  "validate_fakedns N v = xlist 4 (fakedns_pool N) v"

definition short_string :: "nat \<Rightarrow> json \<Rightarrow> verdict" where
  "short_string n v = checks [xstring v, require (length (opt_or [] (as_str v)) \<le> n)]"

definition validate_sniffing :: "json \<Rightarrow> verdict" where
  "validate_sniffing s = checks
     [xobject s [''enabled'', ''destOverride'', ''routeOnly'', ''metadataOnly'', ''domainsExcluded''],
      each (\<lambda>k. field s k xbool) [''enabled'', ''routeOnly'', ''metadataOnly''],
      each (\<lambda>k. field s k (\<lambda>l. required (\<lambda>xs. checks [require (length xs \<le> 8), each (short_string 64) xs])
                  (as_array l))) [''destOverride'', ''domainsExcluded'']]"

definition validate_mux :: "json \<Rightarrow> verdict" where
  "validate_mux mux = checks
     [xobject mux [''enabled'', ''concurrency'', ''xudpConcurrency'', ''xudpProxyUDP443''],
      field mux ''enabled'' xbool,
      each (\<lambda>k. field mux k (\<lambda>v. require (case as_i64 v of None \<Rightarrow> False | Some n \<Rightarrow> 1 \<le> n \<and> n \<le> 1024)))
        [''concurrency'', ''xudpConcurrency''],
      field mux ''xudpProxyUDP443'' (short_string 64)]"

definition validate_tcp_settings :: "json \<Rightarrow> verdict" where
  "validate_tcp_settings tcp = checks
     [xobject tcp [''header''],
      field tcp ''header'' (\<lambda>header. checks [xobject header [''type''], map_index xstring header ''type''])]"

definition sockopt_entry :: "string \<times> json \<Rightarrow> verdict" where
  "sockopt_entry kv =
     (let (key, value) = kv in
      if key \<in> {''mark'', ''tcpKeepAliveInterval'', ''tcpKeepAliveIdle'', ''tcpWindowClamp''}
      then require (case as_u64 value of None \<Rightarrow> False | Some n \<Rightarrow> n \<le> u32_max)
      else if key = ''tcpUserTimeout''
      then require (case as_u64 value of None \<Rightarrow> False | Some n \<Rightarrow> n \<le> 3600000)
      else if key \<in> {''tcpFastOpen'', ''V6Only'', ''tcpMptcp'', ''tcpNoDelay''} then xbool value
      else if key = ''tproxy'' then require (str_in [''off'', ''redirect'', ''tproxy''] value)
      else xstring value)"

definition validate_sockopt :: "json \<Rightarrow> verdict" where
  "validate_sockopt sockopt = checks
     [xobject sockopt [''mark'', ''dialerProxy'', ''domainStrategy'', ''tcpFastOpen'', ''tproxy'',
        ''tcpKeepAliveInterval'', ''tcpKeepAliveIdle'', ''tcpUserTimeout'', ''tcpcongestion'', ''interface'',
        ''V6Only'', ''tcpWindowClamp'', ''tcpMptcp'', ''tcpNoDelay''],
      each sockopt_entry (jfields sockopt)]"

definition validate_dns_rewrite_rule :: "ipnet_crate \<Rightarrow> json \<Rightarrow> verdict" where
  "validate_dns_rewrite_rule N rule = checks
     [xobject rule [''action'', ''qType'', ''rCode'', ''domain'', ''domains''],
      field rule ''action'' (\<lambda>v. require (str_in [''return'', ''hijack'', ''direct'', ''drop''] v)),
      field rule ''qType'' (\<lambda>v. checks [xstring v,
        (let q = opt_or [] (as_str v) in require (length q \<le> 128
          \<and> list_all (\<lambda>item. item \<noteq> [] \<and> parse_uint 65535 item \<noteq> None) (split_on CHR '','' q)))]),
      field rule ''rCode'' value_u64,
      each (\<lambda>k. field rule k (xlist 128 (selector_item N ''domain''))) [''domain'', ''domains'']]"

definition freedom_entry :: "string \<times> json \<Rightarrow> verdict" where
  "freedom_entry kv =
     (let (key, value) = kv in
      if key \<in> {''timeout'', ''userLevel''} then value_u64 value
      else if key = ''fragment'' then xobject value [''packets'', ''length'', ''interval'']
      else xstring value)"

definition dns_entry :: "ipnet_crate \<Rightarrow> string \<times> json \<Rightarrow> verdict" where
  "dns_entry N kv =
     (let (key, value) = kv in
      if key = ''port'' then xport value
      else if key \<in> {''userLevel'', ''rewritePort''} then value_u64 value
      else if key = ''skipFallback'' then xbool value
      else if key = ''blockTypes'' then xlist 16 value_u64 value
      else if key = ''rules'' then xlist 64 (validate_dns_rewrite_rule N) value
      else xstring value)"

definition validate_auxiliary_settings :: "ipnet_crate \<Rightarrow> string \<Rightarrow> json \<Rightarrow> verdict" where
  "validate_auxiliary_settings N protocol settings =
     (if protocol = ''freedom'' then checks
        [xobject settings [''domainStrategy'', ''redirect'', ''timeout'', ''userLevel'', ''fragment''],
         each freedom_entry (jfields settings)]
      else if protocol = ''blackhole'' then checks
        [xobject settings [''response''],
         field settings ''response'' (\<lambda>r. checks [xobject r [''type''], map_index xstring r ''type''])]
      else if protocol = ''dns'' then checks
        [xobject settings [''address'', ''port'', ''network'', ''userLevel'', ''nonIPQuery'', ''blockTypes'',
           ''skipFallback'', ''queryStrategy'', ''rewriteAddress'', ''rewriteNetwork'', ''rewritePort'', ''rules''],
         each (dns_entry N) (jfields settings)]
      else Reject)"

definition validate_auxiliary_stream :: "json \<Rightarrow> verdict" where
  "validate_auxiliary_stream stream = checks
     [xobject stream [''network'', ''security'', ''tcpSettings'', ''sockopt''],
      each (\<lambda>k. field stream k xstring) [''network'', ''security''],
      field stream ''tcpSettings'' validate_tcp_settings,
      field stream ''sockopt'' validate_sockopt]"

text \<open>\<open>string(&outbound["protocol"]).unwrap_or_default()\<close>: the protocol has been checked before.\<close>

definition validate_auxiliary :: "ipnet_crate \<Rightarrow> json \<Rightarrow> verdict" where
  "validate_auxiliary N outbound = checks
     [field outbound ''settings'' (validate_auxiliary_settings N (opt_or [] (as_str (jidx outbound ''protocol'')))),
      field outbound ''streamSettings'' validate_auxiliary_stream]"

definition stream_field :: "string \<Rightarrow> string \<times> json \<Rightarrow> verdict" where
  "stream_field key kv =
     (let (fld, value) = kv in
      if key = ''wsSettings'' \<and> fld = ''headers'' then checks [xobject value [''Host''], xstring (jidx value ''Host'')]
      else if key = ''tlsSettings'' \<and> fld = ''alpn'' then xlist 8 xstring value
      else maybe_string value)"

definition STREAM_SECTIONS :: "(string \<times> string list) list" where
  "STREAM_SECTIONS =
     [(''wsSettings'', [''path'', ''headers'']), (''grpcSettings'', [''serviceName'']),
      (''xhttpSettings'', [''path'', ''host'']), (''httpupgradeSettings'', [''path'', ''host'']),
      (''tlsSettings'', [''serverName'', ''fingerprint'', ''alpn'']),
      (''realitySettings'', [''serverName'', ''fingerprint'', ''publicKey'', ''shortId'', ''spiderX''])]"

definition validate_vless_stream :: "json \<Rightarrow> verdict" where
  "validate_vless_stream stream = checks
     [xobject stream [''network'', ''security'', ''wsSettings'', ''grpcSettings'', ''xhttpSettings'',
        ''httpupgradeSettings'', ''tlsSettings'', ''realitySettings'', ''tcpSettings'', ''sockopt''],
      field stream ''tcpSettings'' validate_tcp_settings,
      field stream ''sockopt'' validate_sockopt,
      require (str_in [''tcp'', ''raw'', ''ws'', ''grpc'', ''xhttp'', ''httpupgrade''] (jidx stream ''network'')
        \<and> str_in [''none'', ''tls'', ''reality''] (jidx stream ''security'')),
      each (\<lambda>(key, allowed). field stream key (\<lambda>v. checks [xobject v allowed, each (stream_field key) (jfields v)]))
        STREAM_SECTIONS]"

definition validate_hysteria_stream :: "json \<Rightarrow> verdict" where
  "validate_hysteria_stream stream = checks
     [xobject stream [''network'', ''security'', ''tlsSettings'', ''hysteriaSettings'', ''finalmask''],
      require (jidx stream ''network'' = JStr ''hysteria'' \<and> jidx stream ''security'' = JStr ''tls''),
      xobject (jidx stream ''tlsSettings'') [''serverName'', ''pinnedPeerCertSha256''],
      each (\<lambda>(_, v). xstring v) (jfields (jidx stream ''tlsSettings'')),
      xobject (jidx stream ''hysteriaSettings'') [''version'', ''auth''],
      require (jidx (jidx stream ''hysteriaSettings'') ''version'' = JInt 2),
      xstring (jidx (jidx stream ''hysteriaSettings'') ''auth''),
      field stream ''finalmask'' (\<lambda>mask. checks
        [xobject mask [''udp'', ''quicParams''],
         field mask ''udp'' (xone (\<lambda>item. checks
           [xobject item [''type'', ''settings''], require (jidx item ''type'' = JStr ''salamander''),
            xobject (jidx item ''settings'') [''password''], xstring (jidx (jidx item ''settings'') ''password'')])),
         field mask ''quicParams'' (\<lambda>quic. checks
           [xobject quic [''udpHop''], xobject (jidx quic ''udpHop'') [''ports''],
            xstring (jidx (jidx quic ''udpHop'') ''ports'')])])]"

section \<open>The whole configuration\<close>

definition validate_inbound :: "json \<Rightarrow> verdict" where
  "validate_inbound inbound = checks
     [xobject inbound [''tag'', ''listen'', ''port'', ''protocol'', ''settings'', ''sniffing''],
      require (jidx inbound ''listen'' = JStr ''127.0.0.1''),
      xport (jidx inbound ''port''),
      xstring (jidx inbound ''tag''),
      field inbound ''sniffing'' validate_sniffing,
      xstring (jidx inbound ''protocol''),
      (if jidx inbound ''protocol'' = JStr ''socks''
       then field inbound ''settings'' (\<lambda>s. checks [xobject s [''udp''], require (jidx s ''udp'' = JBool True)])
       else require (jidx inbound ''protocol'' = JStr ''http'' \<and> map_of (jfields inbound) ''settings'' = None))]"

definition RESERVED_TAGS :: "string list" where
  "RESERVED_TAGS = [''api'', ''api-in'', ''tun-in'', ''unavailable'']"

definition valid_node_key :: "string \<Rightarrow> bool" where
  "valid_node_key key \<longleftrightarrow> length key = 16 \<and> list_all (\<lambda>b. is_ascii_digit b \<or> b \<in> set ''abcdef'') key"

definition vless_user :: "json \<Rightarrow> verdict" where
  "vless_user user = checks
     [xobject user [''id'', ''encryption'', ''flow''], xstring (jidx user ''id''),
      require (jidx user ''encryption'' = JStr ''none''),
      optional (\<lambda>flow. require (str_in [[], ''xtls-rprx-vision'', ''xtls-rprx-vision-udp443''] flow)) (jget user ''flow'')]"

definition validate_vless :: "json \<Rightarrow> verdict" where
  "validate_vless outbound = checks
     [xobject (jidx outbound ''settings'') [''vnext''],
      required (xone (\<lambda>server. checks
        [xobject server [''address'', ''port'', ''users''], xstring (jidx server ''address''),
         xport (jidx server ''port''), xone vless_user (jidx server ''users'')]))
        (map_of (jfields (jidx outbound ''settings'')) ''vnext''),
      validate_vless_stream (jidx outbound ''streamSettings'')]"

definition validate_hysteria :: "json \<Rightarrow> verdict" where
  "validate_hysteria outbound = checks
     [xobject (jidx outbound ''settings'') [''version'', ''address'', ''port''],
      require (jidx (jidx outbound ''settings'') ''version'' = JInt 2),
      xstring (jidx (jidx outbound ''settings'') ''address''),
      xport (jidx (jidx outbound ''settings'') ''port''),
      validate_hysteria_stream (jidx outbound ''streamSettings'')]"

abbreviation tag_of :: "json \<Rightarrow> string" where
  "tag_of outbound \<equiv> opt_or [] (as_str (jidx outbound ''tag''))"

abbreviation protocol_of :: "json \<Rightarrow> string" where
  "protocol_of outbound \<equiv> opt_or [] (as_str (jidx outbound ''protocol''))"

definition validate_outbound :: "ipnet_crate \<Rightarrow> string set \<Rightarrow> json \<Rightarrow> verdict" where
  "validate_outbound N tags outbound = checks
     [xobject outbound [''tag'', ''protocol'', ''settings'', ''streamSettings'', ''mux''],
      xstring (jidx outbound ''tag''),
      require (tag_of outbound \<notin> tags),
      require (tag_of outbound \<notin> set RESERVED_TAGS \<and> \<not> starts_with (tag_of outbound) ''probe-''),
      each (\<lambda>p. require (case strip_prefix p (tag_of outbound) of None \<Rightarrow> True | Some key \<Rightarrow> valid_node_key key))
        [''node-'', ''pin-''],
      field outbound ''mux'' validate_mux,
      xstring (jidx outbound ''protocol''),
      (let protocol = protocol_of outbound in
       if protocol = ''vless'' then validate_vless outbound
       else if protocol = ''hysteria'' then validate_hysteria outbound
       else if protocol \<in> {''freedom'', ''blackhole'', ''dns''} then validate_auxiliary N outbound
       else Reject)]"

fun validate_outbounds :: "ipnet_crate \<Rightarrow> string set \<Rightarrow> json list \<Rightarrow> verdict" where
  "validate_outbounds N tags [] = Pass"
| "validate_outbounds N tags (o1 # os) =
     and_then (validate_outbound N tags o1) (validate_outbounds N (insert (tag_of o1) tags) os)"

definition validate_balancer :: "json \<Rightarrow> verdict" where
  "validate_balancer balancer = checks
     [xobject balancer [''tag'', ''selector''],
      map_index (\<lambda>v. require (v = JStr ''failover'')) balancer ''tag'',
      map_index (xone (\<lambda>v. require (v = JStr ''unavailable''))) balancer ''selector'']"

definition port_list :: "string \<Rightarrow> bool" where
  "port_list list \<longleftrightarrow> length list \<le> 128
     \<and> list_all (\<lambda>item. list_all (\<lambda>bound. parse_uint 65535 bound \<noteq> None \<and> length bound \<le> 5)
         (splitn2 CHR ''-'' item)) (split_on CHR '','' list)"

definition validate_route_rule :: "ipnet_crate \<Rightarrow> string set \<Rightarrow> json \<Rightarrow> verdict" where
  "validate_route_rule N tags rule = checks
     [xobject rule [''type'', ''domain'', ''ip'', ''port'', ''network'', ''outboundTag'', ''balancerTag'', ''inboundTag''],
      optional (\<lambda>kind. require (kind = JStr ''field'')) (jget rule ''type''),
      (case (jget rule ''outboundTag'', jget rule ''balancerTag'') of
         (Some outbound, None) \<Rightarrow> checks [xstring outbound, require (opt_or [] (as_str outbound) \<in> tags)]
       | (None, Some balancer) \<Rightarrow> require (balancer = JStr ''failover'')
       | _ \<Rightarrow> Reject),
      optional (xlist 8 (short_string 64)) (jget rule ''inboundTag''),
      optional (\<lambda>p. case p of
          JStr list \<Rightarrow> require (port_list list)
        | JInt _ \<Rightarrow> xport p
        | JFloat _ \<Rightarrow> xport p
        | _ \<Rightarrow> Reject) (jget rule ''port''),
      optional (\<lambda>n. require (str_in [''tcp'', ''udp'', ''tcp,udp''] n)) (jget rule ''network''),
      each (\<lambda>key. optional (xlist 128 (selector_item N key)) (jget rule key)) [''domain'', ''ip'']]"

definition validate_policy :: "json \<Rightarrow> verdict" where
  "validate_policy policy = checks
     [xobject policy [''levels''], xobject (jidx policy ''levels'') [''0''],
      xobject (jidx (jidx policy ''levels'') ''0'') [''connIdle''],
      require (case jget (jidx (jidx policy ''levels'') ''0'') ''connIdle'' of None \<Rightarrow> False
        | Some v \<Rightarrow> (case as_u64 v of None \<Rightarrow> False | Some n \<Rightarrow> n \<le> 86400))]"

definition validate_generated :: "ipnet_crate \<Rightarrow> json \<Rightarrow> verdict" where
  "validate_generated N config = checks
     [xobject config [''log'', ''inbounds'', ''outbounds'', ''routing'', ''dns'', ''fakedns'', ''policy''],
      field config ''log'' (\<lambda>l. checks [xobject l [''loglevel''],
        require (str_in [''warning'', ''error'', ''none''] (jidx l ''loglevel''))]),
      field config ''dns'' validate_dns,
      field config ''fakedns'' (validate_fakedns N),
      field config ''policy'' validate_policy,
      required (\<lambda>inbounds. required (\<lambda>xs. checks
        [require (xs \<noteq> [] \<and> length xs \<le> 2), each validate_inbound xs]) (as_array inbounds))
        (map_of (jfields config) ''inbounds''),
      required (\<lambda>outbounds. required (\<lambda>xs. checks
        [require (2 \<le> length xs \<and> length xs \<le> 64), validate_outbounds N {} xs,
         require (list_ex (\<lambda>x. protocol_of x \<in> {''vless'', ''hysteria''}) xs
           \<and> list_ex (\<lambda>x. protocol_of x = ''freedom'') xs)]) (as_array outbounds))
        (map_of (jfields config) ''outbounds''),
      (let routing = jidx config ''routing''; tags = set (map tag_of (jelems (jidx config ''outbounds''))) in checks
        [xobject routing [''domainStrategy'', ''domainMatcher'', ''rules'', ''balancers''],
         field routing ''balancers'' (xone validate_balancer),
         field routing ''domainStrategy'' (\<lambda>v. require (str_in [''AsIs'', ''IPIfNonMatch'', ''IPOnDemand''] v)),
         field routing ''domainMatcher'' (\<lambda>v. require (str_in [''mph'', ''hybrid'', ''linear''] v)),
         required (\<lambda>rules. checks [require (length rules \<le> 64), each (validate_route_rule N tags) rules])
           (as_array (jidx routing ''rules''))])]"

end
