(* ===== verification/Link_Names.thy ===== *)
theory Link_Names
  imports Validate "HOL-Library.Word"
begin

text \<open>Tunnel link names (\<open>crates/daemon/src/link_names.rs\<close>): a hash of uid and profile, or a sanitized hint.\<close>

unbundle bit_operations_syntax

section \<open>Hashing and hexadecimal text\<close>

definition le_bytes32 :: "nat \<Rightarrow> nat list" where
  "le_bytes32 n = map (\<lambda>i. n div 256 ^ i mod 256) [0..<4]"

definition fnv_step :: "64 word \<Rightarrow> nat \<Rightarrow> 64 word" where
  "fnv_step hash byte = (hash XOR of_nat byte) * 0x100000001b3"

definition link_name_seed :: "nat \<Rightarrow> string \<Rightarrow> 64 word" where
  "link_name_seed uid profile_id = foldl fnv_step 0xcbf29ce484222325 (le_bytes32 uid @ map cval profile_id)"

definition hex_digit :: "nat \<Rightarrow> char" where
  "hex_digit d = char_of (if d < 10 then 48 + d else 87 + d)"

text \<open>The \<open>w\<close> low hexadecimal digits of a number, as \<open>{:0w$x}\<close> prints a number that fits.\<close>

fun hex_pad :: "nat \<Rightarrow> nat \<Rightarrow> string" where
  "hex_pad 0 n = []"
| "hex_pad (Suc w) n = hex_pad w (n div 16) @ [hex_digit (n mod 16)]"

section \<open>Slugs\<close>

text \<open>\<open>char::to_lowercase\<close>, as far as ASCII results are concerned: the Kelvin sign and the dotted capital I
  are the only other characters whose lower case contains an ASCII letter.\<close>

definition lower_cps :: "nat \<Rightarrow> nat list" where
  "lower_cps n = (if 65 \<le> n \<and> n \<le> 90 then [n + 32] else if n = 8490 then [107]
     else if n = 304 then [105, 775] else [n])"

definition slug_step :: "nat \<Rightarrow> string \<Rightarrow> nat \<Rightarrow> string" where
  "slug_step budget slug n =
     (if length slug \<ge> budget then slug
      else if n < 128 \<and> is_ascii_alphanumeric (char_of n) then slug @ [char_of n]
      else if slug = [] \<or> last slug = CHR ''-'' then slug else slug @ ''-'')"

definition trim_dashes :: "string \<Rightarrow> string" where
  "trim_dashes s = rev (dropWhile (\<lambda>c. c = CHR ''-'') (rev s))"

definition link_name_slug :: "string \<Rightarrow> nat \<Rightarrow> string option" where
  "link_name_slug hint budget =
     (let slug = trim_dashes (foldl (slug_step budget) [] (concat (map lower_cps (utf8_chars hint))))
      in if slug = [] then None else Some slug)"

definition tunnel_link_names :: "string \<Rightarrow> nat \<Rightarrow> string \<Rightarrow> string option \<Rightarrow> string \<times> string" where
  "tunnel_link_names pfx uid profile_id hint =
     (let hex_digits = 15 - length pfx;
          seed = link_name_seed uid profile_id;
          hashed = pfx @ hex_pad hex_digits (unat (seed AND (push_bit (4 * hex_digits) 1 - 1)))
      in case (case hint of None \<Rightarrow> None | Some h \<Rightarrow> link_name_slug h 15) of
           None \<Rightarrow> (hashed, hashed)
         | Some slug \<Rightarrow>
             (let bare = trim_dashes pfx in
              if slug = bare then (hashed, hashed)
              else (let verbatim = (starts_with slug pfx
                          \<or> (starts_with slug bare \<and> length slug > length bare
                             \<and> is_ascii_digit (slug ! length bare)));
                        primary = (if verbatim then take 15 slug else pfx @ take (15 - length pfx) slug);
                        short = trim_dashes (take 10 primary);
                        fallback = (if length short \<le> length pfx then hashed
                                    else short @ ''-'' @ hex_pad 4 (unat (seed AND 0xffff)))
                    in (primary, fallback))))"

section \<open>Properties\<close>

abbreviation name_char :: "char \<Rightarrow> bool" where
  "name_char c \<equiv> is_ascii_alphanumeric c \<or> c = CHR ''-''"

lemma length_hex_pad [simp]: "length (hex_pad w n) = w"
  by (induction w arbitrary: n) auto

lemma hex_digit_name: "d < 16 \<Longrightarrow> is_ascii_alphanumeric (hex_digit d)"
  by (simp add: hex_digit_def ascii_defs)

lemma hex_pad_name: "list_all is_ascii_alphanumeric (hex_pad w n)"
  by (induction w arbitrary: n) (auto simp: hex_digit_name)

lemma alnum_not_dash [simp]: "is_ascii_alphanumeric c \<Longrightarrow> c \<noteq> CHR ''-''"
  by (auto simp: ascii_defs)

lemma slug_step_name:
  "list_all name_char s \<and> length s \<le> b \<and> (s \<noteq> [] \<longrightarrow> hd s \<noteq> CHR ''-'') \<Longrightarrow>
   list_all name_char (slug_step b s n) \<and> length (slug_step b s n) \<le> b
     \<and> (slug_step b s n \<noteq> [] \<longrightarrow> hd (slug_step b s n) \<noteq> CHR ''-'')"
  by (cases s) (auto simp: slug_step_def)

lemma trim_dashes_sub: "set (trim_dashes s) \<subseteq> set s" "length (trim_dashes s) \<le> length s"
  "prefix (trim_dashes s) s"
proof -
  show "set (trim_dashes s) \<subseteq> set s" using set_dropWhileD by (fastforce simp: trim_dashes_def)
  show "length (trim_dashes s) \<le> length s" using length_dropWhile_le [of _ "rev s"] by (simp add: trim_dashes_def)
  show "prefix (trim_dashes s) s"
    using suffix_dropWhile [of "\<lambda>c. c = CHR ''-''" "rev s"] by (simp add: trim_dashes_def suffix_to_prefix)
qed

lemma slug_name:
  assumes "link_name_slug hint b = Some slug"
  shows "slug \<noteq> [] \<and> list_all name_char slug \<and> length slug \<le> b \<and> hd slug \<noteq> CHR ''-''"
proof -
  let ?raw = "foldl (slug_step b) [] (concat (map lower_cps (utf8_chars hint)))"
  have inv: "list_all name_char (foldl (slug_step b) s ns) \<and> length (foldl (slug_step b) s ns) \<le> b
      \<and> (foldl (slug_step b) s ns \<noteq> [] \<longrightarrow> hd (foldl (slug_step b) s ns) \<noteq> CHR ''-'')"
    if "list_all name_char s \<and> length s \<le> b \<and> (s \<noteq> [] \<longrightarrow> hd s \<noteq> CHR ''-'')" for s ns
    using that by (induction ns arbitrary: s) (use slug_step_name in auto)
  have s: "slug = trim_dashes ?raw" "slug \<noteq> []" using assms by (auto simp: link_name_slug_def Let_def split: if_splits)
  obtain rest where r: "?raw = slug @ rest" using trim_dashes_sub(3) [of ?raw] s(1) by (auto simp: prefix_def)
  with s(2) inv [of "[]" "concat (map lower_cps (utf8_chars hint))"] show ?thesis by auto
qed

definition good_name :: "string \<Rightarrow> bool" where
  "good_name s \<longleftrightarrow> s \<noteq> [] \<and> length s \<le> 15 \<and> hd s \<noteq> CHR ''-'' \<and> list_all name_char s"

lemma good_name_valid: "good_name s \<Longrightarrow> validate_iface_name s"
  by (cases s) (auto simp: good_name_def validate_iface_name_def starts_with_def list_all_iff)

lemma good_hashed:
  "p \<in> {''wg-'', ''xray-'', ''ovpn-''} \<Longrightarrow> good_name (p @ hex_pad (15 - length p) n)"
  using hex_pad_name [of "15 - length p" n] by (auto simp: good_name_def list_all_iff ascii_defs)

lemma good_prefixed:
  "p \<in> {''wg-'', ''xray-'', ''ovpn-''} \<Longrightarrow> list_all name_char s \<Longrightarrow> good_name (p @ take (15 - length p) s)"
  by (auto simp: good_name_def list_all_iff ascii_defs dest: in_set_takeD)

lemma good_fallback:
  assumes "good_name primary" and "short = trim_dashes (take 10 primary)" and "short \<noteq> []"
  shows "good_name (short @ ''-'' @ hex_pad 4 n)"
proof -
  obtain rest where "take 10 primary = short @ rest"
    using trim_dashes_sub(3) [of "take 10 primary"] assms(2) by (auto simp: prefix_def)
  then have "primary = short @ rest @ drop 10 primary" "length short \<le> 10"
    by (metis append.assoc append_take_drop_id, metis length_take min.cobounded2 prefixI prefix_length_le order_trans)
  moreover from this have "hd short = hd primary" "set short \<subseteq> set primary"
    using assms(3) by (metis hd_append2, metis set_append Un_upper1)
  ultimately show ?thesis using assms(1,3) hex_pad_name [of 4 n]
    by (auto simp: good_name_def list_all_iff)
qed

text \<open>every tunnel link name is acceptable to the kernel and to the daemon's own validation, whatever the
  hint: for each of the daemon's prefixes both the name and the fallback have at most 15 bytes, consist
  of ASCII letters, digits and dashes, and do not start with a dash.\<close>

theorem tunnel_link_names_valid:
  assumes "p \<in> {''wg-'', ''xray-'', ''ovpn-''}" and "tunnel_link_names p uid profile_id hint = (name, fallback)"
  shows "validate_iface_name name \<and> validate_iface_name fallback"
proof -
  define hashed where "hashed = p @ hex_pad (15 - length p)
    (unat (link_name_seed uid profile_id AND (push_bit (4 * (15 - length p)) 1 - 1)))"
  have h: "good_name hashed" unfolding hashed_def by (rule good_hashed [OF assms(1)])
  have "good_name name \<and> good_name fallback"
  proof (cases "case hint of None \<Rightarrow> None | Some h \<Rightarrow> link_name_slug h 15")
    case None
    then show ?thesis using assms(2) h by (auto simp: tunnel_link_names_def Let_def hashed_def)
  next
    case (Some slug)
    then obtain t where "link_name_slug t 15 = Some slug" by (cases hint) auto
    from slug_name [OF this] have slug: "good_name slug" by (simp add: good_name_def)
    show ?thesis
    proof (cases "slug = trim_dashes p")
      case True
      then show ?thesis using assms(2) h Some by (auto simp: tunnel_link_names_def Let_def hashed_def)
    next
      case False
      obtain verbatim tail where eq: "tunnel_link_names p uid profile_id hint =
          (let primary = (if verbatim then take 15 slug else p @ take (15 - length p) slug);
               short = trim_dashes (take 10 primary)
           in (primary, if length short \<le> length p then hashed else short @ ''-'' @ hex_pad 4 tail))"
        using Some False unfolding tunnel_link_names_def hashed_def Let_def by (simp only: option.case if_False)
      define primary where "primary = (if verbatim then take 15 slug else p @ take (15 - length p) slug)"
      have "(primary, if length (trim_dashes (take 10 primary)) \<le> length p then hashed
              else trim_dashes (take 10 primary) @ ''-'' @ hex_pad 4 tail) = (name, fallback)"
        using assms(2) unfolding eq Let_def primary_def .
      then have name: "name = primary"
        and fb: "fallback = (if length (trim_dashes (take 10 primary)) \<le> length p then hashed
              else trim_dashes (take 10 primary) @ ''-'' @ hex_pad 4 tail)" by blast+
      have n: "name = take 15 slug \<or> name = p @ take (15 - length p) slug"
        unfolding name primary_def by simp
      have f: "fallback = hashed \<or> (trim_dashes (take 10 name) \<noteq> []
          \<and> fallback = trim_dashes (take 10 name) @ ''-'' @ hex_pad 4 tail)"
      proof (cases "length (trim_dashes (take 10 primary)) \<le> length p")
        case False
        then have "trim_dashes (take 10 name) \<noteq> []" unfolding name by force
        with False show ?thesis unfolding name fb by simp
      qed (simp add: fb)
      have chars: "list_all name_char slug" and "take 15 slug = slug" using slug by (simp_all add: good_name_def)
      then have gn: "good_name name" using n slug good_prefixed [OF assms(1) chars] by metis
      from f show ?thesis
      proof
        assume "fallback = hashed"
        with gn h show ?thesis by blast
      next
        assume "trim_dashes (take 10 name) \<noteq> [] \<and> fallback = trim_dashes (take 10 name) @ ''-'' @ hex_pad 4 tail"
        then show ?thesis using gn good_fallback [OF gn refl] by metis
      qed
    qed
  qed
  then show ?thesis using good_name_valid by blast
qed

theorem tunnel_link_names_valid_witness:
  "let out = tunnel_link_names ''wg-'' 1000 ''home'' (Some ''KZN2 uplink'')
   in validate_iface_name (fst out) \<and> validate_iface_name (snd out)
      \<and> link_name_slug ''KZN2 uplink'' 15 = Some ''kzn2-uplink''"
proof -
  have "link_name_slug ''KZN2 uplink'' 15 = Some ''kzn2-uplink''" by code_simp
  moreover obtain n b where "tunnel_link_names ''wg-'' 1000 ''home'' (Some ''KZN2 uplink'') = (n, b)" by (rule prod.exhaust)
  ultimately show ?thesis using tunnel_link_names_valid [of "''wg-''" 1000 "''home''" "Some ''KZN2 uplink''" n b]
    unfolding Let_def by simp
qed

end
