(* ===== verification/Xray_Plan.thy ===== *)
theory Xray_Plan
  imports Xray_Validate Link_Names
begin

text \<open>
  From a client's Xray request to the plan the daemon runs (\<open>crates/daemon/src/xray.rs\<close>,
  \<open>crates/daemon/src/proxy_exits.rs\<close>): request checks, named exits, failover candidates, and the
  rewriting of the configuration.  JSON text, URL parsing and route aggregation are parameters.
\<close>

section \<open>Parameters\<close>

record url =
  url_scheme :: string
  url_host :: "string option"
  url_username :: string
  url_password :: "string option"
  url_fragment :: "string option"
  url_port :: "nat option"
  url_text :: string

record xray_libs =
  xl_net :: ipnet_crate
  xl_parse_json :: "string \<Rightarrow> json option"
  xl_print_json :: "json \<Rightarrow> string option"
  xl_parse_url :: "string \<Rightarrow> url option"
  xl_full_coverage :: "ip_net list \<Rightarrow> bool \<times> bool"

datatype xray_error = Rejected error_kind | Panicked

type_synonym 'a xray = "('a, xray_error) result"

abbreviation reject :: "'a xray" where "reject \<equiv> Err (Rejected InvalidInput)"

definition guard :: "bool \<Rightarrow> 'a xray \<Rightarrow> 'a xray" where
  "guard b k = (if b then k else reject)"

definition after :: "verdict \<Rightarrow> 'a xray \<Rightarrow> 'a xray" where
  "after v k = (case v of Pass \<Rightarrow> k | Reject \<Rightarrow> reject | Panic \<Rightarrow> Err Panicked)"

definition andthen :: "('b, 'e) result \<Rightarrow> ('b \<Rightarrow> ('a, 'e) result) \<Rightarrow> ('a, 'e) result" where
  "andthen r k = (case r of Ok x \<Rightarrow> k x | Err e \<Rightarrow> Err e)"

section \<open>Probe URLs and service checks\<close>

definition checked_probe_url :: "xray_libs \<Rightarrow> string \<Rightarrow> string xray" where
  "checked_probe_url L text =
     (if length text > 512 \<or> has_control text then reject
      else case xl_parse_url L text of
        None \<Rightarrow> reject
      | Some u \<Rightarrow> guard (url_scheme u = ''https'' \<and> url_host u \<noteq> None \<and> url_username u = []
                    \<and> url_password u = None \<and> url_fragment u = None) (Ok (url_text u)))"

record service_check =
  sc_id :: string
  sc_name :: string
  sc_url :: string
  sc_endpoint_key :: string
  sc_background :: bool

definition MAX_SERVICE_CHECKS :: nat where "MAX_SERVICE_CHECKS = 16"
definition MAX_URL_BYTES :: nat where "MAX_URL_BYTES = 2048"

fun split_scheme :: "string \<Rightarrow> string option" where
  "split_scheme [] = None"
| "split_scheme (c # s) = (case strip_prefix ''://'' (c # s) of Some r \<Rightarrow> Some r | None \<Rightarrow> split_scheme s)"

definition service_url :: "xray_libs \<Rightarrow> string \<Rightarrow> bool" where
  "service_url L value \<longleftrightarrow>
     value \<noteq> [] \<and> length value \<le> MAX_URL_BYTES
     \<and> \<not> list_ex (\<lambda>n. is_control_cp n \<or> is_whitespace_cp n) (utf8_chars value)
     \<and> char_of (92 :: nat) \<notin> set value
     \<and> (case split_scheme value of None \<Rightarrow> False
        | Some rest \<Rightarrow>
            (let authority = takeWhile (\<lambda>c. c \<notin> set ''/?#'') rest in
             case xl_parse_url L value of None \<Rightarrow> False
             | Some u \<Rightarrow> url_scheme u = ''https'' \<and> authority \<noteq> [] \<and> CHR ''@'' \<notin> set authority
                 \<and> opt_or [] (url_host u) \<noteq> [] \<and> url_username u = [] \<and> url_password u = None
                 \<and> url_fragment u = None \<and> opt_or 0 (url_port u) \<noteq> 0))"

fun service_checks_from :: "xray_libs \<Rightarrow> string set \<Rightarrow> service_check list \<Rightarrow> bool" where
  "service_checks_from L ids [] = True"
| "service_checks_from L ids (c # cs) \<longleftrightarrow>
     sc_id c \<noteq> [] \<and> length (sc_id c) \<le> 64
     \<and> list_all (\<lambda>b. is_ascii_alphanumeric b \<or> b \<in> set ''-_'') (sc_id c) \<and> sc_id c \<notin> ids
     \<and> \<not> is_blank (sc_name c) \<and> length (utf8_chars (sc_name c)) \<le> 80 \<and> \<not> has_control (sc_name c)
     \<and> service_url L (sc_url c) \<and> valid_endpoint_key (sc_endpoint_key c)
     \<and> service_checks_from L (insert (sc_id c) ids) cs"

definition validate_service_checks :: "xray_libs \<Rightarrow> service_check list \<Rightarrow> bool" where
  "validate_service_checks L cs \<longleftrightarrow> length cs \<le> MAX_SERVICE_CHECKS \<and> service_checks_from L {} cs"

section \<open>Named exits and failover candidates\<close>

definition pin_tag :: "string \<Rightarrow> string" where "pin_tag key = ''pin-'' @ key"
definition node_tag :: "string \<Rightarrow> string" where "node_tag key = ''node-'' @ key"

abbreviation unchained :: "json \<Rightarrow> bool" where
  "unchained outbound \<equiv> jidx outbound ''proxySettings'' = JNull
     \<and> jidx (jidx (jidx outbound ''streamSettings'') ''sockopt'') ''dialerProxy'' = JNull"

definition exit_outbounds_ok :: "json list \<Rightarrow> named_proxy_exit \<Rightarrow> bool" where
  "exit_outbounds_ok outbounds exit \<longleftrightarrow>
     list_all (\<lambda>key. case List.find (\<lambda>x. jidx x ''tag'' = JStr (pin_tag key)) outbounds of
         None \<Rightarrow> False
       | Some x \<Rightarrow> str_in [''vless'', ''hysteria'', ''blackhole''] (jidx x ''protocol'') \<and> unchained x)
       (endpoint_keys (ne_target exit))
     \<and> (ne_target exit = Direct \<longrightarrow>
          (case List.find (\<lambda>x. jidx x ''tag'' = JStr ''direct'') outbounds of
             None \<Rightarrow> False
           | Some x \<Rightarrow> jidx x ''protocol'' = JStr ''freedom'' \<and> unchained x))"

definition bindings :: "named_proxy_exit list \<Rightarrow> json \<Rightarrow> proxy_exit_binding list xray" where
  "bindings exits config =
     (case validate_proxy_exits exits of
        Err e \<Rightarrow> Err (Rejected e)
      | Ok _ \<Rightarrow>
          (case as_array (jidx config ''outbounds'') of
             None \<Rightarrow> reject
           | Some outbounds \<Rightarrow>
               if length (filter (\<lambda>x. case as_str (jidx x ''tag'') of None \<Rightarrow> False | Some t \<Rightarrow> starts_with t ''pin-'')
                    outbounds) > 33 then reject
               else guard (list_all (exit_outbounds_ok outbounds) exits)
                 (Ok (map (\<lambda>e. \<lparr> pb_name = ne_name e, pb_target = ne_target e \<rparr>) exits))))"

definition validate_failover :: "xray_libs \<Rightarrow> failover_params \<Rightarrow> json \<Rightarrow> failover_params xray" where
  "validate_failover L f config =
     (let nodes = fp_nodes f in
      guard (nodes \<noteq> [] \<and> length nodes \<le> MAX_FAILOVER_NODES) (
      guard (list_all valid_node_key nodes \<and> distinct nodes) (
      guard (valid_node_key (fp_primary_key f) \<and> fp_primary_key f = hd nodes) (
      case as_array (jidx config ''outbounds'') of
        None \<Rightarrow> reject
      | Some outbounds \<Rightarrow>
          (let tags = List.map_filter (\<lambda>x. as_str (jidx x ''tag'')) outbounds in
           guard (list_all (\<lambda>key. node_tag key \<in> set tags) nodes) (
           guard (list_all (\<lambda>tag. case strip_prefix ''node-'' tag of None \<Rightarrow> True | Some key \<Rightarrow> key \<in> set nodes) tags) (
           andthen (checked_probe_url L (trim (fp_probe_url f))) (\<lambda>probe.
           guard (1 \<le> fp_interval_secs f \<and> fp_interval_secs f \<le> 300) (
           Ok (f\<lparr>fp_probe_url := probe\<rparr>))))))))))"

section \<open>Rewriting the configuration\<close>

abbreviation jport :: "nat \<Rightarrow> json" where "jport p \<equiv> JInt (int p)"

definition socks_inbound :: "string \<Rightarrow> nat \<Rightarrow> json" where
  "socks_inbound tag port = JObj [(''tag'', JStr tag), (''protocol'', JStr ''socks''),
     (''listen'', JStr ''127.0.0.1''), (''port'', jport port)]"

definition tun_inbound :: "string \<Rightarrow> nat \<Rightarrow> string list \<Rightarrow> json" where
  "tun_inbound name mtu dest_override = JObj [(''tag'', JStr ''tun-in''), (''protocol'', JStr ''tun''),
     (''settings'', JObj [(''name'', JStr name), (''mtu'', JInt (int mtu))]),
     (''sniffing'', JObj [(''enabled'', JBool True), (''destOverride'', JArr (map JStr dest_override))])]"

definition api_inbound :: "nat \<Rightarrow> json" where
  "api_inbound port = JObj [(''tag'', JStr ''api-in''), (''protocol'', JStr ''dokodemo-door''),
     (''listen'', JStr ''127.0.0.1''), (''port'', jport port),
     (''settings'', JObj [(''address'', JStr ''127.0.0.1'')])]"

definition tag_rule :: "string \<Rightarrow> string \<Rightarrow> json" where
  "tag_rule inbound outbound = JObj [(''type'', JStr ''field''), (''inboundTag'', JArr [JStr inbound]),
     (''outboundTag'', JStr outbound)]"

definition blackhole :: "string \<Rightarrow> json" where
  "blackhole tag = JObj [(''tag'', JStr tag), (''protocol'', JStr ''blackhole'')]"

definition catch_all :: json where
  "catch_all = JObj [(''type'', JStr ''field''), (''network'', JStr ''tcp,udp''), (''balancerTag'', JStr FAILOVER_BALANCER)]"

definition exit_inbounds :: "nat \<Rightarrow> nat \<times> proxy_exit_binding \<Rightarrow> json list" where
  "exit_inbounds mark ie =
     (let (i, exit) = ie; (socks, http) = exit_ports mark i;
          inbound = (\<lambda>tag protocol port. JObj [(''tag'', JStr tag), (''listen'', JStr ''127.0.0.1''),
            (''protocol'', JStr protocol), (''port'', jport port),
            (''settings'', JObj (if protocol = ''socks'' then [(''udp'', JBool False)] else [])),
            (''sniffing'', JObj [(''enabled'', JBool True), (''destOverride'', JArr [JStr ''http'', JStr ''tls'']),
               (''routeOnly'', JBool True)])])
      in [inbound (''proxy-socks-'' @ pb_name exit) ''socks'' socks,
          inbound (''proxy-http-'' @ pb_name exit) ''http'' http])"

definition exit_rule :: "proxy_exit_binding \<Rightarrow> json option" where
  "exit_rule exit =
     (let rule = (\<lambda>key tag. JObj [(''type'', JStr ''field''),
            (''inboundTag'', JArr [JStr (''proxy-socks-'' @ pb_name exit), JStr (''proxy-http-'' @ pb_name exit)]),
            (key, JStr tag)])
      in case pb_target exit of
           Rules \<Rightarrow> None
         | Node key \<Rightarrow> Some (rule ''outboundTag'' (pin_tag key))
         | Direct \<Rightarrow> Some (rule ''outboundTag'' ''direct'')
         | Pool _ \<Rightarrow> Some (rule ''balancerTag'' (balancer_tag (pb_name exit))))"

definition exit_balancer :: "proxy_exit_binding \<Rightarrow> json option" where
  "exit_balancer exit =
     (case pb_target exit of
        Pool _ \<Rightarrow> Some (JObj [(''tag'', JStr (balancer_tag (pb_name exit))),
                              (''selector'', JArr [JStr UNAVAILABLE_TAG])])
      | _ \<Rightarrow> None)"

definition inject :: "json \<Rightarrow> proxy_exit_binding list \<Rightarrow> nat \<Rightarrow> json xray" where
  "inject config exits mark =
     (if exits = [] then Ok config
      else case as_array (jidx config ''inbounds'') of
        None \<Rightarrow> reject
      | Some inbounds \<Rightarrow>
          (let config = jset ''inbounds'' (JArr (inbounds @ concat (map (exit_inbounds mark) (List.enumerate 0 exits)))) config;
               forced = List.map_filter exit_rule exits;
               balancers = List.map_filter exit_balancer exits
           in case as_array (jidx (jidx config ''routing'') ''rules'') of
                None \<Rightarrow> reject
              | Some rules \<Rightarrow>
                  (let routing = jset ''rules'' (JArr (forced @ rules)) (jidx config ''routing'');
                       config = jset ''routing'' routing config
                   in if balancers = [] then Ok config
                      else case as_array (opt_or (JArr []) (jget routing ''balancers'')) of
                        None \<Rightarrow> reject
                      | Some old \<Rightarrow>
                          (let config = jset ''routing'' (jset ''balancers'' (JArr (old @ balancers)) routing) config
                           in case as_array (jidx config ''outbounds'') of
                                None \<Rightarrow> reject
                              | Some outbounds \<Rightarrow>
                                  Ok (if list_ex (\<lambda>x. jidx x ''tag'' = JStr UNAVAILABLE_TAG) outbounds then config
                                      else jset ''outbounds'' (JArr (outbounds @ [blackhole UNAVAILABLE_TAG])) config)))))"

text \<open>The daemon's mark on an outbound that dials.\<close>

definition mark_outbound :: "nat \<Rightarrow> json \<Rightarrow> json xray" where
  "mark_outbound mark outbound =
     (if jidx outbound ''protocol'' = JStr ''blackhole'' then Ok outbound
      else (let stream = jidx outbound ''streamSettings'';
                stream = (if stream = JNull then JObj [] else stream)
            in case stream of
                 JObj _ \<Rightarrow>
                   (case opt_or (JObj []) (jget stream ''sockopt'') of
                      JObj so \<Rightarrow> Ok (jset ''streamSettings'' (jset ''sockopt'' (jset ''mark'' (JInt (int mark)) (JObj so)) stream) outbound)
                    | _ \<Rightarrow> reject)
               | _ \<Rightarrow> reject))"

fun mark_all :: "nat \<Rightarrow> json list \<Rightarrow> json list xray" where
  "mark_all mark [] = Ok []"
| "mark_all mark (x # xs) = andthen (mark_outbound mark x) (\<lambda>y. andthen (mark_all mark xs) (\<lambda>ys. Ok (y # ys)))"

section \<open>The plan\<close>

record xray_params =
  xc_profile_id :: string
  xc_config :: string
  xc_routes :: "policy_route list"
  xc_dns_servers :: "ip_addr list"
  xc_dns_domains :: "string list"
  xc_dns_bypass :: "string list"
  xc_interface_name :: "string option"
  xc_geo_assets :: "(string option \<times> string option) option"
  xc_failover :: "failover_params option"
  xc_reject_quic :: bool
  xc_probe_url :: "string option"
  xc_mtu :: "nat option"
  xc_service_checks :: "service_check list"
  xc_proxy_exits :: "named_proxy_exit list"

record xray_plan =
  xn_profile_id :: string
  xn_name :: string
  xn_config :: string
  xn_routes :: "policy_route list"
  xn_address :: ip_net
  xn_mtu :: nat
  xn_dns_servers :: "ip_addr list"
  xn_dns_domains :: "string list"
  xn_dns_bypass :: "string list"
  xn_full_ipv4 :: bool
  xn_full_ipv6 :: bool
  xn_mark :: nat
  xn_api_port :: nat
  xn_server_hosts :: "string list"
  xn_unpinned_hosts :: "string list"
  xn_server_pinned :: bool
  xn_failover :: "failover_params option"
  xn_reject_quic :: bool
  xn_probe_url :: "string option"
  xn_pinned_keys :: "string list"
  xn_service_checks :: "service_check list"
  xn_proxy_exits :: "proxy_exit_binding list"
  xn_geo_assets :: "(string option \<times> string option) option"

definition MAX_XRAY_CONFIG_BYTES :: nat where "MAX_XRAY_CONFIG_BYTES = 512 * 1024"

definition bypass_host_ok :: "string \<Rightarrow> bool" where
  "bypass_host_ok host \<longleftrightarrow> host \<noteq> [] \<and> length host \<le> 253
     \<and> \<not> list_ex (\<lambda>n. is_control_cp n \<or> is_whitespace_cp n \<or> n \<in> {47, 64, 37}) (utf8_chars host)"

text \<open>The checks of the request before its configuration is parsed.\<close>

definition full_family :: "ip_net list \<Rightarrow> ip_net \<Rightarrow> ip_net \<Rightarrow> ip_net \<Rightarrow> bool" where
  "full_family seen whole low high \<longleftrightarrow> whole \<in> set seen \<or> (low \<in> set seen \<and> high \<in> set seen)"

definition full_v4 :: "ip_net list \<Rightarrow> bool" where
  "full_v4 seen = full_family seen (IpNet (V4 0) 0) (IpNet (V4 0) 1) (IpNet (V4 (2 ^ 31)) 1)"

definition full_v6 :: "ip_net list \<Rightarrow> bool" where
  "full_v6 seen = full_family seen (IpNet (V6 0) 0) (IpNet (V6 0) 1) (IpNet (V6 (2 ^ 127)) 1)"

definition xray_request_ok :: "xray_libs \<Rightarrow> xray_params \<Rightarrow> nat \<Rightarrow> bool" where
  "xray_request_ok L prm mark \<longleftrightarrow>
     (let destinations = map pr_destination (xc_routes prm);
          (covers4, covers6) = xl_full_coverage L destinations
      in list_all (\<lambda>r. pr_via r = None \<and> net_trunc (xl_net L) (pr_destination r) = pr_destination r) (xc_routes prm)
       \<and> distinct destinations
       \<and> list_all (\<lambda>ip. \<not> is_unspecified ip \<and> \<not> is_multicast ip) (xc_dns_servers prm)
       \<and> (xc_dns_domains prm \<noteq> [] \<longrightarrow> xc_dns_servers prm \<noteq> [])
       \<and> list_all (\<lambda>d. d \<noteq> [] \<and> length d \<le> 253 \<and> \<not> has_control d) (xc_dns_domains prm)
       \<and> length (xc_dns_bypass prm) \<le> 16 \<and> list_all bypass_host_ok (xc_dns_bypass prm)
       \<and> (covers4 \<longrightarrow> full_v4 destinations) \<and> (covers6 \<longrightarrow> full_v6 destinations)
       \<and> list_all (\<lambda>server. list_ex (\<lambda>d. net_has_addr (xl_net L) d server) destinations) (xc_dns_servers prm))"

definition outbound_host :: "json \<Rightarrow> string option" where
  "outbound_host x =
     (if jidx x ''protocol'' = JStr ''vless''
      then as_str (jidx (jnth (jidx (jidx x ''settings'') ''vnext'') 0) ''address'')
      else if jidx x ''protocol'' = JStr ''hysteria'' then as_str (jidx (jidx x ''settings'') ''address'')
      else None)"

definition pinned_key :: "json \<Rightarrow> string option" where
  "pinned_key x =
     (if str_in [''vless'', ''hysteria''] (jidx x ''protocol'')
      then (case as_str (jidx x ''tag'') of None \<Rightarrow> None | Some t \<Rightarrow> strip_prefix ''pin-'' t) else None)"

text \<open>An address in \<open>198.18.0.0/15\<close> from the low bits of the hash.\<close>

definition tun_address :: "64 word \<Rightarrow> ip_net" where
  "tun_address hash = IpNet (V4 (0xC6120000 + (ucast hash AND 0x1ffff))) 32"

text \<open>Everything up to the named exits: inbounds, statistics, the interface for control, rules and the
  blackhole.\<close>

definition base_config ::
    "string \<Rightarrow> nat \<Rightarrow> nat \<Rightarrow> failover_params option \<Rightarrow> string list \<Rightarrow> proxy_exit_binding list \<Rightarrow> json \<Rightarrow> json xray" where
  "base_config name mtu mark failover pinned exits config =
     (let fake = (case as_array (jidx config ''fakedns'') of None \<Rightarrow> False | Some pools \<Rightarrow> pools \<noteq> []);
          nodes = (case failover of None \<Rightarrow> [] | Some f \<Rightarrow> fp_nodes f);
          inbounds = [tun_inbound name mtu ([''http'', ''tls'', ''quic''] @ (if fake then [''fakedns''] else [])),
                      api_inbound (xray_api_port mark)]
            @ map (\<lambda>(i, key). socks_inbound (''probe-'' @ key) (xray_probe_port mark i)) (List.enumerate 0 nodes)
            @ map (\<lambda>(i, key). socks_inbound (''pin-probe-'' @ key) (xray_pin_probe_port mark i)) (List.enumerate 0 pinned);
          config = jset ''inbounds'' (JArr inbounds) config;
          config = jset ''log'' (JObj [(''loglevel'', JStr ''warning'')]) config;
          config = jset ''stats'' (JObj []) config;
          policy = (if jidx config ''policy'' = JNull then JObj [] else jidx config ''policy'');
          config = jset ''policy'' (jset ''system'' (JObj [(''statsInboundUplink'', JBool True),
            (''statsInboundDownlink'', JBool True), (''statsOutboundUplink'', JBool True),
            (''statsOutboundDownlink'', JBool True)]) policy) config;
          pooled = list_ex (\<lambda>e. case pb_target e of Pool _ \<Rightarrow> True | _ \<Rightarrow> False) exits;
          services = (if failover \<noteq> None \<or> pooled then [''StatsService'', ''RoutingService''] else [''StatsService'']);
          config = jset ''api'' (JObj [(''tag'', JStr ''api''), (''services'', JArr (map JStr services))]) config
      in case as_array (jidx (jidx config ''routing'') ''rules'') of
           None \<Rightarrow> reject
         | Some rules \<Rightarrow>
             (let rules = [tag_rule ''api-in'' ''api'']
                    @ map (\<lambda>key. tag_rule (''probe-'' @ key) (node_tag key)) nodes
                    @ map (\<lambda>key. tag_rule (''pin-probe-'' @ key) (pin_tag key)) pinned
                    @ rules @ (if failover \<noteq> None then [catch_all] else []);
                  config = jset ''routing'' (jset ''rules'' (JArr rules) (jidx config ''routing'')) config
              in case as_array (jidx config ''outbounds'') of
                   None \<Rightarrow> reject
                 | Some outbounds \<Rightarrow>
                     Ok (if failover \<noteq> None
                         then jset ''outbounds'' (JArr (outbounds @ [blackhole UNAVAILABLE_TAG])) config else config)))"

definition rewrite_config ::
    "string \<Rightarrow> nat \<Rightarrow> nat \<Rightarrow> failover_params option \<Rightarrow> string list \<Rightarrow> proxy_exit_binding list \<Rightarrow> json \<Rightarrow> json xray" where
  "rewrite_config name mtu mark failover pinned exits config =
     andthen (base_config name mtu mark failover pinned exits config) (\<lambda>config.
     andthen (inject config exits mark) (\<lambda>config.
     case as_array (jidx config ''outbounds'') of
       None \<Rightarrow> reject
     | Some outbounds \<Rightarrow>
         andthen (mark_all mark outbounds) (\<lambda>outbounds. Ok (jset ''outbounds'' (JArr outbounds) config))))"

definition prepare_xray :: "xray_libs \<Rightarrow> nat \<Rightarrow> xray_params \<Rightarrow> nat \<Rightarrow> xray_plan xray" where
  "prepare_xray L uid prm mark =
     guard (validate_owner (''xray:'' @ xc_profile_id prm)) (
     guard (mark \<noteq> 0 \<and> length (xc_config prm) \<le> MAX_XRAY_CONFIG_BYTES \<and> length (xc_routes prm) \<le> 64
            \<and> length (xc_dns_servers prm) \<le> 8 \<and> length (xc_dns_domains prm) \<le> 16) (
     if \<not> validate_service_checks L (xc_service_checks prm) then Err (Rejected InvalidData)
     else guard (xray_request_ok L prm mark) (
     case xl_parse_json L (xc_config prm) of
       None \<Rightarrow> reject
     | Some config \<Rightarrow>
         after (validate_generated (xl_net L) config) (
         andthen (bindings (xc_proxy_exits prm) config) (\<lambda>exits.
         andthen (case xc_failover prm of None \<Rightarrow> Ok None
              | Some f \<Rightarrow> map_result Some (validate_failover L f config)) (\<lambda>failover.
         let hosts = foldl push_unique [] (List.map_filter outbound_host (jelems (jidx config ''outbounds'')));
             name = fst (tunnel_link_names ''xray-'' uid (xc_profile_id prm) (xc_interface_name prm));
             mtu = opt_or 1500 (xc_mtu prm)
         in guard (1280 \<le> mtu \<and> mtu \<le> 9000) (
            andthen (case xc_probe_url prm of None \<Rightarrow> Ok None
                 | Some t \<Rightarrow> map_result Some (checked_probe_url L t)) (\<lambda>probe_url.
            guard (\<not> (list_ex (\<lambda>e. case pb_target e of Pool _ \<Rightarrow> True | _ \<Rightarrow> False) exits
                      \<and> probe_url = None \<and> failover = None)) (
            let pinned = List.map_filter pinned_key (jelems (jidx config ''outbounds''))
            in guard (length pinned \<le> 33) (
               andthen (rewrite_config name mtu mark failover pinned exits config) (\<lambda>config.
               case xl_print_json L config of
                 None \<Rightarrow> reject
               | Some text \<Rightarrow> Ok \<lparr> xn_profile_id = xc_profile_id prm, xn_name = name, xn_config = text,
                   xn_routes = xc_routes prm, xn_address = tun_address (link_name_seed uid (xc_profile_id prm)),
                   xn_mtu = mtu, xn_dns_servers = xc_dns_servers prm, xn_dns_domains = xc_dns_domains prm,
                   xn_dns_bypass = xc_dns_bypass prm,
                   xn_full_ipv4 = full_v4 (map pr_destination (xc_routes prm)),
                   xn_full_ipv6 = full_v6 (map pr_destination (xc_routes prm)),
                   xn_mark = mark, xn_api_port = xray_api_port mark, xn_server_hosts = hosts,
                   xn_unpinned_hosts = [], xn_server_pinned = False, xn_failover = failover,
                   xn_reject_quic = xc_reject_quic prm, xn_probe_url = probe_url, xn_pinned_keys = pinned,
                   xn_service_checks = xc_service_checks prm, xn_proxy_exits = exits,
                   xn_geo_assets = xc_geo_assets prm \<rparr>)))))))))))"

definition dns_bypass_addrs :: "ip_addr list \<Rightarrow> bool \<Rightarrow> bool \<Rightarrow> ip_addr list" where
  "dns_bypass_addrs servers full4 full6 = filter (\<lambda>ip. if is_ipv4 ip then full4 else full6) servers"

definition dns_server_bypass :: "xray_plan \<Rightarrow> ip_addr list" where
  "dns_server_bypass p = (if xn_server_pinned p then []
     else dns_bypass_addrs (xn_dns_servers p) (xn_full_ipv4 p) (xn_full_ipv6 p))"

end
