(* ===== verification/Xray_Pin.thy ===== *)
theory Xray_Pin
  imports Xray_Plan
begin

text \<open>
  Dialling the proxy servers by address (\<open>pin_server_addresses\<close> of \<open>crates/daemon/src/xray.rs\<close>), with the text
  of addresses as \<open>IpAddr::to_string\<close> writes it and the mutable indexing of a \<open>Value\<close>, which inserts a
  null for a key that is missing.
\<close>

section \<open>Text of addresses\<close>

fun nat_text :: "nat \<Rightarrow> nat \<Rightarrow> string" where
  "nat_text radix n =
     (if radix < 2 \<or> n < radix then [Link_Names.hex_digit n] else nat_text radix (n div radix) @ [Link_Names.hex_digit (n mod radix)])"

declare nat_text.simps [simp del]

definition ipv4_text :: "nat \<Rightarrow> string" where
  "ipv4_text a = nat_text 10 (a div 2 ^ 24 mod 256) @ ''.'' @ nat_text 10 (a div 2 ^ 16 mod 256) @ ''.''
     @ nat_text 10 (a div 2 ^ 8 mod 256) @ ''.'' @ nat_text 10 (a mod 256)"

definition segments :: "nat \<Rightarrow> nat list" where
  "segments a = map (\<lambda>i. a div 2 ^ (16 * (7 - i)) mod 65536) [0..<8]"

text \<open>The first longest run of zero segments, as start and length.\<close>

fun zero_span :: "nat \<Rightarrow> nat \<times> nat \<Rightarrow> nat \<times> nat \<Rightarrow> nat list \<Rightarrow> nat \<times> nat" where
  "zero_span i current longest [] = longest"
| "zero_span i current longest (s # ss) =
     (if s = 0
      then (let current = (if snd current = 0 then i else fst current, Suc (snd current))
            in zero_span (Suc i) current (if snd current > snd longest then current else longest) ss)
      else zero_span (Suc i) (0, 0) longest ss)"

fun colon_join :: "nat list \<Rightarrow> string" where
  "colon_join [] = []"
| "colon_join [s] = nat_text 16 s"
| "colon_join (s # ss) = nat_text 16 s @ '':'' @ colon_join ss"

definition ipv6_text :: "nat \<Rightarrow> string" where
  "ipv6_text a =
     (let ss = segments a in
      if take 6 ss = [0, 0, 0, 0, 0, 65535] then ''::ffff:'' @ ipv4_text (a mod 2 ^ 32)
      else (let (start, len) = zero_span 0 (0, 0) (0, 0) ss
            in if len > 1 then colon_join (take start ss) @ ''::'' @ colon_join (drop (start + len) ss)
               else colon_join ss))"

fun addr_text :: "ip_addr \<Rightarrow> string" where
  "addr_text (V4 a) = ipv4_text (unat a)"
| "addr_text (V6 a) = ipv6_text (unat a)"

lemma addr_text_examples:
  "addr_text (V4 0xC0A80001) = ''192.168.0.1''"
  "addr_text (V6 0x20010db8000000000001000000000001) = ''2001:db8::1:0:0:1''"
  "addr_text (V6 0) = ''::''"
  "addr_text (V6 0xffff01020304) = ''::ffff:1.2.3.4''"
  by code_simp+

section \<open>Pinning one outbound\<close>

text \<open>\<open>value[key]\<close> as a place: null becomes an object, a missing key gets a null, anything but an object panics.\<close>

definition index_mut :: "string \<Rightarrow> json \<Rightarrow> json xray" where
  "index_mut key v =
     (case v of
        JNull \<Rightarrow> Ok (JObj [(key, JNull)])
      | JObj m \<Rightarrow> Ok (if map_of m key = None then jset key JNull v else v)
      | _ \<Rightarrow> Err Panicked)"

definition default_server_name :: "string \<Rightarrow> json \<Rightarrow> string \<Rightarrow> json xray" where
  "default_server_name host outbound security =
     andthen (index_mut ''streamSettings'' outbound) (\<lambda>outbound.
     andthen (index_mut security (jidx outbound ''streamSettings'')) (\<lambda>stream.
     let settings = jidx stream security;
         stream = (if as_object settings \<noteq> None \<and> jget settings ''serverName'' = None
                   then jset security (jset ''serverName'' (JStr host) settings) stream else stream)
     in Ok (jset ''streamSettings'' stream outbound)))"

definition set_host :: "string \<Rightarrow> json \<Rightarrow> json" where
  "set_host text outbound =
     (let settings = jidx outbound ''settings'' in
      if jidx outbound ''protocol'' = JStr ''vless''
      then jset ''settings'' (jset ''vnext'' (case jelems (jidx settings ''vnext'') of
             server # rest \<Rightarrow> JArr (jset ''address'' (JStr text) server # rest) | [] \<Rightarrow> JArr []) settings) outbound
      else jset ''settings'' (jset ''address'' (JStr text) settings) outbound)"

definition prefer_ipv4 :: "ip_addr list \<Rightarrow> ip_addr option" where
  "prefer_ipv4 addresses = (case List.find is_ipv4 addresses of
     Some ip \<Rightarrow> Some ip | None \<Rightarrow> (case addresses of ip # _ \<Rightarrow> Some ip | [] \<Rightarrow> None))"

text \<open>The cache of resolved names, the names left alone, and whether every name was replaced.  The resolver
  may answer differently at every call, so it takes the number of names resolved before.\<close>

record pinning =
  pn_resolved :: "(string \<times> ip_addr option) list"
  pn_unpinned :: "string list"
  pn_all :: bool

definition resolve_once :: "(nat \<Rightarrow> string \<Rightarrow> ip_addr list) \<Rightarrow> string \<Rightarrow> pinning \<Rightarrow> ip_addr option \<times> pinning" where
  "resolve_once resolve host st =
     (case map_of (pn_resolved st) host of
        Some known \<Rightarrow> (known, st)
      | None \<Rightarrow>
          (let found = prefer_ipv4 (resolve (length (pn_resolved st)) host)
           in (found, st\<lparr>pn_resolved := (host, found) # pn_resolved st\<rparr>)))"

definition carries_name :: "json \<Rightarrow> bool" where
  "carries_name outbound =
     (case as_str (jidx (jidx outbound ''streamSettings'') ''network'') of
        None \<Rightarrow> True | Some n \<Rightarrow> n \<in> {''tcp'', ''raw'', ''hysteria'', ''kcp''})"

definition pin_outbound ::
    "(nat \<Rightarrow> string \<Rightarrow> ip_addr list) \<Rightarrow> json \<Rightarrow> pinning \<Rightarrow> (json \<times> pinning) xray" where
  "pin_outbound resolve outbound st =
     (case outbound_host outbound of
        None \<Rightarrow> Ok (outbound, st)
      | Some host \<Rightarrow>
          if addr_parse host \<noteq> None then Ok (outbound, st)
          else
            (let (address, st) = (if carries_name outbound then resolve_once resolve host st else (None, st))
             in case address of
                  None \<Rightarrow> Ok (outbound, st\<lparr>pn_all := False, pn_unpinned := push_unique (pn_unpinned st) host\<rparr>)
                | Some ip \<Rightarrow>
                    andthen (default_server_name host (set_host (addr_text ip) outbound) ''tlsSettings'') (\<lambda>outbound.
                    andthen (default_server_name host outbound ''realitySettings'') (\<lambda>outbound.
                    Ok (outbound, st)))))"

fun pin_outbounds ::
    "(nat \<Rightarrow> string \<Rightarrow> ip_addr list) \<Rightarrow> json list \<Rightarrow> pinning \<Rightarrow> (json list \<times> pinning) xray" where
  "pin_outbounds resolve [] st = Ok ([], st)"
| "pin_outbounds resolve (x # xs) st =
     andthen (pin_outbound resolve x st) (\<lambda>(y, st).
     andthen (pin_outbounds resolve xs st) (\<lambda>(ys, st). Ok (y # ys, st)))"

definition no_pins :: pinning where
  "no_pins = \<lparr> pn_resolved = [], pn_unpinned = [], pn_all = True \<rparr>"

definition pin_server_addresses ::
    "xray_libs \<Rightarrow> (nat \<Rightarrow> string \<Rightarrow> ip_addr list) \<Rightarrow> xray_plan \<Rightarrow> xray_plan xray" where
  "pin_server_addresses L resolve p =
     (case xl_parse_json L (xn_config p) of
        None \<Rightarrow> Ok p
      | Some config \<Rightarrow>
          andthen (index_mut ''outbounds'' config) (\<lambda>config.
          case as_array (jidx config ''outbounds'') of
            None \<Rightarrow> Ok p
          | Some outbounds \<Rightarrow>
              andthen (pin_outbounds resolve outbounds no_pins) (\<lambda>(outbounds, st).
              let p = p\<lparr>xn_server_hosts := List.map_filter outbound_host outbounds\<rparr>
              in case xl_print_json L (jset ''outbounds'' (JArr outbounds) config) of
                   None \<Rightarrow> Ok p
                 | Some text \<Rightarrow>
                     Ok (p\<lparr>xn_config := text, xn_unpinned_hosts := pn_unpinned st, xn_server_pinned := pn_all st\<rparr>))))"

end
