(* ===== verification/Xray_Safety.thy ===== *)
theory Xray_Safety
  imports Xray_Pin
begin

text \<open>
  What an accepted Xray configuration and a prepared plan guarantee: confinement of the accepted
  configuration, the mark on every outbound that dials, the order of the routing rules, and the pinning of
  server addresses.
\<close>

section \<open>What the allowlist accepts\<close>

lemma jget_map: "map_of (jfields v) k = jget v k"
  by (cases v) (simp_all add: jget_def jfields_def opt_or_def)

lemma jidx_get: "jget v k = Some x \<Longrightarrow> jidx v k = x"
  by (simp add: jidx_def opt_or_def)

lemma as_array_elems: "as_array v = Some xs \<Longrightarrow> jelems v = xs"
  by (simp add: jelems_def opt_or_def)

lemma protocol_of_str: "protocol_of x = p \<Longrightarrow> p \<noteq> [] \<Longrightarrow> jidx x ''protocol'' = JStr p"
  by (cases "jidx x ''protocol''") (auto simp: opt_or_def)

lemma generated_inbounds:
  assumes "validate_generated N config = Pass" and "x \<in> set (jelems (jidx config ''inbounds''))"
  shows "validate_inbound x = Pass"
  using assms by (auto simp: validate_generated_def jget_map dest!: jidx_get as_array_elems)

definition outbound_ok :: "json \<Rightarrow> bool" where
  "outbound_ok x \<longleftrightarrow> tag_of x \<notin> set RESERVED_TAGS \<and> \<not> starts_with (tag_of x) ''probe-''
     \<and> (\<forall>key. tag_of x = ''node-'' @ key \<or> tag_of x = ''pin-'' @ key \<longrightarrow> valid_node_key key)
     \<and> protocol_of x \<in> {''vless'', ''hysteria'', ''freedom'', ''blackhole'', ''dns''}
     \<and> jget x ''proxySettings'' = None"

lemma xobject_no_field:
  assumes "xobject v allowed = Pass" and "k \<notin> set allowed"
  shows "jget v k = None"
  using assms by (cases v) (auto simp: xobject_def jget_def list_all_iff map_of_eq_None_iff)

lemma strip_prefix_all:
  "(case strip_prefix p t of None \<Rightarrow> True | Some k \<Rightarrow> P k) \<longleftrightarrow> (\<forall>k. t = p @ k \<longrightarrow> P k)"
  by (cases "strip_prefix p t") (auto simp: strip_prefix_Some_iff)

lemma validate_outbound_ok:
  assumes "validate_outbound N tags x = Pass"
  shows "tag_of x \<notin> tags \<and> outbound_ok x"
proof -
  note v = assms [unfolded validate_outbound_def]
  have "xobject x [''tag'', ''protocol'', ''settings'', ''streamSettings'', ''mux''] = Pass" using v by simp
  then have "jget x ''proxySettings'' = None" by (rule xobject_no_field) simp
  moreover have "protocol_of x \<in> {''vless'', ''hysteria'', ''freedom'', ''blackhole'', ''dns''}"
    using v by (auto simp: Let_def split: if_splits)
  moreover have "valid_node_key key" if "tag_of x = ''node-'' @ key \<or> tag_of x = ''pin-'' @ key" for key
    using v that by (simp only: strip_prefix_all checks_Pass list.map set_simps) auto
  ultimately show ?thesis using v by (simp add: outbound_ok_def)
qed

lemma validate_outbounds_ok:
  "validate_outbounds N tags xs = Pass \<Longrightarrow>
     distinct (map tag_of xs) \<and> set (map tag_of xs) \<inter> tags = {} \<and> (\<forall>x \<in> set xs. outbound_ok x)"
proof (induction xs arbitrary: tags)
  case (Cons x xs)
  then show ?case using Cons.IH [of "insert (tag_of x) tags"] validate_outbound_ok [of N tags x] by auto
qed simp

lemma generated_outbounds:
  assumes "validate_generated N config = Pass"
  obtains xs where "jidx config ''outbounds'' = JArr xs" "validate_outbounds N {} xs = Pass"
    "2 \<le> length xs" "length xs \<le> 64"
proof -
  from assms obtain v xs where "jget config ''outbounds'' = Some v" "as_array v = Some xs"
    "validate_outbounds N {} xs = Pass" "2 \<le> length xs" "length xs \<le> 64"
    by (auto simp: validate_generated_def jget_map)
  then show ?thesis using that by (cases v) (auto dest!: jidx_get)
qed

lemma generated_rules:
  assumes "validate_generated N config = Pass"
  obtains rules where "jidx (jidx config ''routing'') ''rules'' = JArr rules" "length rules \<le> 64"
    "\<forall>r \<in> set rules. validate_route_rule N (set (map tag_of (jelems (jidx config ''outbounds'')))) r = Pass"
proof -
  from assms obtain rules where "as_array (jidx (jidx config ''routing'') ''rules'') = Some rules" "length rules \<le> 64"
    "\<forall>r \<in> set rules. validate_route_rule N (set (map tag_of (jelems (jidx config ''outbounds'')))) r = Pass"
    by (auto simp: validate_generated_def Let_def)
  then show ?thesis using that by (cases "jidx (jidx config ''routing'') ''rules''") auto
qed

definition rule_target_ok :: "string set \<Rightarrow> json \<Rightarrow> bool" where
  "rule_target_ok tags rule \<longleftrightarrow>
     (\<exists>t. jget rule ''outboundTag'' = Some (JStr t) \<and> t \<in> tags \<and> jget rule ''balancerTag'' = None)
     \<or> (jget rule ''outboundTag'' = None \<and> jget rule ''balancerTag'' = Some (JStr ''failover''))"

lemma validate_route_rule_target:
  assumes "validate_route_rule N tags rule = Pass"
  shows "rule_target_ok tags rule"
proof -
  have "(case (jget rule ''outboundTag'', jget rule ''balancerTag'') of
         (Some outbound, None) \<Rightarrow> checks [xstring outbound, require (opt_or [] (as_str outbound) \<in> tags)]
       | (None, Some balancer) \<Rightarrow> require (balancer = JStr ''failover'')
       | _ \<Rightarrow> Reject) = Pass" using assms by (simp add: validate_route_rule_def)
  moreover have "\<exists>t. v = JStr t \<and> t \<in> tags" if "xstring v = Pass" "opt_or [] (as_str v) \<in> tags" for v
    using that by (cases v) (auto simp: xstring_def opt_or_def)
  ultimately show ?thesis by (auto simp: rule_target_ok_def split: option.splits)
qed

text \<open>C18: an accepted configuration is confined.  Its one or two inbounds are SOCKS or HTTP listeners on
  the loopback address; its outbounds have different tags, none of them a tag the daemon reserves for itself
  or a probe tag, their protocols are the five allowed ones, \<open>node-\<close> and \<open>pin-\<close> tags carry a key of sixteen
  hexadecimal digits, none is chained through another by \<open>proxySettings\<close>; and every routing rule names either an
  outbound of the configuration or, as its \<open>balancerTag\<close>, the name \<open>failover\<close> (whether or not the configuration
  declares that balancer).\<close>

theorem accepted_config_confined:
  assumes "validate_generated N config = Pass"
  shows "(\<forall>x \<in> set (jelems (jidx config ''inbounds'')).
            jidx x ''listen'' = JStr ''127.0.0.1'' \<and> jidx x ''protocol'' \<in> {JStr ''socks'', JStr ''http''})
    \<and> distinct (map tag_of (jelems (jidx config ''outbounds'')))
    \<and> (\<forall>x \<in> set (jelems (jidx config ''outbounds'')). outbound_ok x)
    \<and> (\<forall>r \<in> set (jelems (jidx (jidx config ''routing'') ''rules'')).
          rule_target_ok (set (map tag_of (jelems (jidx config ''outbounds'')))) r)"
proof (intro conjI ballI)
  fix x assume "x \<in> set (jelems (jidx config ''inbounds''))"
  then have v: "validate_inbound x = Pass" by (rule generated_inbounds [OF assms])
  then show "jidx x ''listen'' = JStr ''127.0.0.1''" by (simp add: validate_inbound_def)
  from v show "jidx x ''protocol'' \<in> {JStr ''socks'', JStr ''http''}"
    by (auto simp: validate_inbound_def split: if_splits)
next
  obtain xs where "jidx config ''outbounds'' = JArr xs" "validate_outbounds N {} xs = Pass"
    by (rule generated_outbounds [OF assms])
  then have "jelems (jidx config ''outbounds'') = xs \<and> distinct (map tag_of xs) \<and> (\<forall>x \<in> set xs. outbound_ok x)"
    using validate_outbounds_ok [of N "{}" xs] by (simp add: jelems_def opt_or_def)
  then show "distinct (map tag_of (jelems (jidx config ''outbounds'')))"
    and "x \<in> set (jelems (jidx config ''outbounds'')) \<Longrightarrow> outbound_ok x" for x by auto
next
  fix r assume r: "r \<in> set (jelems (jidx (jidx config ''routing'') ''rules''))"
  obtain rules where "jidx (jidx config ''routing'') ''rules'' = JArr rules"
    "\<forall>r \<in> set rules. validate_route_rule N (set (map tag_of (jelems (jidx config ''outbounds'')))) r = Pass"
    by (rule generated_rules [OF assms])
  then show "rule_target_ok (set (map tag_of (jelems (jidx config ''outbounds'')))) r"
    using r by (auto simp: jelems_def opt_or_def intro: validate_route_rule_target)
qed

section \<open>Missing keys\<close>

lemma each_Panic: "\<forall>x \<in> set xs. f x = Pass \<Longrightarrow> f y = Panic \<Longrightarrow> each f (xs @ y # ys) = Panic"
  by (induction xs) auto

lemma jfields_jset: "map_of (jfields (jset k x v)) j = (if j = k then Some x else map_of (jfields v) j)"
  by (simp add: jset_def jfields_def opt_or_def update_conv')

lemma xobject_keys: "xobject (JObj m) allowed = Pass \<longleftrightarrow> fst ` set m \<subseteq> set allowed"
  by (auto simp: xobject_def list_all_iff)

lemma set_update_key: "(j, y) \<in> set (AList.update k x m) \<Longrightarrow> j = k \<or> j \<in> fst ` set m"
proof -
  assume "(j, y) \<in> set (AList.update k x m)"
  then have "j \<in> fst ` set (AList.update k x m)" by force
  then show ?thesis using dom_update [of k x m] by blast
qed

lemma and_then_skip: "a = Pass \<Longrightarrow> and_then a b = b"
  by simp

lemma xobject_jset: "xobject v allowed = Pass \<Longrightarrow> k \<in> set allowed \<Longrightarrow> xobject (jset k x v) allowed = Pass"
  by (cases "as_object v") (auto simp: xobject_def jset_def jfields_def opt_or_def list_all_iff dest!: set_update_key)

lemma xlist_Panic:
  assumes "\<forall>x \<in> set xs. f x = Pass" and "f y = Panic" and "length xs + length ys < n"
  shows "xlist n f (JArr (xs @ y # ys)) = Panic"
  using assms each_Panic [OF assms(1,2), of ys] by (simp add: xlist_def required_def require_def)

lemma key_absent: "fst ` set m \<subseteq> K \<Longrightarrow> k \<notin> K \<Longrightarrow> map_of m k = None"
  by (auto simp: map_of_eq_None_iff)

lemma dns_server_Panic:
  "fst ` set m \<subseteq> {''port'', ''domains'', ''skipFallback'', ''queryStrategy''} \<Longrightarrow> dns_server (JObj m) = Panic"
  using xobject_keys [of m "[''address'', ''port'', ''domains'', ''skipFallback'', ''queryStrategy'']"]
    key_absent [of m "{''port'', ''domains'', ''skipFallback'', ''queryStrategy''}" "''address''"]
  by (auto simp: dns_server_def map_index_def jfields_def opt_or_def)

lemma fakedns_pool_Panic: "fst ` set m \<subseteq> {''poolSize''} \<Longrightarrow> fakedns_pool N (JObj m) = Panic"
  using xobject_keys [of m "[''ipPool'', ''poolSize'']"] key_absent [of m "{''poolSize''}" "''ipPool''"]
  by (auto simp: fakedns_pool_def map_index_def jfields_def opt_or_def)

lemma validate_balancer_Panic: "fst ` set m \<subseteq> {''selector''} \<Longrightarrow> validate_balancer (JObj m) = Panic"
  using xobject_keys [of m "[''tag'', ''selector'']"] key_absent [of m "{''selector''}" "''tag''"]
  by (auto simp: validate_balancer_def map_index_def jfields_def opt_or_def)

lemma validate_dns_Panic:
  assumes "validate_dns dns = Pass" and "xlist 16 dns_server v = Panic"
  shows "validate_dns (jset ''servers'' v dns) = Panic"
proof -
  let ?ks = "[''hosts'', ''servers'', ''queryStrategy'', ''tag'', ''enableParallelQuery'', ''disableCache'', ''serveStale'', ''clientIp'']"
  have "xobject (jset ''servers'' v dns) ?ks = Pass" by (rule xobject_jset) (use assms(1) in \<open>simp_all add: validate_dns_def\<close>)
  then show ?thesis using assms by (auto simp: validate_dns_def jfields_jset optional_def split: option.splits)
qed

abbreviation top_keys :: "string list" where
  "top_keys \<equiv> [''log'', ''inbounds'', ''outbounds'', ''routing'', ''dns'', ''fakedns'', ''policy'']"

lemma generated_dns_Panic:
  assumes "validate_generated N config = Pass" and "validate_dns dns = Panic"
  shows "validate_generated N (jset ''dns'' dns config) = Panic"
proof -
  have "xobject (jset ''dns'' dns config) top_keys = Pass"
    by (rule xobject_jset) (use assms(1) in \<open>simp_all add: validate_generated_def\<close>)
  then show ?thesis using assms by (auto simp: validate_generated_def jfields_jset optional_def split: option.splits)
qed

lemma generated_fakedns_Panic:
  assumes "validate_generated N config = Pass" and "validate_fakedns N v = Panic"
  shows "validate_generated N (jset ''fakedns'' v config) = Panic"
proof -
  have "xobject (jset ''fakedns'' v config) top_keys = Pass"
    by (rule xobject_jset) (use assms(1) in \<open>simp_all add: validate_generated_def\<close>)
  then show ?thesis using assms by (auto simp: validate_generated_def jfields_jset optional_def split: option.splits)
qed

lemma generated_balancer_Panic:
  assumes "validate_generated N config = Pass" and "validate_balancer b = Panic"
  shows "validate_generated N (jset ''routing'' (jset ''balancers'' (JArr [b]) (jidx config ''routing'')) config) = Panic"
proof -
  let ?r = "jset ''balancers'' (JArr [b]) (jidx config ''routing'')"
  have t: "xobject (jset ''routing'' ?r config) top_keys = Pass"
    by (rule xobject_jset) (use assms(1) in \<open>simp_all add: validate_generated_def\<close>)
  have r: "xobject ?r [''domainStrategy'', ''domainMatcher'', ''rules'', ''balancers''] = Pass"
    by (rule xobject_jset) (use assms(1) in \<open>simp_all add: validate_generated_def Let_def\<close>)
  have b: "field ?r ''balancers'' (xone validate_balancer) = Panic" using assms(2) by (simp add: jfields_jset optional_def xone_def)
  show ?thesis using assms(1) t r b unfolding validate_generated_def
    by (auto simp: jfields_jset Let_def and_then_skip)
qed

text \<open>C36: a missing key makes the validator panic instead of rejecting the configuration.  Take any configuration the
  validator accepts and give its DNS section, after some acceptable servers, a server object without an \<open>address\<close>; or give
  it a fake-DNS pool object without an \<open>ipPool\<close>; or make its balancer an object without a \<open>tag\<close>, each with any other of the
  allowed keys: every one of these configurations makes \<open>validate_generated\<close> panic.\<close>

theorem missing_key_panics:
  assumes "validate_generated N config = Pass" and "validate_dns dns = Pass"
    and "fst ` set server \<subseteq> {''port'', ''domains'', ''skipFallback'', ''queryStrategy''}"
    and "\<forall>s \<in> set servers. dns_server s = Pass" and "length servers + length servers' < 16"
    and "fst ` set pool \<subseteq> {''poolSize''}"
    and "\<forall>p \<in> set pools. fakedns_pool N p = Pass" and "length pools + length pools' < 4"
    and "fst ` set balancer \<subseteq> {''selector''}"
  shows "validate_generated N (jset ''dns'' (jset ''servers'' (JArr (servers @ JObj server # servers')) dns) config) = Panic
    \<and> validate_generated N (jset ''fakedns'' (JArr (pools @ JObj pool # pools')) config) = Panic
    \<and> validate_generated N (jset ''routing'' (jset ''balancers'' (JArr [JObj balancer]) (jidx config ''routing'')) config) = Panic"
proof (intro conjI)
  show "validate_generated N (jset ''dns'' (jset ''servers'' (JArr (servers @ JObj server # servers')) dns) config) = Panic"
    using assms(1-5) by (intro generated_dns_Panic validate_dns_Panic xlist_Panic dns_server_Panic)
  show "validate_generated N (jset ''fakedns'' (JArr (pools @ JObj pool # pools')) config) = Panic"
    using assms(1,6-8)
    by (intro generated_fakedns_Panic) (simp_all add: validate_fakedns_def xlist_Panic fakedns_pool_Panic)
  show "validate_generated N (jset ''routing'' (jset ''balancers'' (JArr [JObj balancer]) (jidx config ''routing'')) config) = Panic"
    using assms(1,9) by (intro generated_balancer_Panic validate_balancer_Panic)
qed

section \<open>An example\<close>

definition example_outbound :: "string \<Rightarrow> string \<Rightarrow> json" where
  "example_outbound tag host = JObj [(''tag'', JStr tag), (''protocol'', JStr ''vless''),
     (''settings'', JObj [(''vnext'', JArr [JObj [(''address'', JStr host), (''port'', JInt 443),
        (''users'', JArr [JObj [(''id'', JStr ''u''), (''encryption'', JStr ''none'')]])]])]),
     (''streamSettings'', JObj [(''network'', JStr ''tcp''), (''security'', JStr ''tls''),
        (''tlsSettings'', JObj [(''fingerprint'', JStr ''chrome'')])])]"

definition example_config :: json where
  "example_config = JObj
     [(''inbounds'', JArr [JObj [(''tag'', JStr ''in''), (''listen'', JStr ''127.0.0.1''), (''port'', JInt 1080),
        (''protocol'', JStr ''socks'')]]),
      (''outbounds'', JArr [example_outbound ''node-0123456789abcdef'' ''a.example'',
        example_outbound ''pin-0123456789abcdef'' ''a.example'',
        JObj [(''tag'', JStr ''direct''), (''protocol'', JStr ''freedom'')]]),
      (''routing'', JObj [(''rules'', JArr [JObj [(''type'', JStr ''field''), (''network'', JStr ''udp''),
        (''outboundTag'', JStr ''direct'')]])])]"

lemma example_config_accepted: "validate_generated word_ipnet example_config = Pass"
  by code_simp

theorem accepted_config_confined_witness:
  "validate_generated word_ipnet example_config = Pass
   \<and> distinct (map tag_of (jelems (jidx example_config ''outbounds'')))
   \<and> list_all outbound_ok (jelems (jidx example_config ''outbounds''))
   \<and> length (jelems (jidx example_config ''outbounds'')) = 3"
proof -
  have "length (jelems (jidx example_config ''outbounds'')) = 3" by code_simp
  then show ?thesis using accepted_config_confined [OF example_config_accepted] example_config_accepted
    unfolding list_all_iff by blast
qed

theorem missing_key_panics_witness:
  "validate_generated word_ipnet example_config = Pass
   \<and> validate_generated word_ipnet (jset ''dns'' (JObj [(''servers'', JArr [JStr ''1.1.1.1'', JObj [(''port'', JInt 53)]])]) example_config) = Panic
   \<and> validate_generated word_ipnet (jset ''fakedns'' (JArr [JObj [(''poolSize'', JInt 9)]]) example_config) = Panic"
proof -
  have "dns_server (JStr ''1.1.1.1'') = Pass" "validate_dns (JObj []) = Pass" by code_simp+
  then show ?thesis
    using missing_key_panics [OF example_config_accepted, of "JObj []" "[(''port'', JInt 53)]" "[JStr ''1.1.1.1'']" "[]"
        "[(''poolSize'', JInt 9)]" "[]" "[]" "[]"] example_config_accepted
    by (simp add: jset_def [of "''servers''"] jfields_def opt_or_def)
qed

section \<open>The prepared configuration\<close>

lemma guard_Ok [simp]: "guard b k = Ok y \<longleftrightarrow> b \<and> k = Ok y"
  by (simp add: guard_def)

lemma after_Ok [simp]: "after v k = Ok y \<longleftrightarrow> v = Pass \<and> k = Ok y"
  by (cases v) (simp_all add: after_def)

lemma andthen_Ok [simp]: "andthen r k = Ok y \<longleftrightarrow> (\<exists>x. r = Ok x \<and> k x = Ok y)"
  by (cases r) (simp_all add: andthen_def)

lemma map_result_Ok [simp]: "map_result f r = Ok y \<longleftrightarrow> (\<exists>x. r = Ok x \<and> y = f x)"
  by (cases r) auto

lemma jelems_simps [simp]: "jelems (JArr xs) = xs"
  by (simp add: jelems_def opt_or_def)

lemma as_array_Some: "as_array v = Some xs \<longleftrightarrow> v = JArr xs"
  by (cases v) auto

text \<open>The exits add inbounds at the end, rules at the front and at most one outbound.\<close>

lemma inject_Ok:
  assumes "inject config exits mark = Ok out" and "jidx config ''inbounds'' = JArr ins"
    and "jidx (jidx config ''routing'') ''rules'' = JArr rules" and "jidx config ''outbounds'' = JArr outs"
  shows "jidx out ''inbounds'' = JArr (ins @ concat (map (exit_inbounds mark) (List.enumerate 0 exits)))
    \<and> jidx (jidx out ''routing'') ''rules'' = JArr (List.map_filter exit_rule exits @ rules)
    \<and> (\<exists>extra. jidx out ''outbounds'' = JArr (outs @ extra) \<and> set extra \<subseteq> {blackhole UNAVAILABLE_TAG})"
  using assms
  by (auto simp: inject_def as_array_Some Let_def List.map_filter_def split: if_splits option.splits)

definition failover_nodes :: "failover_params option \<Rightarrow> string list" where
  "failover_nodes f = (case f of None \<Rightarrow> [] | Some f \<Rightarrow> fp_nodes f)"

definition daemon_rules :: "string list \<Rightarrow> string list \<Rightarrow> json list" where
  "daemon_rules nodes pinned = tag_rule ''api-in'' ''api'' # map (\<lambda>key. tag_rule (''probe-'' @ key) (node_tag key)) nodes
     @ map (\<lambda>key. tag_rule (''pin-probe-'' @ key) (pin_tag key)) pinned"

definition daemon_inbounds :: "nat \<Rightarrow> string list \<Rightarrow> string list \<Rightarrow> proxy_exit_binding list \<Rightarrow> json list" where
  "daemon_inbounds mark nodes pinned exits = api_inbound (xray_api_port mark)
     # map (\<lambda>(i, key). socks_inbound (''probe-'' @ key) (xray_probe_port mark i)) (List.enumerate 0 nodes)
     @ map (\<lambda>(i, key). socks_inbound (''pin-probe-'' @ key) (xray_pin_probe_port mark i)) (List.enumerate 0 pinned)
     @ concat (map (exit_inbounds mark) (List.enumerate 0 exits))"

lemma base_config_Ok:
  assumes "base_config name mtu mark failover pinned exits config = Ok out"
    and "jidx (jidx config ''routing'') ''rules'' = JArr rules" and "jidx config ''outbounds'' = JArr outs"
  obtains dest where
    "jidx out ''inbounds'' = JArr (tun_inbound name mtu dest # daemon_inbounds mark (failover_nodes failover) pinned [])"
    "jidx (jidx out ''routing'') ''rules'' = JArr (daemon_rules (failover_nodes failover) pinned @ rules
       @ (if failover \<noteq> None then [catch_all] else []))"
    "jidx out ''outbounds'' = JArr (outs @ (if failover \<noteq> None then [blackhole UNAVAILABLE_TAG] else []))"
proof -
  have "jidx out ''inbounds'' = JArr (tun_inbound name mtu ([''http'', ''tls'', ''quic''] @
          (if case as_array (jidx config ''fakedns'') of None \<Rightarrow> False | Some pools \<Rightarrow> pools \<noteq> [] then [''fakedns''] else []))
        # daemon_inbounds mark (failover_nodes failover) pinned [])"
    using assms by (cases failover) (clarsimp simp: base_config_def Let_def daemon_inbounds_def failover_nodes_def)+
  moreover have "jidx (jidx out ''routing'') ''rules'' = JArr (daemon_rules (failover_nodes failover) pinned @ rules
       @ (if failover \<noteq> None then [catch_all] else []))"
    using assms by (cases failover) (clarsimp simp: base_config_def Let_def daemon_rules_def failover_nodes_def)+
  moreover have "jidx out ''outbounds'' = JArr (outs @ (if failover \<noteq> None then [blackhole UNAVAILABLE_TAG] else []))"
    using assms by (cases failover) (clarsimp simp: base_config_def Let_def)+
  ultimately show ?thesis by (rule that)
qed

lemma rewrite_config_Ok:
  assumes "rewrite_config name mtu mark failover pinned exits config = Ok out"
    and "jidx (jidx config ''routing'') ''rules'' = JArr rules" and "jidx config ''outbounds'' = JArr outs"
  obtains dest extra marked where
    "jidx out ''inbounds'' = JArr (tun_inbound name mtu dest # daemon_inbounds mark (failover_nodes failover) pinned exits)"
    "jidx (jidx out ''routing'') ''rules'' = JArr (List.map_filter exit_rule exits
       @ daemon_rules (failover_nodes failover) pinned @ rules @ (if failover \<noteq> None then [catch_all] else []))"
    "set extra \<subseteq> {blackhole UNAVAILABLE_TAG}" "failover \<noteq> None \<longrightarrow> extra \<noteq> []"
    "mark_all mark (outs @ extra) = Ok marked" "jidx out ''outbounds'' = JArr marked"
proof -
  from assms(1) obtain base mid os marked where base: "base_config name mtu mark failover pinned exits config = Ok base"
    and mid: "inject base exits mark = Ok mid" and os: "jidx mid ''outbounds'' = JArr os"
    and m: "mark_all mark os = Ok marked" and out: "out = jset ''outbounds'' (JArr marked) mid"
    by (auto simp: rewrite_config_def as_array_Some split: option.splits)
  obtain dest where b: "jidx base ''inbounds'' = JArr (tun_inbound name mtu dest # daemon_inbounds mark (failover_nodes failover) pinned [])"
    "jidx (jidx base ''routing'') ''rules'' = JArr (daemon_rules (failover_nodes failover) pinned @ rules
       @ (if failover \<noteq> None then [catch_all] else []))"
    "jidx base ''outbounds'' = JArr (outs @ (if failover \<noteq> None then [blackhole UNAVAILABLE_TAG] else []))"
    by (rule base_config_Ok [OF base assms(2,3)])
  from inject_Ok [OF mid b] obtain extra where i:
    "jidx mid ''inbounds'' = JArr ((tun_inbound name mtu dest # daemon_inbounds mark (failover_nodes failover) pinned [])
       @ concat (map (exit_inbounds mark) (List.enumerate 0 exits)))"
    "jidx (jidx mid ''routing'') ''rules'' = JArr (List.map_filter exit_rule exits @ daemon_rules (failover_nodes failover) pinned
       @ rules @ (if failover \<noteq> None then [catch_all] else []))"
    "jidx mid ''outbounds'' = JArr ((outs @ (if failover \<noteq> None then [blackhole UNAVAILABLE_TAG] else [])) @ extra)"
    "set extra \<subseteq> {blackhole UNAVAILABLE_TAG}" by blast
  show ?thesis
  proof (rule that [of dest "(if failover \<noteq> None then [blackhole UNAVAILABLE_TAG] else []) @ extra" marked])
    show "jidx out ''inbounds'' = JArr (tun_inbound name mtu dest # daemon_inbounds mark (failover_nodes failover) pinned exits)"
      using i(1) out by (simp add: daemon_inbounds_def)
    show "mark_all mark (outs @ (if failover \<noteq> None then [blackhole UNAVAILABLE_TAG] else []) @ extra) = Ok marked"
      using m os i(3) by simp
  qed (use i out in auto)
qed

lemma mark_outbound_marked:
  assumes "mark_outbound mark x = Ok y"
  shows "jidx y ''tag'' = jidx x ''tag'' \<and> jidx y ''protocol'' = jidx x ''protocol'' \<and> outbound_host y = outbound_host x
    \<and> (jidx y ''protocol'' \<noteq> JStr ''blackhole'' \<longrightarrow>
         jidx (jidx (jidx y ''streamSettings'') ''sockopt'') ''mark'' = JInt (int mark))"
  using assms by (auto simp: mark_outbound_def Let_def outbound_host_def split: if_splits json.splits)

lemma mark_all_marked:
  "mark_all mark xs = Ok ys \<Longrightarrow> list_all2 (\<lambda>x y. jidx y ''tag'' = jidx x ''tag'' \<and> jidx y ''protocol'' = jidx x ''protocol''
     \<and> outbound_host y = outbound_host x
    \<and> (jidx y ''protocol'' \<noteq> JStr ''blackhole'' \<longrightarrow>
         jidx (jidx (jidx y ''streamSettings'') ''sockopt'') ''mark'' = JInt (int mark))) xs ys"
proof (induction xs arbitrary: ys)
  case (Cons x xs)
  then obtain y zs where "mark_outbound mark x = Ok y" "mark_all mark xs = Ok zs" "ys = y # zs" by auto
  then show ?case using Cons.IH [of zs] mark_outbound_marked [of mark x y] by simp
qed simp

lemma prepare_xray_Ok:
  assumes "prepare_xray L uid prm mark = Ok p"
  obtains config out where "xl_parse_json L (xc_config prm) = Some config" "validate_generated (xl_net L) config = Pass"
    "bindings (xc_proxy_exits prm) config = Ok (xn_proxy_exits p)"
    "\<forall>f. xn_failover p = Some f \<longrightarrow> (\<exists>g. validate_failover L g config = Ok f)"
    "rewrite_config (xn_name p) (xn_mtu p) mark (xn_failover p) (xn_pinned_keys p) (xn_proxy_exits p) config = Ok out"
    "xl_print_json L out = Some (xn_config p)" "length (xn_pinned_keys p) \<le> 33"
    "xn_pinned_keys p = List.map_filter pinned_key (jelems (jidx config ''outbounds''))"
    "set (xn_server_hosts p) = set (List.map_filter outbound_host (jelems (jidx config ''outbounds'')))"
    "xn_mark p = mark"
proof -
  from assms show ?thesis
    by (auto simp: prepare_xray_def Let_def split: if_splits option.splits intro!: that) blast+
qed

lemma map_filter_id: "List.map_filter f xs = List.map_filter id (map f xs)"
  by (simp add: List.map_filter_def filter_map comp_def)

text \<open>C17: nothing the tunnel dials loops back into it.  In the configuration that is handed to Xray, every
  outbound except the blackholes carries the policy mark of this tunnel, whatever mark the client had put
  there, the client's outbounds come first and in their order, and the address of every proxy server is
  among the hosts the plan wants a bypass route for.\<close>

theorem prepared_outbounds_marked:
  assumes "prepare_xray L uid prm mark = Ok p"
  shows "\<exists>config out. xl_parse_json L (xc_config prm) = Some config \<and> xl_print_json L out = Some (xn_config p)
    \<and> (\<forall>x \<in> set (jelems (jidx out ''outbounds'')). jidx x ''protocol'' \<noteq> JStr ''blackhole'' \<longrightarrow>
         jidx (jidx (jidx x ''streamSettings'') ''sockopt'') ''mark'' = JInt (int mark))
    \<and> (\<exists>extra. map tag_of (jelems (jidx out ''outbounds'')) = map tag_of (jelems (jidx config ''outbounds'')) @ extra
         \<and> set extra \<subseteq> {UNAVAILABLE_TAG})
    \<and> set (List.map_filter outbound_host (jelems (jidx out ''outbounds''))) \<subseteq> set (xn_server_hosts p)"
proof -
  obtain config out where c: "xl_parse_json L (xc_config prm) = Some config" "validate_generated (xl_net L) config = Pass"
    "rewrite_config (xn_name p) (xn_mtu p) mark (xn_failover p) (xn_pinned_keys p) (xn_proxy_exits p) config = Ok out"
    "xl_print_json L out = Some (xn_config p)"
    "set (xn_server_hosts p) = set (List.map_filter outbound_host (jelems (jidx config ''outbounds'')))"
    by (rule prepare_xray_Ok [OF assms])
  obtain outs where o: "jidx config ''outbounds'' = JArr outs" by (rule generated_outbounds [OF c(2)])
  obtain rules where r: "jidx (jidx config ''routing'') ''rules'' = JArr rules" by (rule generated_rules [OF c(2)])
  obtain extra marked where m: "set extra \<subseteq> {blackhole UNAVAILABLE_TAG}" "mark_all mark (outs @ extra) = Ok marked"
    "jidx out ''outbounds'' = JArr marked" by (rule rewrite_config_Ok [OF c(3) r o])
  note l = mark_all_marked [OF m(2)]
  have "map tag_of marked = map tag_of (outs @ extra)" "map outbound_host marked = map outbound_host (outs @ extra)"
    using l by (induction rule: list_all2_induct) auto
  moreover have "set (map tag_of extra) \<subseteq> {UNAVAILABLE_TAG}" "List.map_filter outbound_host extra = []"
    using m(1) by (induction extra) (auto simp: blackhole_def opt_or_def outbound_host_def List.map_filter_def)
  moreover have "List.map_filter outbound_host marked = List.map_filter outbound_host outs @ List.map_filter outbound_host extra"
    using calculation(2) map_filter_id [of outbound_host marked] map_filter_id [of outbound_host "outs @ extra"]
    by (simp add: List.map_filter_def)
  moreover have "jidx (jidx (jidx x ''streamSettings'') ''sockopt'') ''mark'' = JInt (int mark)"
    if "x \<in> set marked" "jidx x ''protocol'' \<noteq> JStr ''blackhole''" for x
    using l that by (auto simp: list_all2_conv_all_nth in_set_conv_nth)
  ultimately show ?thesis using c m(3) o by - (rule exI [of _ config], rule exI [of _ out], auto)
qed

section \<open>The listeners of the prepared configuration\<close>

lemma validate_exits_names:
  "validate_exits_from names es = Ok () \<Longrightarrow> distinct (map ne_name es) \<and> set (map ne_name es) \<inter> names = {}"
proof (induction es arbitrary: names)
  case (Cons e es)
  then show ?case using Cons.IH [of "insert (ne_name e) names"] by (auto split: if_splits)
qed simp

lemma bindings_Ok:
  assumes "bindings es config = Ok exits"
  shows "length exits \<le> MAX_PROXY_EXITS \<and> distinct (map pb_name exits)"
proof -
  have "validate_proxy_exits es = Ok ()" and e: "exits = map (\<lambda>e. \<lparr> pb_name = ne_name e, pb_target = ne_target e \<rparr>) es"
    using assms by (auto simp: bindings_def split: result.splits option.splits if_splits)
  then show ?thesis using validate_exits_names [of "{}" es]
    by (auto simp: validate_proxy_exits_def comp_def split: if_splits)
qed

lemma validate_failover_Ok:
  assumes "validate_failover L g config = Ok f"
  shows "length (fp_nodes f) \<le> MAX_FAILOVER_NODES \<and> distinct (fp_nodes f)"
  using assms by (auto simp: validate_failover_def Let_def split: option.splits)

lemma failover_nodes_bound:
  assumes "\<forall>f. failover = Some f \<longrightarrow> (\<exists>g. validate_failover L g config = Ok f)"
  shows "length (failover_nodes failover) \<le> MAX_FAILOVER_NODES"
  using assms validate_failover_Ok by (cases failover) (auto simp: failover_nodes_def)

lemma map_enumerate: "map f (List.enumerate i xs) = map (\<lambda>k. f (i + k, xs ! k)) [0..<length xs]"
  by (rule nth_equalityI) (simp_all add: nth_enumerate_eq)

lemma daemon_inbound_ports:
  "map (\<lambda>x. jidx x ''port'') (daemon_inbounds mark nodes pinned exits)
   = map jport (listeners mark (length nodes) (length pinned) (length exits))"
proof -
  have p: "jidx (api_inbound q) ''port'' = jport q" "jidx (socks_inbound t q) ''port'' = jport q" for q t
    by (simp_all add: api_inbound_def socks_inbound_def opt_or_def)
  have e: "map (\<lambda>x. jidx x ''port'') (exit_inbounds mark (i, ex))
      = map jport [fst (exit_ports mark i), snd (exit_ports mark i)]" for i ex
    by (simp add: exit_inbounds_def opt_or_def split_beta)
  have "map (\<lambda>x. jidx x ''port'') (concat (map (exit_inbounds mark) (List.enumerate 0 exits)))
      = map jport (concat (map (\<lambda>i. [fst (exit_ports mark i), snd (exit_ports mark i)]) [0..<length exits]))"
    by (simp only: map_concat map_map map_enumerate comp_def e) simp
  then show ?thesis by (simp add: daemon_inbounds_def listeners_def p map_enumerate)
qed

lemma daemon_inbounds_loopback:
  "x \<in> set (daemon_inbounds mark nodes pinned exits) \<Longrightarrow> jidx x ''listen'' = JStr ''127.0.0.1''"
  by (auto simp: daemon_inbounds_def api_inbound_def socks_inbound_def exit_inbounds_def opt_or_def split_beta Let_def)

lemma listeners_distinct:
  assumes "nodes \<le> MAX_FAILOVER_NODES" "pins \<le> 33" "exits \<le> MAX_PROXY_EXITS"
  shows "distinct (listeners m nodes pins exits) \<and> (\<forall>p \<in> set (listeners m nodes pins exits). 1024 < p \<and> p < 2 ^ 16)"
proof -
  have "policy_slot m \<le> 127" by (simp add: policy_slot_def)
  then show ?thesis using assms unfolding MAX_FAILOVER_NODES_def MAX_PROXY_EXITS_def
    by (simp add: listeners_intervals Let_def) auto
qed

text \<open>the daemon's listeners replace the client's.  The prepared configuration has the tunnel device as
  its only inbound without a port; every other inbound listens on the loopback address, and all their ports are
  different, not privileged and fit in 16 bits, whatever the request contained.\<close>

theorem prepared_inbounds_loopback:
  assumes "prepare_xray L uid prm mark = Ok p"
  shows "\<exists>out dest rest. xl_print_json L out = Some (xn_config p)
    \<and> jidx out ''inbounds'' = JArr (tun_inbound (xn_name p) (xn_mtu p) dest # rest)
    \<and> (\<forall>x \<in> set rest. jidx x ''listen'' = JStr ''127.0.0.1'')
    \<and> (\<exists>ports. map (\<lambda>x. jidx x ''port'') rest = map jport ports \<and> distinct ports \<and> (\<forall>q \<in> set ports. 1024 < q \<and> q < 2 ^ 16))"
proof -
  obtain config out where c: "validate_generated (xl_net L) config = Pass"
    "rewrite_config (xn_name p) (xn_mtu p) mark (xn_failover p) (xn_pinned_keys p) (xn_proxy_exits p) config = Ok out"
    "xl_print_json L out = Some (xn_config p)" "length (xn_pinned_keys p) \<le> 33"
    "bindings (xc_proxy_exits prm) config = Ok (xn_proxy_exits p)"
    "\<forall>f. xn_failover p = Some f \<longrightarrow> (\<exists>g. validate_failover L g config = Ok f)"
    by (rule prepare_xray_Ok [OF assms])
  obtain outs where o: "jidx config ''outbounds'' = JArr outs" by (rule generated_outbounds [OF c(1)])
  obtain rules where r: "jidx (jidx config ''routing'') ''rules'' = JArr rules" by (rule generated_rules [OF c(1)])
  let ?rest = "daemon_inbounds mark (failover_nodes (xn_failover p)) (xn_pinned_keys p) (xn_proxy_exits p)"
  let ?ports = "listeners mark (length (failover_nodes (xn_failover p))) (length (xn_pinned_keys p)) (length (xn_proxy_exits p))"
  obtain dest where "jidx out ''inbounds'' = JArr (tun_inbound (xn_name p) (xn_mtu p) dest # ?rest)"
    by (rule rewrite_config_Ok [OF c(2) r o])
  moreover have "distinct ?ports \<and> (\<forall>q \<in> set ?ports. 1024 < q \<and> q < 2 ^ 16)"
    using failover_nodes_bound [OF c(6)] c(4) bindings_Ok [OF c(5)] by (intro listeners_distinct) auto
  ultimately show ?thesis using c(3) daemon_inbounds_loopback
      daemon_inbound_ports [of mark "failover_nodes (xn_failover p)" "xn_pinned_keys p" "xn_proxy_exits p"] by blast
qed

section \<open>The routing rules of the prepared configuration\<close>

text \<open>Xray takes the first rule that matches; a rule that names inbounds matches only traffic from them.\<close>

definition applies_to :: "string \<Rightarrow> json \<Rightarrow> bool" where
  "applies_to tag rule \<longleftrightarrow>
     (case jget rule ''inboundTag'' of None \<Rightarrow> True | Some tags \<Rightarrow> JStr tag \<in> set (jelems tags))"

lemma applies_tag_rule [simp]: "applies_to tag (tag_rule inbound outbound) \<longleftrightarrow> tag = inbound"
  by (simp add: applies_to_def tag_rule_def jget_def)

lemma applies_exit_rule:
  "exit_rule e = Some r \<Longrightarrow> applies_to tag r \<longleftrightarrow> tag \<in> {''proxy-socks-'' @ pb_name e, ''proxy-http-'' @ pb_name e}"
  by (cases "pb_target e") (auto simp: applies_to_def exit_rule_def jget_def)

lemma map_filter_simps' [simp]:
  "List.map_filter f [] = []" "List.map_filter f (x # xs) = (case f x of None \<Rightarrow> List.map_filter f xs | Some y \<Rightarrow> y # List.map_filter f xs)"
  by (simp_all add: List.map_filter_def split: option.splits)

lemma find_append: "List.find P (xs @ ys) = (case List.find P xs of None \<Rightarrow> List.find P ys | Some x \<Rightarrow> Some x)"
  by (induction xs) auto

lemma find_skips: "(\<And>x. x \<in> set xs \<Longrightarrow> \<not> P x) \<Longrightarrow> List.find P (xs @ ys) = List.find P ys"
  by (induction xs) auto

lemma find_exit_rules:
  assumes "\<And>e. e \<in> set exits \<Longrightarrow> tag \<noteq> ''proxy-socks-'' @ pb_name e \<and> tag \<noteq> ''proxy-http-'' @ pb_name e"
  shows "List.find (applies_to tag) (List.map_filter exit_rule exits @ rules) = List.find (applies_to tag) rules"
  using assms
proof (induction exits)
  case (Cons e es)
  then show ?case using applies_exit_rule [of e _ tag] by (auto split: option.splits)
qed simp

lemma find_own_exit_rule:
  assumes "distinct (map pb_name exits)" "e \<in> set exits" "exit_rule e = Some r"
    and "tag \<in> {''proxy-socks-'' @ pb_name e, ''proxy-http-'' @ pb_name e}"
  shows "List.find (applies_to tag) (List.map_filter exit_rule exits @ rules) = Some r"
  using assms
proof (induction exits)
  case (Cons x xs)
  show ?case
  proof (cases "x = e")
    case True
    then show ?thesis using Cons.prems(3,4) applies_exit_rule [of e r tag] by simp
  next
    case False
    then have e: "e \<in> set xs" "pb_name x \<noteq> pb_name e" using Cons.prems(1,2) by auto
    have IH: "List.find (applies_to tag) (List.map_filter exit_rule xs @ rules) = Some r"
      using Cons.IH Cons.prems e by simp
    have "\<not> applies_to tag y" if "exit_rule x = Some y" for y
      using applies_exit_rule [OF that, of tag] Cons.prems(4) e(2) by auto
    then show ?thesis using IH by (cases "exit_rule x") auto
  qed
qed simp

lemma find_map_rule:
  assumes "key \<in> set keys"
  shows "List.find (applies_to (pre @ key)) (map (\<lambda>key. tag_rule (pre @ key) (out key)) keys @ rules)
       = Some (tag_rule (pre @ key) (out key))"
  using assms by (induction keys) auto

lemma find_other_map_rule:
  assumes "\<And>key. key \<in> set keys \<Longrightarrow> tag \<noteq> pre @ key"
  shows "List.find (applies_to tag) (map (\<lambda>key. tag_rule (pre @ key) (out key)) keys @ rules) = List.find (applies_to tag) rules"
  by (rule find_skips) (use assms in auto)

lemma find_daemon_rules:
  "List.find (applies_to ''api-in'') (daemon_rules nodes pinned @ rules) = Some (tag_rule ''api-in'' ''api'')"
  "key \<in> set nodes \<Longrightarrow> List.find (applies_to (''probe-'' @ key)) (daemon_rules nodes pinned @ rules)
     = Some (tag_rule (''probe-'' @ key) (node_tag key))"
  "key \<in> set pinned \<Longrightarrow> List.find (applies_to (''pin-probe-'' @ key)) (daemon_rules nodes pinned @ rules)
     = Some (tag_rule (''pin-probe-'' @ key) (pin_tag key))"
proof -
  have cons: "List.find (applies_to tag) (daemon_rules nodes pinned @ rules)
      = (if tag = ''api-in'' then Some (tag_rule ''api-in'' ''api'')
         else List.find (applies_to tag) (map (\<lambda>key. tag_rule (''probe-'' @ key) (node_tag key)) nodes
           @ map (\<lambda>key. tag_rule (''pin-probe-'' @ key) (pin_tag key)) pinned @ rules))" for tag
    by (simp only: daemon_rules_def append_Cons append_assoc find.simps applies_tag_rule)
  show "List.find (applies_to ''api-in'') (daemon_rules nodes pinned @ rules) = Some (tag_rule ''api-in'' ''api'')"
    by (simp only: cons simp_thms if_True)
  show "List.find (applies_to (''probe-'' @ key)) (daemon_rules nodes pinned @ rules)
     = Some (tag_rule (''probe-'' @ key) (node_tag key))" if "key \<in> set nodes"
    using find_map_rule [OF that, of "''probe-''"] by (simp add: cons)
  show "List.find (applies_to (''pin-probe-'' @ key)) (daemon_rules nodes pinned @ rules)
     = Some (tag_rule (''pin-probe-'' @ key) (pin_tag key))" if "key \<in> set pinned"
    using find_map_rule [OF that, of "''pin-probe-''"] find_other_map_rule [of nodes "''pin-probe-'' @ key" "''probe-''"]
    by (simp add: cons)
qed

text \<open>C23: control and probe traffic is routed before every rule of the user.  In the prepared configuration the
  first rule that can match traffic from the control inbound sends it to the control interface, from the
  probe inbound of a node to that node, from the probe inbound of a pinned endpoint to that endpoint, and from
  the inbounds of a named exit with a forced target to that target; with failover, what no rule of the user
  matched goes to the failover balancer and never out directly.\<close>

theorem prepared_rules_first_match:
  assumes "prepare_xray L uid prm mark = Ok p"
  shows "\<exists>out rules. xl_print_json L out = Some (xn_config p) \<and> jidx (jidx out ''routing'') ''rules'' = JArr rules
    \<and> List.find (applies_to ''api-in'') rules = Some (tag_rule ''api-in'' ''api'')
    \<and> (\<forall>f. xn_failover p = Some f \<longrightarrow> last rules = catch_all
         \<and> (\<forall>key \<in> set (fp_nodes f). List.find (applies_to (''probe-'' @ key)) rules = Some (tag_rule (''probe-'' @ key) (node_tag key))))
    \<and> (\<forall>key \<in> set (xn_pinned_keys p). List.find (applies_to (''pin-probe-'' @ key)) rules
         = Some (tag_rule (''pin-probe-'' @ key) (pin_tag key)))
    \<and> (\<forall>e \<in> set (xn_proxy_exits p). \<forall>r. exit_rule e = Some r \<longrightarrow>
         List.find (applies_to (''proxy-socks-'' @ pb_name e)) rules = Some r
         \<and> List.find (applies_to (''proxy-http-'' @ pb_name e)) rules = Some r)"
proof -
  obtain config out where c: "validate_generated (xl_net L) config = Pass"
    "rewrite_config (xn_name p) (xn_mtu p) mark (xn_failover p) (xn_pinned_keys p) (xn_proxy_exits p) config = Ok out"
    "xl_print_json L out = Some (xn_config p)"
    "bindings (xc_proxy_exits prm) config = Ok (xn_proxy_exits p)"
    by (rule prepare_xray_Ok [OF assms])
  obtain outs where o: "jidx config ''outbounds'' = JArr outs" by (rule generated_outbounds [OF c(1)])
  obtain rules where r: "jidx (jidx config ''routing'') ''rules'' = JArr rules" by (rule generated_rules [OF c(1)])
  define tail where "tail = rules @ (if xn_failover p \<noteq> None then [catch_all] else [])"
  define own where "own = daemon_rules (failover_nodes (xn_failover p)) (xn_pinned_keys p) @ tail"
  define all where "all = List.map_filter exit_rule (xn_proxy_exits p) @ own"
  have out: "jidx (jidx out ''routing'') ''rules'' = JArr all"
    by (rule rewrite_config_Ok [OF c(2) r o]) (simp add: all_def own_def tail_def)
  have d: "distinct (map pb_name (xn_proxy_exits p))" using bindings_Ok [OF c(4)] by simp
  note skip = find_exit_rules [of "xn_proxy_exits p" _ own, folded all_def]
  have "List.find (applies_to ''api-in'') all = Some (tag_rule ''api-in'' ''api'')"
    using skip [of "''api-in''"] find_daemon_rules(1) by (simp add: own_def)
  moreover have "last all = catch_all" if "xn_failover p = Some f" for f
    using that by (simp add: all_def own_def tail_def)
  moreover have "List.find (applies_to (''probe-'' @ key)) all = Some (tag_rule (''probe-'' @ key) (node_tag key))"
    if "xn_failover p = Some f" "key \<in> set (fp_nodes f)" for f key
    using that skip [of "''probe-'' @ key"] find_daemon_rules(2) [of key "fp_nodes f"] by (simp add: own_def failover_nodes_def)
  moreover have "List.find (applies_to (''pin-probe-'' @ key)) all = Some (tag_rule (''pin-probe-'' @ key) (pin_tag key))"
    if "key \<in> set (xn_pinned_keys p)" for key
    using that skip [of "''pin-probe-'' @ key"] find_daemon_rules(3) by (simp add: own_def)
  moreover have "List.find (applies_to (''proxy-socks-'' @ pb_name e)) all = Some r"
    "List.find (applies_to (''proxy-http-'' @ pb_name e)) all = Some r"
    if "e \<in> set (xn_proxy_exits p)" "exit_rule e = Some r" for e r
    unfolding all_def by (rule find_own_exit_rule [OF d that], simp)+
  ultimately show ?thesis using c(3) out by blast
qed

section \<open>The example prepared\<close>

definition example_libs :: xray_libs where
  "example_libs = \<lparr> xl_net = word_ipnet, xl_parse_json = (\<lambda>s. if s = ''{}'' then Some example_config else None),
     xl_print_json = (\<lambda>v. Some ''out''),
     xl_parse_url = (\<lambda>s. Some \<lparr> url_scheme = ''https'', url_host = Some ''h'', url_username = [], url_password = None,
        url_fragment = None, url_port = Some 443, url_text = s \<rparr>),
     xl_full_coverage = (\<lambda>ns. (False, False)) \<rparr>"

definition example_request :: xray_params where
  "example_request = \<lparr> xc_profile_id = ''p1'', xc_config = ''{}'', xc_routes = [\<lparr> pr_destination = IpNet (V4 0x0A000000) 8, pr_metric = 0, pr_via = None \<rparr>],
     xc_dns_servers = [], xc_dns_domains = [], xc_dns_bypass = [], xc_interface_name = None, xc_geo_assets = None,
     xc_failover = Some \<lparr> fp_nodes = [''0123456789abcdef''], fp_primary_key = ''0123456789abcdef'',
        fp_auto_return_primary = True, fp_probe_url = ''https://h/'', fp_interval_secs = 10 \<rparr>,
     xc_reject_quic = False, xc_probe_url = None, xc_mtu = None, xc_service_checks = [],
     xc_proxy_exits = [\<lparr> ne_name = ''work'', ne_target = Node ''0123456789abcdef'', ne_no_proxy = [] \<rparr>] \<rparr>"

definition example_exit :: proxy_exit_binding where
  "example_exit = \<lparr> pb_name = ''work'', pb_target = Node ''0123456789abcdef'' \<rparr>"

lemma example_request_ok: "xray_request_ok example_libs example_request 51820"
proof -
  have "net_trunc word_ipnet (IpNet (V4 0x0A000000) 8) = IpNet (V4 0x0A000000) 8" by code_simp
  then show ?thesis by (simp add: xray_request_ok_def example_libs_def example_request_def)
qed

lemma example_owner: "validate_owner (''xray:'' @ xc_profile_id example_request)"
  by code_simp

lemma example_bindings: "bindings (xc_proxy_exits example_request) example_config = Ok [example_exit]"
  by code_simp

lemma example_failover:
  "validate_failover example_libs (the (xc_failover example_request)) example_config = Ok (the (xc_failover example_request))"
  by code_simp

lemma example_pinned:
  "List.map_filter pinned_key (jelems (jidx example_config ''outbounds'')) = [''0123456789abcdef'']"
  by code_simp

lemma example_rewrite:
  "is_ok (rewrite_config n 1500 51820 (xc_failover example_request) [''0123456789abcdef''] [example_exit] example_config)"
  by code_simp

lemma example_prepared:
  obtains p where "prepare_xray example_libs 1000 example_request 51820 = Ok p"
    "xn_failover p = xc_failover example_request" "xn_pinned_keys p = [''0123456789abcdef'']"
    "xn_proxy_exits p = [example_exit]" "xn_server_hosts p = [''a.example'']"
proof -
  let ?name = "fst (tunnel_link_names ''xray-'' 1000 (xc_profile_id example_request) (xc_interface_name example_request))"
  obtain out where out: "rewrite_config ?name 1500 51820 (xc_failover example_request) [''0123456789abcdef''] [example_exit]
      example_config = Ok out" using example_rewrite [of ?name]
    by (cases "rewrite_config ?name 1500 51820 (xc_failover example_request) [''0123456789abcdef''] [example_exit]
      example_config") simp_all
  have hosts: "foldl push_unique [] (List.map_filter outbound_host (jelems (jidx example_config ''outbounds''))) = [''a.example'']"
    by code_simp
  obtain f where f: "xc_failover example_request = Some f" by (simp add: example_request_def)
  have libs: "xl_parse_json example_libs (xc_config example_request) = Some example_config"
    "xl_print_json example_libs v = Some ''out''" "xl_net example_libs = word_ipnet" for v
    by (simp_all add: example_libs_def example_request_def)
  have prm: "length (xc_config example_request) \<le> MAX_XRAY_CONFIG_BYTES" "length (xc_routes example_request) \<le> 64"
    "xc_dns_servers example_request = []" "xc_dns_domains example_request = []" "xc_probe_url example_request = None"
    "validate_service_checks example_libs (xc_service_checks example_request)" "xc_mtu example_request = None"
    by (simp_all add: example_request_def MAX_XRAY_CONFIG_BYTES_def validate_service_checks_def)
  have pool: "\<not> list_ex (\<lambda>e. case pb_target e of Pool _ \<Rightarrow> True | _ \<Rightarrow> False) [example_exit]"
    by (simp add: example_exit_def)
  have "\<exists>p. prepare_xray example_libs 1000 example_request 51820 = Ok p \<and>
    xn_failover p = xc_failover example_request \<and> xn_pinned_keys p = [''0123456789abcdef'']
    \<and> xn_proxy_exits p = [example_exit] \<and> xn_server_hosts p = [''a.example'']"
    using example_owner example_failover out
    by (simp add: prepare_xray_def example_request_ok example_config_accepted example_bindings
        example_pinned hosts libs prm pool opt_or_def guard_def after_def andthen_def f Let_def)
  then show ?thesis using that by blast
qed

theorem prepared_outbounds_marked_witness:
  "\<exists>p config out. prepare_xray example_libs 1000 example_request 51820 = Ok p \<and> xl_print_json example_libs out = Some (xn_config p)
   \<and> xl_parse_json example_libs (xc_config example_request) = Some config
   \<and> list_all (\<lambda>x. jidx x ''protocol'' = JStr ''blackhole''
         \<or> jidx (jidx (jidx x ''streamSettings'') ''sockopt'') ''mark'' = JInt 51820) (jelems (jidx out ''outbounds''))
   \<and> xn_server_hosts p = [''a.example'']"
proof -
  obtain p where p: "prepare_xray example_libs 1000 example_request 51820 = Ok p" "xn_server_hosts p = [''a.example'']"
    by (rule example_prepared)
  then show ?thesis using prepared_outbounds_marked [OF p(1)] by (auto simp: list_all_iff)
qed

theorem prepared_inbounds_loopback_witness:
  "\<exists>p out dest rest. prepare_xray example_libs 1000 example_request 51820 = Ok p
   \<and> xl_print_json example_libs out = Some (xn_config p)
   \<and> jidx out ''inbounds'' = JArr (tun_inbound (xn_name p) (xn_mtu p) dest # rest)
   \<and> list_all (\<lambda>x. jidx x ''listen'' = JStr ''127.0.0.1'') rest"
proof -
  obtain p where p: "prepare_xray example_libs 1000 example_request 51820 = Ok p" by (rule example_prepared)
  then show ?thesis using prepared_inbounds_loopback [OF p] unfolding list_all_iff by blast
qed

theorem prepared_rules_first_match_witness:
  "\<exists>p out rules. prepare_xray example_libs 1000 example_request 51820 = Ok p \<and> xl_print_json example_libs out = Some (xn_config p)
   \<and> jidx (jidx out ''routing'') ''rules'' = JArr rules \<and> last rules = catch_all
   \<and> List.find (applies_to ''probe-0123456789abcdef'') rules
     = Some (tag_rule ''probe-0123456789abcdef'' ''node-0123456789abcdef'')
   \<and> List.find (applies_to ''proxy-socks-work'') rules = exit_rule example_exit"
proof -
  obtain p where p: "prepare_xray example_libs 1000 example_request 51820 = Ok p"
    "xn_failover p = xc_failover example_request" "xn_proxy_exits p = [example_exit]" by (rule example_prepared)
  obtain f where f: "xc_failover example_request = Some f" "fp_nodes f = [''0123456789abcdef'']"
    by (simp add: example_request_def)
  obtain r where r: "exit_rule example_exit = Some r" "pb_name example_exit = ''work''"
    by (simp add: exit_rule_def example_exit_def)
  show ?thesis using prepared_rules_first_match [OF p(1)] p f r by (auto simp: node_tag_def)
qed

section \<open>Pinning keeps the plan safe\<close>

definition ip_host :: "(nat \<Rightarrow> string \<Rightarrow> ip_addr list) \<Rightarrow> string \<Rightarrow> bool" where
  "ip_host resolve host \<longleftrightarrow> addr_parse host \<noteq> None \<or> (\<exists>n name. \<exists>ip \<in> set (resolve n name). host = addr_text ip)"

lemma prefer_ipv4_in: "prefer_ipv4 ips = Some ip \<Longrightarrow> ip \<in> set ips"
  by (auto simp: prefer_ipv4_def find_Some_iff split: option.splits list.splits)

definition cache_ok :: "(nat \<Rightarrow> string \<Rightarrow> ip_addr list) \<Rightarrow> pinning \<Rightarrow> bool" where
  "cache_ok resolve st \<longleftrightarrow> (\<forall>name ip. map_of (pn_resolved st) name = Some (Some ip) \<longrightarrow> (\<exists>n. ip \<in> set (resolve n name)))"

lemma resolve_once_ok:
  assumes "resolve_once resolve host st = (found, st')" and "cache_ok resolve st"
  shows "cache_ok resolve st' \<and> pn_all st' = pn_all st \<and> pn_unpinned st' = pn_unpinned st
    \<and> (\<forall>ip. found = Some ip \<longrightarrow> (\<exists>n. ip \<in> set (resolve n host)))"
proof (cases "map_of (pn_resolved st) host")
  case None
  then show ?thesis using assms
    by (auto simp: resolve_once_def cache_ok_def Let_def dest!: prefer_ipv4_in split: if_splits)
next
  case (Some known)
  then show ?thesis using assms by (auto simp: resolve_once_def cache_ok_def)
qed

lemma index_mut_Ok:
  assumes "index_mut key v = Ok w"
  shows "jidx w k = jidx v k \<and> (\<exists>m. w = JObj m)"
  using assms by (cases v) (auto simp: index_mut_def jidx_def jget_def jfields_def opt_or_def jset_def update_conv' split: if_splits)

text \<open>What pinning may change.  Two objects agree but for some keys when every other lookup gives the same; a security
  section gets the old host name as its server name unless it has one.\<close>

definition agrees_but :: "string set \<Rightarrow> json \<Rightarrow> json \<Rightarrow> bool" where
  "agrees_but K x y \<longleftrightarrow> (\<forall>k. k \<notin> K \<longrightarrow> jidx y k = jidx x k)"

definition with_server_name :: "string \<Rightarrow> json \<Rightarrow> json" where
  "with_server_name host sec =
     (if as_object sec \<noteq> None \<and> jget sec ''serverName'' = None then jset ''serverName'' (JStr host) sec else sec)"

definition same_settings :: "json \<Rightarrow> json \<Rightarrow> bool" where
  "same_settings x y \<longleftrightarrow>
     (let s = jidx x ''settings''; t = jidx y ''settings'' in
      if jidx x ''protocol'' = JStr ''vless''
      then agrees_but {''vnext''} s t \<and> (\<exists>a b rest. jidx s ''vnext'' = JArr (a # rest) \<and> jidx t ''vnext'' = JArr (b # rest)
        \<and> agrees_but {''address''} a b)
      else agrees_but {''address''} s t)"

definition same_stream :: "string \<Rightarrow> json \<Rightarrow> json \<Rightarrow> bool" where
  "same_stream host s t \<longleftrightarrow> agrees_but {''tlsSettings'', ''realitySettings''} s t
     \<and> (\<forall>sec \<in> {''tlsSettings'', ''realitySettings''}. jidx t sec = with_server_name host (jidx s sec))"

text \<open>An outbound after pinning: as it was, or dialling an address the resolver gave for its host name, with every other
  setting as it was.\<close>

definition same_outbound :: "(nat \<Rightarrow> string \<Rightarrow> ip_addr list) \<Rightarrow> json \<Rightarrow> json \<Rightarrow> bool" where
  "same_outbound resolve x y \<longleftrightarrow> y = x \<or>
     (\<exists>host n. \<exists>ip \<in> set (resolve n host). outbound_host x = Some host \<and> addr_parse host = None \<and> outbound_host y = Some (addr_text ip)
        \<and> agrees_but {''settings'', ''streamSettings''} x y \<and> same_settings x y
        \<and> same_stream host (jidx x ''streamSettings'') (jidx y ''streamSettings''))"

lemma default_server_name_Ok:
  assumes "default_server_name host x sec = Ok y"
  shows "agrees_but {''streamSettings''} x y \<and> agrees_but {sec} (jidx x ''streamSettings'') (jidx y ''streamSettings'')
    \<and> jidx (jidx y ''streamSettings'') sec = with_server_name host (jidx (jidx x ''streamSettings'') sec)"
proof -
  from assms obtain a b where a: "index_mut ''streamSettings'' x = Ok a" and b: "index_mut sec (jidx a ''streamSettings'') = Ok b"
    and y: "y = jset ''streamSettings'' (if as_object (jidx b sec) \<noteq> None \<and> jget (jidx b sec) ''serverName'' = None
                   then jset sec (jset ''serverName'' (JStr host) (jidx b sec)) b else b) a"
    by (auto simp: default_server_name_def Let_def)
  show ?thesis using index_mut_Ok [OF a] index_mut_Ok [OF b] y by (auto simp: agrees_but_def with_server_name_def)
qed

lemma set_host_frame:
  "k \<noteq> ''settings'' \<Longrightarrow> jidx (set_host text x) k = jidx x k"
  by (simp add: set_host_def Let_def)

lemma outbound_host_vnext:
  assumes "outbound_host x = Some host" and "jidx x ''protocol'' = JStr ''vless''"
  obtains a rest where "jidx (jidx x ''settings'') ''vnext'' = JArr (a # rest)"
proof -
  obtain xs where xs: "jidx (jidx x ''settings'') ''vnext'' = JArr xs" "xs \<noteq> []" using assms
    by (cases "jidx (jidx x ''settings'') ''vnext''") (auto simp: outbound_host_def jnth_def jidx_def jget_def opt_or_def split: if_splits)
  then show ?thesis using that by (cases xs) simp_all
qed

lemma set_host_host:
  assumes "outbound_host x = Some host"
  shows "outbound_host (set_host text x) = Some text \<and> same_settings x (set_host text x)"
proof (cases "jidx x ''protocol'' = JStr ''vless''")
  case True
  then obtain a rest where "jidx (jidx x ''settings'') ''vnext'' = JArr (a # rest)" by (rule outbound_host_vnext [OF assms])
  then show ?thesis using True by (simp add: outbound_host_def set_host_def jnth_def same_settings_def agrees_but_def)
next
  case False
  then show ?thesis using assms by (auto simp: outbound_host_def set_host_def same_settings_def agrees_but_def split: if_splits)
qed

lemma outbound_host_cong:
  "jidx y ''protocol'' = jidx x ''protocol'' \<Longrightarrow> jidx y ''settings'' = jidx x ''settings'' \<Longrightarrow> outbound_host y = outbound_host x"
  by (simp add: outbound_host_def)

lemma readdressed:
  assumes "default_server_name host (set_host (addr_text ip) x) ''tlsSettings'' = Ok a" and "default_server_name host a ''realitySettings'' = Ok y"
    and "outbound_host x = Some host" and "addr_parse host = None" and "ip \<in> set (resolve n host)"
  shows "same_outbound resolve x y \<and> outbound_host y = Some (addr_text ip)"
proof -
  let ?x = "set_host (addr_text ip) x"
  note a = default_server_name_Ok [OF assms(1)] and b = default_server_name_Ok [OF assms(2)] and x = set_host_host [OF assms(3), of "addr_text ip"]
  have ay: "jidx y k = jidx ?x k" if "k \<noteq> ''streamSettings''" for k using a b that by (simp add: agrees_but_def)
  have host: "outbound_host y = Some (addr_text ip)" using outbound_host_cong [of y ?x] ay x by simp
  have "agrees_but {''settings'', ''streamSettings''} x y" using ay set_host_frame by (simp add: agrees_but_def)
  moreover have "same_settings x y" using x ay by (simp add: same_settings_def)
  moreover have "same_stream host (jidx x ''streamSettings'') (jidx y ''streamSettings'')"
    using a b set_host_frame [of "''streamSettings''" "addr_text ip" x] by (simp add: same_stream_def agrees_but_def)
  ultimately show ?thesis using host assms(3-5) unfolding same_outbound_def by blast
qed

definition pinning_ok :: "(nat \<Rightarrow> string \<Rightarrow> ip_addr list) \<Rightarrow> pinning \<Rightarrow> bool" where
  "pinning_ok resolve st \<longleftrightarrow> cache_ok resolve st \<and> (pn_all st \<longleftrightarrow> pn_unpinned st = [])"

text \<open>The accounting of one run over some outbounds \<open>ys\<close>: the names noted as left alone are hosts of \<open>ys\<close>, and every
  other host of \<open>ys\<close> is an address.\<close>

definition accounted :: "(nat \<Rightarrow> string \<Rightarrow> ip_addr list) \<Rightarrow> json list \<Rightarrow> pinning \<Rightarrow> pinning \<Rightarrow> bool" where
  "accounted resolve ys st st' \<longleftrightarrow> set (pn_unpinned st) \<subseteq> set (pn_unpinned st')
     \<and> (\<forall>h \<in> set (pn_unpinned st') - set (pn_unpinned st). addr_parse h = None \<and> Some h \<in> outbound_host ` set ys)
     \<and> (\<forall>h. Some h \<in> outbound_host ` set ys \<longrightarrow> ip_host resolve h \<or> h \<in> set (pn_unpinned st'))"

lemma push_unique_set [simp]: "set (push_unique xs x) = insert x (set xs)"
  by (auto simp: push_unique_def)

lemma push_unique_not_Nil [simp]: "push_unique xs x \<noteq> []"
  by (auto simp: push_unique_def)

lemma pin_outbound_Ok:
  assumes "pin_outbound resolve x st = Ok (y, st')" and "pinning_ok resolve st"
  shows "pinning_ok resolve st' \<and> same_outbound resolve x y \<and> accounted resolve [y] st st'"
proof (cases "outbound_host x")
  case None
  then show ?thesis using assms by (auto simp: pin_outbound_def same_outbound_def accounted_def)
next
  case (Some host)
  obtain found st1 where f: "(if carries_name x then resolve_once resolve host st else (None, st)) = (found, st1)"
    by (rule prod.exhaust)
  have st1: "cache_ok resolve st1" "pn_all st1 = pn_all st" "pn_unpinned st1 = pn_unpinned st"
    "\<forall>ip. found = Some ip \<longrightarrow> (\<exists>n. ip \<in> set (resolve n host))"
    using f assms(2) resolve_once_ok [of resolve host st found st1] by (auto simp: pinning_ok_def split: if_splits)
  consider (literal) "addr_parse host \<noteq> None" "y = x" "st' = st"
    | (unresolved) "addr_parse host = None" "y = x" "st' = st1\<lparr>pn_all := False, pn_unpinned := push_unique (pn_unpinned st1) host\<rparr>"
    | (resolved) ip a where "addr_parse host = None" "found = Some ip" "default_server_name host (set_host (addr_text ip) x) ''tlsSettings'' = Ok a"
        "default_server_name host a ''realitySettings'' = Ok y" "st' = st1"
    using assms(1) Some f by (auto simp: pin_outbound_def split: if_splits option.splits)
  then show ?thesis
  proof cases
    case literal
    then show ?thesis using assms(2) Some by (auto simp: same_outbound_def ip_host_def accounted_def)
  next
    case unresolved
    then show ?thesis using st1 Some by (auto simp: pinning_ok_def same_outbound_def cache_ok_def accounted_def)
  next
    case resolved
    obtain n where n: "ip \<in> set (resolve n host)" using st1(4) resolved(2) by blast
    note r = readdressed [OF resolved(3,4) Some resolved(1), of resolve n, OF n]
    have "ip_host resolve (addr_text ip)" using n by (auto simp: ip_host_def)
    then show ?thesis using assms(2) st1 resolved(5) r by (auto simp: pinning_ok_def accounted_def)
  qed
qed

lemma accounted_Cons: "accounted resolve [y] st st1 \<Longrightarrow> accounted resolve ys st1 st' \<Longrightarrow> accounted resolve (y # ys) st st'"
  unfolding accounted_def by (simp add: subset_iff) blast

lemma pin_outbounds_Ok:
  assumes "pin_outbounds resolve xs st = Ok (ys, st')" and "pinning_ok resolve st"
  shows "pinning_ok resolve st' \<and> list_all2 (same_outbound resolve) xs ys \<and> accounted resolve ys st st'"
  using assms
proof (induction xs arbitrary: st ys)
  case Nil
  then show ?case by (simp add: accounted_def)
next
  case (Cons x xs)
  then obtain y st1 zs where "pin_outbound resolve x st = Ok (y, st1)" "pin_outbounds resolve xs st1 = Ok (zs, st')"
    "ys = y # zs" by auto
  then show ?case using Cons.IH [of st1 zs] pin_outbound_Ok [of resolve x st y st1] Cons.prems(2) accounted_Cons by auto
qed

text \<open>C26: pinned servers are dialled by address, and nothing else changes.  When the outbounds of the configuration are an
  array, each of them stays as it is or dials, in place of its host name, an address the resolver gave for that name: tag,
  protocol, users, ports, further servers, socket options with the daemon's mark and all other settings are kept, and a TLS
  or REALITY section without a server name gets the old host name.  The plan lists the hosts now dialled.  The unpinned
  hosts are host names among them and all others are addresses (literals of the request or answers of the resolver); the
  plan counts as pinned exactly when no host is unpinned.  Mark and routes of the plan stay.\<close>

theorem pin_server_addresses_safe:
  assumes "pin_server_addresses L resolve p = Ok q" and "xl_parse_json L (xn_config p) = Some config"
    and "jidx config ''outbounds'' = JArr outs" and "\<forall>v. xl_print_json L v \<noteq> None"
  shows "\<exists>ys. list_all2 (same_outbound resolve) outs ys
    \<and> xl_print_json L (jset ''outbounds'' (JArr ys) config) = Some (xn_config q)
    \<and> xn_server_hosts q = List.map_filter outbound_host ys
    \<and> (\<forall>h \<in> set (xn_server_hosts q). ip_host resolve h \<or> h \<in> set (xn_unpinned_hosts q))
    \<and> (\<forall>h \<in> set (xn_unpinned_hosts q). h \<in> set (xn_server_hosts q) \<and> addr_parse h = None)
    \<and> (xn_server_pinned q \<longleftrightarrow> xn_unpinned_hosts q = [])
    \<and> xn_mark q = xn_mark p \<and> xn_routes q = xn_routes p"
proof -
  have "jget config ''outbounds'' = Some (JArr outs)" using assms(3) by (auto simp: jidx_def opt_or_def split: option.splits)
  then have c: "index_mut ''outbounds'' config = Ok config"
    by (cases config) (auto simp: index_mut_def jget_def)
  have "\<exists>r. pin_outbounds resolve outs no_pins = Ok r" using assms(1-3) c
    by (cases "pin_outbounds resolve outs no_pins") (simp_all add: pin_server_addresses_def andthen_def)
  then obtain ys st where y: "pin_outbounds resolve outs no_pins = Ok (ys, st)" by auto
  obtain printed where t: "xl_print_json L (jset ''outbounds'' (JArr ys) config) = Some printed" using assms(4) by blast
  have q: "q = p\<lparr>xn_server_hosts := List.map_filter outbound_host ys, xn_config := printed,
            xn_unpinned_hosts := pn_unpinned st, xn_server_pinned := pn_all st\<rparr>"
    using assms(1-3) c y t by (simp add: pin_server_addresses_def andthen_def Let_def)
  have h: "h \<in> set (List.map_filter outbound_host ys) \<longleftrightarrow> Some h \<in> outbound_host ` set ys" for h
    by (induction ys) (auto simp: List.map_filter_simps split: option.split)
  have "pinning_ok resolve no_pins" by (simp add: pinning_ok_def cache_ok_def no_pins_def)
  from pin_outbounds_Ok [OF y this] have "pinning_ok resolve st" "list_all2 (same_outbound resolve) outs ys"
    "accounted resolve ys no_pins st" by simp_all
  then show ?thesis using q t h by (intro exI [of _ ys]) (simp add: pinning_ok_def accounted_def no_pins_def)
qed

definition example_plan :: xray_plan where
  "example_plan = \<lparr> xn_profile_id = ''p1'', xn_name = ''xray-p1'', xn_config = ''{}'', xn_routes = [],
     xn_address = IpNet (V4 0xC6120001) 32, xn_mtu = 1500, xn_dns_servers = [], xn_dns_domains = [], xn_dns_bypass = [],
     xn_full_ipv4 = False, xn_full_ipv6 = False, xn_mark = 51820, xn_api_port = 10185, xn_server_hosts = [''a.example''],
     xn_unpinned_hosts = [], xn_server_pinned = False, xn_failover = None, xn_reject_quic = False, xn_probe_url = None,
     xn_pinned_keys = [''0123456789abcdef''], xn_service_checks = [], xn_proxy_exits = [], xn_geo_assets = None \<rparr>"

definition example_resolve :: "nat \<Rightarrow> string \<Rightarrow> ip_addr list" where
  "example_resolve n name = (if name = ''a.example'' then [V6 1, V4 (if n = 0 then 0x0A000001 else 0x0A000002)] else [])"

theorem pin_server_addresses_safe_witness:
  "\<exists>q. pin_server_addresses example_libs example_resolve example_plan = Ok q \<and> xn_server_pinned q
     \<and> xn_server_hosts q = [''10.0.0.1'', ''10.0.0.1''] \<and> list_all (ip_host example_resolve) (xn_server_hosts q)
     \<and> xn_mark q = 51820"
proof -
  let ?r = "pin_server_addresses example_libs example_resolve example_plan"
  have e: "map_result (\<lambda>q. (xn_server_pinned q, xn_server_hosts q)) ?r = Ok (True, [''10.0.0.1'', ''10.0.0.1''])" by code_simp
  then obtain q where q: "?r = Ok q" by auto
  have "xl_parse_json example_libs (xn_config example_plan) = Some example_config"
    "\<forall>v. xl_print_json example_libs v \<noteq> None" by (simp_all add: example_libs_def example_plan_def)
  moreover obtain outs where "jidx example_config ''outbounds'' = JArr outs"
    by (rule generated_outbounds [OF example_config_accepted])
  ultimately show ?thesis using pin_server_addresses_safe [OF q, of example_config outs] q e by (auto simp: example_plan_def list_all_iff)
qed

end
