(* ===== verification/Cond_Routes.thy ===== *)
theory Cond_Routes
  imports Intents Egress
begin

text \<open>
  Conditional routes (\<open>match_interface\<close>, \<open>plan_routes\<close> of \<open>crates/daemon/src/cond_rules.rs\<close>;
  \<open>reconcile_conditional\<close>, \<open>cond_rule_status\<close>, \<open>owned_ifindices\<close>, \<open>reconcile_static_routes\<close> of
  \<open>crates/daemon/src/core.rs\<close>): stored rules whose routes are installed while the host has an address
  inside a prefix.
\<close>

section \<open>Matching and planning\<close>

definition COND_PREFIX :: string where "COND_PREFIX = ''cond:''"

definition NON_UPLINK_PREFIXES :: "string list" where
  "NON_UPLINK_PREFIXES = [''lo'', ''wg'', ''xray'', ''ovpn'', ''tun'', ''tap'', ''tailscale'', ''happ'', ''docker'', ''veth'',
     ''br-'', ''virbr'', ''vnet'', ''podman'', ''cni'', ''flannel'', ''lxc'', ''ppp'', ''gre'', ''gretap'', ''erspan'', ''ipip'',
     ''sit'', ''ip6tnl'', ''vti'', ''ifb'', ''dummy'', ''vcan'', ''vxcan'', ''nlmon'', ''zt'']"

definition non_uplink_name :: "string \<Rightarrow> bool" where
  "non_uplink_name name = list_ex (starts_with name) NON_UPLINK_PREFIXES"

fun min_by_ifindex :: "iface_addr list \<Rightarrow> iface_addr option" where
  "min_by_ifindex [] = None"
| "min_by_ifindex (a # as) =
     (case min_by_ifindex as of None \<Rightarrow> Some a | Some b \<Rightarrow> Some (if ia_ifindex a \<le> ia_ifindex b then a else b))"

definition candidate_addr :: "ipnet_crate \<Rightarrow> ip_net \<Rightarrow> nat set \<Rightarrow> iface_addr \<Rightarrow> bool" where
  "candidate_addr N pre owned_ifs a \<longleftrightarrow> ia_scope a = 0 \<and> ia_ifindex a \<noteq> 0 \<and> ia_ifindex a \<notin> owned_ifs
     \<and> \<not> non_uplink_name (ia_name a) \<and> net_has_addr N pre (net_addr (ia_address a))"

definition match_interface ::
    "ipnet_crate \<Rightarrow> iface_addr list \<Rightarrow> ip_net \<Rightarrow> nat set \<Rightarrow> (nat \<times> string) option" where
  "match_interface N addrs pre owned_ifs =
     map_option (\<lambda>a. (ia_ifindex a, ia_name a)) (min_by_ifindex (filter (candidate_addr N pre owned_ifs) addrs))"

definition plan_routes :: "cond_rule \<Rightarrow> nat \<Rightarrow> applied_route list" where
  "plan_routes rule ifindex = map (\<lambda>r. \<lparr> ar_destination = pr_destination r, ar_interface_index = ifindex,
     ar_metric = pr_metric r, ar_gateway = pr_via r, ar_table = None \<rparr>) (cnd_routes rule)"

definition owned_index :: "owned_resource \<Rightarrow> nat option" where
  "owned_index r = (case r of WireGuardLink l \<Rightarrow> Some (wl_index l) | XrayProcess p \<Rightarrow> Some (xp_index p)
     | Address a \<Rightarrow> Some (wa_interface_index a) | _ \<Rightarrow> None)"

definition owned_ifindices :: "'k daemon \<Rightarrow> nat set" where
  "owned_ifindices d = set (filter (\<lambda>i. i \<noteq> 0)
     (List.map_filter owned_index (concat (map je_resources (d_journal d)))))"

section \<open>The reconcile pass\<close>

definition cond_owner :: "cond_rule \<Rightarrow> string" where
  "cond_owner rule = COND_PREFIX @ cnd_id rule"

definition live_keys :: "(nat \<times> cond_rule) list \<Rightarrow> owner_key set" where
  "live_keys rules = (\<lambda>(uid, rule). (uid, cond_owner rule)) ` set rules"

text \<open>Orphans: entries of rules that are gone, from the newest.\<close>

fun drop_orphans ::
    "'k platform \<Rightarrow> owner_key set \<Rightarrow> nat \<Rightarrow> owner_key list \<Rightarrow> 'k daemon \<Rightarrow> owner_key list \<times> 'k daemon" where
  "drop_orphans P live 0 changed d = (changed, d)"
| "drop_orphans P live (Suc i) changed d =
     (let e = d_journal d ! i in
      if \<not> starts_with (je_owner e) COND_PREFIX \<or> je_key e \<in> live then drop_orphans P live i changed d
      else drop_orphans P live i (changed @ [je_key e]) (snd (remove_owner_inner P (je_uid e) (je_owner e) d)))"

definition matched_interface :: "ipnet_crate \<Rightarrow> iface_addr list \<Rightarrow> nat set \<Rightarrow> cond_rule \<Rightarrow> (nat \<times> string) option" where
  "matched_interface N addrs owned_ifs rule =
     (if cnd_enabled rule then (case cnd_condition rule of
        InterfaceAddressIn pre \<Rightarrow> match_interface N addrs pre owned_ifs) else None)"

fun route_of :: "owned_resource \<Rightarrow> applied_route option" where
  "route_of (Route r) = Some r"
| "route_of _ = None"

definition routes_of :: "journal_entry \<Rightarrow> applied_route list" where
  "routes_of e = List.map_filter route_of (je_resources e)"

definition in_sync :: "applied_route list \<Rightarrow> applied_route list \<Rightarrow> journal_entry \<Rightarrow> bool" where
  "in_sync observed routes e \<longleftrightarrow>
     je_state e = Applied \<and> length (routes_of e) = length routes
     \<and> list_all (\<lambda>r. r \<in> set (routes_of e)) routes
     \<and> list_all (\<lambda>r. list_ex (\<lambda>seen. kernel_route seen = kernel_route r) observed) routes"

text \<open>One rule: whether the step failed, whether the owner changed, and the new state.\<close>

definition converge_rule ::
    "ipnet_crate \<Rightarrow> 'k platform \<Rightarrow> applied_route list \<Rightarrow> nat \<Rightarrow> string \<Rightarrow> applied_route list option \<Rightarrow> 'k daemon
       \<Rightarrow> bool \<times> bool \<times> 'k daemon" where
  "converge_rule N P observed uid owner desired d =
     (case (owner_position uid owner d, desired) of
        (None, None) \<Rightarrow> (False, False, d)
      | (Some _, None) \<Rightarrow>
          (case remove_owner_inner P uid owner d of
             (Err _, d) \<Rightarrow> (True, False, d)
           | (Ok _, d) \<Rightarrow> (False, True, d))
      | (None, Some routes) \<Rightarrow>
          (case apply_routes_inner N P uid owner routes None d of
             (Ok _, d) \<Rightarrow> (False, True, d)
           | (Err _, d) \<Rightarrow> (True, False, d))
      | (Some i, Some routes) \<Rightarrow>
          if in_sync observed routes (d_journal d ! i) then (False, False, d)
          else (case remove_owner_inner P uid owner d of
                  (Err _, d) \<Rightarrow> (True, False, d)
                | (Ok _, d) \<Rightarrow>
                    (case apply_routes_inner N P uid owner routes None d of
                       (Ok _, d) \<Rightarrow> (False, True, d)
                     | (Err _, d) \<Rightarrow> (True, False, d))))"

definition reconcile_rule ::
    "ipnet_crate \<Rightarrow> 'k platform \<Rightarrow> iface_addr list \<Rightarrow> applied_route list \<Rightarrow> nat set \<Rightarrow> nat \<times> cond_rule
       \<Rightarrow> owner_key list \<times> 'k daemon \<Rightarrow> owner_key list \<times> 'k daemon" where
  "reconcile_rule N P addrs observed owned_ifs ur st =
     (let (uid, rule) = ur; (changed, d) = st; owner = cond_owner rule;
          matched = matched_interface N addrs owned_ifs rule;
          (failed, moved, d) = converge_rule N P observed uid owner
             (map_option (\<lambda>m. plan_routes rule (fst m)) matched) d
      in (if moved then changed @ [(uid, owner)] else changed,
          d\<lparr>d_cond_eval := (d_cond_eval d)((uid, cnd_id rule) \<mapsto>
              \<lparr> ce_matched_interface = map_option snd matched, ce_error = failed \<rparr>)\<rparr>))"

text \<open>Evaluations of rules that neither exist nor own anything are forgotten.\<close>

definition retain_eval :: "(nat \<times> cond_rule) list \<Rightarrow> 'k daemon \<Rightarrow> 'k daemon" where
  "retain_eval rules d =
     d\<lparr>d_cond_eval := (\<lambda>(uid, k).
         if list_ex (\<lambda>(u, rule). u = uid \<and> cnd_id rule = k) rules
            \<or> list_ex (\<lambda>e. starts_with (je_owner e) COND_PREFIX \<and> je_key e = (uid, COND_PREFIX @ k)) (d_journal d)
         then d_cond_eval d (uid, k) else None)\<rparr>"

definition reconcile_conditional ::
    "ipnet_crate \<Rightarrow> 'k platform \<Rightarrow> iface_addr list \<Rightarrow> applied_route list \<Rightarrow> (nat \<times> cond_rule) list
       \<Rightarrow> 'k daemon \<Rightarrow> owner_key list \<times> 'k daemon" where
  "reconcile_conditional N P addrs observed rules d =
     (let (changed, d) = drop_orphans P (live_keys rules) (length (d_journal d)) [] d;
          (changed, d) = fold (reconcile_rule N P addrs observed (owned_ifindices d)) rules (changed, d)
      in (changed, retain_eval rules d))"

section \<open>Status of a rule\<close>

datatype cond_rule_state = CR_Disabled | CR_Inactive | CR_Active | CR_Error

record cond_rule_status_view =
  crs_state :: cond_rule_state
  crs_matched_interface :: "string option"
  crs_applied_routes :: nat

definition cond_rule_status :: "nat \<Rightarrow> cond_rule \<Rightarrow> 'k daemon \<Rightarrow> cond_rule_status_view" where
  "cond_rule_status uid rule d =
     (let eval = d_cond_eval d (uid, cnd_id rule); pos = owner_position uid (''cond:'' @ cnd_id rule) d
      in \<lparr> crs_state =
             (if \<not> cnd_enabled rule then CR_Disabled
              else if (case eval of Some e \<Rightarrow> ce_error e | None \<Rightarrow> False) then CR_Error
              else case pos of Some i \<Rightarrow> if je_state (d_journal d ! i) = Applied then CR_Active else CR_Error
                   | None \<Rightarrow> CR_Inactive),
           crs_matched_interface = (case eval of Some e \<Rightarrow> ce_matched_interface e | None \<Rightarrow> None),
           crs_applied_routes = (case pos of Some i \<Rightarrow> length (je_resources (d_journal d ! i)) | None \<Rightarrow> 0) \<rparr>)"

section \<open>Static routes of always-on owners\<close>

definition static_missing :: "applied_route list \<Rightarrow> owner_key set \<Rightarrow> journal_entry \<Rightarrow> bool" where
  "static_missing observed replayable e \<longleftrightarrow>
     je_state e = Applied \<and> je_key e \<in> replayable
     \<and> \<not> (starts_with (je_owner e) ''wg:'' \<or> starts_with (je_owner e) ''ovpn:'' \<or> starts_with (je_owner e) ''xray:'')
     \<and> je_resources e \<noteq> [] \<and> list_all (\<lambda>r. route_of r \<noteq> None) (je_resources e)
     \<and> list_ex (\<lambda>r. case route_of r of Some x \<Rightarrow> \<not> list_ex (\<lambda>seen. kernel_route seen = kernel_route x) observed
                   | None \<Rightarrow> False) (je_resources e)"

fun static_loop ::
    "'k platform \<Rightarrow> (journal_entry \<Rightarrow> bool) \<Rightarrow> nat \<Rightarrow> nat \<times> bool \<Rightarrow> 'k daemon \<Rightarrow> (nat \<times> bool) \<times> 'k daemon" where
  "static_loop P missing 0 acc d = (acc, d)"
| "static_loop P missing (Suc i) (n, failed) d =
     (if missing (d_journal d ! i)
      then (case teardown_entry P i d of
              (Ok _, d) \<Rightarrow> static_loop P missing i (Suc n, failed) d
            | (Err _, d) \<Rightarrow> static_loop P missing i (n, True) d)
      else static_loop P missing i (n, failed) d)"

definition reconcile_static_routes ::
    "'k platform \<Rightarrow> applied_route list \<Rightarrow> owner_key set \<Rightarrow> 'k daemon \<Rightarrow> nat io \<times> 'k daemon" where
  "reconcile_static_routes P observed replayable d =
     (let ((n, failed), d) = static_loop P (static_missing observed replayable) (length (d_journal d)) (0, False) d;
          (saved, d) = save_journal P d
      in (case saved of Err e \<Rightarrow> Err e | Ok _ \<Rightarrow> if failed then Err Other else Ok n, d))"

section \<open>Frames\<close>

lemma cond_owner_prefix [simp]: "starts_with (cond_owner rule) COND_PREFIX"
  by (simp add: cond_owner_def)

lemma teardown_cond:
  assumes "i < length (d_journal d)" "starts_with (je_owner (d_journal d ! i)) COND_PREFIX"
  shows "teardown_entry P i d = teardown_generic_entry P i d"
proof -
  obtain s where "je_owner (d_journal d ! i) = ''cond:'' @ s"
    using starts_with_decomp [OF assms(2)] by (auto simp: COND_PREFIX_def)
  then have "\<not> starts_with (je_owner (d_journal d ! i)) ''wg:''" "\<not> starts_with (je_owner (d_journal d ! i)) ''ovpn:''"
    "\<not> starts_with (je_owner (d_journal d ! i)) ''xray:''" "\<not> starts_with (je_owner (d_journal d ! i)) ''ovpn-probe:''"
    by (simp_all add: starts_with_def)
  then show ?thesis by (simp add: teardown_entry_def Let_def)
qed

lemma eval_persist [simp]: "d_cond_eval (persist P d) = d_cond_eval d"
  by (cases "pf_save P (d_journal d) (d_world d)") (simp add: persist_def save_journal_def)

lemma teardown_generic_eval: "d_cond_eval (snd (teardown_generic_entry P i d)) = d_cond_eval d"
  by (auto simp: teardown_generic_entry_def finish_entry_def set_entry_def drop_entry_def Let_def
      split: prod.splits result.splits)

lemma apply_inner_eval:
  assumes "apply_routes_inner N P uid owner routes attach d = (res, d')"
  shows "d_cond_eval d' = d_cond_eval d"
  using assms
proof (cases rule: apply_routes_inner_cases)
  case (started res1 w1 w2)
  then show ?thesis by (cases res1) (auto split: if_splits prod.splits)
qed auto

lemma remove_inner_frame:
  assumes "remove_owner_inner P uid owner d = (res, d')" and "keys_distinct d" and "starts_with owner COND_PREFIX"
  shows "others uid owner d' = others uid owner d \<and> keys_distinct d' \<and> d_cond_eval d' = d_cond_eval d
    \<and> (is_ok res \<longrightarrow> owner_position uid owner d' = None)"
proof (cases "owner_position uid owner d")
  case None
  then show ?thesis using assms by (auto simp: remove_owner_inner_def)
next
  case (Some i)
  note i = owner_position_SomeD [OF Some]
  obtain r d1 where t: "teardown_entry P i d = (r, d1)" by (rule prod.exhaust)
  have d': "d' = persist P d1" "is_ok res = is_ok r" using assms(1) Some t by (auto simp: remove_owner_inner_def)
  have "je_owner (d_journal d ! i) = owner" using i by (simp add: je_key_def)
  then have "d_cond_eval d1 = d_cond_eval d"
    using t teardown_cond [of i d P] teardown_generic_eval [of P i d] i assms(3) by simp
  moreover have "others uid owner d1 = others uid owner d" using any.others_untouched [OF _ t] i by simp
  moreover have "keys_distinct d1" using any.keeps_keys_distinct [of i d P] t i assms(2) by simp
  moreover have "owner_position uid owner d1 = None" if "is_ok r"
    using that teardown_owner_ok(1) [OF Some, of P _ d1] t assms(2) by (cases r) auto
  ultimately show ?thesis using d' by auto
qed

lemma apply_inner_frame:
  assumes "apply_routes_inner N P uid owner routes None d = (res, d')" and "keys_distinct d"
  shows "others uid owner d' = others uid owner d \<and> keys_distinct d' \<and> d_cond_eval d' = d_cond_eval d"
proof -
  have "others uid owner d' = others uid owner d"
    using apply_routes_inner_outcome [OF assms(1)]
    by (cases res) (auto simp: apply_outcome_def je_key_def)
  then show ?thesis using apply_inner_eval [OF assms(1)] apply_routes_inner_keys [OF assms(2), of N P uid owner routes None] assms(1)
    by simp
qed

section \<open>One rule\<close>

abbreviation own_entries :: "owner_key \<Rightarrow> 'k daemon \<Rightarrow> journal" where
  "own_entries k d \<equiv> filter (\<lambda>e. je_key e = k) (d_journal d)"

abbreviation non_cond :: "'k daemon \<Rightarrow> journal" where
  "non_cond d \<equiv> filter (\<lambda>e. \<not> starts_with (je_owner e) COND_PREFIX) (d_journal d)"

text \<open>What a rule wants of the journal: no entry of its owner, or one applied entry with the planned routes.\<close>

definition settled :: "owner_key \<Rightarrow> applied_route list option \<Rightarrow> 'k daemon \<Rightarrow> bool" where
  "settled k desired d \<longleftrightarrow>
     (case desired of
        None \<Rightarrow> own_entries k d = []
      | Some routes \<Rightarrow> \<exists>e. own_entries k d = [e] \<and> je_state e = Applied
          \<and> set routes \<subseteq> set (routes_of e) \<and> length (routes_of e) = length routes)"

lemma own_other:
  assumes "others uid owner d' = others uid owner d" and "k \<noteq> (uid, owner)"
  shows "own_entries k d' = own_entries k d"
proof -
  have "filter (\<lambda>e. je_key e = k) J = filter (\<lambda>e. je_key e = k) (filter (\<lambda>e. je_key e \<noteq> (uid, owner)) J)" for J
    using assms(2) by (auto intro: filter_cong)
  from this [of "d_journal d'"] this [of "d_journal d"] show ?thesis unfolding assms(1) by simp
qed

lemma non_cond_other:
  assumes "others uid owner d' = others uid owner d" and "starts_with owner COND_PREFIX"
  shows "non_cond d' = non_cond d"
proof -
  have "filter (\<lambda>e. \<not> starts_with (je_owner e) COND_PREFIX) J =
      filter (\<lambda>e. \<not> starts_with (je_owner e) COND_PREFIX) (filter (\<lambda>e. je_key e \<noteq> (uid, owner)) J)" for J
    using assms(2) by (auto simp: je_key_def intro: filter_cong)
  from this [of "d_journal d'"] this [of "d_journal d"] show ?thesis unfolding assms(1) by simp
qed

lemma own_at:
  assumes "keys_distinct d" and "owner_position uid owner d = Some i"
  shows "own_entries (uid, owner) d = [d_journal d ! i]"
proof -
  note i = owner_position_SomeD [OF assms(2)]
  have "je_key e \<noteq> (uid, owner)" if "e \<in> set (take i (d_journal d)) \<union> set (drop (Suc i) (d_journal d))" for e
  proof -
    have "distinct (map je_key (take i (d_journal d)) @ je_key (d_journal d ! i) # map je_key (drop (Suc i) (d_journal d)))"
      using assms(1) i id_take_nth_drop [of i "d_journal d"] unfolding keys_distinct_def
      by (metis list.simps(9) map_append)
    then have "je_key (d_journal d ! i) \<notin> je_key ` (set (take i (d_journal d)) \<union> set (drop (Suc i) (d_journal d)))"
      by (simp add: image_Un)
    then show ?thesis using that i by (metis imageI)
  qed
  then have "filter (\<lambda>e. je_key e = (uid, owner)) (take i (d_journal d)) = []"
    "filter (\<lambda>e. je_key e = (uid, owner)) (drop (Suc i) (d_journal d)) = []" by (auto simp: filter_empty_conv)
  then show ?thesis using i id_take_nth_drop [of i "d_journal d"]
    by (metis (mono_tags, lifting) append_Nil filter.simps(2) filter_append)
qed

lemma routes_of_applied [simp]:
  "routes_of \<lparr> je_uid = u, je_owner = o', je_state = s, je_resources = map Route routes \<rparr> = routes"
proof -
  have "List.map_filter route_of (map Route routes) = routes" by (induction routes) (simp_all add: List.map_filter_def)
  then show ?thesis by (simp add: routes_of_def)
qed

lemma apply_settles:
  assumes "apply_routes_inner N P uid owner routes None d = (Ok n, d')" and "owner_position uid owner d = None"
  shows "settled (uid, owner) (Some routes) d'"
  using no_entry [OF assms(2)] apply_ok_journal [OF assms(1)]
  by (simp add: settled_def attach_resources_def je_key_def)

lemma converge_rule_ok:
  assumes "converge_rule N P observed uid owner desired d = (failed, moved, d')"
    and "keys_distinct d" and "starts_with owner COND_PREFIX"
  shows "others uid owner d' = others uid owner d \<and> keys_distinct d' \<and> d_cond_eval d' = d_cond_eval d
    \<and> (\<not> failed \<longrightarrow> settled (uid, owner) desired d')"
proof -
  have re: "others uid owner d' = others uid owner d \<and> keys_distinct d' \<and> d_cond_eval d' = d_cond_eval d
      \<and> (\<not> failed \<longrightarrow> settled (uid, owner) (Some routes) d')"
    if "remove_owner_inner P uid owner d = (Ok c, d1)" "apply_routes_inner N P uid owner routes None d1 = (res, d')"
      "failed = (\<not> is_ok res)" for c d1 res routes
  proof -
    note a = remove_inner_frame [OF that(1) assms(2,3)]
    then have k: "keys_distinct d1" "owner_position uid owner d1 = None" by auto
    show ?thesis using a apply_inner_frame [OF that(2) k(1)] apply_settles [of N P uid owner routes d1 _ d'] k(2) that
      by (cases res) auto
  qed
  have rm: "others uid owner d' = others uid owner d \<and> keys_distinct d' \<and> d_cond_eval d' = d_cond_eval d
      \<and> (is_ok res \<longrightarrow> settled (uid, owner) None d')" if "remove_owner_inner P uid owner d = (res, d')" for res
    using remove_inner_frame [OF that assms(2,3)] no_entry by (auto simp: settled_def)
  have ap: "others uid owner d' = others uid owner d \<and> keys_distinct d' \<and> d_cond_eval d' = d_cond_eval d
      \<and> (is_ok res \<longrightarrow> settled (uid, owner) (Some routes) d')"
    if "apply_routes_inner N P uid owner routes None d = (res, d')" "owner_position uid owner d = None" for res routes
    using apply_inner_frame [OF that(1) assms(2)] apply_settles [of N P uid owner routes d _ d'] that by (cases res) auto
  show ?thesis
  proof (cases "owner_position uid owner d")
    case None
    then show ?thesis using assms(1,2) no_entry [OF None] ap
      by (cases desired) (auto simp: converge_rule_def settled_def split: prod.splits result.splits)
  next
    case (Some i)
    show ?thesis
    proof (cases desired)
      case None
      then show ?thesis using assms(1) Some rm
        by (auto simp: converge_rule_def split: prod.splits result.splits)
    next
      case sm: (Some routes)
      show ?thesis
      proof (cases "in_sync observed routes (d_journal d ! i)")
        case True
        then have "settled (uid, owner) desired d"
          using own_at [OF assms(2) Some] sm by (auto simp: settled_def in_sync_def list_all_iff)
        then show ?thesis using True assms(1,2) Some sm by (simp add: converge_rule_def)
      next
        case False
        obtain r d1 where r: "remove_owner_inner P uid owner d = (r, d1)" by (rule prod.exhaust)
        show ?thesis
        proof (cases r)
          case (Err x)
          then have "failed" "d' = d1" using assms(1) Some sm False r by (simp_all add: converge_rule_def)
          then show ?thesis using rm [of r] r by simp
        next
          case (Ok c)
          obtain res d2 where a: "apply_routes_inner N P uid owner routes None d1 = (res, d2)" by (rule prod.exhaust)
          have "failed = (\<not> is_ok res)" "d2 = d'" using assms(1) Some sm False r Ok a
            by (cases res; simp add: converge_rule_def)+
          then show ?thesis using re [of c d1 routes res] r Ok a sm by simp
        qed
      qed
    qed
  qed
qed

section \<open>The whole pass\<close>

definition rule_key :: "nat \<times> cond_rule \<Rightarrow> nat \<times> string" where
  "rule_key ur = (fst ur, cnd_id (snd ur))"

definition journal_key :: "nat \<times> cond_rule \<Rightarrow> owner_key" where
  "journal_key ur = (fst ur, cond_owner (snd ur))"

definition desired_routes :: "ipnet_crate \<Rightarrow> iface_addr list \<Rightarrow> nat set \<Rightarrow> cond_rule \<Rightarrow> applied_route list option" where
  "desired_routes N addrs owned_ifs rule =
     map_option (\<lambda>m. plan_routes rule (fst m)) (matched_interface N addrs owned_ifs rule)"

definition rule_done :: "ipnet_crate \<Rightarrow> iface_addr list \<Rightarrow> nat set \<Rightarrow> nat \<times> cond_rule \<Rightarrow> 'k daemon \<Rightarrow> bool" where
  "rule_done N addrs owned_ifs ur d \<longleftrightarrow>
     (\<exists>ev. d_cond_eval d (rule_key ur) = Some ev
        \<and> ce_matched_interface ev = map_option snd (matched_interface N addrs owned_ifs (snd ur))
        \<and> (\<not> ce_error ev \<longrightarrow> settled (journal_key ur) (desired_routes N addrs owned_ifs (snd ur)) d))"

lemma journal_key_iff: "journal_key a = journal_key b \<longleftrightarrow> rule_key a = rule_key b"
  by (simp add: journal_key_def rule_key_def cond_owner_def)

lemma live_keys_eq: "live_keys rules = journal_key ` set rules"
  by (simp add: live_keys_def journal_key_def split_beta)

lemma settled_cong: "own_entries k d' = own_entries k d \<Longrightarrow> settled k x d' = settled k x d"
  by (cases x) (simp_all add: settled_def)

lemma reconcile_rule_ok:
  assumes "reconcile_rule N P addrs observed owned_ifs ur (changed, d) = (changed', d')" and "keys_distinct d"
  shows "keys_distinct d' \<and> rule_done N addrs owned_ifs ur d' \<and> non_cond d' = non_cond d
    \<and> (\<forall>k. k \<noteq> journal_key ur \<longrightarrow> own_entries k d' = own_entries k d)
    \<and> (\<forall>k. k \<noteq> rule_key ur \<longrightarrow> d_cond_eval d' k = d_cond_eval d k) \<and> set changed \<subseteq> set changed'"
proof -
  obtain uid rule where ur: "ur = (uid, rule)" by (rule prod.exhaust)
  obtain failed moved d1 where c: "converge_rule N P observed uid (cond_owner rule) (desired_routes N addrs owned_ifs rule) d
      = (failed, moved, d1)" by (metis prod_cases3)
  define ev where "ev = \<lparr> ce_matched_interface = map_option snd (matched_interface N addrs owned_ifs rule), ce_error = failed \<rparr>"
  have d': "d' = d1\<lparr>d_cond_eval := (d_cond_eval d1)((uid, cnd_id rule) \<mapsto> ev)\<rparr>"
    and ch: "changed' = (if moved then changed @ [(uid, cond_owner rule)] else changed)"
    using assms(1) c by (simp_all add: reconcile_rule_def ur desired_routes_def ev_def split: if_splits)
  note f = converge_rule_ok [OF c assms(2) cond_owner_prefix]
  have J: "d_journal d' = d_journal d1" by (simp add: d')
  have "rule_done N addrs owned_ifs ur d'"
    using f settled_cong [of "(uid, cond_owner rule)" d' d1] J
    by (auto simp: rule_done_def ur rule_key_def journal_key_def d' ev_def)
  moreover have "own_entries k d' = own_entries k d" if "k \<noteq> journal_key ur" for k
    using own_other [of uid "cond_owner rule" d1 d k] f that J by (simp add: ur journal_key_def)
  moreover have "non_cond d' = non_cond d" using non_cond_other [of uid "cond_owner rule" d1 d] f J by simp
  moreover have "keys_distinct d'" using f J by (simp add: keys_distinct_def)
  ultimately show ?thesis using f ch by (auto simp: ur rule_key_def d')
qed

lemma rule_done_cong:
  assumes "rule_done N addrs owned_ifs ur d" and "own_entries (journal_key ur) d' = own_entries (journal_key ur) d"
    and "d_cond_eval d' (rule_key ur) = d_cond_eval d (rule_key ur)"
  shows "rule_done N addrs owned_ifs ur d'"
  using assms settled_cong [OF assms(2)] by (auto simp: rule_done_def)

lemma fold_rules_ok:
  assumes "fold (reconcile_rule N P addrs observed owned_ifs) rules (changed, d) = (changed', d')" and "keys_distinct d"
    and "distinct (map rule_key rules)"
  shows "keys_distinct d' \<and> (\<forall>ur \<in> set rules. rule_done N addrs owned_ifs ur d') \<and> non_cond d' = non_cond d
    \<and> (\<forall>k. k \<notin> journal_key ` set rules \<longrightarrow> own_entries k d' = own_entries k d)
    \<and> (\<forall>k. k \<notin> rule_key ` set rules \<longrightarrow> d_cond_eval d' k = d_cond_eval d k) \<and> set changed \<subseteq> set changed'"
  using assms
proof (induction rules arbitrary: changed d)
  case (Cons ur rules)
  obtain c1 d1 where r: "reconcile_rule N P addrs observed owned_ifs ur (changed, d) = (c1, d1)" by (rule prod.exhaust)
  note a = reconcile_rule_ok [OF r Cons.prems(2)]
  have b: "keys_distinct d' \<and> (\<forall>ur \<in> set rules. rule_done N addrs owned_ifs ur d') \<and> non_cond d' = non_cond d1
    \<and> (\<forall>k. k \<notin> journal_key ` set rules \<longrightarrow> own_entries k d' = own_entries k d1)
    \<and> (\<forall>k. k \<notin> rule_key ` set rules \<longrightarrow> d_cond_eval d' k = d_cond_eval d1 k) \<and> set c1 \<subseteq> set changed'"
    using Cons.IH [of c1 d1] Cons.prems r a by simp
  have new: "rule_key ur \<notin> rule_key ` set rules" "journal_key ur \<notin> journal_key ` set rules"
    using Cons.prems(3) journal_key_iff [of ur] by auto
  then have "own_entries (journal_key ur) d' = own_entries (journal_key ur) d1"
    "d_cond_eval d' (rule_key ur) = d_cond_eval d1 (rule_key ur)" using b by blast+
  then have "rule_done N addrs owned_ifs ur d'" using a rule_done_cong [of N addrs owned_ifs ur d1 d'] by blast
  then show ?case using a b by auto
qed simp

lemma position_unique:
  assumes "keys_distinct d" and "i < length (d_journal d)"
  shows "owner_position (je_uid (d_journal d ! i)) (je_owner (d_journal d ! i)) d = Some i"
proof (cases "owner_position (je_uid (d_journal d ! i)) (je_owner (d_journal d ! i)) d")
  case None
  moreover have "je_key (d_journal d ! i) \<in> je_key ` set (d_journal d)" using assms(2) by simp
  ultimately show ?thesis by (simp add: owner_position_None_iff je_key_def)
next
  case (Some j)
  then have "map je_key (d_journal d) ! j = map je_key (d_journal d) ! i" "j < length (d_journal d)"
    using owner_position_SomeD [OF Some] assms(2) by (auto simp: je_key_def)
  then have "j = i" using assms nth_eq_iff_index_eq [of "map je_key (d_journal d)" j i] by (simp add: keys_distinct_def)
  then show ?thesis using Some by simp
qed

definition orphan :: "owner_key set \<Rightarrow> owner_key \<Rightarrow> bool" where
  "orphan live k \<longleftrightarrow> starts_with (snd k) COND_PREFIX \<and> k \<notin> live"

lemma drop_orphans_ok:
  assumes "drop_orphans P live i changed d = (changed', d')" and "keys_distinct d" and "i \<le> length (d_journal d)"
    and "\<forall>k \<in> set (drop i (map je_key (d_journal d))). orphan live k \<longrightarrow> k \<in> set changed"
  shows "keys_distinct d' \<and> non_cond d' = non_cond d \<and> d_cond_eval d' = d_cond_eval d
    \<and> (\<forall>k \<in> je_key ` set (d_journal d'). orphan live k \<longrightarrow> k \<in> set changed')
    \<and> (\<forall>k \<in> live. own_entries k d' = own_entries k d)"
  using assms
proof (induction i arbitrary: changed d)
  case (Suc i)
  define e where "e = d_journal d ! i"
  have len: "i < length (d_journal d)" using Suc.prems(3) by simp
  have dr: "drop i (map je_key (d_journal d)) = je_key e # drop (Suc i) (map je_key (d_journal d))"
    using len Cons_nth_drop_Suc [of i "map je_key (d_journal d)"] by (simp add: e_def)
  show ?case
  proof (cases "orphan live (je_key e)")
    case False
    then have "drop_orphans P live i changed d = (changed', d')"
      using Suc.prems(1) by (auto simp: e_def Let_def orphan_def je_key_def split: if_splits)
    moreover have "\<forall>k \<in> set (drop i (map je_key (d_journal d))). orphan live k \<longrightarrow> k \<in> set changed"
      using Suc.prems(4) False unfolding dr by auto
    ultimately show ?thesis using Suc.IH [of changed d] Suc.prems(2) len by simp
  next
    case True
    obtain res d1 where r: "remove_owner_inner P (je_uid e) (je_owner e) d = (res, d1)" by (rule prod.exhaust)
    have o: "starts_with (je_owner e) COND_PREFIX" using True by (simp add: orphan_def je_key_def)
    note f = remove_inner_frame [OF r Suc.prems(2) o]
    have run: "drop_orphans P live i (changed @ [je_key e]) d1 = (changed', d')"
      using Suc.prems(1) True r by (auto simp: e_def Let_def orphan_def je_key_def split: if_splits)
    obtain r0 d0 where t: "teardown_entry P i d = (r0, d0)" by (rule prod.exhaust)
    have "d_journal d1 = d_journal d0"
      using r position_unique [OF Suc.prems(2) len] t by (auto simp: remove_owner_inner_def e_def)
    then have keys: "map je_key (d_journal d1) =
        (if is_ok r0 then remove_nth i (map je_key (d_journal d)) else map je_key (d_journal d))"
      using any.keys_of [OF len t] by simp
    have "\<forall>k \<in> set (drop i (map je_key (d_journal d1))). orphan live k \<longrightarrow> k \<in> set (changed @ [je_key e])"
      using Suc.prems(4) len unfolding keys by (auto simp: remove_nth_def dr)
    moreover have "i \<le> length (d_journal d1)"
      using arg_cong [OF keys, of length] len by (auto simp: remove_nth_def split: if_splits)
    ultimately have IH: "keys_distinct d' \<and> non_cond d' = non_cond d1 \<and> d_cond_eval d' = d_cond_eval d1
        \<and> (\<forall>k \<in> je_key ` set (d_journal d'). orphan live k \<longrightarrow> k \<in> set changed')
        \<and> (\<forall>k \<in> live. own_entries k d' = own_entries k d1)"
      using Suc.IH [OF run] f by blast
    have "own_entries k d1 = own_entries k d" if "k \<in> live" for k
      using own_other [of "je_uid e" "je_owner e" d1 d k] f that True by (auto simp: orphan_def je_key_def)
    then show ?thesis using IH f non_cond_other [of "je_uid e" "je_owner e" d1 d] o by simp
  qed
qed (auto simp: set_map)

text \<open>C22: the conditional-route pass converges the journal to the rules.  Whatever the executors do, every rule is
  evaluated, and a rule whose evaluation carries no error has no journal entry when it is disabled or its condition
  does not hold, and exactly one applied entry with the planned routes otherwise; a conditional owner
  without a rule is gone or reported; entries of all other owners are unchanged and owner keys stay unique.\<close>

theorem reconcile_conditional_settles:
  assumes "keys_distinct d" and "distinct (map rule_key rules)"
    and "reconcile_conditional N P addrs observed rules d = (changed, d')"
  shows "\<exists>owned_ifs. owned_ifs = owned_ifindices (snd (drop_orphans P (live_keys rules) (length (d_journal d)) [] d))
    \<and> (\<forall>ur \<in> set rules. rule_done N addrs owned_ifs ur d')
    \<and> (\<forall>e \<in> set (d_journal d'). starts_with (je_owner e) COND_PREFIX \<longrightarrow> je_key e \<in> live_keys rules \<union> set changed)
    \<and> non_cond d' = non_cond d \<and> keys_distinct d'"
proof -
  obtain c1 d1 where o: "drop_orphans P (live_keys rules) (length (d_journal d)) [] d = (c1, d1)" by (rule prod.exhaust)
  obtain c2 d2 where r: "fold (reconcile_rule N P addrs observed (owned_ifindices d1)) rules (c1, d1) = (c2, d2)"
    by (rule prod.exhaust)
  have d': "d' = retain_eval rules d2" "changed = c2"
    using assms(3) o r by (simp_all add: reconcile_conditional_def)
  have a: "keys_distinct d1 \<and> non_cond d1 = non_cond d
      \<and> (\<forall>k \<in> je_key ` set (d_journal d1). orphan (live_keys rules) k \<longrightarrow> k \<in> set c1)"
    using drop_orphans_ok [OF o assms(1) le_refl] by simp
  note b = fold_rules_ok [OF r _ assms(2)]
  have J: "d_journal d' = d_journal d2" by (simp add: d' retain_eval_def)
  have "rule_done N addrs (owned_ifindices d1) ur d'" if "ur \<in> set rules" for ur
  proof (rule rule_done_cong)
    show "rule_done N addrs (owned_ifindices d1) ur d2" using a b that by blast
    have "list_ex (\<lambda>(u, rule). u = fst (rule_key ur) \<and> cnd_id rule = snd (rule_key ur)) rules"
      using that by (auto simp: list_ex_iff rule_key_def split_beta)
    then show "d_cond_eval d' (rule_key ur) = d_cond_eval d2 (rule_key ur)"
      by (simp add: d' retain_eval_def rule_key_def)
  qed (simp add: J)
  moreover have "je_key e \<in> live_keys rules \<union> set changed"
    if "e \<in> set (d_journal d')" "starts_with (je_owner e) COND_PREFIX" for e
  proof (cases "je_key e \<in> live_keys rules")
    case False
    have "own_entries (je_key e) d2 = own_entries (je_key e) d1"
      using a b False unfolding live_keys_eq by blast
    moreover have "e \<in> set (own_entries (je_key e) d2)" using that(1) J by simp
    ultimately have "e \<in> set (own_entries (je_key e) d1)" by simp
    then have "je_key e \<in> je_key ` set (d_journal d1)" by simp
    moreover have "orphan (live_keys rules) (je_key e)" using False that(2) by (simp add: orphan_def je_key_def)
    ultimately show ?thesis using a b d' by blast
  qed simp
  moreover have "keys_distinct d'" "non_cond d' = non_cond d" using a b J by (simp_all add: keys_distinct_def)
  ultimately show ?thesis using o by auto
qed

lemma min_by_ifindex_spec:
  "min_by_ifindex as = None \<longleftrightarrow> as = []"
  "min_by_ifindex as = Some a \<Longrightarrow> a \<in> set as \<and> (\<forall>b \<in> set as. ia_ifindex a \<le> ia_ifindex b)"
  by (induction as arbitrary: a) (auto split: option.splits if_splits)

text \<open>a condition matches only interfaces that may carry it.  \<open>match_interface\<close> answers an interface exactly when
  some interface has a global address inside the prefix, is not one the daemon made and has no tunnel or virtual
  name; it answers the one with the lowest index.\<close>

theorem match_interface_lowest:
  "(match_interface N addrs pre owned_ifs = None \<longleftrightarrow> filter (candidate_addr N pre owned_ifs) addrs = [])
   \<and> list_all (\<lambda>(i, name). i \<notin> owned_ifs \<and> \<not> non_uplink_name name
        \<and> list_ex (\<lambda>a. candidate_addr N pre owned_ifs a \<and> ia_ifindex a = i \<and> ia_name a = name) addrs
        \<and> list_all (\<lambda>b. i \<le> ia_ifindex b) (filter (candidate_addr N pre owned_ifs) addrs))
        (case match_interface N addrs pre owned_ifs of None \<Rightarrow> [] | Some m \<Rightarrow> [m])"
proof (cases "min_by_ifindex (filter (candidate_addr N pre owned_ifs) addrs)")
  case None
  then show ?thesis by (simp add: match_interface_def min_by_ifindex_spec(1))
next
  case (Some a)
  note a = min_by_ifindex_spec(2) [OF Some]
  then have "candidate_addr N pre owned_ifs a" "a \<in> set addrs" "filter (candidate_addr N pre owned_ifs) addrs \<noteq> []"
    by (auto simp: filter_empty_conv)
  then show ?thesis using a Some
    by (auto simp: match_interface_def list_ex_iff list_all_iff candidate_addr_def)
qed

section \<open>The static pass is a sweep\<close>

lemma static_loop_sweep:
  "static_loop P m i (length (cr_removed_owners acc), cr_failed acc \<noteq> []) d =
     (let (acc', d') = teardown_loop (teardown_entry P) m i acc d
      in ((length (cr_removed_owners acc'), cr_failed acc' \<noteq> []), d'))"
proof (induction i arbitrary: acc d)
  case (Suc i)
  obtain r d1 where t: "teardown_entry P i d = (r, d1)" by (rule prod.exhaust)
  show ?case
    using Suc.IH [of acc d] Suc.IH [of "acc\<lparr>cr_removed_owners := cr_removed_owners acc @ [je_owner (d_journal d ! i)]\<rparr>" d1]
      Suc.IH [of "acc\<lparr>cr_failed := cr_failed acc @ [je_owner (d_journal d ! i)]\<rparr>" d1] t
    by (cases r) (simp_all add: Let_def)
qed simp

text \<open>the pass over static always-on routes is the teardown sweep of the owners that lost a route.  It visits the
  entries, tears down, saves and answers exactly as a sweep over the applied, route-only, replayable entries one of whose
  routes is missing from the kernel; it reports how many were removed, or an error when a teardown failed.\<close>

theorem reconcile_static_routes_is_sweep:
  "reconcile_static_routes P observed replayable d =
     (case teardown P (static_missing observed replayable) d of
        (Ok r, d') \<Rightarrow> (if cr_failed r = [] then Ok (length (cr_removed_owners r)) else Err Other, d')
      | (Err e, d') \<Rightarrow> (Err e, d'))"
proof -
  obtain acc d1 where t: "teardown_loop (teardown_entry P) (static_missing observed replayable) (length (d_journal d))
      \<lparr> cr_removed_owners = [], cr_failed = [] \<rparr> d = (acc, d1)" by (rule prod.exhaust)
  obtain saved d2 where s: "save_journal P d1 = (saved, d2)" by (rule prod.exhaust)
  have "static_loop P (static_missing observed replayable) (length (d_journal d)) (0, False) d
      = ((length (cr_removed_owners acc), cr_failed acc \<noteq> []), d1)"
    using static_loop_sweep [of P "static_missing observed replayable" "length (d_journal d)"
        "\<lparr> cr_removed_owners = [], cr_failed = [] \<rparr>" d] t by simp
  then show ?thesis using t s by (cases saved) (simp_all add: reconcile_static_routes_def teardown_def)
qed

section \<open>An example\<close>

definition example_cond_rule :: "string \<Rightarrow> nat \<Rightarrow> cond_rule" where
  "example_cond_rule k base = \<lparr> cnd_id = k, cnd_name = k, cnd_enabled = True,
     cnd_condition = InterfaceAddressIn (IpNet (V4 (of_nat base)) 24),
     cnd_routes = [\<lparr> pr_destination = IpNet (V4 0x0A000000) 8, pr_metric = 50, pr_via = None \<rparr>] \<rparr>"

definition example_addrs :: "iface_addr list" where
  "example_addrs = [\<lparr> ia_ifindex = 7, ia_name = ''wg0'', ia_address = IpNet (V4 0xC0A80105) 24, ia_scope = 0 \<rparr>,
     \<lparr> ia_ifindex = 2, ia_name = ''eth0'', ia_address = IpNet (V4 0xC0A80107) 24, ia_scope = 0 \<rparr>]"

definition example_rules :: "(nat \<times> cond_rule) list" where
  "example_rules = [(1000, example_cond_rule ''office'' 0xC0A80100), (1000, example_cond_rule ''home'' 0xC0A80200)]"

definition example_cond_daemon :: "sim daemon" where
  "example_cond_daemon = fresh_daemon
     [\<lparr> je_uid = 1000, je_owner = ''cond:old'', je_state = Applied, je_resources = [] \<rparr>] quiet_sim"

theorem reconcile_conditional_settles_witness:
  "\<exists>changed d'. reconcile_conditional word_ipnet sim_platform example_addrs [] example_rules example_cond_daemon = (changed, d')
     \<and> changed = [(1000, ''cond:old''), (1000, ''cond:office'')] \<and> length (d_journal d') = 1
     \<and> rule_done word_ipnet example_addrs {} (1000, example_cond_rule ''office'' 0xC0A80100) d'
     \<and> rule_done word_ipnet example_addrs {} (1000, example_cond_rule ''home'' 0xC0A80200) d'"
proof -
  let ?out = "reconcile_conditional word_ipnet sim_platform example_addrs [] example_rules example_cond_daemon"
  have f: "fst ?out = [(1000, ''cond:old''), (1000, ''cond:office'')]" "length (d_journal (snd ?out)) = 1" by code_simp+
  have k: "keys_distinct example_cond_daemon" "distinct (map rule_key example_rules)" by code_simp+
  have o: "owned_ifindices (snd (drop_orphans sim_platform (live_keys example_rules) (length (d_journal example_cond_daemon))
      [] example_cond_daemon)) = {}" by code_simp
  obtain changed d' where out: "?out = (changed, d')" by (rule prod.exhaust)
  have "\<forall>ur \<in> set example_rules. rule_done word_ipnet example_addrs {} ur d'"
    using reconcile_conditional_settles [OF k out] unfolding o by blast
  then have "rule_done word_ipnet example_addrs {} (1000, example_cond_rule ''office'' 0xC0A80100) d'"
    "rule_done word_ipnet example_addrs {} (1000, example_cond_rule ''home'' 0xC0A80200) d'"
    by (simp_all add: example_rules_def)
  with out f show ?thesis by simp
qed

end
