(* ===== verification/Wg_Connect.thy ===== *)
theory Wg_Connect
  imports Crash_Safety Xray_Pin
begin

text \<open>
  Connecting a WireGuard tunnel (\<open>connect_wireguard\<close>, \<open>allocate_full\<close>, \<open>disconnect_wireguard\<close>,
  \<open>wireguard_status\<close>, \<open>observe_handshake\<close>, \<open>full_policy_rules\<close> of \<open>crates/daemon/src/core.rs\<close>).  The body of
  the connection is a sequence of fallible steps; \<open>then_do\<close> is the \<open>?\<close> operator on them.
\<close>

section \<open>Fallible steps\<close>

type_synonym ('a, 'k) cmd = "'k daemon \<Rightarrow> 'a io \<times> 'k daemon"

definition then_do :: "('a, 'k) cmd \<Rightarrow> ('a \<Rightarrow> ('b, 'k) cmd) \<Rightarrow> ('b, 'k) cmd" where
  "then_do c f d = (case c d of (Ok x, d) \<Rightarrow> f x d | (Err e, d) \<Rightarrow> (Err e, d))"

definition on_world :: "('k \<Rightarrow> 'a io \<times> 'k) \<Rightarrow> ('a, 'k) cmd" where
  "on_world f d = (let (r, w) = f (d_world d) in (r, d\<lparr>d_world := w\<rparr>))"

definition observing :: "('k \<Rightarrow> 'a io) \<Rightarrow> ('a, 'k) cmd" where
  "observing f d = (f (d_world d), d)"

definition edit :: "('k daemon \<Rightarrow> 'k daemon) \<Rightarrow> (unit, 'k) cmd" where
  "edit f d = (Ok (), f d)"

definition skip :: "(unit, 'k) cmd" where
  "skip d = (Ok (), d)"

definition fail :: "error_kind \<Rightarrow> ('a, 'k) cmd" where
  "fail e d = (Err e, d)"

fun for_each :: "('a \<Rightarrow> (unit, 'k) cmd) \<Rightarrow> 'a list \<Rightarrow> (unit, 'k) cmd" where
  "for_each f [] d = skip d"
| "for_each f (x # xs) d = then_do (f x) (\<lambda>_. for_each f xs) d"

definition add_resource :: "nat \<Rightarrow> owned_resource \<Rightarrow> 'k daemon \<Rightarrow> 'k daemon" where
  "add_resource i r = set_entry i (\<lambda>e. e\<lparr>je_resources := je_resources e @ [r]\<rparr>)"

text \<open>Push a resource, save the journal, then touch the kernel.\<close>

definition journaled :: "'k platform \<Rightarrow> nat \<Rightarrow> owned_resource \<Rightarrow> ('k \<Rightarrow> 'a io \<times> 'k) \<Rightarrow> ('a, 'k) cmd" where
  "journaled P i r f = then_do (edit (add_resource i r)) (\<lambda>_. then_do (save_journal P) (\<lambda>_. on_world f))"

section \<open>Plans and policy slots\<close>

record wg_plan =
  wp_setconf :: string
  wp_addresses :: "ip_net list"
  wp_dns_servers :: "ip_addr list"
  wp_dns_domains :: "string list"
  wp_mtu :: "nat option"
  wp_routes :: "policy_route list"
  wp_full_ipv4 :: bool
  wp_full_ipv6 :: bool
  wp_warnings :: "wg_warning list"
  wp_interface_name :: "string option"

definition is_full_route :: "bool \<Rightarrow> bool \<Rightarrow> ip_net \<Rightarrow> bool" where
  "is_full_route full_ipv4 full_ipv6 dest =
     (case net_addr dest of
        V4 _ \<Rightarrow> full_ipv4 \<and> dest \<in> {IpNet (V4 0) 0, IpNet (V4 0) 1, IpNet (V4 (2 ^ 31)) 1}
      | V6 _ \<Rightarrow> full_ipv6 \<and> dest \<in> {IpNet (V6 0) 0, IpNet (V6 0) 1, IpNet (V6 (2 ^ 127)) 1})"

definition full_policy_rules :: "full_resource \<Rightarrow> owned_rule list" where
  "full_policy_rules full = concat (map (\<lambda>family.
     [\<lparr> or_family = family, or_priority = fr_priority_main full, or_table = 254, or_fwmark = None,
        or_invert = False, or_suppress_prefix_length = Some 0 \<rparr>,
      \<lparr> or_family = family, or_priority = fr_priority_tunnel full, or_table = fr_table full,
        or_fwmark = Some (fr_fwmark full), or_invert = True, or_suppress_prefix_length = None \<rparr>])
     (filter (\<lambda>family. case family of Ipv4 \<Rightarrow> fr_ipv4 full | Ipv6 \<Rightarrow> fr_ipv6 full) [Ipv4, Ipv6]))"

definition owns_full :: "owned_resource \<Rightarrow> bool" where
  "owns_full r = (case r of WireGuardLink l \<Rightarrow> wl_full l \<noteq> None | OpenVpnProcess p \<Rightarrow> op_full p \<noteq> None
     | XrayProcess p \<Rightarrow> xp_full p \<noteq> None | _ \<Rightarrow> False)"

definition uses_mark :: "nat \<Rightarrow> owned_resource \<Rightarrow> bool" where
  "uses_mark mark r = (case r of OpenVpnProcess p \<Rightarrow> op_transport_mark p = Some mark
     | XrayProcess p \<Rightarrow> xp_transport_mark p = mark | _ \<Rightarrow> False)"

definition slot_taken :: "nat list \<Rightarrow> owned_rule list \<Rightarrow> journal \<Rightarrow> nat \<Rightarrow> bool" where
  "slot_taken marks rules J slot \<longleftrightarrow>
     (let table = 51820 + slot; main = 10000 + slot * 2 in
      table \<in> set marks \<or> list_ex (\<lambda>e. list_ex (uses_mark table) (je_resources e)) J
      \<or> list_ex (\<lambda>r. or_fwmark r = Some table \<or> or_priority r = main \<or> or_priority r = main + 1) rules)"

fun find_slot :: "(nat \<Rightarrow> bool) \<Rightarrow> (nat \<Rightarrow> bool io) \<Rightarrow> nat list \<Rightarrow> nat io" where
  "find_slot taken in_use [] = Err AlreadyExists"
| "find_slot taken in_use (s # ss) =
     (if taken s then find_slot taken in_use ss
      else case in_use (51820 + s) of
        Err e \<Rightarrow> Err e
      | Ok True \<Rightarrow> find_slot taken in_use ss
      | Ok False \<Rightarrow> Ok s)"

definition slot_resource :: "wg_plan \<Rightarrow> nat \<Rightarrow> full_resource" where
  "slot_resource plan slot = \<lparr> fr_table = 51820 + slot, fr_fwmark = 51820 + slot, fr_priority_main = 10000 + slot * 2,
     fr_priority_tunnel = 10000 + slot * 2 + 1, fr_ipv4 = wp_full_ipv4 plan, fr_ipv6 = wp_full_ipv6 plan \<rparr>"

definition allocate_full :: "'k platform \<Rightarrow> 'k wg_config_executor \<Rightarrow> wg_plan \<Rightarrow> 'k daemon \<Rightarrow> full_resource option io" where
  "allocate_full P wc plan d =
     (if \<not> wp_full_ipv4 plan \<and> \<not> wp_full_ipv6 plan then Ok None
      else if list_ex (\<lambda>e. list_ex owns_full (je_resources e)) (d_journal d) then Err AlreadyExists
      else case pf_policy P of
        None \<Rightarrow> Err NotConnected
      | Some px \<Rightarrow>
          (case px_rules_snapshot px (d_world d) of
             Err e \<Rightarrow> Err e
           | Ok rules \<Rightarrow>
               (case wc_marks_in_use wc (d_world d) of
                  Err e \<Rightarrow> Err e
                | Ok marks \<Rightarrow>
                    map_result (Some \<circ> slot_resource plan)
                      (find_slot (slot_taken marks rules (d_journal d)) (\<lambda>t. px_table_in_use px t (d_world d)) [0..<128]))))"

section \<open>Status\<close>

definition WIREGUARD_REJECT_AFTER_SECS :: nat where "WIREGUARD_REJECT_AFTER_SECS = 180"
definition WIREGUARD_UNANSWERED_SECS :: nat where "WIREGUARD_UNANSWERED_SECS = 20"

datatype tunnel_state = Tunnel_Stopped | Tunnel_Running | Tunnel_Failed

text \<open>Subtraction on \<open>nat\<close> is \<open>saturating_sub\<close>.\<close>

definition observe_handshake ::
    "handshake_watch option \<Rightarrow> nat option \<Rightarrow> nat \<Rightarrow> nat \<Rightarrow> tunnel_state \<times> handshake_watch option" where
  "observe_handshake watch latest tx now =
     (if (case latest of None \<Rightarrow> False | Some h \<Rightarrow> now - h \<le> WIREGUARD_REJECT_AFTER_SECS) then (Tunnel_Running, None)
      else (let fresh = \<lparr> hw_baseline_tx = tx, hw_sending_since = None \<rparr>;
                watch = (case watch of None \<Rightarrow> fresh | Some v \<Rightarrow> if tx \<ge> hw_baseline_tx v then v else fresh);
                watch = (if tx > hw_baseline_tx watch \<and> hw_sending_since watch = None
                         then watch\<lparr>hw_sending_since := Some now\<rparr> else watch);
                failed = (case hw_sending_since watch of None \<Rightarrow> False | Some s \<Rightarrow> now - s \<ge> WIREGUARD_UNANSWERED_SECS)
            in (if failed then Tunnel_Failed else Tunnel_Running, Some watch)))"

record wg_status =
  ws_profile_id :: string
  ws_state :: tunnel_state
  ws_interface_name :: "string option"
  ws_latest_handshake :: "nat option"
  ws_rx_bytes :: nat
  ws_tx_bytes :: nat
  ws_dns_applied :: bool
  ws_warnings :: "wg_warning list"

definition wireguard_status :: "'k platform \<Rightarrow> nat \<Rightarrow> nat \<Rightarrow> string \<Rightarrow> 'k daemon \<Rightarrow> wg_status \<times> 'k daemon" where
  "wireguard_status P now uid profile_id d =
     (let owner = ''wg:'' @ profile_id;
          entry = List.find (\<lambda>e. je_uid e = uid \<and> je_owner e = owner) (d_journal d);
          link = (case entry of None \<Rightarrow> None | Some e \<Rightarrow> find_wg_link (je_resources e));
          dns = (case entry of None \<Rightarrow> False
                 | Some e \<Rightarrow> list_ex (\<lambda>r. case r of Dns x \<Rightarrow> wd_applied x | _ \<Rightarrow> False) (je_resources e));
          answer = (\<lambda>state h rx tx. \<lparr> ws_profile_id = profile_id, ws_state = state, ws_interface_name = map_option wl_name link,
             ws_latest_handshake = h, ws_rx_bytes = rx, ws_tx_bytes = tx, ws_dns_applied = dns,
             ws_warnings = (case link of None \<Rightarrow> [] | Some l \<Rightarrow> wl_warnings l) \<rparr>)
      in case (entry, link) of
           (Some e, Some l) \<Rightarrow>
             if je_state e = Applied
             then (case map_option (\<lambda>wc. wc_health wc (wl_name l) (d_world d)) (pf_wg_config P) of
                     Some (Ok (h, rx, tx)) \<Rightarrow>
                       (let (state, watch) = observe_handshake (d_wireguard_handshake d (uid, owner)) h tx now
                        in (answer state h rx tx,
                            d\<lparr>d_wireguard_handshake := (d_wireguard_handshake d)((uid, owner) := watch)\<rparr>))
                   | _ \<Rightarrow> (answer Tunnel_Failed None 0 0, d))
             else (answer Tunnel_Failed None 0 0, d)
         | (Some _, None) \<Rightarrow> (answer Tunnel_Failed None 0 0, d)
         | (None, _) \<Rightarrow>
             (answer (if (uid, owner) \<in> d_tunnel_failed d then Tunnel_Failed else Tunnel_Stopped) None 0 0, d))"

section \<open>Connecting\<close>

definition wireguard_owner :: "string \<Rightarrow> string io" where
  "wireguard_owner profile_id = (if validate_owner profile_id then Ok (''wg:'' @ profile_id) else Err InvalidInput)"

definition wireguard_name :: "nat \<Rightarrow> string \<Rightarrow> string option \<Rightarrow> string \<times> string" where
  "wireguard_name uid profile_id hint = tunnel_link_names ''wg-'' uid profile_id hint"

definition create_wg_link :: "'k wg_system \<Rightarrow> string \<Rightarrow> string \<Rightarrow> string \<Rightarrow> (nat \<times> string, 'k) cmd" where
  "create_wg_link wg name fallback marker d =
     (case on_world (wx_create_link wg name marker) d of
        (Ok ix, d) \<Rightarrow> (Ok (ix, name), d)
      | (Err e, d) \<Rightarrow>
          if e = AlreadyExists \<and> fallback \<noteq> name
          then then_do (on_world (wx_create_link wg fallback marker)) (\<lambda>ix d. (Ok (ix, fallback), d)) d
          else (Err e, d))"

fun on_link :: "(wg_link \<Rightarrow> wg_link) \<Rightarrow> owned_resource list \<Rightarrow> owned_resource list" where
  "on_link f (WireGuardLink l # rs) = WireGuardLink (f l) # rs"
| "on_link f rs = rs"

definition edit_link :: "nat \<Rightarrow> (wg_link \<Rightarrow> wg_link) \<Rightarrow> 'k daemon \<Rightarrow> 'k daemon" where
  "edit_link i f = set_entry i (\<lambda>e. e\<lparr>je_resources := on_link f (je_resources e)\<rparr>)"

definition in_full_table :: "wg_plan \<Rightarrow> full_resource option \<Rightarrow> ip_net \<Rightarrow> bool" where
  "in_full_table plan full dest \<longleftrightarrow> full \<noteq> None \<and> is_full_route (wp_full_ipv4 plan) (wp_full_ipv6 plan) dest"

definition endpoint_covered :: "ipnet_crate \<Rightarrow> wg_plan \<Rightarrow> full_resource option \<Rightarrow> ip_addr \<Rightarrow> bool" where
  "endpoint_covered N plan full ip \<longleftrightarrow>
     list_ex (\<lambda>a. net_has_addr N (net_trunc N a) ip) (wp_addresses plan)
     \<or> list_ex (\<lambda>r. \<not> in_full_table plan full (pr_destination r) \<and> net_has_addr N (pr_destination r) ip) (wp_routes plan)"

definition wg_address_step :: "'k platform \<Rightarrow> 'k wg_system \<Rightarrow> nat \<Rightarrow> nat \<Rightarrow> ip_net \<Rightarrow> (unit, 'k) cmd" where
  "wg_address_step P wg i ix a =
     journaled P i (Address \<lparr> wa_interface_index = ix, wa_address = a \<rparr>) (wx_add_address wg ix a)"

definition wg_route :: "wg_plan \<Rightarrow> full_resource option \<Rightarrow> nat \<Rightarrow> policy_route \<Rightarrow> applied_route" where
  "wg_route plan full ix r = \<lparr> ar_destination = pr_destination r, ar_interface_index = ix, ar_metric = pr_metric r,
     ar_gateway = None, ar_table = (if in_full_table plan full (pr_destination r) then map_option fr_table full else None) \<rparr>"

definition wanted_routes :: "ipnet_crate \<Rightarrow> wg_plan \<Rightarrow> policy_route list" where
  "wanted_routes N plan = filter (\<lambda>r. \<not> list_ex (\<lambda>a. net_trunc N a = pr_destination r) (wp_addresses plan)) (wp_routes plan)"

definition wg_route_step :: "'k platform \<Rightarrow> nat \<Rightarrow> applied_route \<Rightarrow> (unit, 'k) cmd" where
  "wg_route_step P i r = journaled P i (Route r) (rx_add (pf_routes P) r)"

definition wg_rule_step :: "'k platform \<Rightarrow> nat \<Rightarrow> owned_rule \<Rightarrow> (unit, 'k) cmd" where
  "wg_rule_step P i r = journaled P i (Rule r) (with_policy P (\<lambda>px. px_add_rule px r))"

definition wg_full_steps :: "'k platform \<Rightarrow> 'k wg_config_executor \<Rightarrow> nat \<Rightarrow> string \<Rightarrow> full_resource option \<Rightarrow> (unit, 'k) cmd" where
  "wg_full_steps P wc i name full =
     (case full of
        None \<Rightarrow> skip
      | Some f \<Rightarrow> then_do (for_each (wg_rule_step P i) (full_policy_rules f))
          (\<lambda>_. observing (wc_verify_transport wc name (fr_fwmark f) (fr_ipv4 f) (fr_ipv6 f))))"

definition mark_dns_applied :: "journal_entry \<Rightarrow> journal_entry" where
  "mark_dns_applied e = (case rev (je_resources e) of
     Dns x # rs \<Rightarrow> e\<lparr>je_resources := rev rs @ [Dns (x\<lparr>wd_applied := True\<rparr>)]\<rparr> | _ \<Rightarrow> e)"

definition dns_call ::
    "'k platform \<Rightarrow> string \<Rightarrow> wg_plan \<Rightarrow> bool \<Rightarrow> 'k \<Rightarrow> dns_apply io \<times> 'k" where
  "dns_call P name plan full w =
     (case pf_dns P of
        None \<Rightarrow> (Err NotConnected, w)
      | Some dx \<Rightarrow> (case dx_apply dx name (wp_dns_servers plan) (wp_dns_domains plan) full w of
          (Ok x, w) \<Rightarrow> (Ok x, w) | (Err _, w) \<Rightarrow> (Err Other, w)))"

definition wg_dns_steps :: "'k platform \<Rightarrow> nat \<Rightarrow> nat \<Rightarrow> string \<Rightarrow> wg_plan \<Rightarrow> full_resource option \<Rightarrow> (unit, 'k) cmd" where
  "wg_dns_steps P i ix name plan full =
     (if wp_dns_servers plan = [] then skip
      else then_do (journaled P i (Dns \<lparr> wd_interface_index = ix, wd_name = name, wd_servers = wp_dns_servers plan,
               wd_domains = wp_dns_domains plan, wd_full = (full \<noteq> None), wd_applied = False \<rparr>)
               (dns_call P name plan (full \<noteq> None))) (\<lambda>out.
           then_do (edit (case out of
               DnsApplied \<Rightarrow> set_entry i mark_dns_applied
             | DnsUnavailable \<Rightarrow> edit_link i (\<lambda>l. l\<lparr>wl_warnings := wl_warnings l @ [DnsNotApplied]\<rparr>)
             | DnsSkipped \<Rightarrow> edit_link i (\<lambda>l. l\<lparr>wl_warnings := wl_warnings l @ [DnsNotApplied]\<rparr>)
                 \<circ> set_entry i (\<lambda>e. e\<lparr>je_resources := butlast (je_resources e)\<rparr>))) (\<lambda>_.
           save_journal P)))"

text \<open>The closure of \<open>connect_wireguard\<close>: everything after the entry is on disk.\<close>

definition wg_body ::
    "ipnet_crate \<Rightarrow> 'k platform \<Rightarrow> 'k wg_system \<Rightarrow> 'k wg_config_executor \<Rightarrow> wg_plan \<Rightarrow> full_resource option
       \<Rightarrow> string \<Rightarrow> string \<Rightarrow> string \<Rightarrow> nat \<Rightarrow> (unit, 'k) cmd" where
  "wg_body N P wg wc plan full name fallback marker i =
     then_do (create_wg_link wg name fallback marker) (\<lambda>(ix, name).
     then_do (edit (edit_link i (\<lambda>l. l\<lparr>wl_index := ix, wl_name := name\<rparr>))) (\<lambda>_.
     then_do (save_journal P) (\<lambda>_.
     then_do (on_world (wc_configure wc name (wp_setconf plan))) (\<lambda>_.
     then_do (observing (wc_endpoint_ips wc name)) (\<lambda>ips.
     if list_ex (endpoint_covered N plan full) ips then fail InvalidInput
     else
     then_do (case full of None \<Rightarrow> skip | Some f \<Rightarrow> on_world (wc_set_fwmark wc name (fr_fwmark f))) (\<lambda>_.
     then_do (for_each (wg_address_step P wg i ix) (wp_addresses plan)) (\<lambda>_.
     then_do (case wp_mtu plan of None \<Rightarrow> skip | Some mtu \<Rightarrow> on_world (wx_set_mtu wg ix mtu)) (\<lambda>_.
     then_do (on_world (wx_set_state wg ix True)) (\<lambda>_.
     then_do (for_each (wg_route_step P i) (map (wg_route plan full ix) (wanted_routes N plan))) (\<lambda>_.
     then_do (wg_full_steps P wc i name full) (\<lambda>_.
     wg_dns_steps P i ix name plan full)))))))))))"

definition unclaimed :: "error_kind \<Rightarrow> journal_entry \<Rightarrow> bool" where
  "unclaimed e entry \<longleftrightarrow> e = AlreadyExists \<and>
     (case je_resources entry of [WireGuardLink l] \<Rightarrow> wl_index l = 0 | _ \<Rightarrow> False)"

definition abandon :: "'k platform \<Rightarrow> nat \<Rightarrow> error_kind \<Rightarrow> 'k daemon \<Rightarrow> wg_status io \<times> 'k daemon" where
  "abandon P i e d = (Err e, persist P (snd (teardown_entry P i d)))"

definition wg_entry :: "nat \<Rightarrow> string \<Rightarrow> wg_plan \<Rightarrow> full_resource option \<Rightarrow> string \<Rightarrow> string \<Rightarrow> journal_entry" where
  "wg_entry uid owner plan full name marker =
     \<lparr> je_uid = uid, je_owner = owner, je_state = Applying,
       je_resources = [WireGuardLink \<lparr> wl_name = name, wl_index = 0, wl_owner_marker = marker, wl_full = full,
         wl_warnings = wp_warnings plan @ (if wp_full_ipv4 plan \<and> \<not> wp_full_ipv6 plan then [Ipv6NotCovered] else []) \<rparr>] \<rparr>"

definition wg_marker :: "nat \<Rightarrow> string \<Rightarrow> string" where
  "wg_marker uid owner = ''network-orchestrator:'' @ nat_text 10 uid @ '':'' @ owner"

text \<open>What follows the entry being on disk: run the body, then commit or abandon.\<close>

definition wg_commit :: "'k platform \<Rightarrow> nat \<Rightarrow> nat \<Rightarrow> string \<Rightarrow> nat \<Rightarrow> 'k daemon \<Rightarrow> wg_status io \<times> 'k daemon" where
  "wg_commit P now uid profile_id i d =
     (let key = (uid, ''wg:'' @ profile_id) in
      case save_journal P (set_entry i (mark_state Applied) d) of
        (Err e, d) \<Rightarrow> abandon P i e d
      | (Ok _, d) \<Rightarrow>
          (let (st, d) = wireguard_status P now uid profile_id
             (d\<lparr>d_tunnel_failed := d_tunnel_failed d - {key},
                d_wireguard_handshake := (d_wireguard_handshake d)(key := None)\<rparr>)
           in (Ok st, d)))"

definition wg_run ::
    "'k platform \<Rightarrow> nat \<Rightarrow> nat \<Rightarrow> string \<Rightarrow> nat \<Rightarrow> (unit, 'k) cmd \<Rightarrow> 'k daemon \<Rightarrow> wg_status io \<times> 'k daemon" where
  "wg_run P now uid profile_id i body d =
     (case body d of
        (Ok _, d) \<Rightarrow> wg_commit P now uid profile_id i d
      | (Err e, d) \<Rightarrow>
          if unclaimed e (d_journal d ! i) then (Err e, persist P (drop_entry i d))
          else abandon P i e d)"

definition connect_wireguard ::
    "ipnet_crate \<Rightarrow> 'k platform \<Rightarrow> nat \<Rightarrow> nat \<Rightarrow> string \<Rightarrow> wg_plan \<Rightarrow> 'k daemon \<Rightarrow> wg_status io \<times> 'k daemon" where
  "connect_wireguard N P now uid profile_id plan d =
     (case wireguard_owner profile_id of
        Err e \<Rightarrow> (Err e, d)
      | Ok owner \<Rightarrow>
          if wp_dns_servers plan \<noteq> [] \<and> pf_dns P = None then (Err InvalidInput, d)
          else if owner_position uid owner d \<noteq> None then (Err AlreadyExists, d)
          else case (pf_wg P, pf_wg_config P) of
            (Some wg, Some wc) \<Rightarrow>
              (case allocate_full P wc plan d of
                 Err e \<Rightarrow> (Err e, d)
               | Ok full \<Rightarrow>
                   (let (name, fallback) = wireguard_name uid profile_id (wp_interface_name plan);
                        marker = wg_marker uid owner;
                        i = length (d_journal d)
                    in case save_journal P (d\<lparr>d_journal := d_journal d @ [wg_entry uid owner plan full name marker]\<rparr>) of
                         (Err e, d) \<Rightarrow> (Err e, d\<lparr>d_journal := butlast (d_journal d)\<rparr>)
                       | (Ok _, d) \<Rightarrow>
                           wg_run P now uid profile_id i (wg_body N P wg wc plan full name fallback marker i) d))
          | _ \<Rightarrow> (Err NotConnected, d))"

definition disconnect_wireguard :: "'k platform \<Rightarrow> nat \<Rightarrow> string \<Rightarrow> 'k daemon \<Rightarrow> unit io \<times> 'k daemon" where
  "disconnect_wireguard P uid profile_id d =
     (case wireguard_owner profile_id of
        Err e \<Rightarrow> (Err e, d)
      | Ok owner \<Rightarrow>
          (case owner_position uid owner d of
             None \<Rightarrow>
               if (uid, owner) \<in> d_tunnel_failed d
               then (Ok (), d\<lparr>d_tunnel_failed := d_tunnel_failed d - {(uid, owner)}\<rparr>)
               else (Err NotFound, d)
           | Some i \<Rightarrow>
               (let (res, d) = teardown_entry P i d in
                case save_journal P d of (Err e, d) \<Rightarrow> (Err e, d) | (Ok _, d) \<Rightarrow> (res, d))))"

end
