(* ===== verification/Wg_Config.thy ===== *)
theory Wg_Config
  imports Wg_Connect
begin

text \<open>
  The WireGuard configuration parser (\<open>crates/daemon/src/wireguard.rs\<close>): from the text of a wg-quick file and
  the client's policy routes to a \<open>WireGuardPlan\<close>, or the message of a \<open>WireGuardPlanError\<close>.  What comes from other
  crates is the parameter \<open>wg_libs\<close>: the length of a decoded base64 text, the printed form of a network,
  \<open>IpNet::aggregate\<close>, and the other ipnet operations of \<open>ipnet_crate\<close>.
\<close>

type_synonym 'a parsed = "('a, string) result"

record wg_libs =
  lb_net :: ipnet_crate
  lb_decoded_len :: "string \<Rightarrow> nat option"
  lb_show_net :: "ip_net \<Rightarrow> string"
  lb_aggregate :: "ip_net list \<Rightarrow> ip_net list"

definition MAX_WIREGUARD_CONFIG_BYTES :: nat where "MAX_WIREGUARD_CONFIG_BYTES = 256 * 1024"
definition MAX_WIREGUARD_PEERS :: nat where "MAX_WIREGUARD_PEERS = 16"
definition MAX_ADDRESSES :: nat where "MAX_ADDRESSES = 32"
definition MAX_ROUTES :: nat where "MAX_ROUTES = 512"
definition MAX_DNS_SERVERS :: nat where "MAX_DNS_SERVERS = 8"
definition MAX_DNS_DOMAINS :: nat where "MAX_DNS_DOMAINS = 16"

section \<open>Text\<close>

definition to_ascii_lowercase :: "string \<Rightarrow> string" where
  "to_ascii_lowercase s = map (\<lambda>c. if is_ascii_upper c then char_of (cval c + 32) else c) s"

abbreviation newline :: char where "newline \<equiv> CHR 0x0A"

text \<open>\<open>str::lines\<close>: pieces between line feeds, without the empty piece after the last one; the carriage
  return in front of a line feed goes too.\<close>

fun strip_cr :: "string \<Rightarrow> string" where
  "strip_cr s = (if s \<noteq> [] \<and> last s = CHR 0x0D then butlast s else s)"

definition text_lines :: "string \<Rightarrow> string list" where
  "text_lines s = (let ps = split_on newline s in
     map strip_cr (butlast ps) @ (if last ps = [] then [] else [last ps]))"

definition push_setconf :: "string \<Rightarrow> string \<Rightarrow> string \<Rightarrow> string" where
  "push_setconf output key v = output @ key @ '' = '' @ v @ [newline]"

definition comma_items :: "string \<Rightarrow> string list" where
  "comma_items v = map trim (split_on CHR '','' v)"

definition join :: "string \<Rightarrow> string list \<Rightarrow> string" where
  "join sep xs = (case xs of [] \<Rightarrow> [] | x # rest \<Rightarrow> x @ concat (map ((@) sep) rest))"

section \<open>Field checks\<close>

definition validate_key :: "wg_libs \<Rightarrow> string \<Rightarrow> bool" where
  "validate_key L v \<longleftrightarrow> lb_decoded_len L v = Some 32"

definition validate_port :: "string \<Rightarrow> bool" where
  "validate_port v \<longleftrightarrow> (case parse_uint 65535 v of None \<Rightarrow> False | Some p \<Rightarrow> p \<noteq> 0)"

definition valid_label :: "string \<Rightarrow> bool" where
  "valid_label label \<longleftrightarrow> label \<noteq> [] \<and> length label \<le> 63 \<and> hd label \<noteq> CHR ''-'' \<and> last label \<noteq> CHR ''-''
     \<and> list_all (\<lambda>b. is_ascii_alphanumeric b \<or> b = CHR ''-'') label"

definition valid_dns_name :: "string \<Rightarrow> bool" where
  "valid_dns_name v \<longleftrightarrow> v \<noteq> [] \<and> length v \<le> 253 \<and> list_all valid_label (split_on CHR ''.'' v)"

text \<open>\<open>split_once("]:")\<close> and \<open>rsplit_once(':')\<close>.\<close>

fun split_once2 :: "char \<Rightarrow> char \<Rightarrow> string \<Rightarrow> (string \<times> string) option" where
  "split_once2 a b (x # y # s) =
     (if x = a \<and> y = b then Some ([], s) else map_option (apfst ((#) x)) (split_once2 a b (y # s)))"
| "split_once2 a b s = None"

definition rsplit_once :: "char \<Rightarrow> string \<Rightarrow> (string \<times> string) option" where
  "rsplit_once c s = map_option (\<lambda>(post, pre). (rev pre, rev post)) (split_once c (rev s))"

definition split_endpoint :: "string \<Rightarrow> (string \<times> string) option" where
  "split_endpoint v =
     (case strip_prefix ''['' v of
        Some bracketed \<Rightarrow>
          (case split_once2 CHR '']'' CHR '':'' bracketed of
             None \<Rightarrow> None
           | Some (host, port) \<Rightarrow> (case addr_parse host of Some (V6 _) \<Rightarrow> Some (host, port) | _ \<Rightarrow> None))
      | None \<Rightarrow>
          (case rsplit_once CHR '':'' v of
             None \<Rightarrow> None
           | Some (host, port) \<Rightarrow> if CHR '':'' \<in> set host then None else Some (host, port)))"

definition validate_endpoint :: "string \<Rightarrow> bool" where
  "validate_endpoint v \<longleftrightarrow> (case split_endpoint v of
     None \<Rightarrow> False
   | Some (host, port) \<Rightarrow> validate_port port \<and> (addr_parse host \<noteq> None \<or> valid_dns_name host))"

definition contains_net :: "ipnet_crate \<Rightarrow> ip_net \<Rightarrow> ip_net \<Rightarrow> bool" where
  "contains_net N outer inner \<longleftrightarrow> net_prefix outer \<le> net_prefix inner \<and> net_has_addr N outer (net_network N inner)"

section \<open>The parser's state\<close>

record peer =
  pe_has_public_key :: bool
  pe_has_preshared_key :: bool
  pe_has_endpoint :: bool
  pe_has_keepalive :: bool
  pe_allowed_ips :: "ip_net list"
  pe_allowed_line :: "(nat \<times> nat) option"

definition default_peer :: peer where
  "default_peer = \<lparr> pe_has_public_key = False, pe_has_preshared_key = False, pe_has_endpoint = False,
     pe_has_keepalive = False, pe_allowed_ips = [], pe_allowed_line = None \<rparr>"

datatype config_section = Sec_None | Sec_Interface | Sec_Peer

record parser =
  ps_plan :: wg_plan
  ps_section :: config_section
  ps_seen_interface :: bool
  ps_has_private_key :: bool
  ps_has_listen_port :: bool
  ps_peers :: "peer list"
  ps_table_off :: bool
  ps_table_seen :: bool
  ps_mtu_seen :: bool

definition empty_plan :: wg_plan where
  "empty_plan = \<lparr> wp_setconf = [], wp_addresses = [], wp_dns_servers = [], wp_dns_domains = [], wp_mtu = None,
     wp_routes = [], wp_full_ipv4 = False, wp_full_ipv6 = False, wp_warnings = [], wp_interface_name = None \<rparr>"

definition init_parser :: parser where
  "init_parser = \<lparr> ps_plan = empty_plan, ps_section = Sec_None, ps_seen_interface = False, ps_has_private_key = False,
     ps_has_listen_port = False, ps_peers = [], ps_table_off = False, ps_table_seen = False, ps_mtu_seen = False \<rparr>"

abbreviation on_plan :: "(wg_plan \<Rightarrow> wg_plan) \<Rightarrow> parser \<Rightarrow> parser" where
  "on_plan f s \<equiv> s\<lparr>ps_plan := f (ps_plan s)\<rparr>"

definition emit :: "string \<Rightarrow> string \<Rightarrow> parser \<Rightarrow> parser" where
  "emit key v = on_plan (\<lambda>p. p\<lparr>wp_setconf := push_setconf (wp_setconf p) key v\<rparr>)"

definition on_last_peer :: "(peer \<Rightarrow> peer) \<Rightarrow> parser \<Rightarrow> parser" where
  "on_last_peer f s = s\<lparr>ps_peers := butlast (ps_peers s) @ [f (last (ps_peers s))]\<rparr>"

definition warn_once :: "wg_warning \<Rightarrow> parser \<Rightarrow> parser" where
  "warn_once x = on_plan (\<lambda>p. if x \<in> set (wp_warnings p) then p else p\<lparr>wp_warnings := wp_warnings p @ [x]\<rparr>)"
section \<open>Lines\<close>

definition section_header :: "string \<Rightarrow> parser \<Rightarrow> parser parsed" where
  "section_header line s =
     (let h = to_ascii_lowercase line in
      if h = ''[interface]'' \<and> \<not> ps_seen_interface s \<and> ps_peers s = []
      then Ok (on_plan (\<lambda>p. p\<lparr>wp_setconf := wp_setconf p @ ''[Interface]'' @ [newline]\<rparr>)
                 (s\<lparr>ps_seen_interface := True, ps_section := Sec_Interface\<rparr>))
      else if h = ''[peer]'' \<and> ps_seen_interface s \<and> length (ps_peers s) < MAX_WIREGUARD_PEERS
      then Ok (on_plan (\<lambda>p. p\<lparr>wp_setconf := wp_setconf p @ [newline] @ ''[Peer]'' @ [newline]\<rparr>)
                 (s\<lparr>ps_peers := ps_peers s @ [default_peer], ps_section := Sec_Peer\<rparr>))
      else if h = ''[peer]'' then Err ''too many or misplaced peers''
      else Err ''invalid WireGuard section'')"

fun address_items :: "ipnet_crate \<Rightarrow> string list \<Rightarrow> ip_net list \<Rightarrow> ip_net list parsed" where
  "address_items N [] acc = Ok acc"
| "address_items N (part # rest) acc =
     (case net_parse N part of
        None \<Rightarrow> Err ''invalid Address''
      | Some a \<Rightarrow>
          if is_unspecified (net_addr a) \<or> is_multicast (net_addr a) then Err ''invalid Address''
          else if a \<in> set acc then address_items N rest acc
          else if length (acc @ [a]) > MAX_ADDRESSES then Err ''too many Address entries''
          else address_items N rest (acc @ [a]))"

fun dns_items :: "string list \<Rightarrow> ip_addr list \<times> string list \<Rightarrow> (ip_addr list \<times> string list) parsed" where
  "dns_items [] acc = Ok acc"
| "dns_items (part # rest) (servers, domains) =
     (case addr_parse part of
        Some server \<Rightarrow>
          if is_unspecified server \<or> is_multicast server then Err ''invalid DNS''
          else if length (servers @ [server]) > MAX_DNS_SERVERS then Err ''too many DNS servers''
          else dns_items rest (servers @ [server], domains)
      | None \<Rightarrow>
          if \<not> valid_dns_name part then Err ''invalid DNS domain''
          else if length (domains @ [part]) > MAX_DNS_DOMAINS then Err ''too many DNS domains''
          else dns_items rest (servers, domains @ [to_ascii_lowercase part]))"

fun allowed_items :: "ipnet_crate \<Rightarrow> string list \<Rightarrow> ip_net list \<Rightarrow> ip_net list parsed" where
  "allowed_items N [] acc = Ok acc"
| "allowed_items N (part # rest) acc =
     (case net_parse N part of
        None \<Rightarrow> Err ''invalid AllowedIPs''
      | Some a \<Rightarrow>
          if length (acc @ [net_trunc N a]) > MAX_ROUTES then Err ''too many AllowedIPs''
          else allowed_items N rest (acc @ [net_trunc N a]))"

definition allowed_text :: "wg_libs \<Rightarrow> ip_net list \<Rightarrow> string" where
  "allowed_text L nets = join '', '' (map (lb_show_net L) nets)"

definition interface_field :: "wg_libs \<Rightarrow> string \<Rightarrow> string \<Rightarrow> parser \<Rightarrow> parser parsed" where
  "interface_field L key v s =
     (if key = ''privatekey'' then
        (if ps_has_private_key s then Err ''duplicate PrivateKey''
         else if \<not> validate_key L v then Err ''invalid PrivateKey''
         else Ok (emit ''PrivateKey'' v (s\<lparr>ps_has_private_key := True\<rparr>)))
      else if key = ''listenport'' then
        (if ps_has_listen_port s then Err ''duplicate ListenPort''
         else if \<not> validate_port v then Err ''invalid ListenPort''
         else Ok (emit ''ListenPort'' v (s\<lparr>ps_has_listen_port := True\<rparr>)))
      else if key = ''address'' then
        map_result (\<lambda>as. on_plan (\<lambda>p. p\<lparr>wp_addresses := as\<rparr>) s)
          (address_items (lb_net L) (comma_items v) (wp_addresses (ps_plan s)))
      else if key = ''dns'' then
        map_result (\<lambda>(servers, domains). on_plan (\<lambda>p. p\<lparr>wp_dns_servers := servers, wp_dns_domains := domains\<rparr>) s)
          (dns_items (comma_items v) (wp_dns_servers (ps_plan s), wp_dns_domains (ps_plan s)))
      else if key = ''mtu'' then
        (if ps_mtu_seen s then Err ''duplicate MTU''
         else case parse_uint u32_max v of
           None \<Rightarrow> Err ''invalid MTU''
         | Some mtu \<Rightarrow>
             if \<not> (576 \<le> mtu \<and> mtu \<le> 9000) then Err ''invalid MTU''
             else Ok (on_plan (\<lambda>p. p\<lparr>wp_mtu := Some mtu\<rparr>) (s\<lparr>ps_mtu_seen := True\<rparr>)))
      else if key = ''table'' then
        (if ps_table_seen s then Err ''duplicate Table''
         else if to_ascii_lowercase v = ''off'' then Ok (s\<lparr>ps_table_seen := True, ps_table_off := True\<rparr>)
         else if to_ascii_lowercase v = ''auto'' then Ok (s\<lparr>ps_table_seen := True, ps_table_off := False\<rparr>)
         else Err ''unsupported Table'')
      else if key \<in> {''preup'', ''postup'', ''predown'', ''postdown''} then Ok (warn_once IgnoredHook s)
      else if key = ''saveconfig'' then Ok (warn_once IgnoredSaveConfig s)
      else if key = ''fwmark'' then Err ''unsupported FwMark''
      else Err ''unsupported WireGuard field'')"

definition peer_field :: "wg_libs \<Rightarrow> string \<Rightarrow> string \<Rightarrow> parser \<Rightarrow> parser parsed" where
  "peer_field L key v s =
     (let peer = last (ps_peers s) in
      if key = ''publickey'' then
        (if pe_has_public_key peer then Err ''duplicate PublicKey''
         else if \<not> validate_key L v then Err ''invalid PublicKey''
         else Ok (emit ''PublicKey'' v (on_last_peer (\<lambda>p. p\<lparr>pe_has_public_key := True\<rparr>) s)))
      else if key = ''presharedkey'' then
        (if pe_has_preshared_key peer then Err ''duplicate PresharedKey''
         else if \<not> validate_key L v then Err ''invalid PresharedKey''
         else Ok (emit ''PresharedKey'' v (on_last_peer (\<lambda>p. p\<lparr>pe_has_preshared_key := True\<rparr>) s)))
      else if key = ''endpoint'' then
        (if pe_has_endpoint peer then Err ''duplicate Endpoint''
         else if \<not> validate_endpoint v then Err ''invalid Endpoint''
         else Ok (emit ''Endpoint'' v (on_last_peer (\<lambda>p. p\<lparr>pe_has_endpoint := True\<rparr>) s)))
      else if key = ''allowedips'' then
        (if pe_allowed_ips peer \<noteq> [] then Err ''duplicate AllowedIPs''
         else case allowed_items (lb_net L) (comma_items v) [] of
           Err e \<Rightarrow> Err e
         | Ok nets \<Rightarrow>
             (let s' = emit ''AllowedIPs'' (allowed_text L nets) s in
              Ok (on_last_peer (\<lambda>p. p\<lparr>pe_allowed_ips := nets,
                    pe_allowed_line := Some (length (wp_setconf (ps_plan s)), length (wp_setconf (ps_plan s')))\<rparr>) s')))
      else if key = ''persistentkeepalive'' then
        (if pe_has_keepalive peer then Err ''duplicate PersistentKeepalive''
         else case parse_uint 65535 v of
           None \<Rightarrow> Err ''invalid PersistentKeepalive''
         | Some k \<Rightarrow>
             (let s' = on_last_peer (\<lambda>p. p\<lparr>pe_has_keepalive := True\<rparr>) s in
              Ok (if k > 0 then emit ''PersistentKeepalive'' v s' else s')))
      else Err ''unsupported WireGuard field'')"

definition config_line :: "wg_libs \<Rightarrow> string \<Rightarrow> parser \<Rightarrow> parser parsed" where
  "config_line L raw s =
     (let line = trim (takeWhile (\<lambda>c. c \<noteq> CHR ''#'') raw) in
      if line = [] then Ok s
      else if starts_with line ''['' then section_header line s
      else case split_once CHR ''='' line of
        None \<Rightarrow> Err ''invalid WireGuard field''
      | Some (key, v) \<Rightarrow>
          (let key = to_ascii_lowercase (trim key); v = trim v in
           if v = [] then Err ''empty WireGuard field''
           else case ps_section s of
             Sec_Interface \<Rightarrow> interface_field L key v s
           | Sec_Peer \<Rightarrow> peer_field L key v s
           | Sec_None \<Rightarrow> Err ''unsupported WireGuard field''))"

fun config_lines :: "wg_libs \<Rightarrow> string list \<Rightarrow> parser \<Rightarrow> parser parsed" where
  "config_lines L [] s = Ok s"
| "config_lines L (raw # rest) s = (case config_line L raw s of Err e \<Rightarrow> Err e | Ok s \<Rightarrow> config_lines L rest s)"

section \<open>The checks after the last line\<close>

definition complete :: "parser \<Rightarrow> string option" where
  "complete s =
     (if \<not> ps_has_private_key s \<or> ps_peers s = [] \<or> \<not> list_all pe_has_public_key (ps_peers s)
      then Some ''missing WireGuard key or peer''
      else if \<not> list_ex pe_has_endpoint (ps_peers s) then Some ''missing Endpoint''
      else if wp_addresses (ps_plan s) = [] \<or> list_ex (\<lambda>p. pe_allowed_ips p = []) (ps_peers s)
      then Some ''missing Address or AllowedIPs''
      else if wp_dns_domains (ps_plan s) \<noteq> [] \<and> wp_dns_servers (ps_plan s) = []
      then Some ''DNS domains require a DNS server''
      else None)"

fun peer_overlaps :: "ipnet_crate \<Rightarrow> ip_net list \<Rightarrow> ip_net list \<Rightarrow> ip_net list \<Rightarrow> string option" where
  "peer_overlaps N prior seen [] = None"
| "peer_overlaps N prior seen (a # as) =
     (if a \<in> set seen \<or> a \<in> set prior then Some ''duplicate AllowedIPs across peers''
      else if list_ex (\<lambda>p. contains_net N p a \<or> contains_net N a p) prior
      then Some ''overlapping AllowedIPs across peers''
      else peer_overlaps N prior (a # seen) as)"

fun overlaps :: "ipnet_crate \<Rightarrow> ip_net list \<Rightarrow> peer list \<Rightarrow> string option" where
  "overlaps N prior [] = None"
| "overlaps N prior (p # ps) =
     (case peer_overlaps N prior [] (pe_allowed_ips p) of
        Some e \<Rightarrow> Some e
      | None \<Rightarrow> overlaps N (prior @ pe_allowed_ips p) ps)"

text \<open>The loop over the client's routes; a destination outside the AllowedIPs of a single peer is added to
  them.\<close>

fun policy_loop ::
    "ipnet_crate \<Rightarrow> policy_route list \<Rightarrow> ip_net list \<Rightarrow> bool \<Rightarrow> peer list \<Rightarrow> (bool \<times> peer list) parsed" where
  "policy_loop N [] seen expanded peers = Ok (expanded, peers)"
| "policy_loop N (r # rs) seen expanded peers =
     (let dest = pr_destination r in
      if pr_via r \<noteq> None \<or> dest \<noteq> net_trunc N dest then Err ''invalid policy route''
      else (let covered = list_ex (\<lambda>p. list_ex (\<lambda>a. contains_net N a dest) (pe_allowed_ips p)) peers in
        if \<not> covered \<and> length peers \<noteq> 1 then Err ''policy route is not covered by AllowedIPs''
        else if dest \<in> set seen then Err ''duplicate policy route''
        else policy_loop N rs (dest # seen) (expanded \<or> \<not> covered)
          (if covered then peers else peers[0 := (peers ! 0)\<lparr>pe_allowed_ips := pe_allowed_ips (peers ! 0) @ [dest]\<rparr>])))"

definition replace_range :: "nat \<times> nat \<Rightarrow> string \<Rightarrow> string \<Rightarrow> string" where
  "replace_range rng new s = take (fst rng) s @ new @ drop (snd rng) s"

definition plan_routes ::
    "wg_libs \<Rightarrow> policy_route list \<Rightarrow> parser \<Rightarrow> wg_plan parsed" where
  "plan_routes L policy_routes s =
     (let plan = ps_plan s; peers = ps_peers s in
      if policy_routes \<noteq> [] then
        (case policy_loop (lb_net L) policy_routes [] False peers of
           Err e \<Rightarrow> Err e
         | Ok (expanded, peers) \<Rightarrow>
             (let plan = plan\<lparr>wp_routes := wp_routes plan @ policy_routes\<rparr> in
              if expanded
              then Ok (plan\<lparr>wp_setconf := replace_range (the (pe_allowed_line (peers ! 0)))
                     (push_setconf [] ''AllowedIPs'' (allowed_text L (pe_allowed_ips (peers ! 0)))) (wp_setconf plan)\<rparr>)
              else Ok plan))
      else if \<not> ps_table_off s then
        (let routes = map (\<lambda>d. \<lparr> pr_destination = d, pr_metric = 5, pr_via = None \<rparr>) (concat (map pe_allowed_ips peers)) in
         if length routes > MAX_ROUTES then Err ''too many routes'' else Ok (plan\<lparr>wp_routes := wp_routes plan @ routes\<rparr>))
      else Ok plan)"

definition v4_net :: "32 word \<Rightarrow> nat \<Rightarrow> ip_net" where "v4_net w n = IpNet (V4 w) n"
definition v6_net :: "128 word \<Rightarrow> nat \<Rightarrow> ip_net" where "v6_net w n = IpNet (V6 w) n"

definition full_flags :: "wg_plan \<Rightarrow> wg_plan" where
  "full_flags plan =
     (let has = (\<lambda>n. list_ex (\<lambda>r. pr_destination r = n) (wp_routes plan)) in
      plan\<lparr>wp_full_ipv4 := has (v4_net 0 0) \<or> (has (v4_net 0 1) \<and> has (v4_net (2 ^ 31) 1)),
           wp_full_ipv6 := has (v6_net 0 0) \<or> (has (v6_net 0 1) \<and> has (v6_net (2 ^ 127) 1))\<rparr>)"

text \<open>\<open>validate::full_coverage\<close>.\<close>

definition full_coverage :: "wg_libs \<Rightarrow> ip_net list \<Rightarrow> bool \<times> bool" where
  "full_coverage L routes =
     (let aggregated = lb_aggregate L routes in
      (list_ex (\<lambda>n. lb_show_net L n = ''0.0.0.0/0'') aggregated, list_ex (\<lambda>n. lb_show_net L n = ''::/0'') aggregated))"

definition finish_plan :: "wg_libs \<Rightarrow> wg_plan \<Rightarrow> wg_plan parsed" where
  "finish_plan L plan =
     (let plan = full_flags plan; (c4, c6) = full_coverage L (map pr_destination (wp_routes plan)) in
      if (c4 \<and> \<not> wp_full_ipv4 plan) \<or> (c6 \<and> \<not> wp_full_ipv6 plan) then Err ''unsupported full-tunnel route decomposition''
      else if list_ex (\<lambda>srv. \<not> list_ex (\<lambda>r. net_has_addr (lb_net L) (pr_destination r) srv) (wp_routes plan)) (wp_dns_servers plan)
      then Err ''DNS server is not covered by tunnel routes''
      else Ok plan)"

definition parse_wireguard_config :: "wg_libs \<Rightarrow> string \<Rightarrow> policy_route list \<Rightarrow> wg_plan parsed" where
  "parse_wireguard_config L source policy_routes =
     (if length source > MAX_WIREGUARD_CONFIG_BYTES then Err ''WireGuard config is too large''
      else if length policy_routes > MAX_ROUTES then Err ''too many policy routes''
      else case config_lines L (text_lines source) init_parser of
        Err e \<Rightarrow> Err e
      | Ok s \<Rightarrow>
          (case complete s of
             Some e \<Rightarrow> Err e
           | None \<Rightarrow>
               (case overlaps (lb_net L) [] (ps_peers s) of
                  Some e \<Rightarrow> Err e
                | None \<Rightarrow>
                    (case plan_routes L policy_routes s of
                       Err e \<Rightarrow> Err e
                     | Ok plan \<Rightarrow> finish_plan L plan))))"
section \<open>Text lemmas\<close>

lemma if_okE: "(if b then x else y) = Ok r \<Longrightarrow> (b \<Longrightarrow> x = Ok r \<Longrightarrow> thesis) \<Longrightarrow> (\<not> b \<Longrightarrow> y = Ok r \<Longrightarrow> thesis) \<Longrightarrow> thesis"
  by (cases b) auto

lemma option_okE:
  "(case q of None \<Rightarrow> Err e | Some x \<Rightarrow> f x) = Ok r \<Longrightarrow> (\<And>x. q = Some x \<Longrightarrow> f x = Ok r \<Longrightarrow> thesis) \<Longrightarrow> thesis"
  by (cases q) auto

lemma result_okE:
  "(case q of Err e \<Rightarrow> Err e | Ok x \<Rightarrow> f x) = Ok r \<Longrightarrow> (\<And>x. q = Ok x \<Longrightarrow> f x = Ok r \<Longrightarrow> thesis) \<Longrightarrow> thesis"
  by (cases q) auto

lemmas ok_elims = if_okE option_okE result_okE

lemma set_split_on: "p \<in> set (split_on c s) \<Longrightarrow> c \<notin> set p \<and> set p \<subseteq> set s"
proof (induction s arbitrary: p)
  case Nil
  then show ?case by simp
next
  case (Cons x xs)
  show ?case
  proof (cases "split_on c xs")
    case Nil
    then show ?thesis using Cons by (auto split: if_splits)
  next
    case (Cons q qs)
    have "c \<notin> set r \<and> set r \<subseteq> set xs" if "r \<in> set (q # qs)" for r using Cons.IH [of r] Cons that by simp
    then show ?thesis using Cons.prems Cons by (fastforce split: if_splits)
  qed
qed

lemma split_on_not_Nil [simp]: "split_on c s \<noteq> []"
  by (cases s) (auto split: list.split)

lemma concat_utf8_split: "concat (utf8_split s) = s"
  by (induction s rule: utf8_split.induct) (simp only: utf8_split.simps concat.simps append_Cons append_take_drop_id)+

lemma set_trim: "set (trim s) \<subseteq> set s"
proof -
  have "set (rev (dropWhile is_ws_char (rev (dropWhile is_ws_char (utf8_split s))))) \<subseteq> set (utf8_split s)"
    by (auto dest!: set_dropWhileD)
  then have "set (trim s) \<subseteq> set (concat (utf8_split s))" unfolding trim_def by auto
  then show ?thesis by (simp only: concat_utf8_split)
qed

lemma set_split_once: "split_once c s = Some (a, b) \<Longrightarrow> set a \<subseteq> set s \<and> set b \<subseteq> set s"
  by (auto simp: split_once_def Let_def split: if_splits dest: set_takeWhileD in_set_dropD)

lemma text_lines_no_newline:
  assumes "l \<in> set (text_lines s)"
  shows "newline \<notin> set l"
proof -
  have "\<exists>p \<in> set (split_on newline s). set l \<subseteq> set p"
    using assms split_on_not_Nil [of newline s]
    by (auto simp: text_lines_def Let_def split: if_splits dest: in_set_butlastD intro: last_in_set)
  then show ?thesis using set_split_on by blast
qed

section \<open>The text of an accepted configuration\<close>

text \<open>What the generated text may consist of: the two section headers and a fixed set of checked fields, each on
  a line of its own.\<close>

datatype conf_line = Head_Interface | Head_Peer | Field string string

fun render_line :: "conf_line \<Rightarrow> string" where
  "render_line Head_Interface = ''[Interface]'' @ [newline]"
| "render_line Head_Peer = [newline] @ ''[Peer]'' @ [newline]"
| "render_line (Field k v) = k @ '' = '' @ v @ [newline]"

definition render :: "conf_line list \<Rightarrow> string" where
  "render ls = concat (map render_line ls)"

definition checked_field :: "wg_libs \<Rightarrow> string \<Rightarrow> string \<Rightarrow> bool" where
  "checked_field L k v \<longleftrightarrow>
     (k = ''PrivateKey'' \<or> k = ''PublicKey'' \<or> k = ''PresharedKey'') \<and> validate_key L v
     \<or> k = ''ListenPort'' \<and> validate_port v
     \<or> k = ''Endpoint'' \<and> validate_endpoint v
     \<or> k = ''AllowedIPs'' \<and> (\<exists>nets. v = allowed_text L nets)
     \<or> k = ''PersistentKeepalive'' \<and> (\<exists>n. parse_uint 65535 v = Some n \<and> 0 < n)"

fun wf_line :: "wg_libs \<Rightarrow> conf_line \<Rightarrow> bool" where
  "wf_line L (Field k v) = (newline \<notin> set v \<and> checked_field L k v)"
| "wf_line L _ = True"

lemma render_simps [simp]:
  "render [] = []" "render (l # ls) = render_line l @ render ls" "render (ls @ ms) = render ls @ render ms"
  by (simp_all add: render_def)

text \<open>The position a peer remembers is that of its AllowedIPs line.\<close>

definition located :: "wg_libs \<Rightarrow> conf_line list \<Rightarrow> peer \<Rightarrow> bool" where
  "located L items p \<longleftrightarrow>
     (case pe_allowed_line p of
        None \<Rightarrow> pe_allowed_ips p = []
      | Some (a, b) \<Rightarrow> (\<exists>pre v post. items = pre @ Field ''AllowedIPs'' v # post
          \<and> a = length (render pre) \<and> b = length (render (pre @ [Field ''AllowedIPs'' v]))))"

definition headed :: "parser \<Rightarrow> conf_line list \<Rightarrow> bool" where
  "headed s items \<longleftrightarrow>
     (if ps_seen_interface s then (\<exists>rest. items = Head_Interface # rest \<and> Head_Interface \<notin> set rest)
      else items = [] \<and> ps_peers s = [] \<and> ps_section s = Sec_None)
     \<and> count_list items Head_Peer = length (ps_peers s) \<and> length (ps_peers s) \<le> MAX_WIREGUARD_PEERS
     \<and> (ps_section s = Sec_Peer \<longrightarrow> ps_peers s \<noteq> [])"

definition conf_inv :: "wg_libs \<Rightarrow> parser \<Rightarrow> bool" where
  "conf_inv L s \<longleftrightarrow> (\<exists>items. wp_setconf (ps_plan s) = render items \<and> list_all (wf_line L) items \<and> headed s items
     \<and> list_all (located L items) (ps_peers s))"

definition show_documented :: "wg_libs \<Rightarrow> bool" where
  "show_documented L \<longleftrightarrow> (\<forall>n. newline \<notin> set (lb_show_net L n))"

lemma located_append: "located L items p \<Longrightarrow> located L (items @ ls) p"
  unfolding located_def by (auto split: option.splits prod.splits) (metis append.assoc append_Cons)+

lemma located_same:
  "pe_allowed_line q = pe_allowed_line p \<Longrightarrow> pe_allowed_ips q = pe_allowed_ips p \<Longrightarrow> located L items q = located L items p"
  unfolding located_def by (simp only:)

lemma allowed_text_no_newline: "show_documented L \<Longrightarrow> newline \<notin> set (allowed_text L nets)"
  by (cases nets) (auto simp: show_documented_def allowed_text_def join_def)

lemma conf_inv_init: "conf_inv L init_parser"
  unfolding conf_inv_def by (rule exI [of _ "[]"]) (simp add: init_parser_def empty_plan_def headed_def)

lemma conf_inv_frame:
  assumes "conf_inv L s" and "wp_setconf (ps_plan s') = wp_setconf (ps_plan s)" and "ps_peers s' = ps_peers s"
    and "ps_section s' = ps_section s" and "ps_seen_interface s' = ps_seen_interface s"
  shows "conf_inv L s'"
  using assms unfolding conf_inv_def headed_def by (simp only:)

lemma conf_inv_emit:
  assumes "conf_inv L s" and "newline \<notin> set v" and "checked_field L k v" and "ps_seen_interface s"
  shows "conf_inv L (emit k v s)"
proof -
  obtain items where "wp_setconf (ps_plan s) = render items" "list_all (wf_line L) items" "headed s items"
      "list_all (located L items) (ps_peers s)"
    using assms(1) by (auto simp: conf_inv_def)
  then show ?thesis unfolding conf_inv_def using assms(2-)
    by (intro exI [of _ "items @ [Field k v]"])
      (auto simp: emit_def push_setconf_def headed_def list_all_iff located_append)
qed

lemma conf_inv_last_peer:
  assumes "conf_inv L s" and "ps_peers s \<noteq> []"
    and "\<And>p. pe_allowed_line (f p) = pe_allowed_line p \<and> pe_allowed_ips (f p) = pe_allowed_ips p"
  shows "conf_inv L (on_last_peer f s)"
proof -
  obtain items where i: "wp_setconf (ps_plan s) = render items" "list_all (wf_line L) items" "headed s items"
      "list_all (located L items) (ps_peers s)"
    using assms(1) by (auto simp: conf_inv_def)
  have "list_all (located L items) (butlast (ps_peers s))" "located L items (last (ps_peers s))"
    using i(4) assms(2) by (auto simp: list_all_iff dest: in_set_butlastD)
  then show ?thesis unfolding conf_inv_def using i assms(2,3) located_same [of "f p" p for p]
    by (intro exI [of _ items]) (auto simp: on_last_peer_def headed_def split: if_splits)
qed

lemma conf_inv_allowed:
  fixes nets s
  assumes inv: "conf_inv L s" and peers: "ps_peers s \<noteq> []" and seen: "ps_seen_interface s" and doc: "show_documented L"
  defines "s' \<equiv> emit ''AllowedIPs'' (allowed_text L nets) s"
  shows "conf_inv L (on_last_peer (\<lambda>p. p\<lparr>pe_allowed_ips := nets,
           pe_allowed_line := Some (length (wp_setconf (ps_plan s)), length (wp_setconf (ps_plan s')))\<rparr>) s')"
proof -
  let ?f = "Field ''AllowedIPs'' (allowed_text L nets)"
  obtain items where i: "wp_setconf (ps_plan s) = render items" "list_all (wf_line L) items" "headed s items"
      "list_all (located L items) (ps_peers s)"
    using inv by (auto simp: conf_inv_def)
  have old: "list_all (located L (items @ [?f])) (butlast (ps_peers s))"
    using i(4) by (auto simp: list_all_iff located_append dest: in_set_butlastD)
  have wf: "wf_line L ?f" using allowed_text_no_newline [OF doc] by (auto simp: checked_field_def)
  have conf: "wp_setconf (ps_plan s') = render (items @ [?f])" by (simp add: s'_def emit_def push_setconf_def i(1))
  have new: "located L (items @ [?f]) (p\<lparr>pe_allowed_ips := nets,
      pe_allowed_line := Some (length (wp_setconf (ps_plan s)), length (wp_setconf (ps_plan s')))\<rparr>)" for p
    unfolding located_def conf i(1) by (simp, intro exI [of _ items] exI [of _ "allowed_text L nets"]) simp
  show ?thesis unfolding conf_inv_def
    using i(2,3) wf old new conf peers seen
    by (intro exI [of _ "items @ [?f]"]) (auto simp: on_last_peer_def headed_def s'_def emit_def split: if_splits)
qed

lemma conf_inv_header: "section_header line s = Ok s' \<Longrightarrow> conf_inv L s \<Longrightarrow> conf_inv L s'"
proof -
  assume h: "section_header line s = Ok s'" and "conf_inv L s"
  then obtain items where i: "wp_setconf (ps_plan s) = render items" "list_all (wf_line L) items" "headed s items"
      "list_all (located L items) (ps_peers s)"
    by (auto simp: conf_inv_def)
  have nil: "located L its default_peer" for its by (simp add: located_def default_peer_def)
  consider (interface) "\<not> ps_seen_interface s" "s' = on_plan (\<lambda>p. p\<lparr>wp_setconf := wp_setconf p @ ''[Interface]'' @ [newline]\<rparr>)
                 (s\<lparr>ps_seen_interface := True, ps_section := Sec_Interface\<rparr>)"
    | (peer) "ps_seen_interface s" "length (ps_peers s) < MAX_WIREGUARD_PEERS"
        "s' = on_plan (\<lambda>p. p\<lparr>wp_setconf := wp_setconf p @ [newline] @ ''[Peer]'' @ [newline]\<rparr>)
                 (s\<lparr>ps_peers := ps_peers s @ [default_peer], ps_section := Sec_Peer\<rparr>)"
    using h by (auto simp: section_header_def Let_def split: if_splits)
  then show ?thesis
  proof cases
    case interface
    then show ?thesis unfolding conf_inv_def using i(1,3) by (intro exI [of _ "[Head_Interface]"]) (simp add: headed_def)
  next
    case peer
    then show ?thesis unfolding conf_inv_def using i nil located_append
      by (intro exI [of _ "items @ [Head_Peer]"]) (auto simp: headed_def list_all_iff)
  qed
qed

lemma headed_section: "conf_inv L s \<Longrightarrow> ps_section s = Sec_Peer \<Longrightarrow> ps_peers s \<noteq> [] \<and> ps_seen_interface s"
  "conf_inv L s \<Longrightarrow> ps_section s = Sec_Interface \<Longrightarrow> ps_seen_interface s"
  by (auto simp: conf_inv_def headed_def split: if_splits)

lemma conf_inv_interface:
  assumes run: "interface_field L key v s = Ok s'" and inv: "conf_inv L s" and sec: "ps_section s = Sec_Interface"
    and nl: "newline \<notin> set v"
  shows "conf_inv L s'"
proof -
  note seen = headed_section(2) [OF inv sec]
  have frame: "conf_inv L t" if "wp_setconf (ps_plan t) = wp_setconf (ps_plan s)" "ps_peers t = ps_peers s"
      "ps_section t = ps_section s" "ps_seen_interface t = ps_seen_interface s" for t
    using conf_inv_frame [OF inv that] .
  have emits: "conf_inv L (emit k v t)" if "checked_field L k v" "wp_setconf (ps_plan t) = wp_setconf (ps_plan s)"
      "ps_peers t = ps_peers s" "ps_section t = ps_section s" "ps_seen_interface t = ps_seen_interface s" for k t
    using conf_inv_emit [OF frame [OF that(2-)] nl that(1)] that(5) seen by simp
  have fields: "validate_key L v \<Longrightarrow> checked_field L ''PrivateKey'' v" "validate_port v \<Longrightarrow> checked_field L ''ListenPort'' v"
    by (auto simp: checked_field_def)
  have warns: "conf_inv L (warn_once x s)" for x by (rule frame) (simp_all add: warn_once_def)
  show ?thesis using run unfolding interface_field_def
    apply (elim ok_elims)
    apply (simp_all only: result.distinct result.inject map_result_Ok_iff not_not)
    subgoal using emits [OF fields(1), of "s\<lparr>ps_has_private_key := True\<rparr>"] by simp
    subgoal using emits [OF fields(2), of "s\<lparr>ps_has_listen_port := True\<rparr>"] by simp
    subgoal by (elim exE conjE) (simp add: frame)
    subgoal by (elim exE conjE) (simp add: frame split: prod.splits)
    subgoal by (rule frame) auto
    subgoal by (rule frame) auto
    subgoal by (rule frame) auto
    subgoal using warns [of IgnoredHook] by (simp only:)
    subgoal using warns [of IgnoredSaveConfig] by (simp only:)
    done
qed

lemma emit_frame [simp]: "ps_peers (emit k v s) = ps_peers s" "ps_seen_interface (emit k v s) = ps_seen_interface s"
  by (simp_all add: emit_def)

lemma on_last_peer_frame [simp]: "ps_seen_interface (on_last_peer f s) = ps_seen_interface s"
  by (simp add: on_last_peer_def)

lemma conf_inv_peer:
  assumes run: "peer_field L key v s = Ok s'" and inv: "conf_inv L s" and sec: "ps_section s = Sec_Peer"
    and nl: "newline \<notin> set v" and doc: "show_documented L"
  shows "conf_inv L s'"
proof -
  note seen = headed_section(1) [OF inv sec]
  have fields: "validate_key L v \<Longrightarrow> checked_field L ''PublicKey'' v" "validate_key L v \<Longrightarrow> checked_field L ''PresharedKey'' v"
      "validate_endpoint v \<Longrightarrow> checked_field L ''Endpoint'' v"
      "\<And>n. parse_uint 65535 v = Some n \<Longrightarrow> 0 < n \<Longrightarrow> checked_field L ''PersistentKeepalive'' v"
    by (auto simp: checked_field_def)
  have emits: "conf_inv L (emit k v (on_last_peer f s))"
    if "checked_field L k v" "\<And>p. pe_allowed_line (f p) = pe_allowed_line p \<and> pe_allowed_ips (f p) = pe_allowed_ips p" for k f
    using conf_inv_emit [OF conf_inv_last_peer [OF inv _ that(2)] nl that(1)] seen by simp
  have quiet: "conf_inv L (on_last_peer f s)"
    if "\<And>p. pe_allowed_line (f p) = pe_allowed_line p \<and> pe_allowed_ips (f p) = pe_allowed_ips p" for f
    using conf_inv_last_peer [OF inv _ that] seen by simp
  show ?thesis using run unfolding peer_field_def Let_def
    by (elim ok_elims) (auto simp: fields intro!: emits quiet conf_inv_allowed [OF inv seen [THEN conjunct1] seen [THEN conjunct2] doc])
qed

lemma conf_inv_line:
  assumes "config_line L raw s = Ok s'" and "conf_inv L s" and "newline \<notin> set raw" and "show_documented L"
  shows "conf_inv L s'"
proof -
  have nl: "newline \<notin> set (trim v)" if "split_once CHR ''='' (trim (takeWhile (\<lambda>c. c \<noteq> CHR ''#'') raw)) = Some (k, v)" for k v
    using set_split_once [OF that] set_trim [of v] set_trim [of "takeWhile (\<lambda>c. c \<noteq> CHR ''#'') raw"] assms(3)
    by (auto dest: set_takeWhileD)
  show ?thesis using assms(1,2) unfolding config_line_def Let_def
    by (elim ok_elims)
      (auto simp: nl split: prod.splits config_section.splits elim!: if_okE
        intro: conf_inv_header [OF _ assms(2)] conf_inv_interface [OF _ assms(2)] conf_inv_peer [OF _ assms(2) _ _ assms(4)])
qed

lemma conf_inv_lines:
  "config_lines L ls s = Ok s' \<Longrightarrow> conf_inv L s \<Longrightarrow> \<forall>l \<in> set ls. newline \<notin> set l \<Longrightarrow> show_documented L \<Longrightarrow> conf_inv L s'"
  by (induction ls arbitrary: s) (auto split: result.splits dest: conf_inv_line)
lemma policy_loop_lines:
  "policy_loop N rs seen ex peers = Ok (ex', peers') \<Longrightarrow> peers \<noteq> [] \<Longrightarrow>
     length peers' = length peers \<and> pe_allowed_line (peers' ! 0) = pe_allowed_line (peers ! 0)"
proof (induction rs arbitrary: seen ex peers)
  case Nil
  then show ?case by simp
next
  case (Cons r rs)
  let ?q = "peers[0 := (peers ! 0)\<lparr>pe_allowed_ips := pe_allowed_ips (peers ! 0) @ [pr_destination r]\<rparr>]"
  have "?q \<noteq> [] \<and> length ?q = length peers \<and> pe_allowed_line (?q ! 0) = pe_allowed_line (peers ! 0)"
    using Cons.prems(2) by (cases peers) simp_all
  moreover have "\<exists>seen ex c. policy_loop N rs seen ex (if c then peers else ?q) = Ok (ex', peers')"
    using Cons.prems(1) unfolding policy_loop.simps Let_def
    by (elim if_okE) (simp_all only: result.distinct, blast)
  then obtain seen ex c where "policy_loop N rs seen ex (if c then peers else ?q) = Ok (ex', peers')" by blast
  ultimately show ?case using Cons.IH [of seen ex "if c then peers else ?q"] Cons.prems(2) by (cases c) simp_all
qed

lemma replace_range_line:
  "replace_range (length (render pre), length (render (pre @ [l]))) (render_line m) (render (pre @ l # post)) = render (pre @ m # post)"
  by (simp add: replace_range_def)

lemma plan_routes_replaced:
  assumes run: "plan_routes L routes s = Ok plan" and "wp_setconf plan \<noteq> wp_setconf (ps_plan s)"
  shows "\<exists>ex ps. policy_loop (lb_net L) routes [] False (ps_peers s) = Ok (ex, ps)
    \<and> wp_setconf plan = replace_range (the (pe_allowed_line (ps ! 0)))
           (push_setconf [] ''AllowedIPs'' (allowed_text L (pe_allowed_ips (ps ! 0)))) (wp_setconf (ps_plan s))"
proof (cases "routes = []")
  case True
  then show ?thesis using assms by (auto simp: plan_routes_def Let_def split: if_splits)
next
  case False
  then obtain ex ps where "policy_loop (lb_net L) routes [] False (ps_peers s) = Ok (ex, ps)"
    using run unfolding plan_routes_def Let_def by (auto elim!: result_okE)
  then show ?thesis using assms False by (auto simp: plan_routes_def Let_def split: if_splits)
qed

lemma plan_routes_conf:
  assumes run: "plan_routes L routes s = Ok plan" and inv: "conf_inv L s" and fine: "complete s = None" and doc: "show_documented L"
  shows "\<exists>items. wp_setconf plan = render items \<and> list_all (wf_line L) items \<and> headed s items"
proof -
  obtain items where i: "wp_setconf (ps_plan s) = render items" "list_all (wf_line L) items" "headed s items"
      "list_all (located L items) (ps_peers s)"
    using inv by (auto simp: conf_inv_def)
  have peers: "ps_peers s \<noteq> []" "pe_allowed_ips (ps_peers s ! 0) \<noteq> []"
    using fine by (auto simp: complete_def list_ex_iff split: if_splits)
  then have "located L items (ps_peers s ! 0)" using i(4) by (simp add: list_all_length)
  then obtain pre v post where at: "pe_allowed_line (ps_peers s ! 0) = Some (length (render pre), length (render (pre @ [Field ''AllowedIPs'' v])))"
    and items: "items = pre @ Field ''AllowedIPs'' v # post"
    using peers(2) by (auto simp: located_def split: option.splits)
  show ?thesis
  proof (cases "wp_setconf plan = wp_setconf (ps_plan s)")
    case True
    then show ?thesis using i by auto
  next
    case False
    then obtain ex ps where loop: "policy_loop (lb_net L) routes [] False (ps_peers s) = Ok (ex, ps)"
      and conf: "wp_setconf plan = replace_range (the (pe_allowed_line (ps ! 0)))
           (push_setconf [] ''AllowedIPs'' (allowed_text L (pe_allowed_ips (ps ! 0)))) (wp_setconf (ps_plan s))"
      using plan_routes_replaced [OF run False] by blast
    let ?new = "Field ''AllowedIPs'' (allowed_text L (pe_allowed_ips (ps ! 0)))"
    have "pe_allowed_line (ps ! 0) = Some (length (render pre), length (render (pre @ [Field ''AllowedIPs'' v])))"
      using policy_loop_lines [OF loop peers(1)] at by simp
    then have "wp_setconf plan = render (pre @ ?new # post)"
      using replace_range_line [of pre "Field ''AllowedIPs'' v" ?new post]
      unfolding conf i(1) items push_setconf_def by simp
    moreover have "wf_line L ?new" using allowed_text_no_newline [OF doc] by (auto simp: checked_field_def)
    moreover have "headed s (pre @ ?new # post)" using i(3) unfolding items headed_def
      by (cases pre) (auto split: if_splits)
    ultimately show ?thesis using i(2) items by (intro exI [of _ "pre @ ?new # post"]) simp
  qed
qed

text \<open>C29: The text handed to the WireGuard tool is confined: whatever configuration a client submits, the \<open>setconf\<close> text of an
  accepted plan consists of one \<open>[Interface]\<close> header, one to sixteen \<open>[Peer]\<close> headers and lines for the seven
  known fields only, each value checked (key of 32 bytes, port, endpoint, networks, keepalive) and
  free of line breaks.  No hook, no \<open>Table\<close>, \<open>FwMark\<close> or unknown field and no injected line reaches the
  tool, also when AllowedIPs were widened for policy routes.\<close>

theorem accepted_setconf_confined:
  assumes "parse_wireguard_config L source routes = Ok plan" and "show_documented L"
  shows "\<exists>items. wp_setconf plan = render (Head_Interface # items) \<and> Head_Interface \<notin> set items
    \<and> 1 \<le> count_list items Head_Peer \<and> count_list items Head_Peer \<le> 16 \<and> list_all (wf_line L) items"
proof -
  obtain s p where lines: "config_lines L (text_lines source) init_parser = Ok s" and fine: "complete s = None"
    and p: "plan_routes L routes s = Ok p" and fin: "finish_plan L p = Ok plan"
    using assms(1) unfolding parse_wireguard_config_def by (auto split: if_splits result.splits option.splits)
  have "conf_inv L s"
    using conf_inv_lines [OF lines conf_inv_init _ assms(2)] text_lines_no_newline by blast
  from plan_routes_conf [OF p this fine assms(2)] obtain items
    where i: "wp_setconf p = render items" "list_all (wf_line L) items" "headed s items" by blast
  have "wp_setconf plan = wp_setconf p"
    using fin by (auto simp: finish_plan_def full_flags_def Let_def split: prod.splits if_splits)
  moreover have "ps_peers s \<noteq> []" using fine by (auto simp: complete_def split: if_splits)
  ultimately show ?thesis using i
    by (auto simp: headed_def MAX_WIREGUARD_PEERS_def Suc_le_eq split: if_splits)
qed
section \<open>The values of an accepted plan\<close>

definition usable_addr :: "ip_addr \<Rightarrow> bool" where
  "usable_addr a \<longleftrightarrow> \<not> is_unspecified a \<and> \<not> is_multicast a"

definition values_ok :: "wg_plan \<Rightarrow> bool" where
  "values_ok p \<longleftrightarrow> length (wp_addresses p) \<le> 32 \<and> distinct (wp_addresses p) \<and> list_all (usable_addr \<circ> net_addr) (wp_addresses p)
     \<and> length (wp_dns_servers p) \<le> 8 \<and> list_all usable_addr (wp_dns_servers p) \<and> length (wp_dns_domains p) \<le> 16
     \<and> (wp_mtu p = None \<or> 576 \<le> the (wp_mtu p) \<and> the (wp_mtu p) \<le> 9000)"

definition parser_ok :: "parser \<Rightarrow> bool" where
  "parser_ok s \<longleftrightarrow> values_ok (ps_plan s) \<and> wp_routes (ps_plan s) = []"

lemma address_items_ok:
  "address_items N parts acc = Ok as \<Longrightarrow> length acc \<le> 32 \<Longrightarrow> distinct acc \<Longrightarrow> list_all (usable_addr \<circ> net_addr) acc \<Longrightarrow>
     length as \<le> 32 \<and> distinct as \<and> list_all (usable_addr \<circ> net_addr) as"
proof (induction parts arbitrary: acc)
  case (Cons part parts)
  show ?case using Cons.prems Cons.IH unfolding address_items.simps
    by (elim ok_elims) (simp_all add: usable_addr_def MAX_ADDRESSES_def)
qed simp

lemma dns_items_ok:
  "dns_items parts (servers, domains) = Ok (servers', domains') \<Longrightarrow> length servers \<le> 8 \<Longrightarrow> list_all usable_addr servers \<Longrightarrow>
     length domains \<le> 16 \<Longrightarrow> length servers' \<le> 8 \<and> list_all usable_addr servers' \<and> length domains' \<le> 16"
proof (induction parts arbitrary: servers domains)
  case (Cons part parts)
  then show ?case
    by (auto simp: usable_addr_def MAX_DNS_SERVERS_def MAX_DNS_DOMAINS_def split: option.splits if_splits)
qed simp

lemma parser_ok_frame:
  "parser_ok s \<Longrightarrow> parser_ok (emit k v s)" "parser_ok s \<Longrightarrow> parser_ok (on_last_peer f s)" "parser_ok s \<Longrightarrow> parser_ok (warn_once x s)"
  by (simp_all add: parser_ok_def values_ok_def emit_def on_last_peer_def warn_once_def)

lemma parser_ok_same:
  "ps_plan s' = ps_plan s \<Longrightarrow> parser_ok s \<Longrightarrow> parser_ok s'"
  by (simp add: parser_ok_def)

lemma parser_ok_interface:
  assumes run: "interface_field L key v s = Ok s'" and ok: "parser_ok s"
  shows "parser_ok s'"
proof -
  have address: "parser_ok (on_plan (\<lambda>p. p\<lparr>wp_addresses := as\<rparr>) s)"
    if "address_items (lb_net L) (comma_items v) (wp_addresses (ps_plan s)) = Ok as" for as
    using address_items_ok [OF that] ok by (simp add: parser_ok_def values_ok_def)
  have dns: "parser_ok (on_plan (\<lambda>p. p\<lparr>wp_dns_servers := fst x, wp_dns_domains := snd x\<rparr>) s)"
    if "dns_items (comma_items v) (wp_dns_servers (ps_plan s), wp_dns_domains (ps_plan s)) = Ok x" for x
    using dns_items_ok [of _ _ _ "fst x" "snd x"] that ok by (simp add: parser_ok_def values_ok_def)
  have mtu: "parser_ok (on_plan (\<lambda>p. p\<lparr>wp_mtu := Some m\<rparr>) (s\<lparr>ps_mtu_seen := True\<rparr>))" if "576 \<le> m \<and> m \<le> 9000" for m
    using that ok by (simp add: parser_ok_def values_ok_def)
  have same: "parser_ok (s\<lparr>ps_has_private_key := True\<rparr>)" "parser_ok (s\<lparr>ps_has_listen_port := True\<rparr>)"
      "parser_ok (s\<lparr>ps_table_seen := True, ps_table_off := b\<rparr>)" for b
    by (rule parser_ok_same [OF _ ok]; simp)+
  note frame = parser_ok_frame(1) [OF same(1)] parser_ok_frame(1) [OF same(2)] same(3) parser_ok_frame(3) [OF ok]
  show ?thesis using run unfolding interface_field_def case_prod_beta
    apply (elim ok_elims)
    apply (simp_all only: result.distinct result.inject map_result_Ok_iff not_not)
    subgoal using frame(1) by blast
    subgoal using frame(2) by blast
    subgoal using address by blast
    subgoal using dns by blast
    subgoal for m using mtu [of m] by (simp only:)
    subgoal using frame(3) [of True] by (simp only:)
    subgoal using frame(3) [of False] by (simp only:)
    subgoal using frame(4) [of IgnoredHook] by (simp only:)
    subgoal using frame(4) [of IgnoredSaveConfig] by (simp only:)
    done
qed

lemma parser_ok_peer: "peer_field L key v s = Ok s' \<Longrightarrow> parser_ok s \<Longrightarrow> parser_ok s'"
  unfolding peer_field_def Let_def by (elim ok_elims) (auto simp: parser_ok_frame)

lemma parser_ok_header: "section_header line s = Ok s' \<Longrightarrow> parser_ok s \<Longrightarrow> parser_ok s'"
  unfolding section_header_def Let_def by (elim ok_elims) (auto simp: parser_ok_def values_ok_def)

lemma parser_ok_line: "config_line L raw s = Ok s' \<Longrightarrow> parser_ok s \<Longrightarrow> parser_ok s'"
  unfolding config_line_def Let_def
  by (elim ok_elims) (auto split: prod.splits config_section.splits elim!: if_okE
      intro: parser_ok_header parser_ok_interface parser_ok_peer)

lemma parser_ok_lines: "config_lines L ls s = Ok s' \<Longrightarrow> parser_ok s \<Longrightarrow> parser_ok s'"
  by (induction ls arbitrary: s) (auto split: result.splits dest: parser_ok_line)
text \<open>AllowedIPs are disjoint across peers, so that each packet has one peer.\<close>

lemma peer_overlaps_None:
  "peer_overlaps N prior seen as = None \<Longrightarrow> distinct as \<and> set as \<inter> set seen = {} \<and> set as \<inter> set prior = {}
     \<and> (\<forall>a \<in> set as. \<forall>p \<in> set prior. \<not> contains_net N p a \<and> \<not> contains_net N a p)"
proof (induction as arbitrary: seen)
  case (Cons a as)
  have a: "a \<notin> set seen" "a \<notin> set prior" "\<forall>p \<in> set prior. \<not> contains_net N p a \<and> \<not> contains_net N a p"
    and rest: "peer_overlaps N prior (a # seen) as = None"
    using Cons.prems by (auto simp: list_ex_iff split: if_splits)
  show ?case using a Cons.IH [OF rest] by auto
qed simp

lemma overlaps_None:
  "overlaps N prior ps = None \<Longrightarrow> distinct (concat (map pe_allowed_ips ps)) \<and> set prior \<inter> set (concat (map pe_allowed_ips ps)) = {}
     \<and> (\<forall>a \<in> set (concat (map pe_allowed_ips ps)). \<forall>p \<in> set prior. \<not> contains_net N p a \<and> \<not> contains_net N a p)"
proof (induction ps arbitrary: prior)
  case (Cons p ps)
  have 1: "peer_overlaps N prior [] (pe_allowed_ips p) = None" and 2: "overlaps N (prior @ pe_allowed_ips p) ps = None"
    using Cons.prems by (auto split: option.splits)
  show ?case using peer_overlaps_None [OF 1] Cons.IH [OF 2] by auto
qed simp

lemma policy_loop_routes:
  "policy_loop N rs seen ex peers = Ok out \<Longrightarrow>
     distinct (map pr_destination rs) \<and> set (map pr_destination rs) \<inter> set seen = {} \<and> list_all (\<lambda>r. pr_via r = None) rs"
proof (induction rs arbitrary: seen ex peers)
  case (Cons r rs)
  have "pr_via r = None \<and> pr_destination r \<notin> set seen \<and> (\<exists>ex q. policy_loop N rs (pr_destination r # seen) ex q = Ok out)"
    using Cons.prems unfolding policy_loop.simps Let_def by (elim if_okE) (simp_all only: result.distinct de_Morgan_disj not_not, blast)
  then obtain ex q where r: "pr_via r = None" "pr_destination r \<notin> set seen"
    and rest: "policy_loop N rs (pr_destination r # seen) ex q = Ok out" by blast
  show ?case using r Cons.IH [OF rest] by auto
qed simp

lemma values_ok_update [simp]:
  "values_ok (p\<lparr>wp_routes := r\<rparr>) = values_ok p" "values_ok (p\<lparr>wp_setconf := c\<rparr>) = values_ok p"
  "values_ok (p\<lparr>wp_full_ipv4 := a, wp_full_ipv6 := b\<rparr>) = values_ok p"
  by (simp_all add: values_ok_def)

lemma plan_routes_ok:
  assumes run: "plan_routes L routes s = Ok plan" and ok: "parser_ok s" and len: "length routes \<le> MAX_ROUTES"
    and apart: "overlaps N [] (ps_peers s) = None"
  shows "values_ok plan \<and> wp_addresses plan = wp_addresses (ps_plan s) \<and> wp_dns_servers plan = wp_dns_servers (ps_plan s)
    \<and> wp_dns_domains plan = wp_dns_domains (ps_plan s) \<and> length (wp_routes plan) \<le> MAX_ROUTES
    \<and> distinct (map pr_destination (wp_routes plan)) \<and> list_all (\<lambda>r. pr_via r = None) (wp_routes plan)"
proof (cases "routes = []")
  case True
  let ?rs = "map (\<lambda>d. \<lparr> pr_destination = d, pr_metric = 5, pr_via = None \<rparr>) (concat (map pe_allowed_ips (ps_peers s)))"
  have "distinct (concat (map pe_allowed_ips (ps_peers s)))" using overlaps_None [OF apart] by blast
  then have rs: "distinct (map pr_destination ?rs)" "list_all (\<lambda>r. pr_via r = None) ?rs" by (simp_all add: comp_def list_all_iff)
  have "plan = ps_plan s \<or> plan = (ps_plan s)\<lparr>wp_routes := wp_routes (ps_plan s) @ ?rs\<rparr> \<and> length ?rs \<le> MAX_ROUTES"
    using run True unfolding plan_routes_def Let_def by (auto simp only: simp_thms elim!: if_okE)
  then show ?thesis using rs ok unfolding parser_ok_def by (elim disjE) simp_all
next
  case False
  then obtain ex ps where loop: "policy_loop (lb_net L) routes [] False (ps_peers s) = Ok (ex, ps)"
    using run unfolding plan_routes_def Let_def by (auto elim!: result_okE)
  have "wp_routes plan = routes \<and> values_ok plan \<and> wp_addresses plan = wp_addresses (ps_plan s)
      \<and> wp_dns_servers plan = wp_dns_servers (ps_plan s) \<and> wp_dns_domains plan = wp_dns_domains (ps_plan s)"
    using run False loop ok by (cases ex) (auto simp: plan_routes_def Let_def parser_ok_def)
  then show ?thesis using policy_loop_routes [OF loop] len by simp
qed

text \<open>C30: An accepted WireGuard plan is within bounds and consistent: at most 32 distinct addresses, none unspecified or multicast;
  at most 8 such resolvers, each reachable through a route of the tunnel, and at most 16 search
  domains, none without a resolver; an MTU between 576 and 9000; at most 512 routes without gateway
  and with pairwise distinct destinations; and a route set that covers the whole of an address family
  is marked as a full tunnel of that family.\<close>

theorem accepted_plan_within_bounds:
  assumes "parse_wireguard_config L source routes = Ok plan"
  shows "values_ok plan
    \<and> (wp_dns_domains plan = [] \<or> wp_dns_servers plan \<noteq> [])
    \<and> list_all (\<lambda>srv. list_ex (\<lambda>r. net_has_addr (lb_net L) (pr_destination r) srv) (wp_routes plan)) (wp_dns_servers plan)
    \<and> length (wp_routes plan) \<le> 512 \<and> distinct (map pr_destination (wp_routes plan))
    \<and> list_all (\<lambda>r. pr_via r = None) (wp_routes plan)
    \<and> fst (full_coverage L (map pr_destination (wp_routes plan))) \<le> wp_full_ipv4 plan
    \<and> snd (full_coverage L (map pr_destination (wp_routes plan))) \<le> wp_full_ipv6 plan
    \<and> wp_addresses plan \<noteq> []"
proof -
  obtain s p where lines: "config_lines L (text_lines source) init_parser = Ok s" and fine: "complete s = None"
    and apart: "overlaps (lb_net L) [] (ps_peers s) = None"
    and p: "plan_routes L routes s = Ok p" and fin: "finish_plan L p = Ok plan" and len: "length routes \<le> MAX_ROUTES"
    using assms(1) unfolding parse_wireguard_config_def by (auto split: if_splits result.splits option.splits)
  have "parser_ok s"
    by (rule parser_ok_lines [OF lines]) (simp add: parser_ok_def values_ok_def init_parser_def empty_plan_def)
  note p_ok = plan_routes_ok [OF p this len apart]
  have flags: "plan = full_flags p" and dns: "list_all (\<lambda>srv. list_ex (\<lambda>r. net_has_addr (lb_net L) (pr_destination r) srv) (wp_routes plan)) (wp_dns_servers plan)"
    and cover: "fst (full_coverage L (map pr_destination (wp_routes plan))) \<le> wp_full_ipv4 plan"
      "snd (full_coverage L (map pr_destination (wp_routes plan))) \<le> wp_full_ipv6 plan"
    using fin unfolding finish_plan_def Let_def
    by (auto simp: list_ex_iff list_all_iff split: prod.splits if_splits)
  have same: "wp_addresses plan = wp_addresses p" "values_ok plan = values_ok p" "wp_dns_domains plan = wp_dns_domains p"
      "wp_dns_servers plan = wp_dns_servers p" "wp_routes plan = wp_routes p"
    by (simp_all add: flags full_flags_def Let_def)
  have "wp_addresses (ps_plan s) \<noteq> []" "wp_dns_domains (ps_plan s) = [] \<or> wp_dns_servers (ps_plan s) \<noteq> []"
    using fine by (auto simp: complete_def split: if_splits)
  then show ?thesis using p_ok dns cover unfolding same by (simp add: MAX_ROUTES_def)
qed
section \<open>A worked configuration\<close>

definition example_libs :: wg_libs where
  "example_libs = \<lparr> lb_net = word_ipnet\<lparr>net_parse := (\<lambda>s.
       if s = ''10.0.0.2/32'' then Some (v4_net 167772162 32)
       else if s = ''10.0.0.0/8'' then Some (v4_net 167772160 8) else None)\<rparr>,
     lb_decoded_len = (\<lambda>s. if s = ''K='' then Some 32 else None),
     lb_show_net = (\<lambda>n. if n = v4_net 167772160 8 then ''10.0.0.0/8'' else ''10.0.0.2/32''),
     lb_aggregate = (\<lambda>ns. ns) \<rparr>"

definition example_config :: string where
  "example_config = concat (map (\<lambda>l. l @ [newline])
     [''[Interface]'', ''PrivateKey = K='', ''PostUp = reboot'', ''Address = 10.0.0.2/32'', ''[Peer]'', ''PublicKey = K='',
      ''Endpoint = vpn:51820 # home'', ''AllowedIPs = 10.0.0.0/8''])"

definition example_setconf :: string where
  "example_setconf = render [Head_Interface, Field ''PrivateKey'' ''K='', Head_Peer, Field ''PublicKey'' ''K='',
     Field ''Endpoint'' ''vpn:51820'', Field ''AllowedIPs'' ''10.0.0.0/8'']"

lemma example_parses:
  "map_result wp_setconf (parse_wireguard_config example_libs example_config []) = Ok example_setconf"
  by code_simp
lemma example_plan: "\<exists>plan. parse_wireguard_config example_libs example_config [] = Ok plan"
  using example_parses by (cases "parse_wireguard_config example_libs example_config []") simp_all

lemma example_show_documented: "show_documented example_libs"
  by (simp add: show_documented_def example_libs_def)

theorem accepted_setconf_confined_witness:
  "\<exists>plan items. parse_wireguard_config example_libs example_config [] = Ok plan
    \<and> wp_setconf plan = render (Head_Interface # items) \<and> list_all (wf_line example_libs) items"
proof -
  obtain plan where p: "parse_wireguard_config example_libs example_config [] = Ok plan" using example_plan by blast
  from accepted_setconf_confined [OF p example_show_documented] p show ?thesis by blast
qed

theorem accepted_plan_within_bounds_witness:
  "\<exists>plan. parse_wireguard_config example_libs example_config [] = Ok plan \<and> values_ok plan \<and> wp_addresses plan \<noteq> []
    \<and> distinct (map pr_destination (wp_routes plan))"
proof -
  obtain plan where p: "parse_wireguard_config example_libs example_config [] = Ok plan" using example_plan by blast
  from accepted_plan_within_bounds [OF p] p show ?thesis by blast
qed

end
