(* ===== verification/Ovpn_Connect.thy ===== *)
theory Ovpn_Connect
  imports Wg_Connect Ovpn_Config Attach
begin

text \<open>
  OpenVPN connections of the daemon (\<open>crates/daemon/src/core.rs\<close>): planning, starting and stopping the managed process
  (\<open>plan_openvpn\<close>, \<open>connect_openvpn\<close>, \<open>disconnect_openvpn\<close>, the route probes), the network plan built from what the
  server pushes (\<open>OpenVpnNetworkPlan::from_runtime\<close>), and the pass that applies it (\<open>reconcile_openvpn\<close>).
  The runtime root directory is the parameter \<open>root\<close>.
\<close>

section \<open>Names and marks\<close>

definition ovpn_owner :: "string \<Rightarrow> string" where "ovpn_owner profile_id = ''ovpn:'' @ profile_id"
definition probe_owner :: "string \<Rightarrow> string" where "probe_owner profile_id = ''ovpn-probe:'' @ profile_id"

fun resolve_name_in :: "'k openvpn_runner \<Rightarrow> nat \<Rightarrow> string \<Rightarrow> string list \<Rightarrow> 'k \<Rightarrow> string io" where
  "resolve_name_in run uid fallback [] w = Err AlreadyExists"
| "resolve_name_in run uid fallback (name # names) w =
     (case pr_link_index run name w of
        Err e \<Rightarrow> Err e
      | Ok (Some _) \<Rightarrow> if name = fallback then Err AlreadyExists else resolve_name_in run uid fallback names w
      | Ok None \<Rightarrow>
          (case vr_staging_exists run uid name w of
             Err e \<Rightarrow> Err e
           | Ok False \<Rightarrow> Ok name
           | Ok True \<Rightarrow> if name = fallback then Err AlreadyExists else resolve_name_in run uid fallback names w))"

definition resolve_openvpn_name :: "'k openvpn_runner \<Rightarrow> nat \<Rightarrow> openvpn_plan \<Rightarrow> 'k \<Rightarrow> string io" where
  "resolve_openvpn_name run uid plan w =
     resolve_name_in run uid (vp_fallback_name plan) [vp_name plan, vp_fallback_name plan] w"

definition mark_in_journal :: "nat \<Rightarrow> owned_resource \<Rightarrow> bool" where
  "mark_in_journal m r = (case r of
     OpenVpnProcess p \<Rightarrow> op_transport_mark p = Some m
   | XrayProcess p \<Rightarrow> xp_transport_mark p = m
   | WireGuardLink l \<Rightarrow> (case wl_full l of None \<Rightarrow> False | Some f \<Rightarrow> fr_fwmark f = m)
   | _ \<Rightarrow> False)"

definition rule_conflicts :: "nat \<Rightarrow> nat \<Rightarrow> owned_rule \<Rightarrow> bool" where
  "rule_conflicts m main r \<longleftrightarrow> or_fwmark r = Some m \<or> or_priority r = main \<or> or_priority r = main + 1"

definition mark_free :: "'k platform \<Rightarrow> owned_rule list \<Rightarrow> 'k daemon \<Rightarrow> nat \<Rightarrow> bool" where
  "mark_free P rules d slot \<longleftrightarrow>
     (let m = 51820 + slot in
      \<not> list_ex (\<lambda>e. list_ex (mark_in_journal m) (je_resources e)) (d_journal d)
      \<and> \<not> list_ex (rule_conflicts m (10000 + slot * 2)) rules
      \<and> (case pf_policy P of None \<Rightarrow> True | Some px \<Rightarrow> px_table_in_use px m (d_world d) = Ok False))"

definition allocate_openvpn_mark :: "'k platform \<Rightarrow> 'k daemon \<Rightarrow> nat io" where
  "allocate_openvpn_mark P d =
     (case (case pf_policy P of None \<Rightarrow> Ok [] | Some px \<Rightarrow> px_rules_snapshot px (d_world d)) of
        Err e \<Rightarrow> Err e
      | Ok rules \<Rightarrow>
          (case List.find (mark_free P rules d) [0..<128] of
             None \<Rightarrow> Err AlreadyExists
           | Some slot \<Rightarrow> Ok (51820 + slot)))"

section \<open>Planning\<close>

datatype plan_conflict = ActiveConnection | ActiveProbe | InterfaceOccupied | StagingLeftover

record openvpn_plan_result =
  pz_profile_id :: string
  pz_owner :: string
  pz_interface_name :: string
  pz_fallback_interface_name :: string
  pz_staging_dir :: string
  pz_config_path :: string
  pz_management_socket :: string
  pz_conflicts :: "plan_conflict list"

definition name_conflicts :: "'k openvpn_runner \<Rightarrow> nat \<Rightarrow> string \<Rightarrow> 'k \<Rightarrow> plan_conflict list \<Rightarrow> plan_conflict list io" where
  "name_conflicts run uid name w cs =
     (case pr_link_index run name w of
        Err e \<Rightarrow> Err e
      | Ok link \<Rightarrow>
          (let cs = (if link \<noteq> None \<and> InterfaceOccupied \<notin> set cs then cs @ [InterfaceOccupied] else cs) in
           case vr_staging_exists run uid name w of
             Err e \<Rightarrow> Err e
           | Ok staged \<Rightarrow> Ok (if staged \<and> StagingLeftover \<notin> set cs then cs @ [StagingLeftover] else cs)))"

definition plan_openvpn :: "'k platform \<Rightarrow> string \<Rightarrow> nat \<Rightarrow> openvpn_plan \<Rightarrow> 'k daemon \<Rightarrow> openvpn_plan_result io" where
  "plan_openvpn P root uid plan d =
     (case pf_openvpn P of
        None \<Rightarrow> Err NotConnected
      | Some run \<Rightarrow>
          (let id = vp_profile_id plan;
               cs = (if owner_position uid (ovpn_owner id) d \<noteq> None then [ActiveConnection] else [])
                 @ (if owner_position uid (probe_owner id) d \<noteq> None then [ActiveProbe] else []);
               result = (\<lambda>name cs. (let staging = stage_dir root uid name in
                 \<lparr> pz_profile_id = id, pz_owner = ovpn_owner id, pz_interface_name = name,
                   pz_fallback_interface_name = vp_fallback_name plan, pz_staging_dir = staging,
                   pz_config_path = path_join staging ''config.ovpn'', pz_management_socket = path_join staging ''management.sock'',
                   pz_conflicts = cs \<rparr>))
           in case name_conflicts run uid (vp_name plan) (d_world d) cs of
                Err e \<Rightarrow> Err e
              | Ok cs \<Rightarrow>
                  if (InterfaceOccupied \<in> set cs \<or> StagingLeftover \<in> set cs) \<and> vp_fallback_name plan \<noteq> vp_name plan
                  then (case name_conflicts run uid (vp_fallback_name plan) (d_world d) cs of
                          Err e \<Rightarrow> Err e
                        | Ok cs \<Rightarrow> Ok (result (vp_fallback_name plan) cs))
                  else Ok (result (vp_name plan) cs)))"

section \<open>Connections and probes\<close>

definition ovpn_entry :: "nat \<Rightarrow> string \<Rightarrow> string \<Rightarrow> nat \<Rightarrow> journal_entry" where
  "ovpn_entry uid owner name m =
     \<lparr> je_uid = uid, je_owner = owner, je_state = Applying,
       je_resources = [OpenVpnProcess \<lparr> op_name = name, op_owner_marker = wg_marker uid owner,
         op_transport_mark = Some m, op_full = None \<rparr>] \<rparr>"

text \<open>The common part of \<open>connect_openvpn\<close> and \<open>start_openvpn_probe\<close>: everything up to the entry being \<open>Applied\<close>.\<close>

definition launch_openvpn ::
    "'k platform \<Rightarrow> string \<Rightarrow> nat \<Rightarrow> string \<Rightarrow> string \<Rightarrow> openvpn_plan \<Rightarrow> 'k daemon \<Rightarrow> unit io \<times> 'k daemon" where
  "launch_openvpn P root uid owner other plan d =
     (if \<not> validate_owner owner then (Err InvalidInput, d)
      else if owner_position uid owner d \<noteq> None \<or> owner_position uid other d \<noteq> None then (Err AlreadyExists, d)
      else case allocate_openvpn_mark P d of
        Err e \<Rightarrow> (Err e, d)
      | Ok m \<Rightarrow>
          (case pf_openvpn P of
             None \<Rightarrow> (Err NotConnected, d)
           | Some run \<Rightarrow>
               (case vr_verify_binary run (d_world d) of
                  Err e \<Rightarrow> (Err e, d)
                | Ok _ \<Rightarrow>
                    (case resolve_openvpn_name run uid plan (d_world d) of
                       Err e \<Rightarrow> (Err e, d)
                     | Ok name \<Rightarrow>
                         (let i = length (d_journal d) in
                          case save_journal P (d\<lparr>d_journal := d_journal d @ [ovpn_entry uid owner name m]\<rparr>) of
                            (Err e, d) \<Rightarrow> (Err e, d\<lparr>d_journal := butlast (d_journal d)\<rparr>)
                          | (Ok _, d) \<Rightarrow>
                              (let (started, d) =
                                 (case sanitized_config plan (stage_dir root uid name) of
                                    Err e \<Rightarrow> (Err e, d)
                                  | Ok config \<Rightarrow> on_world (vr_start run uid name config (vp_credentials plan) m) d)
                               in case started of
                                    Err e \<Rightarrow> (Err e, persist P (snd (teardown_openvpn_entry P i d)))
                                  | Ok _ \<Rightarrow> (Ok (), persist P (set_entry i (mark_state Applied) d))))))))"

datatype ovpn_connection = Ovpn_Stopped | Ovpn_Connecting | Ovpn_Connected | Ovpn_Reconnecting | Ovpn_Failed

datatype ovpn_warning = Ovpn_DnsNotApplied | Ovpn_Ipv6NotCovered | Ovpn_AuthenticationFailed

record ovpn_status =
  os_profile_id :: string
  os_state :: ovpn_connection
  os_interface_name :: "string option"
  os_rx_bytes :: nat
  os_tx_bytes :: nat
  os_applied_routes :: "ip_net list"
  os_warnings :: "ovpn_warning list"
  os_failure_reason :: "openvpn_failure option"

definition ovpn_state :: "journal_entry option \<Rightarrow> openvpn_runtime option \<Rightarrow> bool \<Rightarrow> ovpn_connection" where
  "ovpn_state entry runtime failed =
     (case entry of
        Some e \<Rightarrow>
          if je_state e = Stale then Ovpn_Failed
          else (case runtime of
                  None \<Rightarrow> Ovpn_Failed
                | Some rt \<Rightarrow> (case sn_state (ort_snapshot rt) of
                    Some St_Connected \<Rightarrow> Ovpn_Connected
                  | Some St_Reconnecting \<Rightarrow> Ovpn_Reconnecting
                  | Some St_Exiting \<Rightarrow> Ovpn_Failed
                  | _ \<Rightarrow> Ovpn_Connecting))
      | None \<Rightarrow> if failed then Ovpn_Failed else Ovpn_Stopped)"

definition openvpn_status :: "nat \<Rightarrow> string \<Rightarrow> 'k daemon \<Rightarrow> ovpn_status" where
  "openvpn_status uid profile_id d =
     (let key = (uid, ovpn_owner profile_id);
          entry = List.find (\<lambda>e. je_uid e = uid \<and> je_owner e = ovpn_owner profile_id) (d_journal d);
          resources = (case entry of None \<Rightarrow> [] | Some e \<Rightarrow> je_resources e);
          runtime = d_openvpn_runtime d key;
          state = ovpn_state entry runtime (key \<in> d_openvpn_failed d)
      in \<lparr> os_profile_id = profile_id, os_state = state, os_interface_name = map_option op_name (find_openvpn resources),
           os_rx_bytes = (case runtime of None \<Rightarrow> 0 | Some rt \<Rightarrow> sn_received (ort_snapshot rt)),
           os_tx_bytes = (case runtime of None \<Rightarrow> 0 | Some rt \<Rightarrow> sn_sent (ort_snapshot rt)),
           os_applied_routes = map ar_destination (entry_routes resources),
           os_warnings =
             (if list_ex (\<lambda>r. case r of Dns x \<Rightarrow> \<not> wd_applied x | _ \<Rightarrow> False) resources then [Ovpn_DnsNotApplied] else [])
             @ (if list_ex (\<lambda>r. case r of OpenVpnProcess p \<Rightarrow> (case op_full p of None \<Rightarrow> False | Some f \<Rightarrow> fr_ipv4 f \<and> \<not> fr_ipv6 f) | _ \<Rightarrow> False)
                  resources then [Ovpn_Ipv6NotCovered] else [])
             @ (if state = Ovpn_Failed \<and> key \<in> d_openvpn_auth_failed d then [Ovpn_AuthenticationFailed] else []),
           os_failure_reason = (if state = Ovpn_Failed then d_openvpn_failures d key else None) \<rparr>)"

definition forget_failure :: "owner_key \<Rightarrow> 'k daemon \<Rightarrow> 'k daemon" where
  "forget_failure key d = d\<lparr>d_openvpn_failed := d_openvpn_failed d - {key}, d_openvpn_auth_failed := d_openvpn_auth_failed d - {key},
     d_openvpn_failures := (d_openvpn_failures d)(key := None)\<rparr>"

definition fresh_runtime :: "openvpn_plan \<Rightarrow> openvpn_runtime" where
  "fresh_runtime plan = \<lparr> ort_explicit_routes = vp_routes plan, ort_role = vp_role plan, ort_dns_domains = vp_dns_domains plan,
     ort_snapshot = default_snapshot \<rparr>"

definition connect_openvpn ::
    "'k platform \<Rightarrow> string \<Rightarrow> nat \<Rightarrow> openvpn_plan \<Rightarrow> 'k daemon \<Rightarrow> ovpn_status io \<times> 'k daemon" where
  "connect_openvpn P root uid plan d =
     (let id = vp_profile_id plan; key = (uid, ovpn_owner id) in
      case launch_openvpn P root uid (ovpn_owner id) (probe_owner id) plan d of
        (Err e, d) \<Rightarrow> (Err e, d)
      | (Ok _, d) \<Rightarrow>
          (let d = forget_failure key (d\<lparr>d_openvpn_runtime := (d_openvpn_runtime d)(key \<mapsto> fresh_runtime plan)\<rparr>)
           in (Ok (openvpn_status uid id d), d)))"

definition start_openvpn_probe :: "'k platform \<Rightarrow> string \<Rightarrow> nat \<Rightarrow> openvpn_plan \<Rightarrow> 'k daemon \<Rightarrow> unit io \<times> 'k daemon" where
  "start_openvpn_probe P root uid plan d =
     launch_openvpn P root uid (probe_owner (vp_profile_id plan)) (ovpn_owner (vp_profile_id plan)) plan d"

definition probe_failed :: "management_event \<Rightarrow> bool" where
  "probe_failed ev = (case ev of Ev_AuthenticationFailed \<Rightarrow> True | Ev_PasswordPrompt _ \<Rightarrow> True | Ev_State s \<Rightarrow> s = St_Exiting | _ \<Rightarrow> False)"

definition pushed_routes :: "management_event \<Rightarrow> ip_net list option" where
  "pushed_routes ev = (case ev of Ev_PushReply p \<Rightarrow> Some (pn_routes p) | _ \<Rightarrow> None)"

fun find_map :: "('a \<Rightarrow> 'b option) \<Rightarrow> 'a list \<Rightarrow> 'b option" where
  "find_map f [] = None"
| "find_map f (x # xs) = (case f x of Some y \<Rightarrow> Some y | None \<Rightarrow> find_map f xs)"

text \<open>The answer of a probe: the routes pushed, once there is one.  \<open>PermissionDenied\<close> is \<open>Os_Error 13\<close>.\<close>

definition poll_openvpn_probe :: "'k platform \<Rightarrow> nat \<Rightarrow> string \<Rightarrow> 'k daemon \<Rightarrow> ip_net list option io \<times> 'k daemon" where
  "poll_openvpn_probe P uid profile_id d =
     (case owner_position uid (probe_owner profile_id) d of
        None \<Rightarrow> (Err NotFound, d)
      | Some i \<Rightarrow>
          (case find_openvpn (je_resources (d_journal d ! i)) of
             None \<Rightarrow> (Err Other, d)
           | Some proc \<Rightarrow>
               (case pf_openvpn P of
                  None \<Rightarrow> (Err Other, d)
                | Some run \<Rightarrow>
                    then_do (on_world (vr_poll run (op_name proc))) (\<lambda>events d.
                      if list_ex probe_failed events then (Err (Os_Error 13), d)
                      else case find_map pushed_routes events of
                        Some routes \<Rightarrow> (Ok (Some routes), d)
                      | None \<Rightarrow> (Ok (if Ev_State St_Connected \<in> set events then Some [] else None), d)) d)))"

definition finish_openvpn_probe :: "'k platform \<Rightarrow> nat \<Rightarrow> string \<Rightarrow> 'k daemon \<Rightarrow> unit io \<times> 'k daemon" where
  "finish_openvpn_probe P uid profile_id d =
     (case owner_position uid (probe_owner profile_id) d of
        None \<Rightarrow> (Err NotFound, d)
      | Some i \<Rightarrow> (let (res, d) = teardown_openvpn_entry P i d in (res, persist P d)))"

definition disconnect_openvpn :: "'k platform \<Rightarrow> nat \<Rightarrow> string \<Rightarrow> 'k daemon \<Rightarrow> unit io \<times> 'k daemon" where
  "disconnect_openvpn P uid profile_id d =
     (let key = (uid, ovpn_owner profile_id) in
      case owner_position uid (ovpn_owner profile_id) d of
        None \<Rightarrow> if key \<in> d_openvpn_failed d then (Ok (), forget_failure key d) else (Err NotFound, d)
      | Some i \<Rightarrow>
          (let (res, d) = teardown_entry P i d; d = persist P d
           in (res, if is_ok res then forget_failure key d else d)))"
section \<open>The network of a connection\<close>

record openvpn_network =
  np_routes :: "policy_route list"
  np_full_ipv4 :: bool
  np_full_ipv6 :: bool
  np_dns_servers :: "ip_addr list"
  np_dns_domains :: "string list"

definition empty_network :: openvpn_network where
  "empty_network = \<lparr> np_routes = [], np_full_ipv4 = False, np_full_ipv6 = False, np_dns_servers = [], np_dns_domains = [] \<rparr>"

definition add_pushed_route :: "policy_route list \<Rightarrow> ip_net \<Rightarrow> policy_route list" where
  "add_pushed_route routes dest =
     (if list_ex (\<lambda>r. pr_destination r = dest) routes then routes
      else routes @ [\<lparr> pr_destination = dest, pr_metric = 5, pr_via = None \<rparr>])"

definition has_route :: "policy_route list \<Rightarrow> ip_net \<Rightarrow> bool" where
  "has_route routes n \<longleftrightarrow> list_ex (\<lambda>r. pr_destination r = n) routes"

definition from_runtime :: "openvpn_runtime \<Rightarrow> openvpn_network io" where
  "from_runtime rt =
     (let secondary = (ort_role rt = Role_Secondary);
          (redirect, routes, servers, domains) =
            (case sn_active_push (ort_snapshot rt) of
               None \<Rightarrow> (False, ort_explicit_routes rt, [], [])
             | Some push \<Rightarrow>
                 (pn_redirect_gateway_def1 push \<and> \<not> secondary,
                  foldl add_pushed_route (ort_explicit_routes rt) (if secondary then [] else pn_routes push),
                  foldl Prelude.push_unique [] (pn_legacy_dns_servers push @ concat (map pd_addresses (pn_dns_servers push))),
                  foldl Prelude.push_unique [] (if secondary then ort_dns_domains rt
                    else pn_search_domains push @ concat (map pd_resolve_domains (pn_dns_servers push)))));
          domains = (if secondary \<and> servers = [] then [] else domains)
      in if length servers > 8 \<or> length domains > 16 then Err InvalidInput
         else if domains \<noteq> [] \<and> servers = [] then Err InvalidInput
         else Ok \<lparr> np_routes = routes,
           np_full_ipv4 = (redirect \<or> has_route routes (IpNet (V4 0) 0)
             \<or> (has_route routes (IpNet (V4 0) 1) \<and> has_route routes (IpNet (V4 (2 ^ 31)) 1))),
           np_full_ipv6 = (has_route routes (IpNet (V6 0) 0)
             \<or> (has_route routes (IpNet (V6 0) 1) \<and> has_route routes (IpNet (V6 (2 ^ 127)) 1))),
           np_dns_servers = servers, np_dns_domains = domains \<rparr>)"

definition openvpn_full_plan :: "'k platform \<Rightarrow> nat \<Rightarrow> bool \<Rightarrow> bool \<Rightarrow> 'k daemon \<Rightarrow> full_resource option io" where
  "openvpn_full_plan P i ipv4 ipv6 d =
     (if \<not> ipv4 \<and> \<not> ipv6 then Ok None
      else if list_ex (\<lambda>j. j \<noteq> i \<and> list_ex owns_full (je_resources (d_journal d ! j))) [0..<length (d_journal d)]
      then Err AlreadyExists
      else case find_openvpn (je_resources (d_journal d ! i)) of
        None \<Rightarrow> Err InvalidData
      | Some proc \<Rightarrow>
          (case op_transport_mark proc of
             None \<Rightarrow> Err InvalidData
           | Some m \<Rightarrow>
               if m < 51820 \<or> m - 51820 \<ge> 128 then Err InvalidData
               else
                 (let main = 10000 + (m - 51820) * 2;
                      full = \<lparr> fr_table = m, fr_fwmark = m, fr_priority_main = main, fr_priority_tunnel = main + 1,
                               fr_ipv4 = ipv4, fr_ipv6 = ipv6 \<rparr>
                  in if op_full proc \<noteq> None then Ok (Some full)
                     else case pf_policy P of
                       None \<Rightarrow> Err NotConnected
                     | Some px \<Rightarrow>
                         (case px_rules_snapshot px (d_world d) of
                            Err e \<Rightarrow> Err e
                          | Ok rules \<Rightarrow>
                              if list_ex (rule_conflicts m main) rules then Err AlreadyExists
                              else case px_table_in_use px m (d_world d) of
                                Err e \<Rightarrow> Err e
                              | Ok used \<Rightarrow>
                                  if used \<or> (case pf_wg_config P of None \<Rightarrow> False
                                      | Some wc \<Rightarrow> (case wc_marks_in_use wc (d_world d) of Err _ \<Rightarrow> True | Ok marks \<Rightarrow> m \<in> set marks))
                                  then Err AlreadyExists else Ok (Some full)))))"

section \<open>Failing and applying\<close>

definition fail_openvpn :: "'k platform \<Rightarrow> nat \<Rightarrow> string \<Rightarrow> 'k daemon \<Rightarrow> unit io \<times> 'k daemon" where
  "fail_openvpn P uid owner d =
     (let key = (uid, owner);
          d = (case map_option (sn_last_failure \<circ> ort_snapshot) (d_openvpn_runtime d key) of
                 Some (Some reason) \<Rightarrow> if d_openvpn_failures d key = None
                   then d\<lparr>d_openvpn_failures := (d_openvpn_failures d)(key \<mapsto> reason)\<rparr> else d
               | _ \<Rightarrow> d);
          d = (case owner_position uid owner d of
                 None \<Rightarrow> d | Some i \<Rightarrow> persist P (snd (teardown_openvpn_entry P i d)))
      in (Err InvalidInput, d\<lparr>d_openvpn_failed := insert key (d_openvpn_failed d)\<rparr>))"

text \<open>The events of a poll, in order; the flag says that the owner is to be failed.\<close>

fun take_events :: "owner_key \<Rightarrow> management_event list \<Rightarrow> 'k daemon \<Rightarrow> bool \<times> 'k daemon" where
  "take_events key [] d = (False, d)"
| "take_events key (ev # evs) d =
     (case ev of
        Ev_AuthenticationFailed \<Rightarrow>
          (True, d\<lparr>d_openvpn_auth_failed := insert key (d_openvpn_auth_failed d),
                    d_openvpn_failures := (d_openvpn_failures d)(key \<mapsto> AuthenticationFailure)\<rparr>)
      | Ev_PasswordPrompt _ \<Rightarrow> (True, d)
      | _ \<Rightarrow>
          (let d = (case ev of Ev_FailureDetail reason \<Rightarrow> d\<lparr>d_openvpn_failures := (d_openvpn_failures d)(key \<mapsto> reason)\<rparr> | _ \<Rightarrow> d)
           in if ev = Ev_FailureDetail CredentialsRequired then (True, d)
              else take_events key evs (d\<lparr>d_openvpn_runtime := (d_openvpn_runtime d)(key :=
                map_option (\<lambda>rt. rt\<lparr>ort_snapshot := apply_event ev (ort_snapshot rt)\<rparr>) (d_openvpn_runtime d key))\<rparr>)))"

definition desired_route :: "openvpn_network \<Rightarrow> full_resource option \<Rightarrow> nat \<Rightarrow> policy_route \<Rightarrow> applied_route" where
  "desired_route net full ix r = \<lparr> ar_destination = pr_destination r, ar_interface_index = ix, ar_metric = pr_metric r,
     ar_gateway = None,
     ar_table = (if is_full_route (np_full_ipv4 net) (np_full_ipv6 net) (pr_destination r) then map_option fr_table full else None) \<rparr>"

fun find_dns :: "owned_resource list \<Rightarrow> wg_dns option" where
  "find_dns [] = None"
| "find_dns (Dns x # rs) = Some x"
| "find_dns (_ # rs) = find_dns rs"

definition route_view :: "applied_route \<Rightarrow> ip_net \<times> nat \<times> nat option" where
  "route_view r = (ar_destination r, ar_metric r, ar_table r)"

definition up_to_date :: "openvpn_network \<Rightarrow> full_resource option \<Rightarrow> owned_resource list \<Rightarrow> bool" where
  "up_to_date net full rs \<longleftrightarrow>
     map route_view (entry_routes rs) = map (route_view \<circ> desired_route net full 0) (np_routes net)
     \<and> find_map (\<lambda>r. case r of OpenVpnProcess p \<Rightarrow> op_full p | _ \<Rightarrow> None) rs = full
     \<and> (case find_dns rs of None \<Rightarrow> True
        | Some x \<Rightarrow> wd_servers x = np_dns_servers net \<and> wd_domains x = np_dns_domains net \<and> wd_full x = (full \<noteq> None))
     \<and> (find_dns rs \<noteq> None) \<noteq> (np_dns_servers net = [])"

fun set_first_full :: "full_resource option \<Rightarrow> owned_resource list \<Rightarrow> owned_resource list" where
  "set_first_full full (OpenVpnProcess p # rs) = OpenVpnProcess (p\<lparr>op_full := full\<rparr>) # rs"
| "set_first_full full rs = rs"

definition pop_entry :: "nat \<Rightarrow> 'k daemon \<Rightarrow> 'k daemon" where
  "pop_entry i = set_entry i (\<lambda>e. e\<lparr>je_resources := butlast (je_resources e)\<rparr>)"

text \<open>Push a resource, save, then create it; a failed save and an object that exists already take the resource back.\<close>

definition claim ::
    "'k platform \<Rightarrow> nat \<Rightarrow> owned_resource \<Rightarrow> (error_kind \<Rightarrow> error_kind) \<Rightarrow> ('k \<Rightarrow> unit io \<times> 'k) \<Rightarrow> (unit, 'k) cmd" where
  "claim P i r unsaved f d =
     (case save_journal P (add_resource i r d) of
        (Err e, d) \<Rightarrow> (Err (unsaved e), pop_entry i d)
      | (Ok _, d) \<Rightarrow>
          (case on_world f d of
             (Ok _, d) \<Rightarrow> (Ok (), d)
           | (Err e, d) \<Rightarrow> (Err InvalidInput, if e = AlreadyExists then pop_entry i d else d)))"

definition ovpn_dns :: "openvpn_network \<Rightarrow> full_resource option \<Rightarrow> nat \<Rightarrow> string \<Rightarrow> wg_dns" where
  "ovpn_dns net full ix name = \<lparr> wd_interface_index = ix, wd_name = name, wd_servers = np_dns_servers net,
     wd_domains = np_dns_domains net, wd_full = (full \<noteq> None), wd_applied = False \<rparr>"

definition ovpn_dns_steps :: "'k platform \<Rightarrow> nat \<Rightarrow> nat \<Rightarrow> string \<Rightarrow> openvpn_network \<Rightarrow> full_resource option \<Rightarrow> (unit, 'k) cmd" where
  "ovpn_dns_steps P i ix name net full d =
     (if np_dns_servers net = [] then (Ok (), d)
      else case save_journal P (add_resource i (Dns (ovpn_dns net full ix name)) d) of
        (Err e, d) \<Rightarrow> (Err InvalidInput, pop_entry i d)
      | (Ok _, d) \<Rightarrow>
          (case pf_dns P of
             None \<Rightarrow> (Err InvalidInput, d)
           | Some dx \<Rightarrow>
               (let (out, w) = dx_apply dx name (np_dns_servers net) (np_dns_domains net) (full \<noteq> None) (d_world d);
                    d = d\<lparr>d_world := w\<rparr>
                in case out of
                     Ok DnsApplied \<Rightarrow> (Ok (), persist P (set_entry i mark_dns_applied d))
                   | Ok _ \<Rightarrow> (Ok (), d)
                   | Err _ \<Rightarrow> (Err InvalidInput, d))))"

definition apply_network :: "'k platform \<Rightarrow> nat \<Rightarrow> nat \<Rightarrow> string \<Rightarrow> openvpn_network \<Rightarrow> full_resource option \<Rightarrow> (unit, 'k) cmd" where
  "apply_network P i ix name net full =
     then_do (edit (set_entry i (\<lambda>e. e\<lparr>je_resources := set_first_full full (je_resources e)\<rparr>))) (\<lambda>_.
     then_do (\<lambda>d. (case save_journal P d of (Ok u, d) \<Rightarrow> (Ok u, d) | (Err _, d) \<Rightarrow> (Err InvalidInput, d))) (\<lambda>_.
     then_do (for_each (\<lambda>r. claim P i (Route r) id (rx_add (pf_routes P) r)) (map (desired_route net full ix) (np_routes net))) (\<lambda>_.
     then_do (for_each (\<lambda>r. claim P i (Rule r) (\<lambda>_. InvalidInput) (with_policy P (\<lambda>px. px_add_rule px r)))
       (case full of None \<Rightarrow> [] | Some f \<Rightarrow> full_policy_rules f)) (\<lambda>_.
     ovpn_dns_steps P i ix name net full))))"

text \<open>The part of \<open>reconcile_openvpn_owner\<close> after the plan is known: compare, clear, apply.  An error stands for \<open>fail_openvpn\<close>.\<close>

definition converge_network :: "'k platform \<Rightarrow> 'k openvpn_runner \<Rightarrow> nat \<Rightarrow> string \<Rightarrow> openvpn_network \<Rightarrow> (unit, 'k) cmd" where
  "converge_network P run i name net d =
     (case openvpn_full_plan P i (np_full_ipv4 net) (np_full_ipv6 net) d of
        Err _ \<Rightarrow> (Err InvalidInput, d)
      | Ok full \<Rightarrow>
          if np_dns_servers net \<noteq> [] \<and> pf_dns P = None then (Err InvalidInput, d)
          else if up_to_date net full (je_resources (d_journal d ! i)) then (Ok (), d)
          else case clear_openvpn_network P i d of
            (Err _, d) \<Rightarrow> (Err InvalidInput, d)
          | (Ok _, d) \<Rightarrow>
              if np_routes net = [] \<and> np_dns_servers net = [] then (Ok (), d)
              else (case pr_link_index run name (d_world d) of
                      Ok (Some ix) \<Rightarrow> apply_network P i ix name net full d
                    | _ \<Rightarrow> (Err InvalidInput, d)))"

definition wanted_network :: "openvpn_runtime \<Rightarrow> openvpn_network option io" where
  "wanted_network rt =
     (if sn_state (ort_snapshot rt) = Some St_Connected then map_result Some (from_runtime rt)
      else if sn_state (ort_snapshot rt) = Some St_Reconnecting then Ok (Some empty_network)
      else Ok None)"

definition failing_openvpn :: "'k platform \<Rightarrow> nat \<Rightarrow> string \<Rightarrow> error_kind \<Rightarrow> 'k daemon \<Rightarrow> unit io \<times> 'k daemon" where
  "failing_openvpn P uid owner e d = (Err e, snd (fail_openvpn P uid owner d))"

text \<open>A missing runtime is a panic in the code; the caller only passes owners that have one.\<close>

definition reconcile_openvpn_owner :: "'k platform \<Rightarrow> 'k openvpn_runner \<Rightarrow> nat \<Rightarrow> string \<Rightarrow> 'k daemon \<Rightarrow> unit io \<times> 'k daemon" where
  "reconcile_openvpn_owner P run uid owner d =
     (case owner_position uid owner d of
        None \<Rightarrow> (Err NotFound, d)
      | Some i \<Rightarrow>
          (case find_openvpn (je_resources (d_journal d ! i)) of
             None \<Rightarrow> (Err InvalidData, d)
           | Some proc \<Rightarrow>
               (case on_world (vr_poll run (op_name proc)) d of
                  (Err _, d) \<Rightarrow> fail_openvpn P uid owner d
                | (Ok events, d) \<Rightarrow>
                    (case take_events (uid, owner) events d of
                       (True, d) \<Rightarrow> fail_openvpn P uid owner d
                     | (False, d) \<Rightarrow>
                         (case d_openvpn_runtime d (uid, owner) of
                            None \<Rightarrow> (Err Other, d)
                          | Some rt \<Rightarrow>
                              (case wanted_network rt of
                                 Err _ \<Rightarrow> fail_openvpn P uid owner d
                               | Ok None \<Rightarrow> (Ok (), d)
                               | Ok (Some net) \<Rightarrow>
                                   (case converge_network P run i (op_name proc) net d of
                                      (Ok _, d) \<Rightarrow> (Ok (), d)
                                    | (Err e, d) \<Rightarrow> failing_openvpn P uid owner e d)))))))"

fun reconcile_owners ::
    "'k platform \<Rightarrow> 'k openvpn_runner \<Rightarrow> owner_key list \<Rightarrow> error_kind option \<Rightarrow> 'k daemon \<Rightarrow> unit io \<times> 'k daemon" where
  "reconcile_owners P run [] first d = (case first of None \<Rightarrow> (Ok (), d) | Some e \<Rightarrow> (Err e, d))"
| "reconcile_owners P run ((uid, owner) # ks) first d =
     (case reconcile_openvpn_owner P run uid owner d of
        (Ok _, d) \<Rightarrow> reconcile_owners P run ks first d
      | (Err e, d) \<Rightarrow> reconcile_owners P run ks (if first = None then Some e else first) d)"

text \<open>\<open>keys\<close> is the order in which the hash map of runtimes is walked.  Runtimes exist only where there is a runner.\<close>

definition reconcile_openvpn :: "'k platform \<Rightarrow> owner_key list \<Rightarrow> 'k daemon \<Rightarrow> unit io \<times> 'k daemon" where
  "reconcile_openvpn P keys d =
     (case pf_openvpn P of
        None \<Rightarrow> (Ok (), d)
      | Some run \<Rightarrow>
          reconcile_owners P run (filter (\<lambda>(uid, owner). d_openvpn_runtime d (uid, owner) \<noteq> None
             \<and> (case owner_position uid owner d of None \<Rightarrow> False | Some i \<Rightarrow> je_state (d_journal d ! i) = Applied)) keys) None d)"

end
