(* ===== verification/Wg_Safety.thy ===== *)
theory Wg_Safety
  imports Wg_Connect
begin

text \<open>
  What a WireGuard connection does to the journal and to the kernel.  The locale \<open>wal_monitor\<close> is the
  contract between the connection and the outside world: a state \<open>good\<close> that the executors keep as long
  as every object they create is in the journal \<open>saved\<close> last.  It is interpreted twice: on \<open>watched P\<close>,
  which checks at each call that the object is in the journal on disk, and on any platform with
  nothing to check, which leaves the functional part.
\<close>

section \<open>A logic for fallible steps\<close>

named_theorems runs_intros

definition runs ::
    "('k daemon \<Rightarrow> bool) \<Rightarrow> ('a, 'k) cmd \<Rightarrow> ('a \<Rightarrow> 'k daemon \<Rightarrow> bool) \<Rightarrow> ('k daemon \<Rightarrow> bool) \<Rightarrow> bool" where
  "runs A c B E \<longleftrightarrow> (\<forall>d. A d \<longrightarrow> (case c d of (Ok x, d') \<Rightarrow> B x d' | (Err e, d') \<Rightarrow> E d'))"

lemma runsI:
  "(\<And>d r d'. A d \<Longrightarrow> c d = (r, d') \<Longrightarrow> (case r of Ok x \<Rightarrow> B x d' | Err e \<Rightarrow> E d')) \<Longrightarrow> runs A c B E"
  unfolding runs_def by (metis (no_types, lifting) old.prod.case surj_pair)

lemma runsD:
  "runs A c B E \<Longrightarrow> A d \<Longrightarrow> c d = (r, d') \<Longrightarrow> (case r of Ok x \<Rightarrow> B x d' | Err e \<Rightarrow> E d')"
  unfolding runs_def by fastforce

lemma runs_then_do [runs_intros]:
  "runs A c B E \<Longrightarrow> (\<And>x. runs (B x) (f x) C E) \<Longrightarrow> runs A (then_do c f) C E"
  unfolding runs_def then_do_def by (fastforce split: prod.splits result.splits)

lemma runs_edit: "(\<And>d. A d \<Longrightarrow> B (f d)) \<Longrightarrow> runs A (edit f) (\<lambda>_. B) E"
  by (simp add: runs_def edit_def)

lemma runs_skip [runs_intros]: "runs A skip (\<lambda>_. A) E"
  by (simp add: runs_def skip_def)

lemma runs_fail: "(\<And>d. A d \<Longrightarrow> E d) \<Longrightarrow> runs A (fail e) B E"
  by (simp add: runs_def fail_def)

lemma runs_observing: "(\<And>d. A d \<Longrightarrow> E d) \<Longrightarrow> runs A (observing f) (\<lambda>_. A) E"
  by (auto simp: runs_def observing_def split: result.splits)

lemma runs_mono: "runs A' c B E \<Longrightarrow> (\<And>d. A d \<Longrightarrow> A' d) \<Longrightarrow> (\<And>x d. B x d \<Longrightarrow> B' x d) \<Longrightarrow> runs A c B' E"
  unfolding runs_def by (fastforce split: prod.splits result.splits)

lemma runs_ex: "(\<And>y. runs (A y) c B E) \<Longrightarrow> runs (\<lambda>d. \<exists>y. A y d) c B E"
  unfolding runs_def by (auto simp: imp_ex)

section \<open>The entry of the connection\<close>

definition at_entry :: "('k \<Rightarrow> bool) \<Rightarrow> journal \<Rightarrow> journal_entry \<Rightarrow> 'k daemon \<Rightarrow> bool" where
  "at_entry good J e d \<longleftrightarrow> good (d_world d) \<and> d_journal d = J @ [e]"

definition failing :: "('k \<Rightarrow> bool) \<Rightarrow> journal \<Rightarrow> owner_key \<Rightarrow> 'k daemon \<Rightarrow> bool" where
  "failing good J k d \<longleftrightarrow> good (d_world d) \<and> (\<exists>e. d_journal d = J @ [e] \<and> je_key e = k)"

lemma at_entry_failing: "at_entry good J e d \<Longrightarrow> je_key e = k \<Longrightarrow> failing good J k d"
  unfolding at_entry_def failing_def by blast

definition extended :: "owned_resource list \<Rightarrow> journal_entry \<Rightarrow> journal_entry" where
  "extended rs e = e\<lparr>je_resources := je_resources e @ rs\<rparr>"

lemma extended_simps [simp]:
  "je_key (extended rs e) = je_key e" "extended [] e = e" "extended rs (extended qs e) = extended (qs @ rs) e"
  "je_resources (extended rs e) = je_resources e @ rs"
  by (simp_all add: extended_def je_key_def)

lemma at_entry_set:
  "at_entry good J e d \<Longrightarrow> at_entry good J (f e) (set_entry (length J) f d)"
  by (simp add: at_entry_def)

lemma runs_set_entry:
  "runs (at_entry good J e) (edit (set_entry (length J) f)) (\<lambda>_. at_entry good J (f e)) E"
  by (rule runs_edit) (rule at_entry_set)

lemma add_resource_extend: "add_resource i r = set_entry i (extended [r])"
  by (simp add: add_resource_def extended_def [abs_def])

text \<open>The resources a connection ends with: the link, then what was added to it in the order of the code;
  \<open>out\<close> is the answer of the resolver.\<close>

definition wg_address :: "nat \<Rightarrow> ip_net \<Rightarrow> owned_resource" where
  "wg_address ix a = Address \<lparr> wa_interface_index = ix, wa_address = a \<rparr>"

definition wg_dns :: "wg_plan \<Rightarrow> full_resource option \<Rightarrow> nat \<Rightarrow> string \<Rightarrow> bool \<Rightarrow> wg_dns" where
  "wg_dns plan full ix name applied = \<lparr> wd_interface_index = ix, wd_name = name, wd_servers = wp_dns_servers plan,
     wd_domains = wp_dns_domains plan, wd_full = (full \<noteq> None), wd_applied = applied \<rparr>"

definition claimed :: "nat \<Rightarrow> string \<Rightarrow> journal_entry \<Rightarrow> journal_entry" where
  "claimed ix name e = e\<lparr>je_resources := on_link (\<lambda>l. l\<lparr>wl_index := ix, wl_name := name\<rparr>) (je_resources e)\<rparr>"

definition warned :: "journal_entry \<Rightarrow> journal_entry" where
  "warned e = e\<lparr>je_resources := on_link (\<lambda>l. l\<lparr>wl_warnings := wl_warnings l @ [DnsNotApplied]\<rparr>) (je_resources e)\<rparr>"

definition with_dns :: "wg_plan \<Rightarrow> full_resource option \<Rightarrow> nat \<Rightarrow> string \<Rightarrow> dns_apply \<Rightarrow> journal_entry \<Rightarrow> journal_entry" where
  "with_dns plan full ix name out e =
     (if wp_dns_servers plan = [] then e
      else case out of
        DnsApplied \<Rightarrow> extended [Dns (wg_dns plan full ix name True)] e
      | DnsUnavailable \<Rightarrow> warned (extended [Dns (wg_dns plan full ix name False)] e)
      | DnsSkipped \<Rightarrow> warned e)"

definition wg_network :: "ipnet_crate \<Rightarrow> wg_plan \<Rightarrow> full_resource option \<Rightarrow> nat \<Rightarrow> owned_resource list" where
  "wg_network N plan full ix = map (wg_address ix) (wp_addresses plan)
     @ map (Route \<circ> wg_route plan full ix) (wanted_routes N plan)
     @ map Rule (case full of None \<Rightarrow> [] | Some f \<Rightarrow> full_policy_rules f)"

definition wg_connected ::
    "ipnet_crate \<Rightarrow> wg_plan \<Rightarrow> full_resource option \<Rightarrow> nat \<Rightarrow> string \<Rightarrow> dns_apply \<Rightarrow> journal_entry \<Rightarrow> journal_entry" where
  "wg_connected N plan full ix name out e =
     with_dns plan full ix name out (extended (wg_network N plan full ix) (claimed ix name e))"

lemma je_key_steps [simp]:
  "je_key (claimed ix name e) = je_key e" "je_key (warned e) = je_key e"
  "je_key (with_dns plan full ix name out e) = je_key e" "je_key (wg_connected N plan full ix name out e) = je_key e"
  by (auto simp: claimed_def warned_def with_dns_def wg_connected_def je_key_def extended_def split: dns_apply.split)

lemma edit_link_entry:
  "edit_link i (\<lambda>l. l\<lparr>wl_index := ix, wl_name := name\<rparr>) = set_entry i (claimed ix name)"
  "edit_link i (\<lambda>l. l\<lparr>wl_warnings := wl_warnings l @ [DnsNotApplied]\<rparr>) = set_entry i warned"
  by (simp_all add: edit_link_def claimed_def [abs_def] warned_def [abs_def])

lemma mark_dns_extended: "mark_dns_applied (extended [Dns x] e) = extended [Dns (x\<lparr>wd_applied := True\<rparr>)] e"
  by (simp add: mark_dns_applied_def extended_def)

lemma wireguard_status_frame:
  "wireguard_status P now uid profile_id d = (st, d') \<Longrightarrow> d_journal d' = d_journal d \<and> d_world d' = d_world d"
  unfolding wireguard_status_def Let_def
  by (auto split: option.splits if_splits prod.splits result.splits)

lemma wireguard_status_name:
  assumes "wireguard_status P now uid profile_id d = (st, d')"
    and "List.find (\<lambda>e. je_uid e = uid \<and> je_owner e = ''wg:'' @ profile_id) (d_journal d) = Some e"
  shows "ws_interface_name st = map_option wl_name (find_wg_link (je_resources e))
    \<and> ws_profile_id st = profile_id \<and> ws_state st \<noteq> Tunnel_Stopped"
  using assms unfolding wireguard_status_def Let_def
  by (auto simp: observe_handshake_def Let_def split: option.splits if_splits prod.splits result.splits)

lemma find_last_entry:
  assumes "owner_position uid owner d = None" and "je_key e = (uid, owner)"
  shows "List.find (\<lambda>e. je_uid e = uid \<and> je_owner e = owner) (d_journal d @ [e]) = Some e"
proof -
  have none: "List.find (\<lambda>e. je_uid e = uid \<and> je_owner e = owner) (d_journal d) = None"
    using assms(1) by (auto simp: owner_position_None_iff find_None_iff je_key_def image_iff)
  have app: "List.find q xs = None \<Longrightarrow> List.find q (xs @ [x]) = (if q x then Some x else None)" for q xs and x :: journal_entry
    by (induction xs) (auto split: if_splits)
  show ?thesis using app [OF none, of e] assms(2) by (simp add: je_key_def)
qed

lemma connected_link:
  assumes "je_resources e = [WireGuardLink l]"
  shows "map_option wl_name (find_wg_link (je_resources (wg_connected N plan full ix n out e))) = Some n"
  using assms by (auto simp: wg_connected_def with_dns_def warned_def extended_def claimed_def split: dns_apply.split)

text \<open>What a connection request does to the journal: on success one new entry, with everything in place;
  on failure nothing, or an entry of the same owner that a later teardown still has to clear.\<close>

definition wg_outcome ::
    "ipnet_crate \<Rightarrow> 'k platform \<Rightarrow> nat \<Rightarrow> string \<Rightarrow> wg_plan \<Rightarrow> 'k daemon \<Rightarrow> wg_status io \<Rightarrow> 'k daemon \<Rightarrow> bool" where
  "wg_outcome N P uid profile_id plan d res d' \<longleftrightarrow>
     (let owner = ''wg:'' @ profile_id; names = wireguard_name uid profile_id (wp_interface_name plan) in
      case res of
        Ok st \<Rightarrow> (\<exists>wc full ix n out. pf_wg_config P = Some wc \<and> allocate_full P wc plan d = Ok full
            \<and> (n = fst names \<or> n = snd names) \<and> ws_interface_name st = Some n \<and> ws_state st \<noteq> Tunnel_Stopped
            \<and> d_journal d' = d_journal d @ [mark_state Applied
                (wg_connected N plan full ix n out (wg_entry uid owner plan full (fst names) (wg_marker uid owner)))])
      | Err _ \<Rightarrow> d_journal d' = d_journal d
            \<or> (\<exists>x. d_journal d' = d_journal d @ [x] \<and> je_key x = (uid, owner)))"

section \<open>Teardown in a monitored world\<close>

lemma walk_keeps:
  assumes "\<And>failed r w. good w \<Longrightarrow> good (snd (step failed r w))" and "good w"
  shows "good (snd (walk step rs failed w))"
  using assms(2)
proof (induction rs arbitrary: failed w)
  case Nil
  then show ?case by simp
next
  case (Cons r rs)
  obtain o' w' where s: "step failed r w = (o', w')" by (rule prod.exhaust)
  have "good w'" using assms(1) [OF Cons.prems, of failed r] s by simp
  then show ?case using Cons.IH s by (cases o') simp_all
qed

lemma finish_entry_world: "d_world (snd (finish_entry i failed d)) = d_world d"
  by (simp add: finish_entry_def)

section \<open>The contract with the outside world\<close>

locale wal_monitor =
  fixes P :: "'k platform" and good :: "'k \<Rightarrow> bool" and saved :: "journal \<Rightarrow> 'k \<Rightarrow> bool"
  assumes save: "good w \<Longrightarrow> pf_save P J w = (r, w') \<Longrightarrow> good w' \<and> (is_ok r \<longrightarrow> saved J w')"
    and add_route: "good w \<Longrightarrow> saved J w \<Longrightarrow> Route x \<in> resources J \<Longrightarrow> good (snd (rx_add (pf_routes P) x w))"
    and add_rule: "good w \<Longrightarrow> saved J w \<Longrightarrow> Rule y \<in> resources J \<Longrightarrow> pf_policy P = Some px \<Longrightarrow>
      good (snd (px_add_rule px y w))"
    and add_address: "good w \<Longrightarrow> saved J w \<Longrightarrow> Address z \<in> resources J \<Longrightarrow> pf_wg P = Some wg \<Longrightarrow>
      good (snd (wx_add_address wg (wa_interface_index z) (wa_address z) w))"
    and apply_dns: "good w \<Longrightarrow> saved J w \<Longrightarrow> Dns v \<in> resources J \<Longrightarrow> pf_dns P = Some dx \<Longrightarrow>
      good (snd (dx_apply dx (wd_name v) (wd_servers v) (wd_domains v) (wd_full v) w))"
    and create_link: "good w \<Longrightarrow> saved J w \<Longrightarrow> WireGuardLink l \<in> resources J \<Longrightarrow> pf_wg P = Some wg \<Longrightarrow>
      good (snd (wx_create_link wg (wl_name l) (wl_owner_marker l) w)) \<and> saved J (snd (wx_create_link wg (wl_name l) (wl_owner_marker l) w))"
    and create_fallback: "good w \<Longrightarrow> saved J w \<Longrightarrow> WireGuardLink l \<in> resources J \<Longrightarrow> pf_wg P = Some wg \<Longrightarrow>
      wx_create_link wg (wl_name l) (wl_owner_marker l) w = (Err AlreadyExists, w') \<Longrightarrow> good (snd (wx_create_link wg n (wl_owner_marker l) w'))"
    and configure: "good w \<Longrightarrow> saved J w \<Longrightarrow> WireGuardLink l \<in> resources J \<Longrightarrow> pf_wg_config P = Some wc \<Longrightarrow>
      good (snd (wc_configure wc (wl_name l) c w))"
    and set_fwmark: "good w \<Longrightarrow> pf_wg_config P = Some wc \<Longrightarrow> good (snd (wc_set_fwmark wc n fwmark w))"
    and set_mtu: "good w \<Longrightarrow> pf_wg P = Some wg \<Longrightarrow> good (snd (wx_set_mtu wg ix mtu w))"
    and set_state: "good w \<Longrightarrow> pf_wg P = Some wg \<Longrightarrow> good (snd (wx_set_state wg ix up w))"
    and remove_route: "good w \<Longrightarrow> good (snd (rx_remove (pf_routes P) x w))"
    and remove_rule: "good w \<Longrightarrow> pf_policy P = Some px \<Longrightarrow> good (snd (px_remove_rule px y w))"
    and remove_address: "good w \<Longrightarrow> pf_wg P = Some wg \<Longrightarrow> good (snd (wx_remove_address wg ix a w))"
    and delete_link: "good w \<Longrightarrow> pf_wg P = Some wg \<Longrightarrow> good (snd (wx_delete_link wg n ix m w))"
    and revert_dns: "good w \<Longrightarrow> pf_dns P = Some dx \<Longrightarrow> good (snd (dx_revert dx n w))"
begin

lemma save_runs:
  "runs (at_entry good J e) (save_journal P) (\<lambda>_ d. at_entry good J e d \<and> saved (J @ [e]) (d_world d)) (failing good J (je_key e))"
proof (rule runsI)
  fix d r d'
  assume a: "at_entry good J e d" and s: "save_journal P d = (r, d')"
  obtain r0 w0 where p: "pf_save P (d_journal d) (d_world d) = (r0, w0)" by (rule prod.exhaust)
  have "r = r0" "d' = d\<lparr>d_world := w0\<rparr>" using s p by (simp_all add: save_journal_def)
  moreover have "good w0 \<and> (is_ok r0 \<longrightarrow> saved (J @ [e]) w0)"
    using save [OF _ p] a by (simp add: at_entry_def)
  ultimately have "at_entry good J e d'" "is_ok r \<Longrightarrow> saved (J @ [e]) (d_world d')"
    using a by (simp_all add: at_entry_def)
  then show "case r of Ok x \<Rightarrow> at_entry good J e d' \<and> saved (J @ [e]) (d_world d') | Err _ \<Rightarrow> failing good J (je_key e) d'"
    by (cases r) (auto intro: at_entry_failing)
qed

lemma world_runs:
  assumes "\<And>w. good w \<Longrightarrow> saved (J @ [e]) w \<Longrightarrow> good (snd (f w))"
  shows "runs (\<lambda>d. at_entry good J e d \<and> saved (J @ [e]) (d_world d)) (on_world f) (\<lambda>_. at_entry good J e)
           (failing good J (je_key e))"
proof (rule runsI)
  fix d r d'
  assume a: "at_entry good J e d \<and> saved (J @ [e]) (d_world d)" and c: "on_world f d = (r, d')"
  obtain r0 w0 where p: "f (d_world d) = (r0, w0)" by (rule prod.exhaust)
  have "good w0" using assms [of "d_world d"] a p by (simp add: at_entry_def)
  moreover have "r = r0" "d' = d\<lparr>d_world := w0\<rparr>" using c p by (simp_all add: on_world_def)
  ultimately have "at_entry good J e d'" using a by (simp add: at_entry_def)
  then show "case r of Ok x \<Rightarrow> at_entry good J e d' | Err _ \<Rightarrow> failing good J (je_key e) d'"
    by (cases r) (auto intro: at_entry_failing)
qed

lemma quiet_runs:
  assumes "\<And>w. good w \<Longrightarrow> good (snd (f w))"
  shows "runs (at_entry good J e) (on_world f) (\<lambda>_. at_entry good J e) (failing good J (je_key e))"
proof (rule runsI)
  fix d r d'
  assume a: "at_entry good J e d" and c: "on_world f d = (r, d')"
  obtain r0 w0 where p: "f (d_world d) = (r0, w0)" by (rule prod.exhaust)
  have "good w0" using assms [of "d_world d"] a p by (simp add: at_entry_def)
  moreover have "r = r0" "d' = d\<lparr>d_world := w0\<rparr>" using c p by (simp_all add: on_world_def)
  ultimately have "at_entry good J e d'" using a by (simp add: at_entry_def)
  then show "case r of Ok x \<Rightarrow> at_entry good J e d' | Err _ \<Rightarrow> failing good J (je_key e) d'"
    by (cases r) (auto intro: at_entry_failing)
qed

lemma journaled_runs:
  assumes "\<And>w. good w \<Longrightarrow> saved (J @ [extended [r] e]) w \<Longrightarrow> good (snd (f w))"
  shows "runs (at_entry good J e) (journaled P (length J) r f) (\<lambda>_. at_entry good J (extended [r] e))
           (failing good J (je_key e))"
  unfolding journaled_def add_resource_extend
  using save_runs [of J "extended [r] e"] world_runs [of J "extended [r] e" f, OF assms]
  by (auto intro!: runs_then_do [OF runs_set_entry] runs_then_do)

lemma each_journaled_runs:
  assumes "\<And>x w J'. good w \<Longrightarrow> saved J' w \<Longrightarrow> res x \<in> resources J' \<Longrightarrow> good (snd (f x w))"
  shows "runs (at_entry good J e) (for_each (\<lambda>x. journaled P (length J) (res x) (f x)) xs)
           (\<lambda>_. at_entry good J (extended (map res xs) e)) (failing good J (je_key e))"
proof (induction xs arbitrary: e)
  case Nil
  then show ?case by (simp add: runs_def skip_def)
next
  case (Cons x xs)
  have "runs (at_entry good J e) (journaled P (length J) (res x) (f x)) (\<lambda>_. at_entry good J (extended [res x] e))
      (failing good J (je_key e))"
    by (rule journaled_runs) (erule assms, assumption, simp)
  then have "runs (at_entry good J e) (then_do (journaled P (length J) (res x) (f x))
      (\<lambda>_. for_each (\<lambda>x. journaled P (length J) (res x) (f x)) xs))
      (\<lambda>_. at_entry good J (extended (map res (x # xs)) e)) (failing good J (je_key e))"
    using Cons.IH [of "extended [res x] e"] by (intro runs_then_do) simp_all
  then show ?case by (simp add: runs_def)
qed


lemma create_runs:
  assumes "pf_wg P = Some wg" and l: "WireGuardLink l \<in> resources (J @ [e])" and name: "wl_name l = name"
  shows "runs (\<lambda>d. at_entry good J e d \<and> saved (J @ [e]) (d_world d))
           (create_wg_link wg name fallback (wl_owner_marker l))
           (\<lambda>(ix, n) d. at_entry good J e d \<and> n \<in> {name, fallback}) (failing good J (je_key e))"
proof (rule runsI)
  fix d r d'
  let ?m = "wl_owner_marker l"
  assume a: "at_entry good J e d \<and> saved (J @ [e]) (d_world d)"
    and c: "create_wg_link wg name fallback ?m d = (r, d')"
  obtain r1 w1 where 1: "wx_create_link wg name ?m (d_world d) = (r1, w1)" by (rule prod.exhaust)
  obtain r2 w2 where 2: "wx_create_link wg fallback ?m w1 = (r2, w2)" by (rule prod.exhaust)
  have g1: "good w1" "saved (J @ [e]) w1"
    using create_link [OF _ _ l assms(1), of "d_world d"] a 1 name by (simp_all add: at_entry_def)
  have g2: "good w2" if "r1 = Err AlreadyExists"
    using create_fallback [OF _ _ l assms(1), of "d_world d" w1 fallback] a 1 2 that name by (simp add: at_entry_def)
  have "d' = d\<lparr>d_world := w1\<rparr> \<and> (\<forall>y. r = Ok y \<longrightarrow> snd y = name)
      \<or> r1 = Err AlreadyExists \<and> d' = d\<lparr>d_world := w2\<rparr> \<and> (\<forall>y. r = Ok y \<longrightarrow> snd y = fallback)"
    using c 1 2 unfolding create_wg_link_def on_world_def then_do_def
    by (auto split: result.splits if_splits)
  then have "at_entry good J e d' \<and> (\<forall>y. r = Ok y \<longrightarrow> snd y \<in> {name, fallback})"
    using a g1 g2 by (auto simp: at_entry_def)
  then show "case r of Ok x \<Rightarrow> (case x of (ix, n) \<Rightarrow> \<lambda>d. at_entry good J e d \<and> n \<in> {name, fallback}) d'
      | Err _ \<Rightarrow> failing good J (je_key e) d'"
    by (cases r) (auto intro: at_entry_failing)
qed


lemma address_runs:
  assumes "pf_wg P = Some wg"
  shows "runs (at_entry good J e) (for_each (wg_address_step P wg (length J) ix) as)
           (\<lambda>_. at_entry good J (extended (map (wg_address ix) as) e)) (failing good J (je_key e))"
proof -
  have *: "good (snd (wx_add_address wg ix x w))" if "good w" "saved J' w" "wg_address ix x \<in> resources J'" for x w J'
    using add_address [OF that(1,2) _ assms, of "\<lparr> wa_interface_index = ix, wa_address = x \<rparr>"] that(3)
    by (simp add: wg_address_def)
  show ?thesis unfolding wg_address_step_def [abs_def] wg_address_def [symmetric]
    by (rule each_journaled_runs) (erule (2) *)
qed

lemma route_runs:
  "runs (at_entry good J e) (for_each (wg_route_step P (length J)) rs)
     (\<lambda>_. at_entry good J (extended (map Route rs) e)) (failing good J (je_key e))"
  using each_journaled_runs [of Route "rx_add (pf_routes P)"] add_route by (simp add: wg_route_step_def [abs_def])

lemma rule_runs:
  "runs (at_entry good J e) (for_each (wg_rule_step P (length J)) rs)
     (\<lambda>_. at_entry good J (extended (map Rule rs) e)) (failing good J (je_key e))"
proof -
  have *: "good (snd (with_policy P (\<lambda>px. px_add_rule px x) w))"
    if "good w" "saved J' w" "Rule x \<in> resources J'" for x w J'
    using add_rule [OF that] that(1) by (auto simp: with_policy_def split: option.splits)
  show ?thesis unfolding wg_rule_step_def [abs_def] by (rule each_journaled_runs) (erule (2) *)
qed

lemma full_runs:
  "runs (at_entry good J e) (wg_full_steps P wc (length J) name full)
     (\<lambda>_. at_entry good J (extended (map Rule (case full of None \<Rightarrow> [] | Some f \<Rightarrow> full_policy_rules f)) e))
     (failing good J (je_key e))"
  using rule_runs by (auto simp: wg_full_steps_def split: option.split intro!: runs_skip runs_then_do runs_observing
      at_entry_failing)

lemma dns_call_good:
  "good w \<Longrightarrow> saved J w \<Longrightarrow> Dns (wg_dns plan full ix name False) \<in> resources J \<Longrightarrow>
     good (snd (dns_call P name plan (full \<noteq> None) w))"
  using apply_dns [of w J "wg_dns plan full ix name False"]
  by (auto simp: dns_call_def wg_dns_def split: option.split prod.splits result.splits)

lemma dns_runs:
  "runs (at_entry good J e) (wg_dns_steps P (length J) ix name plan full)
     (\<lambda>_ d. \<exists>out. at_entry good J (with_dns plan full ix name out e) d) (failing good J (je_key e))"
proof (cases "wp_dns_servers plan = []")
  case True
  then show ?thesis by (simp add: wg_dns_steps_def with_dns_def runs_skip)
next
  case False
  let ?x = "wg_dns plan full ix name False"
  let ?ed = "\<lambda>out. case out of
      DnsApplied \<Rightarrow> set_entry (length J) mark_dns_applied
    | DnsUnavailable \<Rightarrow> set_entry (length J) warned
    | DnsSkipped \<Rightarrow> set_entry (length J) warned \<circ> set_entry (length J) (\<lambda>e. e\<lparr>je_resources := butlast (je_resources e)\<rparr>)"
  have call: "runs (at_entry good J e) (journaled P (length J) (Dns ?x) (dns_call P name plan (full \<noteq> None)))
      (\<lambda>_. at_entry good J (extended [Dns ?x] e)) (failing good J (je_key e))"
    by (rule journaled_runs) (erule (1) dns_call_good [where ix = ix], simp)
  have edits: "at_entry good J (with_dns plan full ix name out e) (?ed out d)"
    if "at_entry good J (extended [Dns ?x] e) d" for out d
    using that False
    by (cases out) (simp_all add: at_entry_def with_dns_def mark_dns_extended, simp_all add: wg_dns_def extended_def)
  have edit: "runs (at_entry good J (extended [Dns ?x] e)) (edit (?ed out))
      (\<lambda>_. at_entry good J (with_dns plan full ix name out e)) (failing good J (je_key e))" for out
    by (rule runs_edit, rule edits)
  have "runs (at_entry good J (extended [Dns ?x] e)) (then_do (edit (?ed out)) (\<lambda>_. save_journal P))
      (\<lambda>_ d. \<exists>out. at_entry good J (with_dns plan full ix name out e) d) (failing good J (je_key e))" for out
    using save_runs [of J "with_dns plan full ix name out e"]
    by (intro runs_then_do [OF edit]) (auto elim: runs_mono)
  then show ?thesis unfolding wg_dns_steps_def edit_link_entry if_not_P [OF False]
    by (intro runs_then_do [OF call [unfolded wg_dns_def]]) (simp add: wg_dns_def)
qed


text \<open>The body from the configured link on.\<close>

lemma network_runs:
  assumes "pf_wg P = Some wg"
  shows "runs (at_entry good J e)
      (then_do (for_each (wg_address_step P wg (length J) ix) (wp_addresses plan)) (\<lambda>_.
       then_do (case wp_mtu plan of None \<Rightarrow> skip | Some mtu \<Rightarrow> on_world (wx_set_mtu wg ix mtu)) (\<lambda>_.
       then_do (on_world (wx_set_state wg ix True)) (\<lambda>_.
       then_do (for_each (wg_route_step P (length J)) (map (wg_route plan full ix) (wanted_routes N plan))) (\<lambda>_.
       then_do (wg_full_steps P wc (length J) name full) (\<lambda>_.
       wg_dns_steps P (length J) ix name plan full))))))
      (\<lambda>_ d. \<exists>out. at_entry good J (with_dns plan full ix name out (extended (wg_network N plan full ix) e)) d)
      (failing good J (je_key e))"
proof -
  let ?a = "extended (map (wg_address ix) (wp_addresses plan)) e"
  let ?b = "extended (map Route (map (wg_route plan full ix) (wanted_routes N plan))) ?a"
  let ?c = "extended (map Rule (case full of None \<Rightarrow> [] | Some f \<Rightarrow> full_policy_rules f)) ?b"
  have c: "?c = extended (wg_network N plan full ix) e" by (simp add: wg_network_def)
  have mtu: "runs (at_entry good J ?a) (case wp_mtu plan of None \<Rightarrow> skip | Some mtu \<Rightarrow> on_world (wx_set_mtu wg ix mtu))
      (\<lambda>_. at_entry good J ?a) (failing good J (je_key e))"
    using quiet_runs [of "wx_set_mtu wg ix mtu" J ?a for mtu, OF set_mtu [OF _ assms]]
    by (auto split: option.split intro: runs_skip)
  have up: "runs (at_entry good J ?a) (on_world (wx_set_state wg ix True)) (\<lambda>_. at_entry good J ?a)
      (failing good J (je_key e))"
    using quiet_runs [of "wx_set_state wg ix True" J ?a, OF set_state [OF _ assms]] by simp
  have routes: "runs (at_entry good J ?a)
      (for_each (wg_route_step P (length J)) (map (wg_route plan full ix) (wanted_routes N plan)))
      (\<lambda>_. at_entry good J ?b) (failing good J (je_key e))"
    using route_runs [of J ?a "map (wg_route plan full ix) (wanted_routes N plan)"] by (simp only: extended_simps)
  have rules: "runs (at_entry good J ?b) (wg_full_steps P wc (length J) name full) (\<lambda>_. at_entry good J ?c)
      (failing good J (je_key e))"
    using full_runs [of J ?b wc name full] by (simp only: extended_simps)
  have dns: "runs (at_entry good J ?c) (wg_dns_steps P (length J) ix name plan full)
      (\<lambda>_ d. \<exists>out. at_entry good J (with_dns plan full ix name out ?c) d) (failing good J (je_key e))"
    using dns_runs [of J ?c ix name plan full] by (simp only: extended_simps)
  show ?thesis unfolding c [symmetric]
    by (rule runs_then_do [OF address_runs [OF assms]] runs_then_do [OF mtu] runs_then_do [OF up]
        runs_then_do [OF routes] runs_then_do [OF rules] dns)+
qed

definition body_post ::
    "ipnet_crate \<Rightarrow> wg_plan \<Rightarrow> full_resource option \<Rightarrow> string \<Rightarrow> string \<Rightarrow> journal \<Rightarrow> journal_entry \<Rightarrow> 'k daemon \<Rightarrow> bool" where
  "body_post N plan full name fallback J e d \<longleftrightarrow> (\<exists>ix n out. n \<in> {name, fallback} \<and> at_entry good J (wg_connected N plan full ix n out e) d)"

lemma configure_runs:
  assumes wc: "pf_wg_config P = Some wc" and l: "je_resources e = WireGuardLink l # rs"
  shows "runs (\<lambda>d. at_entry good J (claimed ix n e) d \<and> saved (J @ [claimed ix n e]) (d_world d))
      (on_world (wc_configure wc n c)) (\<lambda>_. at_entry good J (claimed ix n e)) (failing good J (je_key e))"
proof -
  let ?l = "l\<lparr>wl_index := ix, wl_name := n\<rparr>" and ?e = "claimed ix n e"
  have "WireGuardLink ?l \<in> resources (J @ [?e])" using l by (simp add: claimed_def)
  then have "runs (\<lambda>d. at_entry good J ?e d \<and> saved (J @ [?e]) (d_world d)) (on_world (wc_configure wc n c))
      (\<lambda>_. at_entry good J ?e) (failing good J (je_key ?e))"
    using configure [OF _ _ _ wc, of _ "J @ [?e]" ?l] by (intro world_runs) simp
  then show ?thesis by simp
qed

lemma body_runs:
  assumes wg: "pf_wg P = Some wg" and wc: "pf_wg_config P = Some wc"
    and l: "je_resources e = WireGuardLink l # rs" and name: "wl_name l = name"
  shows "runs (\<lambda>d. at_entry good J e d \<and> saved (J @ [e]) (d_world d))
      (wg_body N P wg wc plan full name fallback (wl_owner_marker l) (length J))
      (\<lambda>_. body_post N plan full name fallback J e) (failing good J (je_key e))"
  unfolding wg_body_def edit_link_entry
proof (rule runs_then_do [OF create_runs [OF wg _ name]], goal_cases)
  case 1
  show ?case using l by simp
next
  case (2 x)
  obtain ix n where x: "x = (ix, n)" by (rule prod.exhaust)
  let ?e = "claimed ix n e" and ?F = "failing good J (je_key e)"
  have mark: "runs (at_entry good J ?e) (case full of None \<Rightarrow> skip | Some f \<Rightarrow> on_world (wc_set_fwmark wc n (fr_fwmark f)))
      (\<lambda>_. at_entry good J ?e) ?F"
    using quiet_runs [of "wc_set_fwmark wc n m" J ?e for m, OF set_fwmark [OF _ wc]]
    by (auto split: option.split intro: runs_skip)
  have guard: "\<And>d. at_entry good J ?e d \<Longrightarrow> ?F d"
    using at_entry_failing [of good J ?e _ "je_key e"] by simp
  note save = save_runs [of J ?e, simplified je_key_steps]
    and net = network_runs [OF wg, of J ?e ix plan full N wc n, simplified je_key_steps]
  show ?case
  proof (cases "n \<in> {name, fallback}")
    case False
    then show ?thesis by (simp add: runs_def x)
  next
    case True
    have post: "runs (at_entry good J ?e) c (\<lambda>_. body_post N plan full name fallback J e) ?F"
      if "runs (at_entry good J ?e) c (\<lambda>_ d. \<exists>out. at_entry good J (with_dns plan full ix n out
            (extended (wg_network N plan full ix) ?e)) d) ?F" for c
      by (rule runs_mono [OF that]) (use True in \<open>auto simp: body_post_def wg_connected_def\<close>)
    have "runs (at_entry good J e) (edit (set_entry (length J) (claimed ix n))) (\<lambda>_. at_entry good J ?e) ?F"
      by (rule runs_set_entry)
    then show ?thesis unfolding x split_conv using True
      apply simp
      apply (rule runs_then_do, assumption)
      apply (rule runs_then_do [OF save])
      apply (rule runs_then_do [OF configure_runs [OF wc l]])
      apply (rule runs_then_do [OF runs_observing [OF guard]], assumption)
      apply (simp only: split: if_split)
      apply (intro conjI impI)
       apply (rule runs_fail [OF guard], assumption)
      apply (rule runs_then_do [OF mark])
      by (rule post, rule net)
  qed
qed


lemma step_keeps:
  assumes "pf_wg P = Some wg" and "good w"
  shows "good (snd (wireguard_step P wg mine failed r w))"
proof -
  have dns: "good (snd (Teardown.revert_dns P n w))" for n
    using revert_dns [OF assms(2), of _ n] assms(2)
    by (auto simp: Teardown.revert_dns_def split: option.splits prod.splits result.splits dns_error.splits)
  show ?thesis
    using assms(2) remove_route [OF assms(2)] remove_rule [OF assms(2)] remove_address [OF assms(2,1)]
      delete_link [OF assms(2,1)] dns
    by (cases r) (auto simp: wireguard_step_def Let_def split: prod.splits option.splits, (metis snd_conv)+)
qed

lemma teardown_keeps:
  assumes "good (d_world d)"
  shows "good (d_world (snd (teardown_wireguard_entry P i d)))"
proof (cases "pf_wg P")
  case None
  then show ?thesis using assms by (simp add: teardown_wireguard_entry_def Let_def split: option.split)
next
  case (Some wg)
  have go: "good (d_world (snd (let (out, w) = walk (wireguard_step P wg mine) rs [] (d_world d'); d' = d'\<lparr>d_world := w\<rparr>
      in case out of Err err \<Rightarrow> (Err err, d') | Ok failed \<Rightarrow> finish_entry i failed d')))"
    if d': "d_world d' = d_world d" for mine rs d'
  proof -
    obtain out w where k: "walk (wireguard_step P wg mine) rs [] (d_world d') = (out, w)" by (rule prod.exhaust)
    have "good (snd (walk (wireguard_step P wg mine) rs [] (d_world d')))"
      using step_keeps [OF Some] assms d' by (intro walk_keeps [of good]) simp_all
    then have "good w" using k by simp
    then show ?thesis by (cases out) (simp_all add: k finish_entry_world)
  qed
  show ?thesis using assms Some go
    unfolding teardown_wireguard_entry_def Let_def
    by (auto split: option.split result.split bool.split)
qed

definition rolled_back :: "journal \<Rightarrow> owner_key \<Rightarrow> 'k daemon \<Rightarrow> bool" where
  "rolled_back J k d \<longleftrightarrow> good (d_world d) \<and> (d_journal d = J \<or> (\<exists>x. d_journal d = J @ [x] \<and> je_key x = k))"

lemma persist_keeps: "good (d_world d) \<Longrightarrow> good (d_world (persist P d))"
proof -
  obtain r w where p: "pf_save P (d_journal d) (d_world d) = (r, w)" by (rule prod.exhaust)
  assume "good (d_world d)"
  from save [OF this p] show ?thesis by (simp add: persist_def save_journal_def p)
qed

lemma abandon_rolls_back:
  assumes "failing good J (uid, ''wg:'' @ profile_id) d"
  shows "rolled_back J (uid, ''wg:'' @ profile_id) (snd (abandon P (length J) e d))"
proof -
  obtain x where g: "good (d_world d)" and J: "d_journal d = J @ [x]" and x: "je_key x = (uid, ''wg:'' @ profile_id)"
    using assms by (auto simp: failing_def)
  obtain r d1 where t: "teardown_entry P (length J) d = (r, d1)" by (rule prod.exhaust)
  have "je_owner x = ''wg:'' @ profile_id" using x by (simp add: je_key_def)
  then have "teardown_entry P (length J) d = teardown_wireguard_entry P (length J) d"
    using J by (simp add: teardown_entry_def starts_with_def)
  then have g1: "good (d_world d1)" using teardown_keeps [OF g, of "length J"] t by (metis snd_conv)
  have "entry_contract (length J) d (r, d1)" using any.contract [of "length J" d P] J t by simp
  then have "d_journal d1 = J \<or> (\<exists>y. d_journal d1 = J @ [y] \<and> je_key y = je_key x)"
    using J by (cases r) (auto simp: entry_contract_def)
  then show ?thesis using persist_keeps [OF g1] x t by (simp add: abandon_def rolled_back_def)
qed


lemma commit_settles:
  assumes post: "at_entry good J e d" and key: "je_key e = (uid, ''wg:'' @ profile_id)"
    and run: "wg_commit P now uid profile_id (length J) d = (res, d')"
  shows "(\<exists>er. res = Err er \<and> rolled_back J (uid, ''wg:'' @ profile_id) d')
    \<or> (\<exists>st d1. res = Ok st \<and> d_journal d1 = J @ [mark_state Applied e] \<and> good (d_world d1)
        \<and> wireguard_status P now uid profile_id d1 = (st, d'))"
proof -
  let ?e = "mark_state Applied e" and ?d = "set_entry (length J) (mark_state Applied) d" and ?k = "(uid, ''wg:'' @ profile_id)"
  have at: "at_entry good J ?e ?d" using post by (rule at_entry_set)
  obtain r d1 where s: "save_journal P ?d = (r, d1)" by (rule prod.exhaust)
  note sv = runsD [OF save_runs at s]
  show ?thesis
  proof (cases r)
    case (Ok u)
    let ?d1 = "d1\<lparr>d_tunnel_failed := d_tunnel_failed d1 - {?k}, d_wireguard_handshake := (d_wireguard_handshake d1)(?k := None)\<rparr>"
    obtain st d2 where w: "wireguard_status P now uid profile_id ?d1 = (st, d2)" by (rule prod.exhaust)
    have "res = Ok st" "d' = d2" using run s Ok w by (simp_all add: wg_commit_def)
    moreover have "d_journal ?d1 = J @ [?e]" "good (d_world ?d1)" using sv Ok by (simp_all add: at_entry_def)
    ultimately show ?thesis using w by blast
  next
    case (Err er)
    have "failing good J ?k d1" using sv Err key by simp
    from abandon_rolls_back [OF this, of er] show ?thesis
      using run s Err by (auto simp: wg_commit_def abandon_def)
  qed
qed

lemma run_settles:
  assumes wg: "pf_wg P = Some wg" and wc: "pf_wg_config P = Some wc"
    and at: "at_entry good J e d" "saved (J @ [e]) (d_world d)"
    and l: "je_resources e = [WireGuardLink l]" and name: "wl_name l = name" and key: "je_key e = (uid, ''wg:'' @ profile_id)"
    and run: "wg_run P now uid profile_id (length J)
      (wg_body N P wg wc plan full name fallback (wl_owner_marker l) (length J)) d = (res, d')"
  shows "(\<exists>er. res = Err er \<and> rolled_back J (uid, ''wg:'' @ profile_id) d')
    \<or> (\<exists>st d1 ix n out. res = Ok st \<and> n \<in> {name, fallback} \<and> good (d_world d1)
        \<and> d_journal d1 = J @ [mark_state Applied (wg_connected N plan full ix n out e)]
        \<and> wireguard_status P now uid profile_id d1 = (st, d'))"
proof -
  let ?body = "wg_body N P wg wc plan full name fallback (wl_owner_marker l) (length J)"
  obtain r d1 where b: "?body d = (r, d1)" by (rule prod.exhaust)
  note body = runsD [OF body_runs [OF wg wc l name] _ b]
  show ?thesis
  proof (cases r)
    case (Ok u)
    then obtain ix n out where n: "n \<in> {name, fallback}" and p: "at_entry good J (wg_connected N plan full ix n out e) d1"
      using body at by (auto simp: body_post_def)
    have "wg_commit P now uid profile_id (length J) d1 = (res, d')" using run b Ok by (simp add: wg_run_def)
    moreover have "je_key (wg_connected N plan full ix n out e) = (uid, ''wg:'' @ profile_id)" using key by (simp only: je_key_steps)
    ultimately show ?thesis using commit_settles [OF p] n by blast
  next
    case (Err er)
    then have f: "failing good J (uid, ''wg:'' @ profile_id) d1" using body at key by simp
    show ?thesis
    proof (cases "unclaimed er (d_journal d1 ! length J)")
      case True
      obtain x where "d_journal d1 = J @ [x]" "good (d_world d1)" using f by (auto simp: failing_def)
      then have "rolled_back J (uid, ''wg:'' @ profile_id) (persist P (drop_entry (length J) d1))"
        by (simp add: rolled_back_def persist_keeps)
      then show ?thesis using run b Err True by (auto simp: wg_run_def)
    next
      case False
      then show ?thesis using abandon_rolls_back [OF f, of er] run b Err by (auto simp: wg_run_def abandon_def)
    qed
  qed
qed


lemma started_settles:
  fixes profile_id owner d J
  defines "owner \<equiv> ''wg:'' @ profile_id" and "J \<equiv> d_journal d"
  assumes wg: "pf_wg P = Some wg" and wc: "pf_wg_config P = Some wc" and full: "allocate_full P wc plan d = Ok full"
    and free: "owner_position uid owner d = None"
    and nm: "wireguard_name uid profile_id (wp_interface_name plan) = (name, fallback)"
    and e: "e = wg_entry uid owner plan full name (wg_marker uid owner)"
    and at: "at_entry good J e d1" "saved (J @ [e]) (d_world d1)"
    and run: "wg_run P now uid profile_id (length J)
      (wg_body N P wg wc plan full name fallback (wg_marker uid owner) (length J)) d1 = (res, d')"
  shows "good (d_world d') \<and> wg_outcome N P uid profile_id plan d res d'"
proof -
  obtain l where l: "je_resources e = [WireGuardLink l]" and lm: "wl_owner_marker l = wg_marker uid owner" "wl_name l = name"
    by (simp add: e wg_entry_def)
  have key: "je_key e = (uid, owner)" by (simp add: e wg_entry_def je_key_def)
  have "wg_run P now uid profile_id (length J)
      (wg_body N P wg wc plan full name fallback (wl_owner_marker l) (length J)) d1 = (res, d')"
    using run lm by simp
  from run_settles [OF wg wc at l lm(2) key [unfolded owner_def] this]
  consider (err) er where "res = Err er" "rolled_back J (uid, owner) d'"
    | (ok) st d2 ix n out where "res = Ok st" "n \<in> {name, fallback}" "good (d_world d2)"
        "d_journal d2 = J @ [mark_state Applied (wg_connected N plan full ix n out e)]"
        "wireguard_status P now uid profile_id d2 = (st, d')"
    unfolding owner_def by blast
  then show ?thesis
  proof cases
    case err
    then show ?thesis by (auto simp: wg_outcome_def rolled_back_def owner_def J_def)
  next
    case ok
    let ?c = "wg_connected N plan full ix n out e"
    have "je_key (mark_state Applied ?c) = (uid, owner)" using key by (simp only: je_key_mark je_key_steps)
    from find_last_entry [OF free this]
    have "ws_interface_name st = map_option wl_name (find_wg_link (je_resources ?c)) \<and> ws_state st \<noteq> Tunnel_Stopped"
      using wireguard_status_name [OF ok(5), of "mark_state Applied ?c"] ok(4) by (simp add: owner_def J_def mark_state_def)
    then have "ws_interface_name st = Some n \<and> ws_state st \<noteq> Tunnel_Stopped" using connected_link [OF l] by simp
    then show ?thesis using ok wireguard_status_frame [OF ok(5)] full wc nm
      unfolding wg_outcome_def owner_def J_def Let_def e by auto
  qed
qed

lemma connect_settles:
  assumes run: "connect_wireguard N P now uid profile_id plan d = (res, d')" and g: "good (d_world d)"
  shows "good (d_world d') \<and> wg_outcome N P uid profile_id plan d res d'"
proof -
  define owner where "owner = ''wg:'' @ profile_id"
  let ?J = "d_journal d"
  obtain name fallback where nm: "wireguard_name uid profile_id (wp_interface_name plan) = (name, fallback)" by (rule prod.exhaust)
  show ?thesis
  proof (cases "(res, d') = (res, d) \<and> \<not> is_ok res")
    case True
    then show ?thesis using g by (cases res) (simp_all add: wg_outcome_def)
  next
    case False
    then obtain wg wc full where own: "wireguard_owner profile_id = Ok owner" and free: "owner_position uid owner d = None"
      and wg: "pf_wg P = Some wg" and wc: "pf_wg_config P = Some wc" and full: "allocate_full P wc plan d = Ok full"
      and ndns: "\<not> (wp_dns_servers plan \<noteq> [] \<and> pf_dns P = None)"
      using run unfolding connect_wireguard_def owner_def
      by (auto simp: wireguard_owner_def split: result.splits if_splits option.splits)
    let ?m = "wg_marker uid owner"
    let ?e = "wg_entry uid owner plan full name ?m"
    obtain r d1 where s: "save_journal P (d\<lparr>d_journal := ?J @ [?e]\<rparr>) = (r, d1)" by (rule prod.exhaust)
    have "at_entry good ?J ?e (d\<lparr>d_journal := ?J @ [?e]\<rparr>)" using g by (simp add: at_entry_def)
    note sv = runsD [OF save_runs this s]
    have res: "(case r of Err e \<Rightarrow> (Err e, d1\<lparr>d_journal := butlast (d_journal d1)\<rparr>)
        | Ok _ \<Rightarrow> wg_run P now uid profile_id (length ?J) (wg_body N P wg wc plan full name fallback ?m (length ?J)) d1) = (res, d')"
      using run s own free wg wc full ndns nm by (cases r) (simp_all add: connect_wireguard_def Let_def)
    show ?thesis
    proof (cases r)
      case (Err er)
      then show ?thesis using res sv by (auto simp: wg_outcome_def failing_def)
    next
      case (Ok u)
      then have at: "at_entry good ?J ?e d1" "saved (?J @ [?e]) (d_world d1)" using sv by simp_all
      have "wg_run P now uid profile_id (length ?J) (wg_body N P wg wc plan full name fallback ?m (length ?J)) d1 = (res, d')"
        using res Ok by simp
      from started_settles [OF wg wc full free [unfolded owner_def] nm refl, folded owner_def, OF at this]
      show ?thesis .
    qed
  qed
qed

end


section \<open>A platform that checks the write-ahead rule\<close>

record 'k watch =
  wt_world :: 'k
  wt_disk :: journal
  wt_ok :: bool
  wt_taken :: "string list"

definition quietly :: "('k \<Rightarrow> 'a \<times> 'k) \<Rightarrow> 'k watch \<Rightarrow> 'a \<times> 'k watch" where
  "quietly f s = (let (r, w) = f (wt_world s) in (r, s\<lparr>wt_world := w\<rparr>))"

definition checked :: "(owned_resource \<Rightarrow> bool) \<Rightarrow> ('k \<Rightarrow> 'a \<times> 'k) \<Rightarrow> 'k watch \<Rightarrow> 'a \<times> 'k watch" where
  "checked q f s = (let (r, w) = f (wt_world s) in
     (r, s\<lparr>wt_world := w, wt_ok := (wt_ok s \<and> list_ex (\<lambda>e. list_ex q (je_resources e)) (wt_disk s))\<rparr>))"

definition watched_save :: "'k platform \<Rightarrow> journal \<Rightarrow> 'k watch \<Rightarrow> unit io \<times> 'k watch" where
  "watched_save P J s = (let (r, w) = pf_save P J (wt_world s) in
     (r, if is_ok r then s\<lparr>wt_world := w, wt_disk := J\<rparr> else s\<lparr>wt_world := w\<rparr>))"

definition is_dns_of :: "string \<Rightarrow> ip_addr list \<Rightarrow> string list \<Rightarrow> bool \<Rightarrow> owned_resource \<Rightarrow> bool" where
  "is_dns_of name servers domains full r = (case r of
     Dns x \<Rightarrow> wd_name x = name \<and> wd_servers x = servers \<and> wd_domains x = domains \<and> wd_full x = full | _ \<Rightarrow> False)"

definition is_link_of :: "(wg_link \<Rightarrow> bool) \<Rightarrow> owned_resource \<Rightarrow> bool" where
  "is_link_of q r = (case r of WireGuardLink l \<Rightarrow> q l | _ \<Rightarrow> False)"

text \<open>A link may be created under the name in the journal, or, once that name has been refused as taken, under another one, in
  both cases with the marker in the journal.\<close>

definition creating :: "string \<Rightarrow> string \<Rightarrow> ('k \<Rightarrow> nat io \<times> 'k) \<Rightarrow> 'k watch \<Rightarrow> nat io \<times> 'k watch" where
  "creating n m f s = (let (r, s') = checked (is_link_of (\<lambda>l. wl_owner_marker l = m \<and> (wl_name l = n \<or> wl_name l \<in> set (wt_taken s)))) f s
     in (r, if r = Err AlreadyExists then s'\<lparr>wt_taken := n # wt_taken s'\<rparr> else s'))"

definition is_xray_of :: "string \<Rightarrow> owned_resource \<Rightarrow> bool" where
  "is_xray_of n r = (case r of XrayProcess p \<Rightarrow> xp_name p = n | _ \<Rightarrow> False)"

definition is_openvpn_of :: "string \<Rightarrow> nat \<Rightarrow> owned_resource \<Rightarrow> bool" where
  "is_openvpn_of n m r = (case r of OpenVpnProcess p \<Rightarrow> op_name p = n \<and> op_transport_mark p = Some m | _ \<Rightarrow> False)"

definition watched_xray :: "'k xray_runner \<Rightarrow> 'k watch xray_runner" where
  "watched_xray run = \<lparr> pr_link_index = (\<lambda>n s. pr_link_index run n (wt_world s)),
     pr_stop = (\<lambda>n. quietly (pr_stop run n)), pr_cleanup = (\<lambda>u n. quietly (pr_cleanup run u n)),
     xr_verify_binary = (\<lambda>s. xr_verify_binary run (wt_world s)),
     xr_start = (\<lambda>u n c g. checked (is_xray_of n) (xr_start run u n c g)),
     xr_respawn = (\<lambda>u n. checked (is_xray_of n) (xr_respawn run u n)),
     xr_reload = (\<lambda>u n c g. checked (is_xray_of n) (xr_reload run u n c g)),
     xr_health = (\<lambda>n s. xr_health run n (wt_world s)), xr_query_stats = (\<lambda>n p s. xr_query_stats run n p (wt_world s)) \<rparr>"

definition watched_openvpn :: "'k openvpn_runner \<Rightarrow> 'k watch openvpn_runner" where
  "watched_openvpn run = \<lparr> pr_link_index = (\<lambda>n s. pr_link_index run n (wt_world s)),
     pr_stop = (\<lambda>n. quietly (pr_stop run n)), pr_cleanup = (\<lambda>u n. quietly (pr_cleanup run u n)),
     vr_verify_binary = (\<lambda>s. vr_verify_binary run (wt_world s)),
     vr_staging_exists = (\<lambda>u n s. vr_staging_exists run u n (wt_world s)),
     vr_start = (\<lambda>u n c k m. checked (is_openvpn_of n m) (vr_start run u n c k m)),
     vr_poll = (\<lambda>n. quietly (vr_poll run n)) \<rparr>"

definition watched :: "'k platform \<Rightarrow> 'k watch platform" where
  "watched P =
     \<lparr> pf_save = watched_save P,
       pf_load = (\<lambda>s. pf_load P (wt_world s)),
       pf_routes = \<lparr> rx_add = (\<lambda>x. checked ((=) (Route x)) (rx_add (pf_routes P) x)),
                     rx_remove = (\<lambda>x. quietly (rx_remove (pf_routes P) x)) \<rparr>,
       pf_default_gateways = (\<lambda>s. pf_default_gateways P (wt_world s)),
       pf_on_link_networks = (\<lambda>s. pf_on_link_networks P (wt_world s)),
       pf_net_tables = (\<lambda>s. pf_net_tables P (wt_world s)),
       pf_add_system_route = (\<lambda>x. checked ((=) (NetRoute x)) (pf_add_system_route P x)),
       pf_remove_system_route = (\<lambda>x. quietly (pf_remove_system_route P x)),
       pf_resolve = (\<lambda>h s. pf_resolve P h (wt_world s)),
       pf_links = \<lparr> lx_set_link_state = (\<lambda>n up. quietly (lx_set_link_state (pf_links P) n up)),
                    lx_remove_link = (\<lambda>n. quietly (lx_remove_link (pf_links P) n)),
                    lx_link_kind = (\<lambda>n s. lx_link_kind (pf_links P) n (wt_world s)),
                    lx_link_index = (\<lambda>n s. lx_link_index (pf_links P) n (wt_world s)),
                    lx_stop_wg_quick_unit = (\<lambda>n. quietly (lx_stop_wg_quick_unit (pf_links P) n)) \<rparr>,
       pf_policy = map_option (\<lambda>px. \<lparr> px_rules_snapshot = (\<lambda>s. px_rules_snapshot px (wt_world s)),
                    px_table_in_use = (\<lambda>t s. px_table_in_use px t (wt_world s)),
                    px_add_rule = (\<lambda>x. checked ((=) (Rule x)) (px_add_rule px x)),
                    px_remove_rule = (\<lambda>x. quietly (px_remove_rule px x)),
                    px_rule_present = (\<lambda>x s. px_rule_present px x (wt_world s)),
                    px_add_system_rule = (\<lambda>x. checked ((=) (NetRule x)) (px_add_system_rule px x)),
                    px_remove_system_rule = (\<lambda>x. quietly (px_remove_system_rule px x)) \<rparr>) (pf_policy P),
       pf_dns = map_option (\<lambda>dx. \<lparr> dx_apply = (\<lambda>n s d f. checked (is_dns_of n s d f) (dx_apply dx n s d f)),
                    dx_revert = (\<lambda>n. quietly (dx_revert dx n)) \<rparr>) (pf_dns P),
       pf_wg = map_option (\<lambda>wg. \<lparr> wx_create_link = (\<lambda>n m. creating n m (wx_create_link wg n m)),
                    wx_link_owned = (\<lambda>n i m s. wx_link_owned wg n i m (wt_world s)),
                    wx_link_present = (\<lambda>n i s. wx_link_present wg n i (wt_world s)),
                    wx_delete_link = (\<lambda>n i m. quietly (wx_delete_link wg n i m)),
                    wx_add_address = (\<lambda>i a. checked ((=) (wg_address i a)) (wx_add_address wg i a)),
                    wx_remove_address = (\<lambda>i a. quietly (wx_remove_address wg i a)),
                    wx_set_mtu = (\<lambda>i m. quietly (wx_set_mtu wg i m)),
                    wx_set_state = (\<lambda>i u. quietly (wx_set_state wg i u)) \<rparr>) (pf_wg P),
       pf_wg_config = map_option (\<lambda>wc. \<lparr> wc_configure = (\<lambda>n c. checked (is_link_of (\<lambda>l. wl_name l = n)) (wc_configure wc n c)),
                    wc_set_fwmark = (\<lambda>n m. quietly (wc_set_fwmark wc n m)),
                    wc_marks_in_use = (\<lambda>s. wc_marks_in_use wc (wt_world s)),
                    wc_endpoint_ips = (\<lambda>n s. wc_endpoint_ips wc n (wt_world s)),
                    wc_verify_transport = (\<lambda>n m a b s. wc_verify_transport wc n m a b (wt_world s)),
                    wc_health = (\<lambda>n s. wc_health wc n (wt_world s)) \<rparr>) (pf_wg_config P),
       pf_xray = map_option watched_xray (pf_xray P),
       pf_openvpn = map_option watched_openvpn (pf_openvpn P),
       pf_quic = map_option (\<lambda>qx. \<lparr> qx_ensure = (\<lambda>u n. checked (is_xray_of n) (qx_ensure qx u n)),
                    qx_remove = (\<lambda>u n. quietly (qx_remove qx u n)) \<rparr>) (pf_quic P) \<rparr>"

lemma quietly_ok: "wt_ok (snd (quietly f s)) = wt_ok s"
  by (simp add: quietly_def split: prod.split)

lemma checked_ok:
  "wt_ok s \<Longrightarrow> r \<in> resources (wt_disk s) \<Longrightarrow> q r \<Longrightarrow> wt_ok (snd (checked q f s)) \<and> wt_disk (snd (checked q f s)) = wt_disk s"
  by (auto simp: checked_def resources_def list_ex_iff split: prod.split)

lemma watched_save_ok:
  "wt_ok s \<Longrightarrow> watched_save P J s = (r, s') \<Longrightarrow> wt_ok s' \<and> (is_ok r \<longrightarrow> wt_disk s' = J)"
  by (auto simp: watched_save_def Let_def split: prod.splits if_splits)

lemma checked_address:
  "wt_ok s \<Longrightarrow> Address z \<in> resources (wt_disk s) \<Longrightarrow>
     wt_ok (snd (checked ((=) (wg_address (wa_interface_index z) (wa_address z))) f s))"
  by (rule checked_ok [THEN conjunct1], assumption+) (simp add: wg_address_def)

lemma checked_dns:
  "wt_ok s \<Longrightarrow> Dns v \<in> resources (wt_disk s) \<Longrightarrow>
     wt_ok (snd (checked (is_dns_of (wd_name v) (wd_servers v) (wd_domains v) (wd_full v)) f s))"
  by (rule checked_ok [THEN conjunct1], assumption+) (simp add: is_dns_of_def)

lemma checked_link:
  "wt_ok s \<Longrightarrow> WireGuardLink l \<in> resources (wt_disk s) \<Longrightarrow> q l \<Longrightarrow>
     wt_ok (snd (checked (is_link_of q) f s)) \<and> wt_disk (snd (checked (is_link_of q) f s)) = wt_disk s"
  by (rule checked_ok, assumption+) (simp add: is_link_of_def)

lemma creating_ok:
  assumes "wt_ok s" and "WireGuardLink l \<in> resources (wt_disk s)" and "wl_name l = n \<or> wl_name l \<in> set (wt_taken s)"
  shows "wt_ok (snd (creating n (wl_owner_marker l) f s)) \<and> wt_disk (snd (creating n (wl_owner_marker l) f s)) = wt_disk s"
proof -
  let ?q = "\<lambda>k. wl_owner_marker k = wl_owner_marker l \<and> (wl_name k = n \<or> wl_name k \<in> set (wt_taken s))"
  have "wt_ok (snd (checked (is_link_of ?q) f s)) \<and> wt_disk (snd (checked (is_link_of ?q) f s)) = wt_disk s"
    by (rule checked_link [OF assms(1,2)]) (use assms(3) in simp)
  then show ?thesis unfolding creating_def Let_def case_prod_unfold by simp
qed

lemma creating_refused: "creating n m f s = (Err AlreadyExists, s') \<Longrightarrow> n \<in> set (wt_taken s')"
  by (auto simp: creating_def Let_def split: prod.splits)

lemma watched_simps [simp]:
  "pf_save (watched P) = watched_save P"
  "rx_add (pf_routes (watched P)) x = checked ((=) (Route x)) (rx_add (pf_routes P) x)"
  "rx_remove (pf_routes (watched P)) x = quietly (rx_remove (pf_routes P) x)"
  by (simp_all add: watched_def)

interpretation monitored: wal_monitor "watched P" wt_ok "\<lambda>J s. wt_disk s = J" for P :: "'k platform"
proof (unfold_locales, goal_cases)
  case (1 w J r w')
  then show ?case using watched_save_ok by simp
next
  case (2 w J x)
  then show ?case by (auto intro: checked_ok [THEN conjunct1])
next
  case (3 w J y px)
  then show ?case by (auto simp: watched_def intro: checked_ok [THEN conjunct1])
next
  case (6 w J l wg)
  then show ?case by (auto simp: watched_def creating_ok)
next
  case (7 w J l wg w' n)
  then obtain wg0 where "pf_wg P = Some wg0" by (auto simp: watched_def)
  then have wg: "wx_create_link wg n m = creating n m (wx_create_link wg0 n m)" for n m using 7 by (auto simp: watched_def)
  have "wt_ok w' \<and> wt_disk w' = J" using creating_ok [of w l "wl_name l" "wx_create_link wg0 (wl_name l) (wl_owner_marker l)"] 7 wg by simp
  then show ?case using creating_ok [of w' l n] creating_refused [of "wl_name l"] 7 unfolding wg by blast
qed (auto simp: watched_def quietly_ok checked_address checked_dns checked_link)

interpretation unmonitored: wal_monitor P "\<lambda>_. True" "\<lambda>_ _. True" for P :: "'k platform"
  by unfold_locales simp_all


section \<open>Connecting is write-ahead and accountable\<close>

text \<open>C3: \<open>connect_wireguard\<close> keeps the write-ahead rule: whatever the plan, the daemon state and the answers of
  the executors (failures included), at the moment it adds an address, a route or a policy rule, applies
  DNS or loads the configuration of a link, the journal on disk already lists that address, route, rule, DNS setting or
  link name; and it creates a link only with the marker of a link in the journal on disk, under the name listed there or,
  after that name was refused as taken, under another one (the fallback name, which the journal on disk does not
  list yet).  \<open>watched P\<close> is the platform \<open>P\<close> with this check in front of each call; the theorem says that no check
  ever fails.\<close>

theorem connect_wireguard_write_ahead:
  "wt_ok (d_world (snd (connect_wireguard N (watched P) now uid profile_id plan
     (d\<lparr>d_world := \<lparr> wt_world = w, wt_disk = J, wt_ok = True, wt_taken = [] \<rparr>\<rparr>))))"
  by (rule monitored.connect_settles [OF prod.collapse [symmetric], THEN conjunct1]) simp

text \<open>C4: The outcome of \<open>connect_wireguard\<close>.  On success the journal has one entry more, applied, under the caller's
  uid and \<open>wg:\<close> owner: the link with its index under one of the two candidate names, then every address,
  every route that is not the prefix of an address (routes of a full tunnel in the policy table), both policy
  rules per captured family, and the DNS setting unless the resolver skipped it; the answer names
  the link.  On failure the other entries are untouched, and at most one entry of this owner is left
  for a later teardown.\<close>

theorem connect_wireguard_outcome:
  "wg_outcome N P uid profile_id plan d (fst (connect_wireguard N P now uid profile_id plan d))
     (snd (connect_wireguard N P now uid profile_id plan d))"
  by (rule unmonitored.connect_settles [OF prod.collapse [symmetric], THEN conjunct2]) simp
section \<open>Policy slots\<close>

lemma find_slot_Ok:
  "find_slot taken in_use ss = Ok s \<Longrightarrow> s \<in> set ss \<and> \<not> taken s \<and> in_use (51820 + s) = Ok False"
  by (induction ss) (auto split: if_splits result.splits bool.splits)

text \<open>\<open>allocate_full\<close> grants a full-tunnel slot only when no other journal entry holds one, and the slot is free on
  every side: table and mark are one number between 51820 and 51947, the two priorities are adjacent
  between 10000 and 10255, no existing rule uses the mark or a priority, no WireGuard device and
  no other tunnel process uses the mark, and the table is empty.  The policy rules made from it stay on these
  numbers, the main table's rule first.\<close>

theorem allocate_full_safe:
  assumes "allocate_full P wc plan d = Ok (Some f)"
  shows "list_all (\<lambda>e. list_all (\<lambda>r. owns_full r = False) (je_resources e)) (d_journal d)
    \<and> 51820 \<le> fr_table f \<and> fr_table f < 51948 \<and> fr_fwmark f = fr_table f
    \<and> 10000 \<le> fr_priority_main f \<and> fr_priority_tunnel f = fr_priority_main f + 1 \<and> fr_priority_tunnel f < 10256
    \<and> (\<exists>px rules marks. pf_policy P = Some px \<and> px_rules_snapshot px (d_world d) = Ok rules
        \<and> wc_marks_in_use wc (d_world d) = Ok marks \<and> fr_fwmark f \<notin> set marks
        \<and> px_table_in_use px (fr_table f) (d_world d) = Ok False
        \<and> list_all (\<lambda>r. or_fwmark r \<noteq> Some (fr_fwmark f) \<and> or_priority r \<noteq> fr_priority_main f
            \<and> or_priority r \<noteq> fr_priority_tunnel f) rules)
    \<and> list_all (\<lambda>e. list_all (\<lambda>r. uses_mark (fr_fwmark f) r = False) (je_resources e)) (d_journal d)
    \<and> map or_table (full_policy_rules f) = (if fr_ipv4 f then [254, fr_table f] else []) @ (if fr_ipv6 f then [254, fr_table f] else [])
    \<and> full_policy_rules f \<noteq> []"
proof -
  obtain px rules marks slot where px: "pf_policy P = Some px" "px_rules_snapshot px (d_world d) = Ok rules"
      "wc_marks_in_use wc (d_world d) = Ok marks"
    and slot: "find_slot (slot_taken marks rules (d_journal d)) (\<lambda>t. px_table_in_use px t (d_world d)) [0..<128] = Ok slot"
    and f: "f = slot_resource plan slot"
    and none: "\<not> list_ex (\<lambda>e. list_ex owns_full (je_resources e)) (d_journal d)" and full: "wp_full_ipv4 plan \<or> wp_full_ipv6 plan"
    using assms unfolding allocate_full_def
    by (auto simp: map_result_Ok_iff split: if_splits option.splits result.splits)
  have free: "slot < 128" "\<not> slot_taken marks rules (d_journal d) slot" "px_table_in_use px (51820 + slot) (d_world d) = Ok False"
    using find_slot_Ok [OF slot] by simp_all
  have rules: "map or_table (full_policy_rules f) = (if fr_ipv4 f then [254, fr_table f] else []) @ (if fr_ipv6 f then [254, fr_table f] else [])
      \<and> full_policy_rules f \<noteq> []"
    using full by (cases "wp_full_ipv4 plan"; cases "wp_full_ipv6 plan")
      (simp_all add: f full_policy_rules_def slot_resource_def)
  have nums: "fr_table f = 51820 + slot" "fr_fwmark f = 51820 + slot" "fr_priority_main f = 10000 + slot * 2"
      "fr_priority_tunnel f = 10000 + slot * 2 + 1"
    by (simp_all add: f slot_resource_def)
  have marks: "fr_fwmark f \<notin> set marks"
      "list_all (\<lambda>e. list_all (\<lambda>r. uses_mark (fr_fwmark f) r = False) (je_resources e)) (d_journal d)"
      "list_all (\<lambda>r. or_fwmark r \<noteq> Some (fr_fwmark f) \<and> or_priority r \<noteq> fr_priority_main f
         \<and> or_priority r \<noteq> fr_priority_tunnel f) rules"
    using free(2) by (simp_all add: nums slot_taken_def Let_def list_ex_iff list_all_iff)
  have "list_all (\<lambda>e. list_all (\<lambda>r. owns_full r = False) (je_resources e)) (d_journal d)"
    using none by (simp add: list_ex_iff list_all_iff)
  moreover have "\<exists>px rules marks. pf_policy P = Some px \<and> px_rules_snapshot px (d_world d) = Ok rules
        \<and> wc_marks_in_use wc (d_world d) = Ok marks \<and> fr_fwmark f \<notin> set marks
        \<and> px_table_in_use px (fr_table f) (d_world d) = Ok False
        \<and> list_all (\<lambda>r. or_fwmark r \<noteq> Some (fr_fwmark f) \<and> or_priority r \<noteq> fr_priority_main f
            \<and> or_priority r \<noteq> fr_priority_tunnel f) rules"
    using px marks(1,3) free(3) nums(1) by (intro exI conjI) simp_all
  moreover have "51820 \<le> fr_table f" "fr_table f < 51948" "fr_fwmark f = fr_table f" "10000 \<le> fr_priority_main f"
      "fr_priority_tunnel f = fr_priority_main f + 1" "fr_priority_tunnel f < 10256"
    using free(1) by (simp_all add: nums)
  ultimately show ?thesis using marks(2) rules by blast
qed

definition sim_wg_config :: "sim wg_config_executor" where
  "sim_wg_config = \<lparr> wc_configure = (\<lambda>_ _ w. (Ok (), w)), wc_set_fwmark = (\<lambda>_ _ w. (Ok (), w)),
     wc_marks_in_use = (\<lambda>_. Ok [51820]), wc_endpoint_ips = (\<lambda>_ _. Ok []), wc_verify_transport = (\<lambda>_ _ _ _ _. Ok ()),
     wc_health = (\<lambda>_ _. Ok (None, 0, 0)) \<rparr>"

definition sim_wg :: "sim wg_system" where
  "sim_wg = \<lparr> wx_create_link = (\<lambda>n m w. if map_of (sim_links w) n = None
                  then (Ok 7, w\<lparr>sim_links := (n, 7) # sim_links w\<rparr>) else (Err AlreadyExists, w)),
     wx_link_owned = (\<lambda>n i m w. Ok (map_of (sim_links w) n = Some 7)),
     wx_link_present = (\<lambda>n i w. Ok (map_of (sim_links w) n \<noteq> None)),
     wx_delete_link = (\<lambda>n i m w. (Ok (), w\<lparr>sim_links := filter (\<lambda>p. fst p \<noteq> n) (sim_links w)\<rparr>)),
     wx_add_address = (\<lambda>_ _ w. (Ok (), w)), wx_remove_address = (\<lambda>_ _ w. (Ok (), w)),
     wx_set_mtu = (\<lambda>_ _ w. (Ok (), w)), wx_set_state = (\<lambda>_ _ w. (Ok (), w)) \<rparr>"

definition sim_plan :: wg_plan where
  "sim_plan = \<lparr> wp_setconf = '''', wp_addresses = [IpNet (V4 (10 * 2 ^ 24 + 2)) 32], wp_dns_servers = [], wp_dns_domains = [],
     wp_mtu = Some 1420, wp_routes = [\<lparr> pr_destination = IpNet (V4 0) 0, pr_metric = 50, pr_via = None \<rparr>],
     wp_full_ipv4 = True, wp_full_ipv6 = False, wp_warnings = [], wp_interface_name = None \<rparr>"

theorem allocate_full_safe_witness:
  "allocate_full sim_platform sim_wg_config sim_plan (fresh_daemon [] quiet_sim) = Ok (Some (slot_resource sim_plan 1))
    \<and> fr_fwmark (slot_resource sim_plan 1) = 51821 \<and> fr_priority_tunnel (slot_resource sim_plan 1) < 10256"
proof -
  have s: "[0::nat..<128] = 0 # 1 # [2..<128]" by (simp add: upt_rec)
  have a: "allocate_full sim_platform sim_wg_config sim_plan (fresh_daemon [] quiet_sim) = Ok (Some (slot_resource sim_plan 1))"
    unfolding allocate_full_def s
    by (simp add: sim_platform_def sim_policy_def sim_wg_config_def sim_plan_def fresh_daemon_def slot_taken_def Let_def)
  from allocate_full_safe [OF a] have "fr_priority_tunnel (slot_resource sim_plan 1) < 10256" by blast
  with a show ?thesis by (simp add: slot_resource_def)
qed

section \<open>The fallback name\<close>

text \<open>C35: When the preferred name is taken, the link is created under the fallback name while the journal on disk still
  holds the preferred one.  If the daemon stops there, recovery looks for the preferred name only: since
  that link is not owned, the teardown of the entry makes no call that changes the host, and the
  link under the fallback name stays behind with no entry that names it.\<close>

theorem fallback_link_escapes_recovery:
  assumes "pf_wg P = Some wg" and "fallback \<noteq> name"
    and "wx_create_link wg name marker (d_world d) = (Err AlreadyExists, w1)"
    and "wx_create_link wg fallback marker w1 = (Ok ix, w2)"
    and "wx_link_owned wg name 0 marker w2 = Ok False"
  shows "create_wg_link wg name fallback marker d = (Ok (ix, fallback), d\<lparr>d_world := w2\<rparr>)
    \<and> d_world (snd (teardown_wireguard_entry P 0 (fresh_daemon [wg_entry uid owner plan full name marker] w2))) = w2"
  using assms
  by (auto simp: create_wg_link_def on_world_def then_do_def teardown_wireguard_entry_def fresh_daemon_def wg_entry_def
      wireguard_step_def finish_entry_def drop_entry_def set_entry_def Let_def split: result.split bool.split)

theorem fallback_link_escapes_recovery_witness:
  "let P = sim_platform\<lparr>pf_wg := Some sim_wg\<rparr>; d = fresh_daemon [] (quiet_sim\<lparr>sim_links := [(''wg0'', 3)]\<rparr>);
       w = quiet_sim\<lparr>sim_links := [(''wg-a'', 7), (''wg0'', 3)]\<rparr>
   in create_wg_link sim_wg ''wg0'' ''wg-a'' ''m'' d = (Ok (7, ''wg-a''), d\<lparr>d_world := w\<rparr>)
    \<and> d_world (snd (teardown_wireguard_entry P 0 (fresh_daemon [wg_entry 1000 ''wg:a'' sim_plan None ''wg0'' ''m''] w))) = w"
  unfolding Let_def
  by (rule fallback_link_escapes_recovery [where ?w1.0 = "quiet_sim\<lparr>sim_links := [(''wg0'', 3)]\<rparr>"]) (simp_all add: sim_wg_def fresh_daemon_def quiet_sim_def)
section \<open>Handshake supervision\<close>

text \<open>A sample is the handshake time, the bytes sent and the time of the sample; histories are latest first.
  The reference looks at the whole history: the span of samples since the last usable handshake or
  counter reset, and in it the first sample that saw more bytes than the span began with.\<close>

type_synonym handshake_sample = "nat option \<times> nat \<times> nat"

definition usable :: "nat option \<Rightarrow> nat \<Rightarrow> bool" where
  "usable latest now \<longleftrightarrow> (case latest of None \<Rightarrow> False | Some h \<Rightarrow> now - h \<le> WIREGUARD_REJECT_AFTER_SECS)"

fun quiet_span :: "handshake_sample list \<Rightarrow> handshake_sample list" where
  "quiet_span [] = []"
| "quiet_span ((h, tx, now) # older) =
     (if usable h now then []
      else (let span = quiet_span older in
            if span \<noteq> [] \<and> tx \<ge> fst (snd (last span)) then (h, tx, now) # span else [(h, tx, now)]))"

definition unanswered_since :: "handshake_sample list \<Rightarrow> nat option" where
  "unanswered_since history =
     (let span = quiet_span history in
      map_option (snd \<circ> snd) (List.find (\<lambda>s. fst (snd s) > fst (snd (last span))) (rev span)))"

fun watch_after :: "handshake_sample list \<Rightarrow> handshake_watch option" where
  "watch_after [] = None"
| "watch_after ((h, tx, now) # older) = snd (observe_handshake (watch_after older) h tx now)"

lemma find_snoc: "List.find q (xs @ [x]) = (case List.find q xs of None \<Rightarrow> (if q x then Some x else None) | Some y \<Rightarrow> Some y)"
  by (induction xs) auto

lemma unanswered_since_Cons:
  "unanswered_since ((h, tx, now) # older) =
     (if usable h now \<or> quiet_span older = [] \<or> tx < fst (snd (last (quiet_span older))) then None
      else case unanswered_since older of Some t \<Rightarrow> Some t
        | None \<Rightarrow> if tx > fst (snd (last (quiet_span older))) then Some now else None)"
  by (auto simp: unanswered_since_def Let_def find_snoc split: option.split)

lemma watch_after_span:
  "watch_after history = (if quiet_span history = [] then None
     else Some \<lparr> hw_baseline_tx = fst (snd (last (quiet_span history))), hw_sending_since = unanswered_since history \<rparr>)"
proof (induction history rule: watch_after.induct)
  case 1
  then show ?case by simp
next
  case (2 h tx now older)
  have ns: "quiet_span older = [] \<Longrightarrow> unanswered_since older = None" by (simp add: unanswered_since_def)
  show ?case
    unfolding watch_after.simps 2 observe_handshake_def usable_def [symmetric] unanswered_since_Cons
    by (auto simp: Let_def ns split: option.split)
qed

text \<open>C31: The incremental supervision of \<open>observe_handshake\<close> agrees with the reference on the whole history of samples: after any
  history, the next sample reports the tunnel failed exactly when no handshake is usable, the bytes sent
  have grown since the last usable handshake or counter reset, and the first sample that showed the
  growth is at least twenty seconds old; otherwise the tunnel counts as running.\<close>

theorem handshake_failure_is_unanswered_sending:
  "fst (observe_handshake (watch_after older) h tx now) =
     (case unanswered_since ((h, tx, now) # older) of
        None \<Rightarrow> Tunnel_Running | Some t \<Rightarrow> if 20 \<le> now - t then Tunnel_Failed else Tunnel_Running)"
  using watch_after_span [of older]
  unfolding observe_handshake_def usable_def [symmetric] unanswered_since_Cons
  by (auto simp: Let_def WIREGUARD_UNANSWERED_SECS_def unanswered_since_def split: option.split)
section \<open>Disconnecting\<close>

lemma je_key_wg_entry: "je_key (wg_entry uid owner plan full name marker) = (uid, owner)"
  by (simp add: wg_entry_def je_key_def)

lemma connect_ok_free:
  "connect_wireguard N P now uid profile_id plan d = (Ok st, d') \<Longrightarrow>
     wireguard_owner profile_id = Ok (''wg:'' @ profile_id) \<and> owner_position uid (''wg:'' @ profile_id) d = None"
  unfolding connect_wireguard_def by (auto simp: wireguard_owner_def split: result.splits if_splits option.splits)

lemma disconnect_last:
  assumes own: "wireguard_owner profile_id = Ok owner" and free: "owner_position uid owner d = None"
    and J: "d_journal d1 = d_journal d @ [e]" and key: "je_key e = (uid, owner)"
    and run: "disconnect_wireguard P uid profile_id d1 = (res, d2)"
  shows "(if is_ok res then d_journal d2 = d_journal d
    else d_journal d2 = d_journal d \<or> (\<exists>x. d_journal d2 = d_journal d @ [x] \<and> je_key x = (uid, owner)))"
proof -
  have pos: "owner_position uid owner d1 = Some (length (d_journal d))"
    using free J key by (simp add: owner_position_def position_append_None position_None_iff je_key_def)
  obtain r d3 where t: "teardown_entry P (length (d_journal d)) d1 = (r, d3)" by (rule prod.exhaust)
  obtain s d4 where v: "save_journal P d3 = (s, d4)" by (rule prod.exhaust)
  have "(case s of Err e \<Rightarrow> (Err e, d4) | Ok _ \<Rightarrow> (r, d4)) = (res, d2)"
    using run unfolding disconnect_wireguard_def own result.case pos option.case t v Let_def prod.case .
  then have out: "d2 = d4 \<and> (is_ok res \<longrightarrow> is_ok r)" by (cases s) auto
  have "entry_contract (length (d_journal d)) d1 (r, d3)" using any.contract [of "length (d_journal d)" d1 P] J t by simp
  then show ?thesis using out J key save_journal_frame(2) [OF v] by (cases r) (auto simp: entry_contract_def)
qed

text \<open>C32: Connecting and then disconnecting a WireGuard profile brings the journal back: after a successful connection a
  successful \<open>disconnect_wireguard\<close> leaves exactly the entries there were before; a failing one leaves them
  and at most one entry of this owner, which a later teardown still finds.\<close>

theorem connect_disconnect_roundtrip:
  "case connect_wireguard N P now uid profile_id plan d of
     (Ok _, d1) \<Rightarrow>
       (case disconnect_wireguard P uid profile_id d1 of
          (Ok _, d2) \<Rightarrow> d_journal d2 = d_journal d
        | (Err _, d2) \<Rightarrow> d_journal d2 = d_journal d
            \<or> (\<exists>x. d_journal d2 = d_journal d @ [x] \<and> je_key x = (uid, ''wg:'' @ profile_id)))
   | (Err _, d1) \<Rightarrow> d_journal d1 = d_journal d
       \<or> (\<exists>x. d_journal d1 = d_journal d @ [x] \<and> je_key x = (uid, ''wg:'' @ profile_id))"
proof -
  obtain res d1 where c: "connect_wireguard N P now uid profile_id plan d = (res, d1)" by (rule prod.exhaust)
  obtain res2 d2 where dis: "disconnect_wireguard P uid profile_id d1 = (res2, d2)" by (rule prod.exhaust)
  note out = unmonitored.connect_settles [OF c TrueI, THEN conjunct2]
  show ?thesis
  proof (cases res)
    case (Ok st)
    obtain e where J: "d_journal d1 = d_journal d @ [e]" and key: "je_key e = (uid, ''wg:'' @ profile_id)"
      using out Ok unfolding wg_outcome_def Let_def by (auto simp: je_key_wg_entry)
    note free = connect_ok_free [OF c [unfolded Ok]]
    show ?thesis using disconnect_last [OF free [THEN conjunct1] free [THEN conjunct2] J key dis]
      unfolding c Ok prod.case result.case dis by (cases res2) simp_all
  next
    case (Err er)
    then show ?thesis using out c by (simp add: wg_outcome_def Let_def)
  qed
qed

end
