(* ===== verification/Ovpn_Safety.thy ===== *)
theory Ovpn_Safety
  imports Ovpn_Connect Wg_Safety
begin

text \<open>
  What OpenVPN connections do to the journal and to the host.  The locale \<open>tunnel_monitor\<close> extends \<open>wal_monitor\<close> by the
  managed processes; steps on one entry of the journal are followed with \<open>at_slot\<close>, which says what the other entries and the
  resources of this one are.
\<close>

section \<open>Steps on one entry\<close>

definition at_slot :: "('k \<Rightarrow> bool) \<Rightarrow> journal \<Rightarrow> nat \<Rightarrow> owned_resource list \<Rightarrow> 'k daemon \<Rightarrow> bool" where
  "at_slot good J i rs d \<longleftrightarrow> good (d_world d) \<and> i < length J
     \<and> (\<exists>e. d_journal d = J[i := e] \<and> je_key e = je_key (J ! i) \<and> je_resources e = rs)"

definition in_slot :: "('k \<Rightarrow> bool) \<Rightarrow> journal \<Rightarrow> nat \<Rightarrow> 'k daemon \<Rightarrow> bool" where
  "in_slot good J i d \<longleftrightarrow> (\<exists>rs. at_slot good J i rs d)"

lemma at_slot_in: "at_slot good J i rs d \<Longrightarrow> in_slot good J i d"
  by (auto simp: in_slot_def)

lemma at_slot_set:
  assumes "at_slot good J i rs d" and "\<And>e. je_resources e = rs \<Longrightarrow> je_resources (f e) = qs \<and> je_key (f e) = je_key e"
  shows "at_slot good J i qs (set_entry i f d)"
proof -
  obtain e where "good (d_world d)" "i < length J" "d_journal d = J[i := e]" "je_key e = je_key (J ! i)" "je_resources e = rs"
    using assms(1) by (auto simp: at_slot_def)
  then show ?thesis using assms(2) [of e] by (auto simp: at_slot_def intro!: exI [of _ "f e"])
qed

lemma at_slot_add: "at_slot good J i rs d \<Longrightarrow> at_slot good J i (rs @ [r]) (add_resource i r d)"
  unfolding add_resource_def by (erule at_slot_set) (auto simp: je_key_def)

lemma at_slot_pop: "at_slot good J i rs d \<Longrightarrow> at_slot good J i (butlast rs) (pop_entry i d)"
  unfolding pop_entry_def by (erule at_slot_set) (auto simp: je_key_def)

lemma at_slot_world: "at_slot good J i rs d \<Longrightarrow> good w \<Longrightarrow> at_slot good J i rs (d\<lparr>d_world := w\<rparr>)"
  by (auto simp: at_slot_def)

lemma at_slot_resources: "at_slot good J i rs d \<Longrightarrow> set rs \<subseteq> resources (d_journal d)"
proof
  fix r
  assume a: "at_slot good J i rs d" and r: "r \<in> set rs"
  obtain e where "d_journal d = J[i := e]" "je_resources e = rs" "i < length J" using a by (auto simp: at_slot_def)
  then have "e \<in> set (d_journal d)" "r \<in> set (je_resources e)" using r set_update_memI by auto
  then show "r \<in> resources (d_journal d)" by (auto simp: resources_def)
qed

lemma at_slot_start:
  "good (d_world d) \<Longrightarrow> i < length (d_journal d) \<Longrightarrow> at_slot good (d_journal d) i (je_resources (d_journal d ! i)) d"
  by (auto simp: at_slot_def intro!: exI [of _ "d_journal d ! i"])

lemma take_events_frame:
  "take_events key evs d = (f, d') \<Longrightarrow> d_journal d' = d_journal d \<and> d_world d' = d_world d"
  by (induction evs arbitrary: d)
    (auto simp: Let_def split: management_event.splits if_splits)

lemma launch_context:
  assumes "\<not> (\<exists>e. launch_openvpn P root uid owner other plan d = (Err e, d))"
  obtains m run name where "validate_owner owner" "owner_position uid owner d = None" "owner_position uid other d = None"
    "allocate_openvpn_mark P d = Ok m" "pf_openvpn P = Some run" "vr_verify_binary run (d_world d) = Ok ()"
    "resolve_openvpn_name run uid plan (d_world d) = Ok name"
proof -
  have pre: "validate_owner owner" "owner_position uid owner d = None" "owner_position uid other d = None"
    using assms by (auto simp: launch_openvpn_def split: if_splits)
  obtain m where m: "allocate_openvpn_mark P d = Ok m"
    using assms pre by (cases "allocate_openvpn_mark P d") (simp_all add: launch_openvpn_def)
  obtain run where run: "pf_openvpn P = Some run" using assms pre m by (cases "pf_openvpn P") (simp_all add: launch_openvpn_def)
  have bin: "vr_verify_binary run (d_world d) = Ok ()"
    using assms pre m run by (cases "vr_verify_binary run (d_world d)") (simp_all add: launch_openvpn_def)
  obtain name where "resolve_openvpn_name run uid plan (d_world d) = Ok name"
    using assms pre m run bin by (cases "resolve_openvpn_name run uid plan (d_world d)") (simp_all add: launch_openvpn_def)
  then show ?thesis using that pre m run bin by blast
qed

definition dns_slot :: "openvpn_network \<Rightarrow> full_resource option \<Rightarrow> nat \<Rightarrow> string \<Rightarrow> bool \<Rightarrow> owned_resource list" where
  "dns_slot net full ix name applied =
     (if np_dns_servers net = [] then [] else [Dns ((ovpn_dns net full ix name)\<lparr>wd_applied := applied\<rparr>)])"

definition settled_slot :: "string \<Rightarrow> openvpn_network \<Rightarrow> full_resource option \<Rightarrow> owned_resource list \<Rightarrow> owned_resource list \<Rightarrow> bool" where
  "settled_slot name net full rs qs \<longleftrightarrow> up_to_date net full rs \<and> qs = rs
     \<or> np_routes net = [] \<and> np_dns_servers net = [] \<and> qs = clear_first_full (filter is_openvpn_process rs)
     \<or> (\<exists>ix a. qs = set_first_full full (clear_first_full (filter is_openvpn_process rs))
          @ map Route (map (desired_route net full ix) (np_routes net))
          @ map Rule (case full of None \<Rightarrow> [] | Some f \<Rightarrow> full_policy_rules f) @ dns_slot net full ix name a)"

locale tunnel_monitor = wal_monitor P good saved for P :: "'k platform" and good saved +
  assumes poll: "good w \<Longrightarrow> pf_openvpn P = Some run \<Longrightarrow> good (snd (vr_poll run n w))"
    and start_openvpn: "good w \<Longrightarrow> saved J w \<Longrightarrow> OpenVpnProcess p \<in> resources J \<Longrightarrow> op_transport_mark p = Some m \<Longrightarrow>
      pf_openvpn P = Some run \<Longrightarrow> good (snd (vr_start run u (op_name p) c k m w))"
    and stop_openvpn: "good w \<Longrightarrow> pf_openvpn P = Some run \<Longrightarrow> good (snd (pr_stop run n w))"
    and cleanup_openvpn: "good w \<Longrightarrow> pf_openvpn P = Some run \<Longrightarrow> good (snd (pr_cleanup run u n w))"
begin

lemma save_slot:
  assumes "at_slot good J i rs d" and "save_journal P d = (r, d')"
  shows "at_slot good J i rs d' \<and> (is_ok r \<longrightarrow> saved (d_journal d') (d_world d'))"
proof -
  obtain r0 w0 where p: "pf_save P (d_journal d) (d_world d) = (r0, w0)" by (rule prod.exhaust)
  have "r = r0" "d' = d\<lparr>d_world := w0\<rparr>" using assms(2) p by (simp_all add: save_journal_def)
  moreover have "good w0 \<and> (is_ok r0 \<longrightarrow> saved (d_journal d) w0)" using save [OF _ p] assms(1) by (simp add: at_slot_def)
  ultimately show ?thesis using at_slot_world [OF assms(1)] by simp
qed

lemma save_runs_slot:
  "runs (at_slot good J i rs) (save_journal P) (\<lambda>_. at_slot good J i rs) (in_slot good J i)"
proof (rule runsI)
  fix d r d'
  assume a: "at_slot good J i rs d" and s: "save_journal P d = (r, d')"
  note b = conjunct1 [OF save_slot [OF a s]]
  show "case r of Ok x \<Rightarrow> at_slot good J i rs d' | Err _ \<Rightarrow> in_slot good J i d'"
    using b at_slot_in [OF b] by (cases r) simp_all
qed

lemma claim_runs:
  assumes f: "\<And>w J'. good w \<Longrightarrow> saved J' w \<Longrightarrow> r \<in> resources J' \<Longrightarrow> good (snd (f w))"
  shows "runs (at_slot good J i rs) (claim P i r u f) (\<lambda>_. at_slot good J i (rs @ [r])) (in_slot good J i)"
proof (rule runsI)
  fix d res d'
  assume a: "at_slot good J i rs d" and c: "claim P i r u f d = (res, d')"
  obtain s d1 where s: "save_journal P (add_resource i r d) = (s, d1)" by (rule prod.exhaust)
  note sv = save_slot [OF at_slot_add [OF a] s]
  show "case res of Ok x \<Rightarrow> at_slot good J i (rs @ [r]) d' | Err _ \<Rightarrow> in_slot good J i d'"
  proof (cases s)
    case (Err e)
    then have "res = Err (u e)" "d' = pop_entry i d1" using c s by (simp_all add: claim_def)
    then show ?thesis using at_slot_in [OF at_slot_pop [OF conjunct1 [OF sv]]] by simp
  next
    case (Ok v)
    obtain r2 w2 where k: "f (d_world d1) = (r2, w2)" by (rule prod.exhaust)
    have sub: "r \<in> resources (d_journal d1)" using at_slot_resources [OF conjunct1 [OF sv]] by simp
    have "good w2" using f [OF _ _ sub, of "d_world d1"] sv Ok k by (simp add: at_slot_def)
    then have at: "at_slot good J i (rs @ [r]) (d1\<lparr>d_world := w2\<rparr>)" by (rule at_slot_world [OF conjunct1 [OF sv]])
    have "(case r2 of Ok _ \<Rightarrow> (Ok (), d1\<lparr>d_world := w2\<rparr>)
        | Err e \<Rightarrow> (Err InvalidInput, if e = AlreadyExists then pop_entry i (d1\<lparr>d_world := w2\<rparr>) else d1\<lparr>d_world := w2\<rparr>))
        = (res, d')"
      using c s Ok k by (cases r2) (auto simp: claim_def on_world_def)
    then show ?thesis using at at_slot_in [OF at] at_slot_in [OF at_slot_pop [OF at]] by (cases r2) auto
  qed
qed

lemma each_claim_runs:
  assumes f: "\<And>x w J'. good w \<Longrightarrow> saved J' w \<Longrightarrow> res x \<in> resources J' \<Longrightarrow> good (snd (f x w))"
  shows "runs (at_slot good J i rs) (for_each (\<lambda>x. claim P i (res x) u (f x)) xs) (\<lambda>_. at_slot good J i (rs @ map res xs))
    (in_slot good J i)"
proof (induction xs arbitrary: rs)
  case Nil
  then show ?case by (simp add: runs_def skip_def)
next
  case (Cons x xs)
  have "runs (at_slot good J i rs) (then_do (claim P i (res x) u (f x)) (\<lambda>_. for_each (\<lambda>x. claim P i (res x) u (f x)) xs))
      (\<lambda>_. at_slot good J i (rs @ map res (x # xs))) (in_slot good J i)"
    using Cons.IH [of "rs @ [res x]"] by (intro runs_then_do [OF claim_runs [OF f]]) simp_all
  then show ?case by (simp add: runs_def)
qed

lemma route_claims:
  "runs (at_slot good J i rs) (for_each (\<lambda>r. claim P i (Route r) u (rx_add (pf_routes P) r)) xs)
     (\<lambda>_. at_slot good J i (rs @ map Route xs)) (in_slot good J i)"
  using each_claim_runs [of Route "rx_add (pf_routes P)"] add_route by blast

lemma rule_claims:
  "runs (at_slot good J i rs) (for_each (\<lambda>r. claim P i (Rule r) u (with_policy P (\<lambda>px. px_add_rule px r))) xs)
     (\<lambda>_. at_slot good J i (rs @ map Rule xs)) (in_slot good J i)"
proof -
  have *: "good (snd (with_policy P (\<lambda>px. px_add_rule px x) w))"
    if "good w" "saved J' w" "Rule x \<in> resources J'" for x w J'
    using add_rule [OF that] that(1) by (auto simp: with_policy_def split: option.splits)
  show ?thesis by (rule each_claim_runs) (erule (2) *)
qed

lemma persist_slot: "at_slot good J i rs d \<Longrightarrow> at_slot good J i rs (persist P d)"
  using save_slot [of J i rs d] by (cases "save_journal P d") (auto simp: persist_def)

lemma dns_steps_runs:
  "runs (at_slot good J i rs) (ovpn_dns_steps P i ix name net full)
     (\<lambda>_ d. \<exists>a. at_slot good J i (rs @ dns_slot net full ix name a) d) (in_slot good J i)"
proof (rule runsI)
  fix d res d'
  let ?x = "ovpn_dns net full ix name"
  assume a: "at_slot good J i rs d" and c: "ovpn_dns_steps P i ix name net full d = (res, d')"
  let ?goal = "case res of Ok x \<Rightarrow> \<exists>a. at_slot good J i (rs @ dns_slot net full ix name a) d' | Err _ \<Rightarrow> in_slot good J i d'"
  show ?goal
  proof (cases "np_dns_servers net = []")
    case True
    then have "res = Ok ()" "d' = d" using c by (simp_all add: ovpn_dns_steps_def)
    then show ?thesis using a True by (simp add: dns_slot_def)
  next
    case False
    obtain s d1 where s: "save_journal P (add_resource i (Dns ?x) d) = (s, d1)" by (rule prod.exhaust)
    note sv = save_slot [OF at_slot_add [OF a] s]
    note at1 = conjunct1 [OF sv]
    show ?thesis
    proof (cases s)
      case (Err e)
      then have "res = Err InvalidInput" "d' = pop_entry i d1" using c s False by (simp_all add: ovpn_dns_steps_def)
      then show ?thesis using at_slot_in [OF at_slot_pop [OF at1]] by simp
    next
      case (Ok v)
      show ?thesis
      proof (cases "pf_dns P")
        case None
        then have "res = Err InvalidInput" "d' = d1" using c s False Ok by (simp_all add: ovpn_dns_steps_def)
        then show ?thesis using at_slot_in [OF at1] by simp
      next
        case (Some dx)
        obtain out w where k: "dx_apply dx name (np_dns_servers net) (np_dns_domains net) (full \<noteq> None) (d_world d1) = (out, w)"
          by (rule prod.exhaust)
        have sub: "Dns ?x \<in> resources (d_journal d1)" using at_slot_resources [OF at1] by simp
        have "good w" using apply_dns [OF _ _ sub Some, of "d_world d1"] sv Ok k by (simp add: at_slot_def ovpn_dns_def)
        note at2 = at_slot_world [OF at1 this]
        have run: "(case out of Ok DnsApplied \<Rightarrow> (Ok (), persist P (set_entry i mark_dns_applied (d1\<lparr>d_world := w\<rparr>)))
            | Ok _ \<Rightarrow> (Ok (), d1\<lparr>d_world := w\<rparr>) | Err _ \<Rightarrow> (Err InvalidInput, d1\<lparr>d_world := w\<rparr>)) = (res, d')"
          using c s False Ok Some k by (simp add: ovpn_dns_steps_def Let_def)
        have marked: "at_slot good J i (rs @ dns_slot net full ix name True) (persist P (set_entry i mark_dns_applied (d1\<lparr>d_world := w\<rparr>)))"
          by (rule persist_slot, rule at_slot_set [OF at2])
            (use False in \<open>auto simp: mark_dns_applied_def dns_slot_def je_key_def\<close>)
        have plain: "at_slot good J i (rs @ dns_slot net full ix name False) (d1\<lparr>d_world := w\<rparr>)"
          using at2 False by (simp add: dns_slot_def ovpn_dns_def)
        show ?thesis using run marked plain at_slot_in [OF at2]
          by (auto split: result.splits dns_apply.splits)
      qed
    qed
  qed
qed

lemma in_slot_good: "in_slot good J i d \<Longrightarrow> good (d_world d) \<and> i < length (d_journal d) \<and> map je_key (d_journal d) = map je_key J"
  by (auto simp: in_slot_def at_slot_def)

lemma openvpn_step_keeps: "good w \<Longrightarrow> good (snd (openvpn_step P up r w))"
  using remove_route [of w] remove_rule [of w] revert_dns [of w]
  by (auto simp: openvpn_step_def split: owned_resource.splits option.splits prod.splits result.splits dns_error.splits) (metis snd_conv)+

lemma clear_loop_keeps: "good w \<Longrightarrow> good (snd (clear_loop P up rs w))"
proof (induction rs arbitrary: w)
  case (Cons r rs)
  obtain out w' where s: "openvpn_step P up r w = (out, w')" by (rule prod.exhaust)
  have "good w'" using openvpn_step_keeps [OF Cons.prems, of up r] s by simp
  then show ?case using Cons.IH s by (cases out) simp_all
qed simp

lemma clear_runs:
  "runs (at_slot good J i rs) (clear_openvpn_network P i)
     (\<lambda>_. at_slot good J i (clear_first_full (filter is_openvpn_process rs))) (in_slot good J i)"
proof (rule runsI)
  fix d res d'
  assume a: "at_slot good J i rs d" and c: "clear_openvpn_network P i d = (res, d')"
  have rs: "je_resources (d_journal d ! i) = rs" using a by (auto simp: at_slot_def)
  show "case res of Ok x \<Rightarrow> at_slot good J i (clear_first_full (filter is_openvpn_process rs)) d' | Err _ \<Rightarrow> in_slot good J i d'"
  proof (cases "d' = d \<and> \<not> is_ok res")
    case True
    then show ?thesis using at_slot_in [OF a] by (cases res) simp_all
  next
    case False
    obtain proc run link where ctx: "find_openvpn rs = Some proc" "pf_openvpn P = Some run"
      "pr_link_index run (op_name proc) (d_world d) = Ok link"
      using c False unfolding clear_openvpn_network_def rs Let_def by (auto split: option.splits result.splits)
    obtain out w where k: "clear_loop P (link \<noteq> None) (rev rs) (d_world d) = (out, w)" by (rule prod.exhaust)
    have "good w" using clear_loop_keeps [of "d_world d" "link \<noteq> None" "rev rs"] a k by (simp add: at_slot_def)
    note at = at_slot_world [OF a this]
    have run': "(case out of Abort e \<Rightarrow> (Err e, d\<lparr>d_world := w\<rparr>)
        | Kept \<Rightarrow> (Err Other, persist P (set_entry i (mark_state Stale) (d\<lparr>d_world := w\<rparr>)))
        | Removed \<Rightarrow> save_journal P (set_entry i openvpn_cleared (d\<lparr>d_world := w\<rparr>))) = (res, d')"
      using c ctx k unfolding clear_openvpn_network_def rs Let_def by simp
    have stale: "at_slot good J i rs (persist P (set_entry i (mark_state Stale) (d\<lparr>d_world := w\<rparr>)))"
      by (rule persist_slot, rule at_slot_set [OF at]) (auto simp: mark_state_def je_key_def)
    have cleared: "at_slot good J i (clear_first_full (filter is_openvpn_process rs)) (set_entry i openvpn_cleared (d\<lparr>d_world := w\<rparr>))"
      by (rule at_slot_set [OF at]) (auto simp: openvpn_cleared_def je_key_def)
    show ?thesis
    proof (cases out)
      case Removed
      then show ?thesis using run' runsD [OF save_runs_slot cleared] by simp
    next
      case Kept
      then show ?thesis using run' at_slot_in [OF stale] by auto
    next
      case (Abort e)
      then show ?thesis using run' at_slot_in [OF at] by auto
    qed
  qed
qed

lemma apply_network_runs:
  "runs (at_slot good J i rs) (apply_network P i ix name net full)
     (\<lambda>_ d. \<exists>a. at_slot good J i (set_first_full full rs @ map Route (map (desired_route net full ix) (np_routes net))
        @ map Rule (case full of None \<Rightarrow> [] | Some f \<Rightarrow> full_policy_rules f) @ dns_slot net full ix name a) d) (in_slot good J i)"
proof -
  let ?rs = "set_first_full full rs"
  let ?save = "\<lambda>d. (case save_journal P d of (Ok u, d) \<Rightarrow> (Ok u, d) | (Err _, d) \<Rightarrow> (Err InvalidInput, d))"
  have ed: "runs (at_slot good J i rs) (edit (set_entry i (\<lambda>e. e\<lparr>je_resources := set_first_full full (je_resources e)\<rparr>)))
      (\<lambda>_. at_slot good J i ?rs) (in_slot good J i)"
    by (rule runs_edit, erule at_slot_set) (auto simp: je_key_def)
  have sv: "runs (at_slot good J i ?rs) ?save (\<lambda>_. at_slot good J i ?rs) (in_slot good J i)"
    using save_runs_slot [of J i ?rs] unfolding runs_def by (fastforce split: prod.splits result.splits)
  show ?thesis unfolding apply_network_def
    by (rule runs_then_do [OF ed] runs_then_do [OF sv] runs_then_do [OF route_claims] runs_then_do [OF rule_claims])+
      (use dns_steps_runs [of J i "(?rs @ map Route (map (desired_route net full ix) (np_routes net)))
          @ map Rule (case full of None \<Rightarrow> [] | Some f \<Rightarrow> full_policy_rules f)" ix name net full] in simp)
qed

lemma converge_step:
  assumes a: "at_slot good J i rs d" and c: "converge_network P run i name net d = (res, d')"
  shows "case res of
      Ok _ \<Rightarrow> (\<exists>full qs. openvpn_full_plan P i (np_full_ipv4 net) (np_full_ipv6 net) d = Ok full
        \<and> \<not> (np_dns_servers net \<noteq> [] \<and> pf_dns P = None) \<and> at_slot good J i qs d' \<and> settled_slot name net full rs qs)
    | Err _ \<Rightarrow> in_slot good J i d'"
proof -
  have rs: "je_resources (d_journal d ! i) = rs" using a by (auto simp: at_slot_def)
  show ?thesis
  proof (cases "d' = d \<and> \<not> is_ok res")
    case True
    then show ?thesis using at_slot_in [OF a] by (cases res) simp_all
  next
    case False
    then obtain full where full: "openvpn_full_plan P i (np_full_ipv4 net) (np_full_ipv6 net) d = Ok full"
      and dns: "\<not> (np_dns_servers net \<noteq> [] \<and> pf_dns P = None)"
      using c unfolding converge_network_def by (auto split: result.splits if_splits)
    show ?thesis
    proof (cases "up_to_date net full rs")
      case True
      then have "res = Ok ()" "d' = d" using c full dns rs by (simp_all add: converge_network_def)
      then show ?thesis using full dns a True by (auto simp: settled_slot_def)
    next
      case stale: False
      obtain r1 d1 where cl: "clear_openvpn_network P i d = (r1, d1)" by (rule prod.exhaust)
      note at1 = runsD [OF clear_runs a cl]
      show ?thesis
      proof (cases r1)
        case (Err e)
        then have "res = Err InvalidInput" "d' = d1" using c full dns rs stale cl by (simp_all add: converge_network_def)
        then show ?thesis using at1 Err by simp
      next
        case (Ok u)
        note at = at1 [unfolded Ok result.case]
        have rest: "(if np_routes net = [] \<and> np_dns_servers net = [] then (Ok (), d1)
              else (case pr_link_index run name (d_world d1) of
                      Ok (Some ix) \<Rightarrow> apply_network P i ix name net full d1
                    | _ \<Rightarrow> (Err InvalidInput, d1))) = (res, d')"
          using c full dns rs stale cl Ok by (simp add: converge_network_def)
        show ?thesis
        proof (cases "np_routes net = [] \<and> np_dns_servers net = []")
          case True
          then have "res = Ok ()" "d' = d1" using rest by simp_all
          then show ?thesis using full dns at True by (auto simp: settled_slot_def)
        next
          case False
          show ?thesis
          proof (cases "\<exists>ix. pr_link_index run name (d_world d1) = Ok (Some ix)")
            case True
            then obtain ix where "pr_link_index run name (d_world d1) = Ok (Some ix)" by blast
            then have "apply_network P i ix name net full d1 = (res, d')" using rest False by simp
            from runsD [OF apply_network_runs at this] show ?thesis
              using full dns by (cases res) (auto simp: settled_slot_def)
          next
            case none: False
            then have "res = Err InvalidInput" "d' = d1" using rest False by (auto split: result.splits option.splits)
            then show ?thesis using at_slot_in [OF at] by simp
          qed
        qed
      qed
    qed
  qed
qed

lemma converge_slot:
  assumes a: "at_slot good J i rs d" and c: "converge_network P run i name net d = (res, d')"
  shows "in_slot good J i d'"
  using converge_step [OF a c] by (cases res) (auto intro: at_slot_in)

lemma teardown_openvpn_keeps:
  assumes g: "good (d_world d)" and i: "i < length (d_journal d)"
  shows "good (d_world (snd (teardown_openvpn_entry P i d)))"
proof (cases "find_openvpn (je_resources (d_journal d ! i))")
  case None
  then show ?thesis using g by (simp add: teardown_openvpn_entry_def Let_def)
next
  case (Some proc)
  show ?thesis
  proof (cases "pf_openvpn P")
    case None
    then show ?thesis using g Some by (simp add: teardown_openvpn_entry_def Let_def)
  next
    case run: (Some run)
    obtain st w where s: "pr_stop run (op_name proc) (d_world d) = (st, w)" by (rule prod.exhaust)
    have gw: "good w" using stop_openvpn [OF g run, of "op_name proc"] s by simp
    let ?d = "d\<lparr>d_world := w\<rparr>"
    obtain cl d1 where c: "clear_openvpn_network P i ?d = (cl, d1)" by (rule prod.exhaust)
    have "at_slot good (d_journal ?d) i (je_resources (d_journal ?d ! i)) ?d" using gw i by (intro at_slot_start) simp_all
    from runsD [OF clear_runs this c] have g1: "good (d_world d1)"
      by (cases cl) (auto simp: at_slot_def in_slot_def)
    obtain cn w2 where k: "pr_cleanup run (je_uid (d_journal d ! i)) (op_name proc) (d_world d1) = (cn, w2)" by (rule prod.exhaust)
    have g2: "good w2" using cleanup_openvpn [OF g1 run, of "je_uid (d_journal d ! i)" "op_name proc"] k by simp
    show ?thesis using Some run s c k gw g1 g2
      by (simp add: teardown_openvpn_entry_def Let_def split: result.split option.split)
  qed
qed

lemma fail_keeps:
  assumes "good (d_world d)"
  shows "good (d_world (snd (fail_openvpn P uid owner d)))"
proof -
  define d1 where "d1 = (case map_option (sn_last_failure \<circ> ort_snapshot) (d_openvpn_runtime d (uid, owner)) of
                 Some (Some reason) \<Rightarrow> if d_openvpn_failures d (uid, owner) = None
                   then d\<lparr>d_openvpn_failures := (d_openvpn_failures d)((uid, owner) \<mapsto> reason)\<rparr> else d
               | _ \<Rightarrow> d)"
  have g: "good (d_world d1)" using assms by (simp add: d1_def split: option.split)
  have "good (d_world (case owner_position uid owner d1 of None \<Rightarrow> d1 | Some i \<Rightarrow> persist P (snd (teardown_openvpn_entry P i d1))))"
    using g teardown_openvpn_keeps [OF g] persist_keeps by (auto split: option.split dest!: owner_position_SomeD)
  then show ?thesis unfolding fail_openvpn_def Let_def d1_def [symmetric] by simp
qed

lemma pass_keeps:
  assumes g: "good (d_world d)" and run: "pf_openvpn P = Some run"
  shows "good (d_world (snd (reconcile_openvpn_owner P run uid owner d)))"
proof (cases "owner_position uid owner d")
  case None
  then show ?thesis using g by (simp add: reconcile_openvpn_owner_def)
next
  case (Some i)
  note i = conjunct1 [OF owner_position_SomeD [OF Some]]
  show ?thesis
  proof (cases "find_openvpn (je_resources (d_journal d ! i))")
    case None
    then show ?thesis using g Some by (simp add: reconcile_openvpn_owner_def)
  next
    case proc: (Some proc)
    obtain r w where p: "vr_poll run (op_name proc) (d_world d) = (r, w)" by (rule prod.exhaust)
    have gw: "good w" using poll [OF g run, of "op_name proc"] p by simp
    let ?d = "d\<lparr>d_world := w\<rparr>"
    show ?thesis
    proof (cases r)
      case (Err e)
      then show ?thesis using Some proc p fail_keeps [of ?d] gw by (simp add: reconcile_openvpn_owner_def on_world_def)
    next
      case (Ok events)
      obtain f d1 where t: "take_events (uid, owner) events ?d = (f, d1)" by (rule prod.exhaust)
      note fr = take_events_frame [OF t]
      have g1: "good (d_world d1)" and i1: "i < length (d_journal d1)" using fr gw i by simp_all
      note start = at_slot_start [where good = good, OF g1 i1]
      show ?thesis
      proof (cases "\<exists>rt net. \<not> f \<and> d_openvpn_runtime d1 (uid, owner) = Some rt \<and> wanted_network rt = Ok (Some net)")
        case True
        then obtain rt net where w: "\<not> f" "d_openvpn_runtime d1 (uid, owner) = Some rt" "wanted_network rt = Ok (Some net)" by blast
        obtain res d2 where c: "converge_network P run i (op_name proc) net d1 = (res, d2)" by (rule prod.exhaust)
        have "good (d_world d2)" using in_slot_good [OF converge_slot [OF start c]] by simp
        then show ?thesis using Some proc p Ok t w c fail_keeps [of d2]
          by (cases res) (simp_all add: reconcile_openvpn_owner_def on_world_def failing_openvpn_def)
      next
        case False
        then show ?thesis using Some proc p Ok t fail_keeps [OF g1] g1
          by (auto simp: reconcile_openvpn_owner_def on_world_def split: bool.split option.split result.split)
      qed
    qed
  qed
qed

lemma owners_keep:
  "pf_openvpn P = Some run \<Longrightarrow> good (d_world d) \<Longrightarrow> good (d_world (snd (reconcile_owners P run ks first d)))"
proof (induction ks arbitrary: first d)
  case Nil
  then show ?case by (simp split: option.split)
next
  case (Cons k ks)
  obtain uid owner where k: "k = (uid, owner)" by (rule prod.exhaust)
  obtain r d1 where p: "reconcile_openvpn_owner P run uid owner d = (r, d1)" by (rule prod.exhaust)
  have "good (d_world d1)" using pass_keeps [OF Cons.prems(2,1), of uid owner] p by simp
  then show ?case using Cons.IH [OF Cons.prems(1)] k p by (cases r) simp_all
qed

lemma launch_keeps:
  assumes g: "good (d_world d)"
  shows "good (d_world (snd (launch_openvpn P root uid owner other plan d)))"
proof (cases "snd (launch_openvpn P root uid owner other plan d) = d")
  case True
  then show ?thesis using g by simp
next
  case False
  then have "\<not> (\<exists>e. launch_openvpn P root uid owner other plan d = (Err e, d))" by auto
  then obtain m run name where ctx: "validate_owner owner" "owner_position uid owner d = None" "owner_position uid other d = None"
    "allocate_openvpn_mark P d = Ok m" "pf_openvpn P = Some run" "vr_verify_binary run (d_world d) = Ok ()"
    "resolve_openvpn_name run uid plan (d_world d) = Ok name" by (rule launch_context)
  let ?e = "ovpn_entry uid owner name m" and ?J = "d_journal d"
  obtain s d1 where s: "save_journal P (d\<lparr>d_journal := ?J @ [?e]\<rparr>) = (s, d1)" by (rule prod.exhaust)
  have "at_slot good (?J @ [?e]) (length ?J) (je_resources ?e) (d\<lparr>d_journal := ?J @ [?e]\<rparr>)"
    using at_slot_start [where good = good, of "d\<lparr>d_journal := ?J @ [?e]\<rparr>" "length ?J"] g by simp
  note sv = save_slot [OF this s]
  have J1: "d_journal d1 = ?J @ [?e]" using save_journal_frame(2) [OF s] by simp
  have g1: "good (d_world d1)" using sv by (simp add: at_slot_def)
  show ?thesis
  proof (cases s)
    case (Err e)
    then show ?thesis using ctx s g1 by (simp add: launch_openvpn_def Let_def)
  next
    case (Ok u)
    obtain st d2 where st: "(case sanitized_config plan (stage_dir root uid name) of Err e \<Rightarrow> (Err e, d1)
        | Ok config \<Rightarrow> on_world (vr_start run uid name config (vp_credentials plan) m) d1) = (st, d2)" by (rule prod.exhaust)
    let ?p = "\<lparr> op_name = name, op_owner_marker = wg_marker uid owner, op_transport_mark = Some m, op_full = None \<rparr>"
    have res: "OpenVpnProcess ?p \<in> resources (d_journal d1)" by (simp add: J1 ovpn_entry_def)
    have "good (snd (vr_start run uid (op_name ?p) c k m (d_world d1)))" for c k
      by (rule start_openvpn [OF g1 _ res _ ctx(5)]) (use sv Ok in simp_all)
    then have g2: "good (d_world d2) \<and> d_journal d2 = d_journal d1"
      using st g1 by (auto simp: on_world_def split: result.splits prod.splits) (metis snd_conv)
    have "snd (launch_openvpn P root uid owner other plan d) =
        (if is_ok st then persist P (set_entry (length ?J) (mark_state Applied) d2)
         else persist P (snd (teardown_openvpn_entry P (length ?J) d2)))"
      using ctx s Ok st by (cases st) (simp_all add: launch_openvpn_def Let_def)
    moreover have "good (d_world (snd (teardown_openvpn_entry P (length ?J) d2)))"
      using g2 J1 by (intro teardown_openvpn_keeps) simp_all
    ultimately show ?thesis using g2 persist_keeps by simp
  qed
qed

end

interpretation monitored_tunnel: tunnel_monitor "watched P" wt_ok "\<lambda>J s. wt_disk s = J" for P :: "'k platform"
proof (unfold_locales, goal_cases)
  case (2 w J p m run u c k)
  then show ?case by (auto simp: watched_def watched_openvpn_def is_openvpn_of_def intro!: checked_ok [THEN conjunct1])
qed (auto simp: watched_def watched_openvpn_def quietly_ok)

interpretation any_tunnel: tunnel_monitor P "\<lambda>_. True" "\<lambda>_ _. True" for P :: "'k platform"
  by unfold_locales simp_all

section \<open>Write-ahead\<close>

text \<open>C5: OpenVPN connections keep the write-ahead rule.  Connecting a profile, starting a probe and every later pass of
  \<open>reconcile_openvpn\<close> (whatever the server pushed, whatever the executors answer, failures included) start a
  process, add a route or a policy rule, or set DNS only when the journal on disk already lists
  that process with its mark, that route, that rule or that DNS setting.\<close>

theorem openvpn_write_ahead:
  "let start = d\<lparr>d_world := \<lparr> wt_world = w, wt_disk = J, wt_ok = True, wt_taken = [] \<rparr>\<rparr>
   in wt_ok (d_world (snd (connect_openvpn (watched P) root uid plan start)))
    \<and> wt_ok (d_world (snd (start_openvpn_probe (watched P) root uid plan start)))
    \<and> wt_ok (d_world (snd (reconcile_openvpn (watched P) keys start)))"
proof -
  define d0 where "d0 = d\<lparr>d_world := \<lparr> wt_world = w, wt_disk = J, wt_ok = True, wt_taken = [] \<rparr>\<rparr>"
  have ok: "wt_ok (d_world d0)" by (simp add: d0_def)
  note launch = monitored_tunnel.launch_keeps [OF ok]
  obtain r d1 where l: "launch_openvpn (watched P) root uid (ovpn_owner (vp_profile_id plan)) (probe_owner (vp_profile_id plan)) plan d0 = (r, d1)"
    by (rule prod.exhaust)
  have "wt_ok (d_world d1)" using launch [of P root uid "ovpn_owner (vp_profile_id plan)" "probe_owner (vp_profile_id plan)" plan] l by simp
  then have "wt_ok (d_world (snd (connect_openvpn (watched P) root uid plan d0)))"
    using l by (cases r) (simp_all add: connect_openvpn_def forget_failure_def Let_def)
  moreover have "wt_ok (d_world (snd (reconcile_openvpn (watched P) keys d0)))"
    using ok monitored_tunnel.owners_keep [of P] by (simp add: reconcile_openvpn_def split: option.split)
  ultimately show ?thesis using launch unfolding d0_def [symmetric] Let_def by (simp add: start_openvpn_probe_def)
qed

section \<open>Convergence\<close>

lemma find_dns_append: "find_dns (xs @ ys) = (case find_dns xs of None \<Rightarrow> find_dns ys | Some x \<Rightarrow> Some x)"
  by (induction xs rule: find_dns.induct) simp_all

lemma entry_parts:
  "entry_routes (map Route rs) = rs" "entry_routes (map Rule qs) = []" "entry_routes (dns_slot net full ix name a) = []"
  "find_dns (map Route rs) = None" "find_dns (map Rule qs) = None"
  "find_dns (dns_slot net full ix name a) = (if np_dns_servers net = [] then None else Some ((ovpn_dns net full ix name)\<lparr>wd_applied := a\<rparr>))"
proof -
  show "entry_routes (map Route rs) = rs" "find_dns (map Route rs) = None" by (induction rs) simp_all
  show "entry_routes (map Rule qs) = []" "find_dns (map Rule qs) = None" by (induction qs) simp_all
qed (simp_all add: dns_slot_def)

lemma find_full_parts:
  "find_map (\<lambda>r. case r of OpenVpnProcess p \<Rightarrow> op_full p | _ \<Rightarrow> None) (map Route rs @ map Rule qs @ dns_slot net full ix name a) = None"
proof -
  have "find_map g (xs @ ys) = (case find_map g xs of None \<Rightarrow> find_map g ys | Some y \<Rightarrow> Some y)" for g :: "owned_resource \<Rightarrow> full_resource option" and xs ys
    by (induction xs) (simp_all split: option.split)
  moreover have "find_map (\<lambda>r. case r of OpenVpnProcess p \<Rightarrow> op_full p | _ \<Rightarrow> None) (map Route rs) = None" by (induction rs) simp_all
  moreover have "find_map (\<lambda>r. case r of OpenVpnProcess p \<Rightarrow> op_full p | _ \<Rightarrow> None) (map Rule qs) = None" by (induction qs) simp_all
  ultimately show ?thesis by (simp add: dns_slot_def)
qed

text \<open>An entry of an OpenVPN connection: its process first, and no second one.\<close>

definition ovpn_shape :: "owned_resource list \<Rightarrow> bool" where
  "ovpn_shape rs \<longleftrightarrow> (\<exists>p qs. rs = OpenVpnProcess p # qs \<and> filter is_openvpn_process qs = [])"

lemma applied_up_to_date:
  assumes "op_full p = full"
  shows "up_to_date net full (OpenVpnProcess p # map Route (map (desired_route net full ix) (np_routes net)) @ map Rule qs @ dns_slot net full ix name a)"
proof -
  define rts where "rts = map (desired_route net full ix) (np_routes net)"
  have v: "map route_view rts = map (route_view \<circ> desired_route net full 0) (np_routes net)"
    by (simp add: rts_def route_view_def desired_route_def)
  have f: "find_map (\<lambda>r. case r of OpenVpnProcess p \<Rightarrow> op_full p | _ \<Rightarrow> None)
      (OpenVpnProcess p # map Route rts @ map Rule qs @ dns_slot net full ix name a) = full"
    using assms find_full_parts [of rts qs net full ix name a] by (cases full) simp_all
  show ?thesis unfolding rts_def [symmetric] up_to_date_def f
    by (simp add: entry_routes_append find_dns_append entry_parts ovpn_dns_def v)
qed

lemma settled_shape:
  assumes s: "settled_slot name net full rs qs" and rs: "ovpn_shape rs"
    and full: "np_routes net = [] \<and> np_dns_servers net = [] \<Longrightarrow> full = None"
  shows "up_to_date net full qs \<and> ovpn_shape qs \<and> map_option op_transport_mark (find_openvpn qs) = map_option op_transport_mark (find_openvpn rs)"
proof -
  obtain p xs where rs: "rs = OpenVpnProcess p # xs" and xs: "filter is_openvpn_process xs = []" using rs by (auto simp: ovpn_shape_def)
  have cl: "clear_first_full (filter is_openvpn_process rs) = [OpenVpnProcess (p\<lparr>op_full := None\<rparr>)]"
    using xs by (simp add: rs is_openvpn_process_def)
  have no: "filter is_openvpn_process (map Route as @ map Rule bs @ dns_slot net full ix name a) = []" for as bs ix a
    by (auto simp: is_openvpn_process_def dns_slot_def filter_empty_conv)
  consider (same) "up_to_date net full rs" "qs = rs"
    | (clear) "np_routes net = []" "np_dns_servers net = []" "qs = [OpenVpnProcess (p\<lparr>op_full := None\<rparr>)]"
    | (new) ix a where "qs = OpenVpnProcess (p\<lparr>op_full := full\<rparr>) # map Route (map (desired_route net full ix) (np_routes net))
        @ map Rule (case full of None \<Rightarrow> [] | Some f \<Rightarrow> full_policy_rules f) @ dns_slot net full ix name a"
    using s unfolding settled_slot_def cl by auto
  then show ?thesis
  proof cases
    case same
    then show ?thesis using rs xs by (auto simp: ovpn_shape_def)
  next
    case clear
    then show ?thesis using full rs by (auto simp: up_to_date_def ovpn_shape_def)
  next
    case new
    define rts where "rts = map (desired_route net full ix) (np_routes net)"
    have q: "qs = OpenVpnProcess (p\<lparr>op_full := full\<rparr>) # map Route rts
        @ map Rule (case full of None \<Rightarrow> [] | Some f \<Rightarrow> full_policy_rules f) @ dns_slot net full ix name a"
      unfolding rts_def by (rule new)
    have "up_to_date net full qs" unfolding q rts_def by (rule applied_up_to_date) simp
    moreover have "ovpn_shape qs" unfolding ovpn_shape_def using q no by blast
    ultimately show ?thesis by (simp add: q rs)
  qed
qed

lemma shape_full:
  assumes "ovpn_shape rs" and "up_to_date net full rs"
  shows "\<exists>p. find_openvpn rs = Some p \<and> op_full p = full"
proof -
  obtain p xs where rs: "rs = OpenVpnProcess p # xs" "filter is_openvpn_process xs = []" using assms(1) by (auto simp: ovpn_shape_def)
  have "find_map (\<lambda>r. case r of OpenVpnProcess p \<Rightarrow> op_full p | _ \<Rightarrow> None) xs = None" using rs(2)
    by (induction xs) (auto simp: is_openvpn_process_def split: owned_resource.splits if_splits)
  then show ?thesis using assms(2) rs by (auto simp: up_to_date_def split: option.splits)
qed

lemma full_plan_again:
  assumes plan: "openvpn_full_plan P i v4 v6 d = Ok full" and i: "i < length (d_journal d)"
    and J: "d_journal d' = (d_journal d)[i := e]"
    and proc: "find_openvpn (je_resources e) = Some p" "op_full p = full"
    and mark: "map_option op_transport_mark (find_openvpn (je_resources e)) = map_option op_transport_mark (find_openvpn (je_resources (d_journal d ! i)))"
  shows "openvpn_full_plan P i v4 v6 d' = Ok full"
proof (cases "\<not> v4 \<and> \<not> v6")
  case True
  then show ?thesis using plan by (simp add: openvpn_full_plan_def)
next
  case False
  obtain q where q: "find_openvpn (je_resources (d_journal d ! i)) = Some q" "op_transport_mark q = op_transport_mark p"
    using mark proc(1) by (cases "find_openvpn (je_resources (d_journal d ! i))") auto
  obtain f where f: "full = Some f" using plan False q
    by (auto simp: openvpn_full_plan_def Let_def split: if_splits option.splits result.splits)
  have free: "\<not> list_ex (\<lambda>j. j \<noteq> i \<and> list_ex owns_full (je_resources (d_journal d ! j))) [0..<length (d_journal d)]"
    using plan False by (auto simp: openvpn_full_plan_def split: if_splits)
  then have "\<not> list_ex (\<lambda>j. j \<noteq> i \<and> list_ex owns_full (je_resources (d_journal d' ! j))) [0..<length (d_journal d')]"
    using i by (auto simp: J list_ex_iff nth_list_update)
  then show ?thesis using plan free False q proc f i
    by (auto simp: openvpn_full_plan_def Let_def J split: if_splits option.splits result.splits)
qed

text \<open>An entry that carries exactly one network: the process with the full-tunnel slot, the routes in order and on one link,
  each in the tunnel's own table when it is part of a full tunnel, the policy rules of the slot, the DNS setting if the
  network has resolvers, and nothing else.  A fresh entry carries the empty network.\<close>

definition carries :: "string \<Rightarrow> openvpn_network \<Rightarrow> full_resource option \<Rightarrow> owned_resource list \<Rightarrow> bool" where
  "carries name net full rs \<longleftrightarrow> (\<exists>p ix a. op_full p = full
     \<and> rs = OpenVpnProcess p # map Route (map (desired_route net full ix) (np_routes net))
         @ map Rule (case full of None \<Rightarrow> [] | Some f \<Rightarrow> full_policy_rules f) @ dns_slot net full ix name a)"

lemma carries_shape:
  assumes "carries name net full rs"
  shows "ovpn_shape rs" and "up_to_date net full rs"
proof -
  obtain p ix a where p: "op_full p = full" and rs: "rs = OpenVpnProcess p # map Route (map (desired_route net full ix) (np_routes net))
      @ map Rule (case full of None \<Rightarrow> [] | Some f \<Rightarrow> full_policy_rules f) @ dns_slot net full ix name a"
    using assms unfolding carries_def by blast
  show "up_to_date net full rs" unfolding rs by (rule applied_up_to_date [OF p])
  have "filter is_openvpn_process (map Route as @ map Rule bs @ dns_slot net full ix name a) = []" for as bs
    by (auto simp: is_openvpn_process_def dns_slot_def filter_empty_conv)
  then show "ovpn_shape rs" unfolding ovpn_shape_def rs by blast
qed

lemma desired_route_view:
  assumes "map route_view (map (desired_route net0 full0 ix) xs) = map (route_view \<circ> desired_route net full 0) ys"
  shows "map (desired_route net0 full0 ix) xs = map (desired_route net full ix) ys"
proof (rule nth_equalityI)
  have len: "length xs = length ys" using map_eq_imp_length_eq assms by fastforce
  then show "length (map (desired_route net0 full0 ix) xs) = length (map (desired_route net full ix) ys)" by simp
  fix k
  assume "k < length (map (desired_route net0 full0 ix) xs)"
  then have k: "k < length xs" "k < length ys" using len by simp_all
  have "map route_view (map (desired_route net0 full0 ix) xs) ! k = map (route_view \<circ> desired_route net full 0) ys ! k" using assms by simp
  then show "map (desired_route net0 full0 ix) xs ! k = map (desired_route net full ix) ys ! k"
    using k by (auto simp: route_view_def desired_route_def split: if_splits)
qed

lemma carries_current:
  assumes "carries name net0 full0 rs" and "up_to_date net full rs"
  shows "carries name net full rs"
proof -
  obtain p ix a where p: "op_full p = full0" and rs: "rs = OpenVpnProcess p # map Route (map (desired_route net0 full0 ix) (np_routes net0))
      @ map Rule (case full0 of None \<Rightarrow> [] | Some f \<Rightarrow> full_policy_rules f) @ dns_slot net0 full0 ix name a"
    using assms(1) unfolding carries_def by blast
  define rts where "rts = map (desired_route net0 full0 ix) (np_routes net0)"
  define qs where "qs = (case full0 of None \<Rightarrow> [] | Some f \<Rightarrow> full_policy_rules f)"
  have r: "rs = OpenVpnProcess p # map Route rts @ map Rule qs @ dns_slot net0 full0 ix name a" unfolding rts_def qs_def by (rule rs)
  have f: "find_map (\<lambda>r. case r of OpenVpnProcess p \<Rightarrow> op_full p | _ \<Rightarrow> None) rs = full0"
    unfolding r using p find_full_parts [of rts qs net0 full0 ix name a] by (cases full0) simp_all
  have full: "full = full0" using assms(2) unfolding up_to_date_def f by simp
  have parts: "entry_routes rs = rts" "find_dns rs = find_dns (dns_slot net0 full0 ix name a)"
    unfolding r by (simp_all add: entry_routes_append find_dns_append entry_parts)
  have routes: "rts = map (desired_route net full ix) (np_routes net)"
    unfolding rts_def by (rule desired_route_view) (use assms(2) in \<open>simp add: up_to_date_def parts rts_def\<close>)
  have "dns_slot net0 full0 ix name a = dns_slot net full ix name a"
    using assms(2) unfolding up_to_date_def parts by (auto simp: dns_slot_def ovpn_dns_def full split: if_splits)
  then show ?thesis unfolding carries_def r routes qs_def full using p by blast
qed

lemma settled_carries:
  assumes s: "settled_slot name net full rs qs" and rs: "carries name net0 full0 rs"
    and full: "np_routes net = [] \<and> np_dns_servers net = [] \<Longrightarrow> full = None"
  shows "carries name net full qs"
proof -
  obtain p xs where r: "rs = OpenVpnProcess p # xs" and xs: "filter is_openvpn_process xs = []"
    using carries_shape(1) [OF rs] by (auto simp: ovpn_shape_def)
  have cl: "clear_first_full (filter is_openvpn_process rs) = [OpenVpnProcess (p\<lparr>op_full := None\<rparr>)]"
    using xs by (simp add: r is_openvpn_process_def)
  consider (same) "up_to_date net full rs" "qs = rs"
    | (clear) "np_routes net = []" "np_dns_servers net = []" "qs = [OpenVpnProcess (p\<lparr>op_full := None\<rparr>)]"
    | (new) ix a where "qs = OpenVpnProcess (p\<lparr>op_full := full\<rparr>) # map Route (map (desired_route net full ix) (np_routes net))
        @ map Rule (case full of None \<Rightarrow> [] | Some f \<Rightarrow> full_policy_rules f) @ dns_slot net full ix name a"
    using s unfolding settled_slot_def cl by auto
  then show ?thesis
  proof cases
    case same
    then show ?thesis using carries_current [OF rs] by simp
  next
    case clear
    then show ?thesis using full unfolding carries_def by (intro exI [of _ "p\<lparr>op_full := None\<rparr>"]) (simp add: dns_slot_def)
  next
    case new
    then show ?thesis unfolding carries_def by (intro exI [of _ "p\<lparr>op_full := full\<rparr>"] exI [of _ ix] exI [of _ a]) simp
  qed
qed

text \<open>C9: From an entry that carries some network, a pass that succeeds leaves one that carries exactly the network it was asked
  for: the wanted routes in order, each in the tunnel's own table when it is part of a full tunnel, both policy rules per
  captured family of the full-tunnel slot, the DNS setting, and nothing of the network before; no other entry has changed; and
  repeating the pass makes no call and leaves the daemon as it is.  (A full tunnel has a route or a resolver.)\<close>

theorem converge_network_settles:
  assumes ok: "converge_network P run i name net d = (Ok (), d')"
    and i: "i < length (d_journal d)" and before: "carries name net0 full0 (je_resources (d_journal d ! i))"
    and net: "np_routes net = [] \<and> np_dns_servers net = [] \<Longrightarrow> \<not> np_full_ipv4 net \<and> \<not> np_full_ipv6 net"
  shows "converge_network P run i name net d' = (Ok (), d')
    \<and> (\<exists>full e. openvpn_full_plan P i (np_full_ipv4 net) (np_full_ipv6 net) d = Ok full
         \<and> d_journal d' = (d_journal d)[i := e] \<and> je_key e = je_key (d_journal d ! i) \<and> carries name net full (je_resources e))"
proof -
  obtain full qs where full: "openvpn_full_plan P i (np_full_ipv4 net) (np_full_ipv6 net) d = Ok full"
    and dns: "\<not> (np_dns_servers net \<noteq> [] \<and> pf_dns P = None)" and at: "at_slot (\<lambda>_. True) (d_journal d) i qs d'"
    and st: "settled_slot name net full (je_resources (d_journal d ! i)) qs"
    using any_tunnel.converge_step [OF at_slot_start [OF TrueI i] ok] by auto
  obtain e where e: "d_journal d' = (d_journal d)[i := e]" "je_key e = je_key (d_journal d ! i)" "je_resources e = qs"
    using at by (auto simp: at_slot_def)
  have none: "full = None" if "np_routes net = [] \<and> np_dns_servers net = []" using net [OF that] full by (simp add: openvpn_full_plan_def)
  note sh = settled_shape [OF st carries_shape(1) [OF before] none]
  have now: "carries name net full qs" by (rule settled_carries [OF st before none])
  obtain p where p: "find_openvpn qs = Some p" "op_full p = full" using shape_full [of qs net full] sh by blast
  have again: "openvpn_full_plan P i (np_full_ipv4 net) (np_full_ipv6 net) d' = Ok full"
    by (rule full_plan_again [OF full i e(1)]) (use p sh e(3) in simp_all)
  have "je_resources (d_journal d' ! i) = qs" using e i by simp
  then have "converge_network P run i name net d' = (Ok (), d')" using again dns sh unfolding converge_network_def by simp
  then show ?thesis using full e now by blast
qed

definition sim_openvpn :: "management_event list \<Rightarrow> sim openvpn_runner" where
  "sim_openvpn events = \<lparr> pr_link_index = (\<lambda>n w. Ok (map_of (sim_links w) n)),
     pr_stop = (\<lambda>n w. (Ok (), w\<lparr>sim_links := filter (\<lambda>l. fst l \<noteq> n) (sim_links w)\<rparr>)), pr_cleanup = (\<lambda>_ _ w. (Ok (), w)),
     vr_verify_binary = (\<lambda>_. Ok ()), vr_staging_exists = (\<lambda>_ _ _. Ok False),
     vr_start = (\<lambda>_ n _ _ _ w. (Ok (), w\<lparr>sim_links := (n, 7) # sim_links w\<rparr>)),
     vr_poll = (\<lambda>_ w. (Ok events, w)) \<rparr>"

definition sim_tunnel :: "sim platform" where
  "sim_tunnel = sim_platform\<lparr>pf_openvpn := Some (sim_openvpn [])\<rparr>"

definition sim_network :: openvpn_network where
  "sim_network = \<lparr> np_routes = [\<lparr> pr_destination = IpNet (V4 0x0A010000) 16, pr_metric = 5, pr_via = None \<rparr>],
     np_full_ipv4 = False, np_full_ipv6 = False, np_dns_servers = [], np_dns_domains = [] \<rparr>"

definition sim_connected :: "sim daemon" where
  "sim_connected = fresh_daemon [mark_state Applied (ovpn_entry 1000 ''ovpn:a'' ''ovpn-a'' 51820)] (quiet_sim\<lparr>sim_links := [(''ovpn-a'', 7)]\<rparr>)"

theorem converge_network_settles_witness:
  "let step = converge_network sim_tunnel (sim_openvpn []) 0 ''ovpn-a'' sim_network; d' = snd (step sim_connected)
   in fst (step sim_connected) = Ok () \<and> sim_routes (d_world d') \<noteq> [] \<and> step d' = (Ok (), d')"
proof -
  define run where "run = converge_network sim_tunnel (sim_openvpn []) 0 ''ovpn-a'' sim_network sim_connected"
  define d' where "d' = snd run"
  have "is_ok (fst run)" and routes: "sim_routes (d_world d') \<noteq> []" unfolding run_def d'_def by code_simp+
  then have ok: "converge_network sim_tunnel (sim_openvpn []) 0 ''ovpn-a'' sim_network sim_connected = (Ok (), d')"
    unfolding d'_def run_def [symmetric] by (cases run; cases "fst run") simp_all
  have "carries ''ovpn-a'' empty_network None (je_resources (d_journal sim_connected ! 0))"
    by (simp add: carries_def sim_connected_def fresh_daemon_def mark_state_def ovpn_entry_def empty_network_def dns_slot_def)
  then have "converge_network sim_tunnel (sim_openvpn []) 0 ''ovpn-a'' sim_network d' = (Ok (), d')"
    by (rule converge_network_settles [OF ok _ _, THEN conjunct1, rotated]) (simp_all add: sim_connected_def fresh_daemon_def sim_network_def)
  then show ?thesis using ok routes by (simp add: Let_def)
qed
section \<open>Connecting\<close>

definition mark_unused :: "nat \<Rightarrow> journal \<Rightarrow> bool" where
  "mark_unused m J \<longleftrightarrow> list_all (\<lambda>e. list_all (\<lambda>r. \<not> mark_in_journal m r) (je_resources e)) J"

lemma allocated_mark:
  assumes "allocate_openvpn_mark P d = Ok m"
  shows "51820 \<le> m \<and> m < 51948 \<and> mark_unused m (d_journal d)
    \<and> (\<forall>px. pf_policy P = Some px \<longrightarrow> px_table_in_use px m (d_world d) = Ok False
        \<and> (\<exists>rules. px_rules_snapshot px (d_world d) = Ok rules \<and> list_all (\<lambda>r. \<not> rule_conflicts m (10000 + (m - 51820) * 2) r) rules))"
proof -
  obtain rules slot where rules: "(case pf_policy P of None \<Rightarrow> Ok [] | Some px \<Rightarrow> px_rules_snapshot px (d_world d)) = Ok rules"
    and slot: "List.find (mark_free P rules d) [0..<128] = Some slot" "m = 51820 + slot"
    using assms by (auto simp: allocate_openvpn_mark_def split: result.splits option.splits)
  have "slot < 128" "mark_free P rules d slot" using slot(1) by (auto simp: find_Some_iff)
  then show ?thesis using rules slot(2)
    by (auto simp: mark_free_def mark_unused_def Let_def list_all_iff list_ex_iff split: option.splits)
qed

lemma resolved_name:
  "resolve_openvpn_name run uid plan w = Ok name \<Longrightarrow> name = vp_name plan \<or> name = vp_fallback_name plan"
  by (auto simp: resolve_openvpn_name_def split: result.splits option.splits bool.splits if_splits)

lemma launch_outcome:
  assumes l: "launch_openvpn P root uid owner other plan d = (res, d')"
  shows "case res of
      Ok _ \<Rightarrow> owner_position uid owner d = None \<and> (\<exists>name m. allocate_openvpn_mark P d = Ok m \<and> (name = vp_name plan \<or> name = vp_fallback_name plan)
        \<and> d_journal d' = d_journal d @ [mark_state Applied (ovpn_entry uid owner name m)])
    | Err _ \<Rightarrow> d_journal d' = d_journal d \<or> (\<exists>x. d_journal d' = d_journal d @ [x] \<and> je_key x = (uid, owner))"
proof (cases "\<exists>e. (res, d') = (Err e, d)")
  case True
  then show ?thesis by auto
next
  case False
  then have "\<not> (\<exists>e. launch_openvpn P root uid owner other plan d = (Err e, d))" using l by auto
  then obtain m run name where ctx: "validate_owner owner" "owner_position uid owner d = None" "owner_position uid other d = None"
    "allocate_openvpn_mark P d = Ok m" "pf_openvpn P = Some run" "vr_verify_binary run (d_world d) = Ok ()"
    "resolve_openvpn_name run uid plan (d_world d) = Ok name" by (rule launch_context)
  let ?e = "ovpn_entry uid owner name m" and ?J = "d_journal d"
  obtain s d1 where s: "save_journal P (d\<lparr>d_journal := ?J @ [?e]\<rparr>) = (s, d1)" by (rule prod.exhaust)
  have J1: "d_journal d1 = ?J @ [?e]" using save_journal_frame(2) [OF s] by simp
  obtain st d2 where st: "(case sanitized_config plan (stage_dir root uid name) of Err e \<Rightarrow> (Err e, d1)
      | Ok config \<Rightarrow> on_world (vr_start run uid name config (vp_credentials plan) m) d1) = (st, d2)" by (rule prod.exhaust)
  have J2: "d_journal d2 = ?J @ [?e]" using st J1 by (auto simp: on_world_def split: result.splits prod.splits)
  obtain t d3 where t: "teardown_openvpn_entry P (length ?J) d2 = (t, d3)" by (rule prod.exhaust)
  have J3: "d_journal d3 = ?J \<or> (\<exists>x. d_journal d3 = ?J @ [x] \<and> je_key x = (uid, owner))"
  proof (cases t)
    case (Ok u)
    then show ?thesis using openvpn.td_ok [of "length ?J" d2 P] t J2 by (simp add: remove_nth_def)
  next
    case (Err e)
    then show ?thesis using openvpn.td_err [of "length ?J" d2 P] t J2 by (force simp: je_key_def ovpn_entry_def)
  qed
  have "launch_openvpn P root uid owner other plan d = (case s of Err e \<Rightarrow> (Err e, d1\<lparr>d_journal := butlast (d_journal d1)\<rparr>)
      | Ok _ \<Rightarrow> (case st of Err e \<Rightarrow> (Err e, persist P d3) | Ok _ \<Rightarrow> (Ok (), persist P (set_entry (length ?J) (mark_state Applied) d2))))"
    using ctx s st t by (cases s; cases st) (simp_all add: launch_openvpn_def Let_def)
  then show ?thesis using l J1 J2 J3 ctx resolved_name [OF ctx(7)] by (cases s; cases st) auto
qed

text \<open>C10: The outcome of \<open>connect_openvpn\<close>.  On success the journal has one entry more, applied, with the process under one of
  the two candidate names and a transport mark between 51820 and 51947 that no tunnel of the journal uses; the profile had no entry
  before, its runtime starts afresh with the routes of the plan, earlier failures are forgotten and the
  answer says connecting on that link.  On failure the other entries are untouched and at most one
  entry of this profile is left for a later teardown.\<close>

theorem connect_openvpn_outcome:
  "case connect_openvpn P root uid plan d of
     (Ok st, d') \<Rightarrow>
       (let key = (uid, ovpn_owner (vp_profile_id plan)) in
        \<exists>name m. d_journal d' = d_journal d @ [mark_state Applied (ovpn_entry uid (snd key) name m)]
          \<and> key \<notin> je_key ` set (d_journal d) \<and> (name = vp_name plan \<or> name = vp_fallback_name plan)
          \<and> 51820 \<le> m \<and> m < 51948 \<and> mark_unused m (d_journal d)
          \<and> d_openvpn_runtime d' key = Some (fresh_runtime plan) \<and> d_openvpn_failures d' key = None
          \<and> key \<notin> d_openvpn_failed d' \<and> key \<notin> d_openvpn_auth_failed d'
          \<and> os_state st = Ovpn_Connecting \<and> os_interface_name st = Some name)
   | (Err _, d') \<Rightarrow> d_journal d' = d_journal d
       \<or> (\<exists>x. d_journal d' = d_journal d @ [x] \<and> je_key x = (uid, ovpn_owner (vp_profile_id plan)))"
proof -
  let ?o = "ovpn_owner (vp_profile_id plan)"
  obtain res d1 where l: "launch_openvpn P root uid ?o (probe_owner (vp_profile_id plan)) plan d = (res, d1)" by (rule prod.exhaust)
  note out = launch_outcome [OF l]
  show ?thesis
  proof (cases res)
    case (Err e)
    then show ?thesis using l out by (simp add: connect_openvpn_def Let_def)
  next
    case (Ok u)
    then obtain name m where ctx: "owner_position uid ?o d = None" "allocate_openvpn_mark P d = Ok m" "name = vp_name plan \<or> name = vp_fallback_name plan"
      "d_journal d1 = d_journal d @ [mark_state Applied (ovpn_entry uid ?o name m)]" using out by auto
    define e where "e = mark_state Applied (ovpn_entry uid ?o name m)"
    define d2 where "d2 = forget_failure (uid, ?o) (d1\<lparr>d_openvpn_runtime := (d_openvpn_runtime d1)((uid, ?o) \<mapsto> fresh_runtime plan)\<rparr>)"
    have c: "connect_openvpn P root uid plan d = (Ok (openvpn_status uid (vp_profile_id plan) d2), d2)"
      using l Ok by (simp add: connect_openvpn_def Let_def d2_def)
    have J: "d_journal d2 = d_journal d @ [e]" and rt: "d_openvpn_runtime d2 (uid, ?o) = Some (fresh_runtime plan)"
      and ff: "d_openvpn_failures d2 (uid, ?o) = None \<and> (uid, ?o) \<notin> d_openvpn_failed d2 \<and> (uid, ?o) \<notin> d_openvpn_auth_failed d2"
      by (simp_all add: d2_def forget_failure_def ctx(4) e_def)
    have ek: "je_key e = (uid, ?o)" and es: "je_state e = Applied" and en: "map_option op_name (find_openvpn (je_resources e)) = Some name"
      by (simp_all add: e_def mark_state_def ovpn_entry_def je_key_def)
    have "os_state (openvpn_status uid (vp_profile_id plan) d2) = Ovpn_Connecting"
      "os_interface_name (openvpn_status uid (vp_profile_id plan) d2) = Some name"
      unfolding openvpn_status_def Let_def J find_last_entry [OF ctx(1) ek]
      by (simp_all add: ovpn_state_def es rt en fresh_runtime_def default_snapshot_def)
    then show ?thesis using allocated_mark [OF ctx(2)] ctx(1,3) rt ff unfolding c J e_def owner_position_None_iff Let_def prod.case result.case
      by (intro exI [of _ name] exI [of _ m]) simp
  qed
qed

lemma plan_predicts:
  assumes run: "pf_openvpn P = Some run" and name: "resolve_openvpn_name run uid plan (d_world d) = Ok name"
    and plan: "plan_openvpn P root uid plan d = Ok r"
  shows "pz_interface_name r = name"
  using assms
  by (auto simp: plan_openvpn_def name_conflicts_def resolve_openvpn_name_def Let_def
      split: result.splits option.splits bool.splits if_splits)

section \<open>What a server can push\<close>

lemma secondary_network:
  assumes "ort_role rt = Role_Secondary" and "from_runtime rt = Ok net"
  shows "np_routes net = ort_explicit_routes rt \<and> np_full_ipv4 net = (has_route (np_routes net) (IpNet (V4 0) 0)
      \<or> (has_route (np_routes net) (IpNet (V4 0) 1) \<and> has_route (np_routes net) (IpNet (V4 (2 ^ 31)) 1)))
    \<and> np_full_ipv6 net = (has_route (np_routes net) (IpNet (V6 0) 0)
      \<or> (has_route (np_routes net) (IpNet (V6 0) 1) \<and> has_route (np_routes net) (IpNet (V6 (2 ^ 127)) 1)))
    \<and> set (np_dns_domains net) \<subseteq> set (ort_dns_domains rt)"
  using assms by (auto simp: from_runtime_def Let_def split: option.splits if_splits)

lemma prepared_secondary:
  assumes "prepare_openvpn N decode root uid prm cred = Ok plan" and "vp_role plan = Role_Secondary" and "r \<in> set (vp_routes plan)"
  shows "net_prefix (pr_destination r) > 1"
proof -
  have "routes_ok N (vp_routes plan)" "validate_secondary N Role_Secondary (vp_routes plan) (vp_dns_domains plan)"
    using assms by (auto simp: prepare_openvpn_def Let_def split: if_splits prod.splits option.splits result.splits)
  then show ?thesis using assms(3)
    by (auto simp: routes_ok_def validate_secondary_def secondary_networks_def Let_def secondary_network_ok_def list_all_iff split: if_splits)
qed

text \<open>C15: A secondary tunnel keeps to its own networks.  For a plan that \<open>prepare_openvpn\<close> accepted with the secondary role, whatever
  the server pushes, the network the daemon builds has exactly the routes of the profile, none of them a default route or a
  half of the address space (prefix 0 or 1), never counts as a full tunnel, and sends only the profile's own
  domains to the pushed resolvers.  (Four networks of prefix 2 in the profile still cover all of IPv4.)\<close>

theorem secondary_tunnel_confined:
  assumes plan: "prepare_openvpn N decode root uid prm cred = Ok plan" and role: "vp_role plan = Role_Secondary"
    and net: "from_runtime ((fresh_runtime plan)\<lparr>ort_snapshot := fold apply_event events default_snapshot\<rparr>) = Ok net"
  shows "np_routes net = vp_routes plan \<and> (\<forall>r \<in> set (np_routes net). net_prefix (pr_destination r) > 1)
    \<and> \<not> np_full_ipv4 net \<and> \<not> np_full_ipv6 net \<and> set (np_dns_domains net) \<subseteq> set (vp_dns_domains plan)"
proof -
  have n: "\<not> has_route (vp_routes plan) (IpNet a p)" if "p \<le> 1" for a p
    using prepared_secondary [OF plan role] that by (force simp: has_route_def list_ex_iff)
  show ?thesis using secondary_network [OF _ net] prepared_secondary [OF plan role] n role by (simp add: fresh_runtime_def)
qed
lemma case_Ok: "case x of Ok p \<Rightarrow> Q p | Err _ \<Rightarrow> False \<Longrightarrow> \<exists>p. x = Ok p \<and> Q p"
  by (cases x) simp_all

definition example_secondary :: openvpn_params where
  "example_secondary = \<lparr> vc_profile_id = ''a'', vc_config = ''client'' @ [newline] @ ''remote v'', vc_assets = [],
     vc_routes = [\<lparr> pr_destination = IpNet (V4 0x0A010000) 16, pr_metric = 5, pr_via = None \<rparr>],
     vc_interface_name = None, vc_role = Role_Secondary, vc_dns_domains = [''lan''] \<rparr>"

definition greedy_push :: pushed_network_config where
  "greedy_push = empty_push\<lparr>pn_routes := [IpNet (V4 0) 1, IpNet (V4 (2 ^ 31)) 1], pn_redirect_gateway_def1 := True,
     pn_legacy_dns_servers := [V4 0x0A010001], pn_search_domains := [''com'']\<rparr>"

definition greedy_events :: "management_event list" where
  "greedy_events = [Ev_PushReply greedy_push, Ev_State St_Connected]"

definition example_prepared :: "openvpn_plan io" where
  "example_prepared = prepare_openvpn word_ipnet Some ''/run/network-orchestrator'' 1000 example_secondary None"

theorem secondary_tunnel_confined_witness:
  "\<exists>plan net. example_prepared = Ok plan \<and> vp_role plan = Role_Secondary
    \<and> from_runtime ((fresh_runtime plan)\<lparr>ort_snapshot := fold apply_event greedy_events default_snapshot\<rparr>) = Ok net
    \<and> np_routes net = vp_routes plan \<and> \<not> np_full_ipv4 net"
proof -
  let ?net = "\<lambda>plan. from_runtime ((fresh_runtime plan)\<lparr>ort_snapshot := fold apply_event greedy_events default_snapshot\<rparr>)"
  define good where "good p \<longleftrightarrow> vp_role p = Role_Secondary \<and> is_ok (?net p)" for p
  have "case example_prepared of Ok p \<Rightarrow> good p | Err _ \<Rightarrow> False" unfolding good_def by code_simp
  then obtain plan where p: "example_prepared = Ok plan" "good plan" using case_Ok by blast
  have role: "vp_role plan = Role_Secondary" and "is_ok (?net plan)" using p(2) unfolding good_def by blast+
  then obtain net where n: "?net plan = Ok net" by (cases "?net plan") simp_all
  show ?thesis using p(1) role n secondary_tunnel_confined [OF p(1) [unfolded example_prepared_def] role n] by blast
qed

lemma pushed_route_list:
  "distinct (map pr_destination acc @ ds) \<Longrightarrow>
     foldl add_pushed_route acc ds = acc @ map (\<lambda>n. \<lparr> pr_destination = n, pr_metric = 5, pr_via = None \<rparr>) ds"
  by (induction ds arbitrary: acc) (auto simp: add_pushed_route_def list_ex_iff)

lemma merged_routes:
  "pn_routes (merge_push p q) = foldl Prelude.push_unique (pn_routes p) (pn_routes q)"
  by (simp add: merge_push_def)

lemma foldl_push_unique_distinct:
  "distinct (xs @ ys) \<Longrightarrow> foldl Prelude.push_unique xs ys = xs @ ys"
  by (induction ys arbitrary: xs) (auto simp: Prelude.push_unique_def)

text \<open>C37: The caps on a pushed reply are not checked again when fragments are merged.  Two fragments, each within the limit of 64 routes and
  without DNS settings, the first announcing a continuation, give a connected primary tunnel all their routes
  together: the network plan accepts twice the limit.\<close>

theorem push_fragments_exceed_cap:
  assumes "pn_more_follows p" and "distinct (pn_routes p @ pn_routes q)"
    and dns: "pn_legacy_dns_servers p @ pn_legacy_dns_servers q = []" "pn_search_domains p @ pn_search_domains q = []"
      "pn_dns_servers p @ pn_dns_servers q = []"
    and rt: "ort_role rt = Role_Primary" "ort_explicit_routes rt = []"
    and snap: "ort_snapshot rt = fold apply_event [Ev_PushReply p, Ev_PushReply q, Ev_State St_Connected] default_snapshot"
  shows "\<exists>net. from_runtime rt = Ok net \<and> length (np_routes net) = length (pn_routes p) + length (pn_routes q)"
proof -
  have "sn_active_push (ort_snapshot rt) = Some (merge_push p q)" using assms(1) by (simp add: snap default_snapshot_def)
  moreover have "foldl add_pushed_route [] (pn_routes (merge_push p q)) = map (\<lambda>n. \<lparr> pr_destination = n, pr_metric = 5, pr_via = None \<rparr>) (pn_routes p @ pn_routes q)"
    unfolding merged_routes foldl_push_unique_distinct [OF assms(2)] using pushed_route_list [of "[]" "pn_routes p @ pn_routes q"] assms(2) by simp
  ultimately show ?thesis using dns rt by (simp add: from_runtime_def Let_def merge_push_def)
qed

definition push_fragment :: "nat \<Rightarrow> bool \<Rightarrow> pushed_network_config" where
  "push_fragment base more_follows = empty_push\<lparr>pn_routes := map (\<lambda>i. IpNet (V4 (word_of_nat i)) 32) [base..<base + 64],
     pn_more_follows := more_follows\<rparr>"

theorem push_fragments_exceed_cap_witness:
  "let p = push_fragment 0 True; q = push_fragment 64 False;
       rt = \<lparr> ort_explicit_routes = [], ort_role = Role_Primary, ort_dns_domains = [],
         ort_snapshot = fold apply_event [Ev_PushReply p, Ev_PushReply q, Ev_State St_Connected] default_snapshot \<rparr>
   in \<exists>net. from_runtime rt = Ok net \<and> length (np_routes net) = 2 * MAX_PUSH_ROUTES"
proof -
  have rs: "pn_routes (push_fragment b m) = map (\<lambda>i. IpNet (V4 (word_of_nat i)) 32) [b..<b + 64]" for b m
    by (simp add: push_fragment_def)
  have num_sum: "(64::nat) + 64 = 128" by simp
  have "[0..<64] @ [64..<128] = [0..<128::nat]" using upt_add_eq_append [of 0 64 64] by (simp only: add_0 num_sum)
  then have "pn_routes (push_fragment 0 True) @ pn_routes (push_fragment 64 False) = map (\<lambda>i. IpNet (V4 (word_of_nat i)) 32) [0..<128]"
    by (simp only: rs map_append [symmetric] add_0 num_sum)
  moreover have "inj_on (\<lambda>i. IpNet (V4 (word_of_nat i)) 32) (set [0..<128])"
    by (auto simp: inj_on_def word_of_nat_eq_iff take_bit_nat_eq_self)
  ultimately have d: "distinct (pn_routes (push_fragment 0 True) @ pn_routes (push_fragment 64 False))"
    by (simp only: distinct_map distinct_upt)
  have l: "length (pn_routes (push_fragment b m)) = 64" for b m by (simp add: rs)
  have f: "pn_legacy_dns_servers (push_fragment b m) = []" "pn_search_domains (push_fragment b m) = []" "pn_dns_servers (push_fragment b m) = []"
    "pn_more_follows (push_fragment b m) = m" for b m
    by (simp_all add: push_fragment_def empty_push_def)
  show ?thesis unfolding Let_def MAX_PUSH_ROUTES_def
    using push_fragments_exceed_cap [OF _ d] by (simp only: l f openvpn_runtime.simps append_Nil) simp
qed

end
