(* ===== verification/Xray_Connect.thy ===== *)
theory Xray_Connect
  imports Ovpn_Connect Failover Watchdog "HOL-Library.Multiset"
begin

text \<open>
  Xray connections of the daemon (\<open>crates/daemon/src/core.rs\<close>): \<open>connect_xray\<close> with \<open>apply_xray_plan\<close> and
  \<open>add_xray_bypass_routes\<close>, \<open>reload_xray\<close> with its compatibility check, \<open>disconnect_xray\<close>, \<open>xray_status\<close>,
  \<open>xray_proxy_exits\<close>, and the workers beside a tunnel.  What the workers answer is the parameter \<open>workers\<close>.
  An unwrap of a missing executor is \<open>Panicked\<close>: the operation stops there.
\<close>

section \<open>Workers\<close>

record watchdog_spec =
  wsp_uid :: nat
  wsp_tun_name :: string
  wsp_tun_addr :: ip_addr
  wsp_mark :: nat
  wsp_dns_servers :: "ip_addr list"
  wsp_probe_url :: "string option"

text \<open>\<open>wk_network\<close>: the network of the watchdogs is set.  The other fields are answers of the workers: whether one could be
  started, has finished, sees the uplink, asks for a restart, and what it reports.\<close>

record workers =
  wk_network :: bool
  wk_watchdog_starts :: "watchdog_spec \<Rightarrow> bool"
  wk_finished :: "owner_key \<Rightarrow> bool"
  wk_online :: "owner_key \<Rightarrow> bool"
  wk_request :: "owner_key \<Rightarrow> bool"
  wk_watchdog_status :: "owner_key \<Rightarrow> watchdog_status"
  wk_checks_start :: "service_check list \<Rightarrow> (string \<times> nat) list \<Rightarrow> bool"
  wk_checks_status :: "owner_key \<Rightarrow> string list"
  wk_supervisors :: "owner_key \<Rightarrow> supervisors"

fun find_address :: "owned_resource list \<Rightarrow> wg_address option" where
  "find_address [] = None"
| "find_address (Address a # rs) = Some a"
| "find_address (_ # rs) = find_address rs"

definition watchdog_spec_of :: "nat \<Rightarrow> xray_process \<Rightarrow> wg_address \<Rightarrow> owned_resource list \<Rightarrow> watchdog_spec" where
  "watchdog_spec_of uid p a rs = \<lparr> wsp_uid = uid, wsp_tun_name = xp_name p, wsp_tun_addr = net_addr (wa_address a),
     wsp_mark = xp_transport_mark p, wsp_dns_servers = (case find_dns rs of None \<Rightarrow> [] | Some x \<Rightarrow> wd_servers x),
     wsp_probe_url = or_else (xp_probe_url p) (map_option fp_probe_url (xp_failover p)) \<rparr>"

definition ensure_watchdog :: "workers \<Rightarrow> nat \<Rightarrow> 'k daemon \<Rightarrow> 'k daemon" where
  "ensure_watchdog wk i d =
     (let e = d_journal d ! i; key = je_key e in
      if \<not> wk_network wk \<or> (key \<in> d_watchdogs d \<and> \<not> wk_finished wk key) then d
      else case (find_xray (je_resources e), find_address (je_resources e)) of
        (Some p, Some a) \<Rightarrow>
          if wk_watchdog_starts wk (watchdog_spec_of (je_uid e) p a (je_resources e))
          then d\<lparr>d_watchdogs := insert key (d_watchdogs d)\<rparr> else d
      | _ \<Rightarrow> d)"

definition ensure_failover :: "nat \<Rightarrow> 'k daemon \<Rightarrow> 'k daemon" where
  "ensure_failover i d =
     (let e = d_journal d ! i in
      case find_xray (je_resources e) of
        None \<Rightarrow> d
      | Some _ \<Rightarrow> if je_key e \<in> d_failovers d then d else d\<lparr>d_failovers := insert (je_key e) (d_failovers d)\<rparr>)"

definition start_failover :: "owner_key \<Rightarrow> 'k daemon \<Rightarrow> 'k daemon" where
  "start_failover key d = d\<lparr>d_failovers := insert key (d_failovers d - {key})\<rparr>"

fun find_quic :: "owned_resource list \<Rightarrow> xray_process option" where
  "find_quic [] = None"
| "find_quic (XrayProcess p # rs) = (if xp_reject_quic p then Some p else find_quic rs)"
| "find_quic (_ # rs) = find_quic rs"

definition ensure_xray_quic :: "'k platform \<Rightarrow> nat \<Rightarrow> (unit, 'k) cmd" where
  "ensure_xray_quic P i d =
     (let e = d_journal d ! i in
      case find_quic (je_resources e) of
        None \<Rightarrow> skip d
      | Some p \<Rightarrow> (case pf_quic P of
          None \<Rightarrow> fail NotConnected d
        | Some qx \<Rightarrow> on_world (qx_ensure qx (je_uid e) (xp_name p)) d))"

definition xray_owner :: "string \<Rightarrow> string" where "xray_owner profile_id = ''xray:'' @ profile_id"

definition pin_ports :: "xray_process \<Rightarrow> (string \<times> nat) list" where
  "pin_ports p = map (\<lambda>(i, k). (k, xray_pin_probe_port (xp_transport_mark p) i)) (List.enumerate 0 (xp_pinned_keys p))"

definition set_xray_service_checks ::
    "xray_libs \<Rightarrow> workers \<Rightarrow> nat \<Rightarrow> string \<Rightarrow> service_check list \<Rightarrow> (unit, 'k) cmd" where
  "set_xray_service_checks L wk uid profile_id chks d =
     (let owner = xray_owner profile_id; key = (uid, owner) in
      if \<not> validate_owner owner then (Err InvalidInput, d)
      else if \<not> validate_service_checks L chks then (Err InvalidData, d)
      else
        (let process = (case owner_position uid owner d of None \<Rightarrow> None | Some i \<Rightarrow> find_xray (je_resources (d_journal d ! i)));
             d = d\<lparr>d_service_checks := d_service_checks d - {key}\<rparr>
         in case process of
              None \<Rightarrow> (Ok (), d)
            | Some p \<Rightarrow>
                if \<not> list_ex sc_background chks then (Ok (), d)
                else if \<not> wk_network wk then (Err NotConnected, d)
                else (Ok (), if wk_checks_start wk chks (pin_ports p)
                             then d\<lparr>d_service_checks := insert key (d_service_checks d)\<rparr> else d)))"

section \<open>Status\<close>

record xray_status_view =
  xs_profile_id :: string
  xs_state :: tunnel_state
  xs_interface_name :: "string option"
  xs_rx_bytes :: "nat option"
  xs_tx_bytes :: "nat option"
  xs_dns_applied :: bool
  xs_ipv4_covered :: bool
  xs_ipv6_covered :: bool
  xs_watchdog :: "(watchdog_status \<times> string list) option"
  xs_proxy_exits :: "proxy_exit_status list"
  xs_failover :: "failover_status option"

definition xray_healthy :: "'k platform \<Rightarrow> string \<Rightarrow> 'k \<Rightarrow> bool" where
  "xray_healthy P name w = (case pf_xray P of None \<Rightarrow> False | Some run \<Rightarrow> xr_health run name w = Ok True)"

definition full_flag :: "(full_resource \<Rightarrow> bool) \<Rightarrow> xray_process option \<Rightarrow> bool" where
  "full_flag f process = (case process of None \<Rightarrow> False | Some p \<Rightarrow> (case xp_full p of None \<Rightarrow> False | Some r \<Rightarrow> f r))"

definition xray_status :: "'k platform \<Rightarrow> workers \<Rightarrow> nat \<Rightarrow> string \<Rightarrow> 'k daemon \<Rightarrow> xray_status_view" where
  "xray_status P wk uid profile_id d =
     (let owner = xray_owner profile_id; key = (uid, owner);
          entry = List.find (\<lambda>e. je_uid e = uid \<and> je_owner e = owner) (d_journal d);
          resources = (case entry of None \<Rightarrow> [] | Some e \<Rightarrow> je_resources e);
          process = find_xray resources;
          state = (case (entry, process) of
             (None, _) \<Rightarrow> if key \<in> d_tunnel_failed d then Tunnel_Failed else Tunnel_Stopped
           | (Some e, Some p) \<Rightarrow>
               if je_state e = Applied \<and> xray_healthy P (xp_name p) (d_world d) then Tunnel_Running else Tunnel_Failed
           | _ \<Rightarrow> Tunnel_Failed);
          stats = (if state \<noteq> Tunnel_Running then None else
             (case (process, pf_xray P) of
                (Some p, Some run) \<Rightarrow> (case xr_query_stats run (xp_name p) (xray_api_port (xp_transport_mark p)) (d_world d) of
                    Ok x \<Rightarrow> Some x | Err _ \<Rightarrow> None)
              | _ \<Rightarrow> None));
          watchdog = (if key \<in> d_watchdogs d then Some (wk_watchdog_status wk key) else None)
      in \<lparr> xs_profile_id = profile_id, xs_state = state, xs_interface_name = map_option xp_name process,
           xs_rx_bytes = map_option fst stats, xs_tx_bytes = map_option snd stats,
           xs_dns_applied = list_ex (\<lambda>r. case r of Dns x \<Rightarrow> wd_applied x | _ \<Rightarrow> False) resources,
           xs_ipv4_covered = full_flag fr_ipv4 process, xs_ipv6_covered = full_flag fr_ipv6 process,
           xs_watchdog = (if key \<in> d_service_checks d
             then Some (case watchdog of None \<Rightarrow> default_status | Some s \<Rightarrow> s, wk_checks_status wk key)
             else map_option (\<lambda>s. (s, [])) watchdog),
           xs_proxy_exits = (case process of
               Some p \<Rightarrow> if state = Tunnel_Running \<and> key \<in> d_failovers d
                 then exit_statuses (wk_supervisors wk key) (xp_proxy_exits p) (xp_transport_mark p) else []
             | None \<Rightarrow> []),
           xs_failover = (if key \<in> d_failovers d then map_option su_status (sp_main (wk_supervisors wk key)) else None) \<rparr>)"

definition xray_proxy_exits :: "'k platform \<Rightarrow> workers \<Rightarrow> nat \<Rightarrow> string \<Rightarrow> 'k daemon \<Rightarrow> proxy_exit_status list io" where
  "xray_proxy_exits P wk uid profile_id d =
     (let owner = xray_owner profile_id in
      case owner_position uid owner d of
        None \<Rightarrow> Err NotConnected
      | Some i \<Rightarrow>
          (let e = d_journal d ! i in
           if je_state e \<noteq> Applied then Err NotConnected
           else case find_xray (je_resources e) of
             None \<Rightarrow> Err NotConnected
           | Some p \<Rightarrow>
               if \<not> xray_healthy P (xp_name p) (d_world d) \<or> (uid, owner) \<notin> d_failovers d then Err NotConnected
               else Ok (exit_statuses (wk_supervisors wk (uid, owner)) (xp_proxy_exits p) (xp_transport_mark p))))"

section \<open>Connecting\<close>

definition resolve_host_addrs :: "'k platform \<Rightarrow> string \<Rightarrow> 'k \<Rightarrow> ip_addr list" where
  "resolve_host_addrs P host w = (case addr_parse host of Some ip \<Rightarrow> [ip] | None \<Rightarrow> pf_resolve P host w)"

definition bypass_targets :: "'k platform \<Rightarrow> xray_plan \<Rightarrow> 'k \<Rightarrow> ip_addr list" where
  "bypass_targets P plan w = foldl Prelude.push_unique []
     (concat (map (\<lambda>h. resolve_host_addrs P h w) (xn_server_hosts plan @ xn_unpinned_hosts plan))
      @ dns_server_bypass plan
      @ concat (map (\<lambda>h. dns_bypass_addrs (resolve_host_addrs P h w) (xn_full_ipv4 plan) (xn_full_ipv6 plan)) (xn_dns_bypass plan)))"

text \<open>Push a resource, save, touch the kernel; an object that exists already is not claimed.\<close>

definition exclusive :: "'k platform \<Rightarrow> nat \<Rightarrow> owned_resource \<Rightarrow> ('k \<Rightarrow> unit io \<times> 'k) \<Rightarrow> (unit, 'k) cmd" where
  "exclusive P i r f d =
     (case save_journal P (add_resource i r d) of
        (Err e, d) \<Rightarrow> (Err e, d)
      | (Ok _, d) \<Rightarrow>
          (case on_world f d of
             (Ok _, d) \<Rightarrow> (Ok (), d)
           | (Err e, d) \<Rightarrow> (Err e, if e = AlreadyExists then pop_entry i d else d)))"

definition xray_bypass_step :: "ipnet_crate \<Rightarrow> 'k platform \<Rightarrow> nat \<Rightarrow> ip_addr \<Rightarrow> (unit, 'k) cmd" where
  "xray_bypass_step N P i ip d =
     (case uplink_host_route N P ip 5 (d_world d) of
        None \<Rightarrow> skip d
      | Some r \<Rightarrow>
          (case save_journal P (add_resource i (Route r) d) of
             (Err e, d) \<Rightarrow> (Err e, d)
           | (Ok _, d) \<Rightarrow>
               (case on_world (rx_add (pf_routes P) r) d of
                  (Ok _, d) \<Rightarrow> (Ok (), d)
                | (Err e, d) \<Rightarrow> if e = AlreadyExists then (Ok (), pop_entry i d) else (Err e, d))))"

definition add_xray_bypass_routes :: "ipnet_crate \<Rightarrow> 'k platform \<Rightarrow> nat \<Rightarrow> xray_plan \<Rightarrow> (unit, 'k) cmd" where
  "add_xray_bypass_routes N P i plan d = for_each (xray_bypass_step N P i) (bypass_targets P plan (d_world d)) d"

definition xray_route :: "xray_plan \<Rightarrow> full_resource option \<Rightarrow> nat \<Rightarrow> policy_route \<Rightarrow> applied_route" where
  "xray_route plan full ix r = \<lparr> ar_destination = pr_destination r, ar_interface_index = ix, ar_metric = pr_metric r, ar_gateway = None,
     ar_table = (if is_full_route (xn_full_ipv4 plan) (xn_full_ipv6 plan) (pr_destination r) then map_option fr_table full else None) \<rparr>"

definition xray_dns :: "xray_plan \<Rightarrow> full_resource option \<Rightarrow> nat \<Rightarrow> wg_dns" where
  "xray_dns plan full ix = \<lparr> wd_interface_index = ix, wd_name = xn_name plan, wd_servers = xn_dns_servers plan,
     wd_domains = xn_dns_domains plan, wd_full = (full \<noteq> None), wd_applied = False \<rparr>"

text \<open>\<open>connect_xray\<close> has checked that there is a DNS executor.\<close>

definition xray_dns_call :: "'k platform \<Rightarrow> xray_plan \<Rightarrow> bool \<Rightarrow> 'k \<Rightarrow> dns_apply io \<times> 'k" where
  "xray_dns_call P plan full w =
     (case pf_dns P of
        None \<Rightarrow> (Err NotConnected, w)
      | Some dx \<Rightarrow> (case dx_apply dx (xn_name plan) (xn_dns_servers plan) (xn_dns_domains plan) full w of
          (Ok x, w) \<Rightarrow> (Ok x, w) | (Err _, w) \<Rightarrow> (Err Other, w)))"

definition xray_dns_steps :: "'k platform \<Rightarrow> nat \<Rightarrow> nat \<Rightarrow> xray_plan \<Rightarrow> full_resource option \<Rightarrow> (unit, 'k) cmd" where
  "xray_dns_steps P i ix plan full =
     (if xn_dns_servers plan = [] then skip
      else then_do (journaled P i (Dns (xray_dns plan full ix)) (xray_dns_call P plan (full \<noteq> None))) (\<lambda>out.
        if out = DnsApplied then then_do (edit (set_entry i mark_dns_applied)) (\<lambda>_. save_journal P) else skip))"

fun set_first_index :: "nat \<Rightarrow> owned_resource list \<Rightarrow> owned_resource list" where
  "set_first_index ix (XrayProcess p # rs) = XrayProcess (p\<lparr>xp_index := ix\<rparr>) # rs"
| "set_first_index ix rs = rs"

definition xray_address :: "xray_plan \<Rightarrow> nat \<Rightarrow> owned_resource" where
  "xray_address plan ix = Address \<lparr> wa_interface_index = ix, wa_address = xn_address plan \<rparr>"

text \<open>The first part of \<open>apply_xray_plan\<close>: the process, its link, and the link in the journal.\<close>

definition launch_xray :: "'k platform \<Rightarrow> 'k xray_runner \<Rightarrow> nat \<Rightarrow> nat \<Rightarrow> xray_plan \<Rightarrow> (nat, 'k) cmd" where
  "launch_xray P run i uid plan =
     then_do (on_world (xr_start run uid (xn_name plan) (xn_config plan) (xn_geo_assets plan))) (\<lambda>_.
     then_do (observing (pr_link_index run (xn_name plan))) (\<lambda>link.
     case link of
       None \<Rightarrow> fail NotConnected
     | Some ix \<Rightarrow>
         then_do (edit (set_entry i (\<lambda>e. e\<lparr>je_resources := set_first_index ix (je_resources e)\<rparr>))) (\<lambda>_.
         then_do (save_journal P) (\<lambda>_ d. (Ok ix, d)))))"

text \<open>The second part, with the TUN executor at hand.\<close>

definition xray_network ::
    "ipnet_crate \<Rightarrow> 'k platform \<Rightarrow> 'k wg_system \<Rightarrow> nat \<Rightarrow> nat \<Rightarrow> xray_plan \<Rightarrow> full_resource option \<Rightarrow> (unit, 'k) cmd" where
  "xray_network N P wg i ix plan full =
     then_do (exclusive P i (xray_address plan ix) (wx_add_address wg ix (xn_address plan))) (\<lambda>_.
     then_do (on_world (wx_set_mtu wg ix (xn_mtu plan))) (\<lambda>_.
     then_do (on_world (wx_set_state wg ix True)) (\<lambda>_.
     then_do (ensure_xray_quic P i) (\<lambda>_.
     then_do (add_xray_bypass_routes N P i plan) (\<lambda>_.
     then_do (for_each (\<lambda>r. exclusive P i (Route r) (rx_add (pf_routes P) r)) (map (xray_route plan full ix) (xn_routes plan))) (\<lambda>_.
     then_do (for_each (\<lambda>r. exclusive P i (Rule r) (with_policy P (\<lambda>px. px_add_rule px r)))
       (case full of None \<Rightarrow> [] | Some f \<Rightarrow> full_policy_rules f)) (\<lambda>_.
     xray_dns_steps P i ix plan full)))))))"

definition apply_xray_plan ::
    "ipnet_crate \<Rightarrow> 'k platform \<Rightarrow> 'k xray_runner \<Rightarrow> nat \<Rightarrow> nat \<Rightarrow> xray_plan \<Rightarrow> full_resource option
       \<Rightarrow> 'k daemon \<Rightarrow> unit xray \<times> 'k daemon" where
  "apply_xray_plan N P run i uid plan full d =
     (case launch_xray P run i uid plan d of
        (Err e, d) \<Rightarrow> (Err (Rejected e), d)
      | (Ok ix, d) \<Rightarrow>
          (case pf_wg P of
             None \<Rightarrow> (case save_journal P (add_resource i (xray_address plan ix) d) of
                 (Err e, d) \<Rightarrow> (Err (Rejected e), d) | (Ok _, d) \<Rightarrow> (Err Panicked, d))
           | Some wg \<Rightarrow> (case xray_network N P wg i ix plan full d of
                 (Err e, d) \<Rightarrow> (Err (Rejected e), d) | (Ok u, d) \<Rightarrow> (Ok u, d))))"

definition xray_full :: "'k platform \<Rightarrow> nat \<Rightarrow> xray_plan \<Rightarrow> 'k daemon \<Rightarrow> full_resource option io" where
  "xray_full P m plan d =
     (if \<not> xn_full_ipv4 plan \<and> \<not> xn_full_ipv6 plan then Ok None
      else if list_ex (\<lambda>e. list_ex owns_full (je_resources e)) (d_journal d) then Err AlreadyExists
      else if pf_policy P = None then Err NotConnected
      else Ok (Some \<lparr> fr_table = m, fr_fwmark = m, fr_priority_main = 10000 + (m - 51820) * 2,
             fr_priority_tunnel = 10001 + (m - 51820) * 2, fr_ipv4 = xn_full_ipv4 plan, fr_ipv6 = xn_full_ipv6 plan \<rparr>))"

definition fresh_process :: "nat \<Rightarrow> string \<Rightarrow> nat \<Rightarrow> xray_plan \<Rightarrow> full_resource option \<Rightarrow> xray_process" where
  "fresh_process uid owner m plan full =
     \<lparr> xp_name = xn_name plan, xp_index = 0, xp_owner_marker = wg_marker uid owner, xp_transport_mark = m, xp_full = full,
       xp_failover = xn_failover plan, xp_reject_quic = xn_reject_quic plan, xp_probe_url = xn_probe_url plan,
       xp_pinned_keys = xn_pinned_keys plan, xp_proxy_exits = xn_proxy_exits plan, xp_mtu = Some (xn_mtu plan) \<rparr>"

definition xray_entry :: "nat \<Rightarrow> string \<Rightarrow> nat \<Rightarrow> xray_plan \<Rightarrow> full_resource option \<Rightarrow> journal_entry" where
  "xray_entry uid owner m plan full =
     \<lparr> je_uid = uid, je_owner = owner, je_state = Applying, je_resources = [XrayProcess (fresh_process uid owner m plan full)] \<rparr>"

text \<open>Everything before the first change: the executors, the link name and the full-tunnel slot, and the plan.\<close>

definition ready_xray :: "'k platform \<Rightarrow> nat \<Rightarrow> xray_plan \<Rightarrow> 'k daemon \<Rightarrow> (full_resource option \<times> 'k xray_runner) io" where
  "ready_xray P m plan d =
     (case pf_xray P of
        None \<Rightarrow> Err NotConnected
      | Some run \<Rightarrow>
          (case xr_verify_binary run (d_world d) of
             Err e \<Rightarrow> Err e
           | Ok _ \<Rightarrow>
               (case pr_link_index run (xn_name plan) (d_world d) of
                  Err e \<Rightarrow> Err e
                | Ok link \<Rightarrow>
                    if link \<noteq> None then Err AlreadyExists
                    else (case xray_full P m plan d of
                      Err e \<Rightarrow> Err e
                    | Ok full \<Rightarrow> if xn_dns_servers plan \<noteq> [] \<and> pf_dns P = None then Err NotConnected else Ok (full, run)))))"

definition plan_xray ::
    "xray_libs \<Rightarrow> 'k platform \<Rightarrow> nat \<Rightarrow> xray_params \<Rightarrow> 'k daemon \<Rightarrow> (nat \<times> xray_plan \<times> full_resource option \<times> 'k xray_runner) xray" where
  "plan_xray L P uid prm d =
     (let owner = xray_owner (xc_profile_id prm) in
      if \<not> validate_owner owner then Err (Rejected InvalidInput)
      else if owner_position uid owner d \<noteq> None then Err (Rejected AlreadyExists)
      else case allocate_openvpn_mark P d of
        Err e \<Rightarrow> Err (Rejected e)
      | Ok m \<Rightarrow>
          andthen (prepare_xray L uid prm m) (\<lambda>plan.
          andthen (pin_server_addresses L (\<lambda>_ h. resolve_host_addrs P h (d_world d)) plan) (\<lambda>plan.
          case ready_xray P m plan d of Err e \<Rightarrow> Err (Rejected e) | Ok (full, run) \<Rightarrow> Ok (m, plan, full, run))))"

definition roll_back_xray :: "'k platform \<Rightarrow> nat \<Rightarrow> error_kind \<Rightarrow> 'k daemon \<Rightarrow> xray_status_view xray \<times> 'k daemon" where
  "roll_back_xray P i e d = (Err (Rejected e), persist P (snd (teardown_xray_entry P i d)))"

definition connected_xray ::
    "xray_libs \<Rightarrow> workers \<Rightarrow> nat \<Rightarrow> string \<Rightarrow> xray_plan \<Rightarrow> nat \<Rightarrow> 'k daemon \<Rightarrow> 'k daemon" where
  "connected_xray L wk uid owner plan i d =
     (let key = (uid, owner);
          d = d\<lparr>d_xray_restarts := (d_xray_restarts d)(key := None), d_tunnel_failed := d_tunnel_failed d - {key}\<rparr>;
          d = ensure_watchdog wk i (start_failover key d)
      in snd (set_xray_service_checks L wk uid (xn_profile_id plan) (xn_service_checks plan) d))"

definition connect_xray ::
    "xray_libs \<Rightarrow> 'k platform \<Rightarrow> workers \<Rightarrow> nat \<Rightarrow> xray_params \<Rightarrow> 'k daemon \<Rightarrow> xray_status_view xray \<times> 'k daemon" where
  "connect_xray L P wk uid prm d =
     (case plan_xray L P uid prm d of
        Err e \<Rightarrow> (Err e, d)
      | Ok (m, plan, full, run) \<Rightarrow>
          (let owner = xray_owner (xc_profile_id prm); i = length (d_journal d) in
           case save_journal P (d\<lparr>d_journal := d_journal d @ [xray_entry uid owner m plan full]\<rparr>) of
             (Err e, d) \<Rightarrow> (Err (Rejected e), d\<lparr>d_journal := butlast (d_journal d)\<rparr>)
           | (Ok _, d) \<Rightarrow>
               (case apply_xray_plan (xl_net L) P run i uid plan full d of
                  (Err Panicked, d) \<Rightarrow> (Err Panicked, d)
                | (Err (Rejected e), d) \<Rightarrow> roll_back_xray P i e d
                | (Ok _, d) \<Rightarrow>
                    (case save_journal P (set_entry i (mark_state Applied) d) of
                       (Err e, d) \<Rightarrow> roll_back_xray P i e d
                     | (Ok _, d) \<Rightarrow>
                         (let d = connected_xray L wk uid owner plan i d
                          in (Ok (xray_status P wk uid (xn_profile_id plan) d), d))))))"

definition disconnect_xray :: "'k platform \<Rightarrow> nat \<Rightarrow> string \<Rightarrow> 'k daemon \<Rightarrow> unit io \<times> 'k daemon" where
  "disconnect_xray P uid profile_id d =
     (let owner = xray_owner profile_id; key = (uid, owner) in
      case owner_position uid owner d of
        None \<Rightarrow> if key \<in> d_tunnel_failed d then (Ok (), d\<lparr>d_tunnel_failed := d_tunnel_failed d - {key}\<rparr>) else (Err NotFound, d)
      | Some i \<Rightarrow>
          (let (res, d) = teardown_entry P i d;
               d = d\<lparr>d_failovers := d_failovers d - {key}, d_xray_restarts := (d_xray_restarts d)(key := None)\<rparr>
           in case save_journal P d of (Err e, d) \<Rightarrow> (Err e, d) | (Ok _, d) \<Rightarrow> (res, d)))"

section \<open>A link that came back\<close>

fun rebind_resource :: "nat \<Rightarrow> nat \<Rightarrow> owned_resource \<Rightarrow> owned_resource" where
  "rebind_resource old new (XrayProcess p) = XrayProcess (p\<lparr>xp_index := new\<rparr>)"
| "rebind_resource old new (Route r) = Route (if ar_interface_index r = old then r\<lparr>ar_interface_index := new\<rparr> else r)"
| "rebind_resource old new (Address a) = Address (if wa_interface_index a = old then a\<lparr>wa_interface_index := new\<rparr> else a)"
| "rebind_resource old new (Dns x) = Dns (if wd_interface_index x = old then x\<lparr>wd_interface_index := new\<rparr> else x)"
| "rebind_resource old new r = r"

definition rebound :: "nat \<Rightarrow> nat \<Rightarrow> journal_entry \<Rightarrow> journal_entry" where
  "rebound old new e = e\<lparr>je_resources := map (rebind_resource old new) (je_resources e)\<rparr>"

definition entry_addresses :: "owned_resource list \<Rightarrow> ip_net list" where
  "entry_addresses rs = List.map_filter (\<lambda>r. case r of Address a \<Rightarrow> Some (wa_address a) | _ \<Rightarrow> None) rs"

definition entry_mtus :: "owned_resource list \<Rightarrow> nat list" where
  "entry_mtus rs = List.map_filter (\<lambda>r. case r of XrayProcess p \<Rightarrow> xp_mtu p | _ \<Rightarrow> None) rs"

definition on_tun :: "nat \<Rightarrow> applied_route \<Rightarrow> bool" where
  "on_tun ix r \<longleftrightarrow> ar_interface_index r = ix \<and> ar_gateway r = None"

definition readd_route :: "'k platform \<Rightarrow> applied_route \<Rightarrow> (unit, 'k) cmd" where
  "readd_route P r d = (case on_world (rx_add (pf_routes P) r) d of
     (Ok _, d) \<Rightarrow> (Ok (), d) | (Err e, d) \<Rightarrow> if e = AlreadyExists then (Ok (), d) else (Err e, d))"

fun set_dns_applied :: "bool \<Rightarrow> owned_resource list \<Rightarrow> owned_resource list" where
  "set_dns_applied b [] = []"
| "set_dns_applied b (Dns x # rs) = Dns (x\<lparr>wd_applied := b\<rparr>) # rs"
| "set_dns_applied b (r # rs) = r # set_dns_applied b rs"

definition reapply_entry_dns :: "'k dns_executor \<Rightarrow> nat \<Rightarrow> wg_dns \<Rightarrow> 'k daemon \<Rightarrow> 'k daemon" where
  "reapply_entry_dns dx i x d =
     (let (out, w) = dx_apply dx (wd_name x) (wd_servers x) (wd_domains x) (wd_full x) (d_world d)
      in set_entry i (\<lambda>e. e\<lparr>je_resources := set_dns_applied (out = Ok DnsApplied) (je_resources e)\<rparr>) (d\<lparr>d_world := w\<rparr>))"

definition rebind_dns :: "'k platform \<Rightarrow> nat \<Rightarrow> owned_resource list \<Rightarrow> (unit, 'k) cmd" where
  "rebind_dns P i rs d =
     (case (find_dns rs, pf_dns P) of
        (Some x, Some dx) \<Rightarrow> save_journal P (reapply_entry_dns dx i x d)
      | _ \<Rightarrow> skip d)"

text \<open>Without a TUN executor an entry with an address is refused, one without an address makes the daemon panic.\<close>

definition rebind_xray_link :: "'k platform \<Rightarrow> nat \<Rightarrow> nat \<Rightarrow> nat \<Rightarrow> 'k daemon \<Rightarrow> unit xray \<times> 'k daemon" where
  "rebind_xray_link P i old new d =
     (case save_journal P (set_entry i (rebound old new) d) of
        (Err e, d) \<Rightarrow> (Err (Rejected e), d)
      | (Ok _, d) \<Rightarrow>
          (let rs = je_resources (d_journal d ! i) in
           case pf_wg P of
             None \<Rightarrow> (Err (if entry_addresses rs = [] then Panicked else Rejected NotConnected), d)
           | Some wg \<Rightarrow>
               (case then_do (for_each (\<lambda>a. on_world (wx_add_address wg new a)) (entry_addresses rs)) (\<lambda>_.
                     then_do (on_world (wx_set_state wg new True)) (\<lambda>_.
                     then_do (for_each (\<lambda>mtu. on_world (wx_set_mtu wg new mtu)) (entry_mtus rs)) (\<lambda>_.
                     then_do (ensure_xray_quic P i) (\<lambda>_.
                     then_do (for_each (readd_route P) (filter (on_tun new) (entry_routes rs))) (\<lambda>_.
                     rebind_dns P i rs))))) d of
                  (Err e, d) \<Rightarrow> (Err (Rejected e), d)
                | (Ok u, d) \<Rightarrow> (Ok u, d))))"

section \<open>Reloading\<close>

definition sorted_same :: "'a list \<Rightarrow> 'a list \<Rightarrow> bool" where
  "sorted_same xs ys \<longleftrightarrow> mset xs = mset ys"

definition entry_table :: "full_resource option \<Rightarrow> policy_route \<Rightarrow> nat option" where
  "entry_table full r = (case full of None \<Rightarrow> None
     | Some f \<Rightarrow> if is_full_route (fr_ipv4 f) (fr_ipv6 f) (pr_destination r) then Some (fr_table f) else None)"

text \<open>Two sorted vectors are equal when the vectors hold the same elements equally often.\<close>

definition ensure_xray_reload_compatible :: "'k platform \<Rightarrow> nat \<Rightarrow> xray_plan \<Rightarrow> xray_process \<Rightarrow> 'k daemon \<Rightarrow> bool" where
  "ensure_xray_reload_compatible P i plan p d \<longleftrightarrow>
     (let rs = je_resources (d_journal d ! i); routes = entry_routes rs in
      xn_name plan = xp_name p \<and> xn_full_ipv4 plan = full_flag fr_ipv4 (Some p) \<and> xn_full_ipv6 plan = full_flag fr_ipv6 (Some p)
      \<and> xn_reject_quic plan = xp_reject_quic p \<and> (case xp_mtu p of None \<Rightarrow> True | Some m \<Rightarrow> m = xn_mtu plan)
      \<and> xn_proxy_exits plan = xp_proxy_exits p
      \<and> entry_addresses rs = [xn_address plan]
      \<and> (case find_dns rs of
           Some x \<Rightarrow> xn_dns_servers plan \<noteq> [] \<and> wd_servers x = xn_dns_servers plan \<and> wd_domains x = xn_dns_domains plan
         | None \<Rightarrow> xn_dns_servers plan = [])
      \<and> sorted_same (map route_view (filter (\<lambda>r. ar_interface_index r = xp_index p) routes))
          (map (\<lambda>r. (pr_destination r, pr_metric r, entry_table (xp_full p) r)) (xn_routes plan))
      \<and> sorted_same (map ar_destination (filter (\<lambda>r. ar_interface_index r \<noteq> xp_index p) routes))
          (map host_net (bypass_targets P plan (d_world d))))"

definition reload_resource :: "xray_plan \<Rightarrow> owned_resource \<Rightarrow> owned_resource" where
  "reload_resource plan r = (case r of
     XrayProcess p \<Rightarrow> XrayProcess (p\<lparr>xp_failover := xn_failover plan, xp_probe_url := xn_probe_url plan,
       xp_pinned_keys := xn_pinned_keys plan, xp_mtu := Some (xn_mtu plan)\<rparr>)
   | _ \<Rightarrow> r)"

definition reloaded :: "xray_plan \<Rightarrow> journal_entry \<Rightarrow> journal_entry" where
  "reloaded plan e = e\<lparr>je_resources := map (reload_resource plan) (je_resources e)\<rparr>"

definition drop_workers :: "owner_key \<Rightarrow> 'k daemon \<Rightarrow> 'k daemon" where
  "drop_workers key d = d\<lparr>d_failovers := d_failovers d - {key}, d_watchdogs := d_watchdogs d - {key},
     d_service_checks := d_service_checks d - {key}\<rparr>"

text \<open>The child is replaced: stop its workers, reload, look its link up again.\<close>

definition replace_xray :: "'k platform \<Rightarrow> owner_key \<Rightarrow> xray_plan \<Rightarrow> (nat, 'k) cmd" where
  "replace_xray P key plan =
     then_do (edit (drop_workers key)) (\<lambda>_.
     case pf_xray P of
       None \<Rightarrow> fail NotConnected
     | Some run \<Rightarrow>
         then_do (on_world (xr_reload run (fst key) (xn_name plan) (xn_config plan) (xn_geo_assets plan))) (\<lambda>_.
         then_do (observing (pr_link_index run (xn_name plan))) (\<lambda>link.
         case link of None \<Rightarrow> fail NotConnected | Some ix \<Rightarrow> (\<lambda>d. (Ok ix, d)))))"

definition reload_xray ::
    "xray_libs \<Rightarrow> 'k platform \<Rightarrow> workers \<Rightarrow> nat \<Rightarrow> xray_params \<Rightarrow> 'k daemon \<Rightarrow> xray_status_view xray \<times> 'k daemon" where
  "reload_xray L P wk uid prm d =
     (let owner = xray_owner (xc_profile_id prm); key = (uid, owner); reject = (\<lambda>e d. (Err (Rejected e), d)) in
      if \<not> validate_owner owner then reject InvalidInput d
      else case owner_position uid owner d of
        None \<Rightarrow> reject NotFound d
      | Some i \<Rightarrow>
          if je_state (d_journal d ! i) \<noteq> Applied then reject InvalidInput d
          else (case find_xray (je_resources (d_journal d ! i)) of
            None \<Rightarrow> reject InvalidData d
          | Some p \<Rightarrow>
              (case andthen (prepare_xray L uid prm (xp_transport_mark p))
                      (pin_server_addresses L (\<lambda>_ h. resolve_host_addrs P h (d_world d))) of
                 Err e \<Rightarrow> (Err e, d)
               | Ok plan \<Rightarrow>
                   if \<not> ensure_xray_reload_compatible P i plan p d then reject InvalidInput d
                   else (case replace_xray P key plan d of
                     (Err e, d) \<Rightarrow> reject e d
                   | (Ok ix, d) \<Rightarrow>
                       (case rebind_xray_link P i (xp_index p) ix d of
                          (Err e, d) \<Rightarrow> (Err e, d)
                        | (Ok _, d) \<Rightarrow>
                            (case save_journal P (set_entry i (reloaded plan) d) of
                               (Err e, d) \<Rightarrow> reject e d
                             | (Ok _, d) \<Rightarrow>
                                 (let d = connected_xray L wk uid owner plan i d
                                  in (Ok (xray_status P wk uid (xn_profile_id plan) d), d))))))))"

section \<open>Healing a dead child\<close>

definition MAX_XRAY_RESPAWNS :: nat where "MAX_XRAY_RESPAWNS = 3"

definition restarts :: "owner_key \<Rightarrow> 'k daemon \<Rightarrow> nat" where
  "restarts key d = (case d_xray_restarts d key of None \<Rightarrow> 0 | Some n \<Rightarrow> n)"

text \<open>Telling the watchdog of the recovery changes the worker only.\<close>

definition heal_xray :: "'k platform \<Rightarrow> workers \<Rightarrow> nat \<Rightarrow> bool \<Rightarrow> 'k daemon \<Rightarrow> bool xray \<times> 'k daemon" where
  "heal_xray P wk i intentional d =
     (let e = d_journal d ! i; key = je_key e; reject = (\<lambda>e d. (Err (Rejected e), d)) in
      case find_xray (je_resources e) of
        None \<Rightarrow> reject InvalidData d
      | Some p \<Rightarrow>
          if \<not> intentional \<and> restarts key d \<ge> MAX_XRAY_RESPAWNS then (Ok False, d)
          else
            (let attempts = restarts key d;
                 d = d\<lparr>d_failovers := d_failovers d - {key}\<rparr>;
                 d = (if intentional then d else d\<lparr>d_xray_restarts := (d_xray_restarts d)(key \<mapsto> attempts + 1)\<rparr>)
             in case pf_xray P of
                  None \<Rightarrow> reject NotConnected d
                | Some run \<Rightarrow>
                    (case on_world (xr_respawn run (je_uid e) (xp_name p)) d of
                       (Err err, d) \<Rightarrow> reject err d
                     | (Ok _, d) \<Rightarrow>
                         (case pr_link_index run (xp_name p) (d_world d) of
                            Err err \<Rightarrow> reject err d
                          | Ok None \<Rightarrow> reject NotConnected d
                          | Ok (Some ix) \<Rightarrow>
                              (case rebind_xray_link P i (xp_index p) ix d of
                                 (Err err, d) \<Rightarrow> (Err err, d)
                               | (Ok _, d) \<Rightarrow> (Ok True, ensure_watchdog wk i (ensure_failover i d)))))))"

end
