(* ===== verification/Net_Reconcile.thy ===== *)
theory Net_Reconcile
  imports Xray_Connect Manual_Overrides
begin

text \<open>
  The pass over all owners after an uplink change or a resume (\<open>reconcile_network\<close> of \<open>crates/daemon/src/core.rs\<close>): is a tunnel
  alive, healing a dead Xray child, restoring what the kernel lost, moving bypass routes to the current uplink
  (\<open>migrate_owned_bypass\<close>), and \<open>reapply_dns\<close>.
\<close>

section \<open>DNS\<close>

fun on_first_link :: "(wg_link \<Rightarrow> wg_link) \<Rightarrow> owned_resource list \<Rightarrow> owned_resource list" where
  "on_first_link f [] = []"
| "on_first_link f (WireGuardLink l # rs) = WireGuardLink (f l) # rs"
| "on_first_link f (r # rs) = r # on_first_link f rs"

definition dns_warning :: "bool \<Rightarrow> wg_link \<Rightarrow> wg_link" where
  "dns_warning applied l =
     (if applied then l\<lparr>wl_warnings := filter (\<lambda>x. x \<noteq> DnsNotApplied) (wl_warnings l)\<rparr>
      else if DnsNotApplied \<in> set (wl_warnings l) then l else l\<lparr>wl_warnings := wl_warnings l @ [DnsNotApplied]\<rparr>)"

definition same_dns_link :: "(string \<Rightarrow> 'k \<Rightarrow> nat option io) option \<Rightarrow> wg_dns \<Rightarrow> 'k \<Rightarrow> bool" where
  "same_dns_link lookup x w =
     (case lookup of None \<Rightarrow> False | Some f \<Rightarrow> f (wd_name x) w = Ok (Some (wd_interface_index x)))"

definition connected_runtime :: "owner_key \<Rightarrow> 'k daemon \<Rightarrow> bool" where
  "connected_runtime key d = (case d_openvpn_runtime d key of None \<Rightarrow> False
     | Some rt \<Rightarrow> sn_state (ort_snapshot rt) = Some St_Connected)"

text \<open>One entry: \<open>None\<close> is \<open>continue\<close>, otherwise the DNS resource to set again.\<close>

definition dns_due :: "'k platform \<Rightarrow> nat \<Rightarrow> 'k daemon \<Rightarrow> wg_dns option io" where
  "dns_due P i d =
     (let e = d_journal d ! i; rs = je_resources e; w = d_world d in
      if je_state e \<noteq> Applied then Ok None
      else case find_dns rs of
        None \<Rightarrow> Ok None
      | Some x \<Rightarrow>
          if starts_with (je_owner e) ''ovpn:''
          then Ok (if connected_runtime (je_key e) d \<and> same_dns_link (map_option pr_link_index (pf_openvpn P)) x w then Some x else None)
          else if starts_with (je_owner e) ''xray:''
          then Ok (if same_dns_link (map_option pr_link_index (pf_xray P)) x w then Some x else None)
          else if starts_with (je_owner e) ''wg:''
          then (case (pf_wg P, find_wg_link rs) of
                  (Some wg, Some l) \<Rightarrow>
                    (case wx_link_owned wg (wl_name l) (wl_index l) (wl_owner_marker l) w of
                       Err err \<Rightarrow> Err err | Ok ours \<Rightarrow> Ok (if ours then Some x else None))
                | _ \<Rightarrow> Ok None)
          else Ok None)"

definition dns_edit :: "bool \<Rightarrow> journal_entry \<Rightarrow> journal_entry" where
  "dns_edit applied e = e\<lparr>je_resources :=
     (if starts_with (je_owner e) ''wg:'' then on_first_link (dns_warning applied) else id) (set_dns_applied applied (je_resources e))\<rparr>"

fun reapply_from :: "'k platform \<Rightarrow> 'k dns_executor \<Rightarrow> nat list \<Rightarrow> bool \<Rightarrow> (bool, 'k) cmd" where
  "reapply_from P dx [] changed d = (Ok changed, d)"
| "reapply_from P dx (i # ixs) changed d =
     (case dns_due P i d of
        Err e \<Rightarrow> (Err e, d)
      | Ok None \<Rightarrow> reapply_from P dx ixs changed d
      | Ok (Some x) \<Rightarrow>
          (let (out, w) = dx_apply dx (wd_name x) (wd_servers x) (wd_domains x) (wd_full x) (d_world d);
               d' = set_entry i (dns_edit (out = Ok DnsApplied)) (d\<lparr>d_world := w\<rparr>)
           in reapply_from P dx ixs (changed \<or> je_resources (d_journal d' ! i) \<noteq> je_resources (d_journal d ! i)) d'))"

definition reapply_dns :: "'k platform \<Rightarrow> (unit, 'k) cmd" where
  "reapply_dns P d =
     (case pf_dns P of
        None \<Rightarrow> skip d
      | Some dx \<Rightarrow> then_do (reapply_from P dx [0..<length (d_journal d)] False) (\<lambda>changed. if changed then save_journal P else skip) d)"

section \<open>Health\<close>

definition resource_alive :: "'k platform \<Rightarrow> journal_entry \<Rightarrow> 'k daemon \<Rightarrow> owned_resource \<Rightarrow> bool option" where
  "resource_alive P e d r =
     (let w = d_world d in
      case r of
        WireGuardLink l \<Rightarrow>
          (case pf_wg P of None \<Rightarrow> None
           | Some wg \<Rightarrow> (case wx_link_owned wg (wl_name l) (wl_index l) (wl_owner_marker l) w of Ok b \<Rightarrow> Some b | Err _ \<Rightarrow> None))
      | XrayProcess p \<Rightarrow>
          if xp_index p = 0 then None
          else (case pf_xray P of None \<Rightarrow> None
            | Some run \<Rightarrow>
                if xr_health run (xp_name p) w \<noteq> Ok True then Some False
                else (case pr_link_index run (xp_name p) w of Err _ \<Rightarrow> None | Ok link \<Rightarrow> Some (link = Some (xp_index p))))
      | OpenVpnProcess p \<Rightarrow>
          (case pf_openvpn P of None \<Rightarrow> None
           | Some run \<Rightarrow> (case pr_link_index run (op_name p) w of
               Ok (Some link) \<Rightarrow>
                 if connected_runtime (je_key e) d \<and> list_all (\<lambda>x. ar_interface_index x = link) (entry_routes (je_resources e))
                 then Some True else None
             | _ \<Rightarrow> None))
      | _ \<Rightarrow> None)"

definition tunnel_alive :: "'k platform \<Rightarrow> nat \<Rightarrow> 'k daemon \<Rightarrow> bool option" where
  "tunnel_alive P i d = (let e = d_journal d ! i in find_map (resource_alive P e d) (je_resources e))"

section \<open>Moving a bypass route\<close>

definition fresh_bypass_route :: "ipnet_crate \<Rightarrow> 'k platform \<Rightarrow> applied_route \<Rightarrow> 'k \<Rightarrow> applied_route option" where
  "fresh_bypass_route N P r w =
     map_option (\<lambda>(g, oif). r\<lparr>ar_interface_index := oif, ar_gateway := g\<rparr>) (uplink_next_hop N P (ar_destination r) w)"

definition table_of :: "applied_route \<Rightarrow> nat" where
  "table_of r = (case ar_table r of None \<Rightarrow> RT_TABLE_MAIN | Some t \<Rightarrow> t)"

definition same_slot :: "applied_route \<Rightarrow> applied_route \<Rightarrow> bool" where
  "same_slot r s \<longleftrightarrow> ar_destination r = ar_destination s \<and> ar_metric r = ar_metric s \<and> table_of r = table_of s"

definition foreign_slot :: "applied_route \<Rightarrow> applied_route \<Rightarrow> bool \<Rightarrow> system_route \<Rightarrow> bool" where
  "foreign_slot old desired was s \<longleftrightarrow>
     sr_destination s = ar_destination desired \<and> sr_table s = table_of desired
     \<and> (case sr_metric s of None \<Rightarrow> 0 | Some m \<Rightarrow> m) = ar_metric desired
     \<and> \<not> (sr_managed s \<and> (same_route s old \<or> (was \<and> same_route s desired)))"

text \<open>Add the desired route; when the old one holds its place, remove it first.  The flag says that the old route is gone;
  \<open>None\<close> is an early return with the error of the removal.\<close>

definition swap_in :: "'k platform \<Rightarrow> bool \<Rightarrow> applied_route \<Rightarrow> applied_route \<Rightarrow> 'k daemon \<Rightarrow> unit io \<times> bool option \<times> 'k daemon" where
  "swap_in P old_present old desired d =
     (case on_world (rx_add (pf_routes P) desired) d of
        (Ok _, d) \<Rightarrow> (Ok (), Some False, d)
      | (Err e, d) \<Rightarrow>
          if e = AlreadyExists \<and> old_present \<and> same_slot old desired
          then (let (res, d) = on_world (rx_remove (pf_routes P) old) d in
                if removed res then (let (added, d) = on_world (rx_add (pf_routes P) desired) d in (added, Some True, d))
                else (res, None, d))
          else (Err e, Some False, d))"

definition without_route :: "applied_route \<Rightarrow> journal_entry \<Rightarrow> journal_entry" where
  "without_route r e = e\<lparr>je_resources := filter (\<lambda>x. x \<noteq> Route r) (je_resources e)\<rparr>"

definition swap_failed :: "'k platform \<Rightarrow> nat \<Rightarrow> applied_route \<Rightarrow> applied_route \<Rightarrow> bool \<Rightarrow> bool \<Rightarrow> error_kind \<Rightarrow> (bool, 'k) cmd" where
  "swap_failed P i old desired was gone e d =
     (let d = (if gone then snd (on_world (rx_add (pf_routes P) old) d) else d) in
      if e = AlreadyExists \<and> \<not> was
      then (case save_journal P (set_entry i (without_route desired) d) of (Err e', d) \<Rightarrow> (Err e', d) | (Ok _, d) \<Rightarrow> (Err e, d))
      else (Err e, d))"

definition retire_old :: "'k platform \<Rightarrow> nat \<Rightarrow> applied_route \<Rightarrow> bool \<Rightarrow> bool \<Rightarrow> (bool, 'k) cmd" where
  "retire_old P i old gone changed d =
     (let finish = (\<lambda>b d. case save_journal P (set_entry i (without_route old) d) of (Err e, d) \<Rightarrow> (Err e, d) | (Ok _, d) \<Rightarrow> (Ok b, d))
      in if gone then finish changed d
         else case on_world (rx_remove (pf_routes P) old) d of
           (Ok _, d) \<Rightarrow> finish True d
         | (Err e, d) \<Rightarrow> if e = NotFound then finish changed d else (Err e, d))"

definition migrate_owned_bypass :: "'k platform \<Rightarrow> nat \<Rightarrow> applied_route \<Rightarrow> applied_route \<Rightarrow> (bool, 'k) cmd" where
  "migrate_owned_bypass P i old desired d =
     (let was = (Route desired \<in> set (je_resources (d_journal d ! i))) in
      if list_ex (\<lambda>j. j \<noteq> i \<and> list_ex (\<lambda>r. same_slot r desired) (entry_routes (je_resources (d_journal d ! j)))) [0..<length (d_journal d)]
      then (Err AlreadyExists, d)
      else case pf_net_tables P (d_world d) of
        Err e \<Rightarrow> (Err e, d)
      | Ok tables \<Rightarrow>
          (let old_present = list_ex (\<lambda>s. sr_managed s \<and> same_route s old) (nt_routes tables);
               desired_present = list_ex (\<lambda>s. was \<and> sr_managed s \<and> same_route s desired) (nt_routes tables)
           in if list_ex (foreign_slot old desired was) (nt_routes tables) then (Err AlreadyExists, d)
              else case (if was then (Ok (), d) else save_journal P (add_resource i (Route desired) d)) of
                (Err e, d) \<Rightarrow> (Err e, d)
              | (Ok _, d) \<Rightarrow>
                  if desired_present then retire_old P i old False False d
                  else (case swap_in P old_present old desired d of
                    (Ok _, gone, d) \<Rightarrow> retire_old P i old (gone = Some True) True d
                  | (Err e, None, d) \<Rightarrow> (Err e, d)
                  | (Err e, Some gone, d) \<Rightarrow> swap_failed P i old desired was gone e d)))"

section \<open>Restoring an owner\<close>

definition tun_indices :: "owned_resource list \<Rightarrow> nat list" where
  "tun_indices rs = List.map_filter (\<lambda>r. case r of XrayProcess p \<Rightarrow> if xp_index p \<noteq> 0 then Some (xp_index p) else None | _ \<Rightarrow> None) rs"

definition is_bypass :: "nat list \<Rightarrow> applied_route \<Rightarrow> bool" where
  "is_bypass tuns r \<longleftrightarrow> ar_gateway r \<noteq> None \<or> (tuns \<noteq> [] \<and> ar_interface_index r \<notin> set tuns)"

definition readd_owned :: "'k platform \<Rightarrow> applied_route list \<Rightarrow> bool \<Rightarrow> applied_route \<Rightarrow> (bool, 'k) cmd" where
  "readd_owned P observed bypass r d =
     (if list_ex (\<lambda>s. kernel_route s = kernel_route r) observed then (Ok False, d)
      else case on_world (rx_add (pf_routes P) r) d of
        (Ok _, d) \<Rightarrow> (Ok True, d)
      | (Err e, d) \<Rightarrow> if e = AlreadyExists \<or> bypass then (Ok False, d) else (Err e, d))"

definition restore_route ::
    "ipnet_crate \<Rightarrow> 'k platform \<Rightarrow> nat \<Rightarrow> nat list \<Rightarrow> applied_route list \<Rightarrow> applied_route \<Rightarrow> (bool, 'k) cmd" where
  "restore_route N P i tuns observed r d =
     (if Route r \<notin> set (je_resources (d_journal d ! i)) then (Ok False, d)
      else if is_bypass tuns r
      then (case fresh_bypass_route N P r (d_world d) of
              None \<Rightarrow> (Ok False, d)
            | Some desired \<Rightarrow>
                if desired \<noteq> r
                then (case migrate_owned_bypass P i r desired d of (Ok b, d) \<Rightarrow> (Ok b, d) | (Err _, d) \<Rightarrow> (Ok False, d))
                else readd_owned P observed True r d)
      else readd_owned P observed False r d)"

fun restore_each :: "('a \<Rightarrow> (bool, 'k) cmd) \<Rightarrow> 'a list \<Rightarrow> bool \<Rightarrow> (bool, 'k) cmd" where
  "restore_each f [] restored d = (Ok restored, d)"
| "restore_each f (x # xs) restored d =
     (case f x d of (Err e, d) \<Rightarrow> (Err e, d) | (Ok b, d) \<Rightarrow> restore_each f xs (restored \<or> b) d)"

definition entry_rules :: "owned_resource list \<Rightarrow> owned_rule list" where
  "entry_rules rs = List.map_filter (\<lambda>r. case r of Rule x \<Rightarrow> Some x | _ \<Rightarrow> None) rs"

definition restore_rule :: "'k platform \<Rightarrow> owned_rule \<Rightarrow> (bool, 'k) cmd" where
  "restore_rule P x d =
     (case pf_policy P of
        None \<Rightarrow> (Err NotConnected, d)
      | Some px \<Rightarrow>
          (case px_rule_present px x (d_world d) of
             Err e \<Rightarrow> (Err e, d)
           | Ok True \<Rightarrow> (Ok False, d)
           | Ok False \<Rightarrow> then_do (on_world (px_add_rule px x)) (\<lambda>_ d. (Ok True, d)) d))"

definition restore_owned_network :: "ipnet_crate \<Rightarrow> 'k platform \<Rightarrow> nat \<Rightarrow> applied_route list \<Rightarrow> (bool, 'k) cmd" where
  "restore_owned_network N P i observed d =
     (let rs = je_resources (d_journal d ! i) in
      then_do (restore_each (restore_route N P i (tun_indices rs) observed) (entry_routes rs) False) (\<lambda>restored.
      restore_each (restore_rule P) (entry_rules rs) restored) d)"

section \<open>The pass\<close>

text \<open>What one turn of the loop comes to: \<open>continue\<close>, a result, an error, an owner that was torn down on the spot, or a panic.\<close>

datatype turn = Turn_Skip | Turn_Done bool | Turn_Error | Turn_Dropped | Turn_Panic

fun turn_of :: "bool io \<Rightarrow> turn" where
  "turn_of (Ok b) = Turn_Done b"
| "turn_of (Err _) = Turn_Error"

definition drop_failed :: "'k platform \<Rightarrow> nat \<Rightarrow> owner_key \<Rightarrow> 'k daemon \<Rightarrow> 'k daemon" where
  "drop_failed P i key d =
     (let d = persist P (snd (teardown_entry P i d)) in d\<lparr>d_tunnel_failed := insert key (d_tunnel_failed d)\<rparr>)"

definition dead_turn :: "ipnet_crate \<Rightarrow> 'k platform \<Rightarrow> workers \<Rightarrow> nat \<Rightarrow> applied_route list \<Rightarrow> 'k daemon \<Rightarrow> turn \<times> 'k daemon" where
  "dead_turn N P wk i observed d =
     (let key = je_key (d_journal d ! i) in
      if \<not> starts_with (snd key) ''xray:'' then (Turn_Error, d)
      else
        (let d = (if wk_network wk then ensure_watchdog wk i d else d) in
         if wk_network wk \<and> \<not> (key \<in> d_watchdogs d \<and> wk_online wk key) then (Turn_Skip, d)
         else case heal_xray P wk i False d of
           (Ok True, d) \<Rightarrow> apfst turn_of (restore_owned_network N P i observed d)
         | (Err Panicked, d) \<Rightarrow> (Turn_Panic, d)
         | (_, d) \<Rightarrow> (Turn_Error, d)))"

definition alive_turn :: "ipnet_crate \<Rightarrow> 'k platform \<Rightarrow> workers \<Rightarrow> nat \<Rightarrow> applied_route list \<Rightarrow> 'k daemon \<Rightarrow> turn \<times> 'k daemon" where
  "alive_turn N P wk i observed d =
     (let key = je_key (d_journal d ! i);
          d = ensure_watchdog wk i (ensure_failover i d);
          restore = (\<lambda>d. apfst turn_of (then_do (ensure_xray_quic P i) (\<lambda>_. restore_owned_network N P i observed) d))
      in if key \<in> d_watchdogs d \<and> wk_request wk key
         then (case heal_xray P wk i True d of
                 (Ok True, d) \<Rightarrow> restore d
               | (Err Panicked, d) \<Rightarrow> (Turn_Panic, d)
               | (_, d) \<Rightarrow> (Turn_Dropped, drop_failed P i key d))
         else restore d)"

fun find_attach :: "owned_resource list \<Rightarrow> attach_spec option" where
  "find_attach [] = None"
| "find_attach (AttachSpec s # rs) = Some s"
| "find_attach (_ # rs) = find_attach rs"

definition reconcile_turn :: "ipnet_crate \<Rightarrow> 'k platform \<Rightarrow> workers \<Rightarrow> applied_route list \<Rightarrow> nat \<Rightarrow> 'k daemon \<Rightarrow> turn \<times> 'k daemon" where
  "reconcile_turn N P wk observed i d =
     (let e = d_journal d ! i in
      if je_state e \<noteq> Applied then (Turn_Skip, d)
      else case find_attach (je_resources e) of
        Some spec \<Rightarrow> apfst Turn_Done (reconcile_attach N P i spec observed d)
      | None \<Rightarrow>
          if je_owner e = MANUAL_OWNER then apfst Turn_Done (reconcile_manual P i d)
          else case tunnel_alive P i d of
            None \<Rightarrow> (Turn_Skip, d)
          | Some False \<Rightarrow> dead_turn N P wk i observed d
          | Some True \<Rightarrow> alive_turn N P wk i observed d)"

definition fail_owner :: "'k platform \<Rightarrow> nat \<Rightarrow> owner_key \<Rightarrow> 'k daemon \<Rightarrow> 'k daemon" where
  "fail_owner P i key d =
     (if starts_with (snd key) ''ovpn:'' then snd (fail_openvpn P (fst key) (snd key) d) else drop_failed P i key d)"

text \<open>The indices from the last entry to the first; \<open>None\<close> is a panic.\<close>

fun reconcile_from ::
    "ipnet_crate \<Rightarrow> 'k platform \<Rightarrow> workers \<Rightarrow> applied_route list \<Rightarrow> nat list \<Rightarrow> owner_key list \<Rightarrow> 'k daemon \<Rightarrow> owner_key list option \<times> 'k daemon" where
  "reconcile_from N P wk observed [] changed d = (Some changed, d)"
| "reconcile_from N P wk observed (i # ixs) changed d =
     (let key = je_key (d_journal d ! i) in
      case reconcile_turn N P wk observed i d of
        (Turn_Skip, d) \<Rightarrow> reconcile_from N P wk observed ixs changed d
      | (Turn_Done b, d) \<Rightarrow> reconcile_from N P wk observed ixs (if b then changed @ [key] else changed) d
      | (Turn_Error, d) \<Rightarrow> reconcile_from N P wk observed ixs (changed @ [key]) (fail_owner P i key d)
      | (Turn_Dropped, d) \<Rightarrow> reconcile_from N P wk observed ixs (changed @ [key]) d
      | (Turn_Panic, d) \<Rightarrow> (None, d))"

definition reconcile_network ::
    "ipnet_crate \<Rightarrow> 'k platform \<Rightarrow> workers \<Rightarrow> applied_route list \<Rightarrow> 'k daemon \<Rightarrow> owner_key list option \<times> 'k daemon" where
  "reconcile_network N P wk observed d = reconcile_from N P wk observed (rev [0..<length (d_journal d)]) [] d"

end
