(* ===== verification/Tunnel_Safety.thy ===== *)
theory Tunnel_Safety
  imports Ovpn_Safety Net_Reconcile Xray_Safety
begin

text \<open>
  What Xray connections do to the journal and to the host.  The locale \<open>xray_monitor\<close> extends the contract of
  the monitored host by the Xray process and the QUIC filter; the steps of a connection are followed on their entry with
  \<open>at_slot\<close>.
\<close>

section \<open>Frames\<close>

lemma worker_frames [simp]:
  "d_journal (ensure_watchdog wk i d) = d_journal d" "d_world (ensure_watchdog wk i d) = d_world d"
  "d_journal (ensure_failover i d) = d_journal d" "d_world (ensure_failover i d) = d_world d"
  "d_journal (start_failover key d) = d_journal d" "d_world (start_failover key d) = d_world d"
  by (simp_all add: ensure_watchdog_def ensure_failover_def start_failover_def Let_def split: option.split prod.split)

lemma restarts_frames [simp]:
  "d_xray_restarts (ensure_watchdog wk i d) = d_xray_restarts d" "d_xray_restarts (ensure_failover i d) = d_xray_restarts d"
  "d_xray_restarts (start_failover key d) = d_xray_restarts d" "d_xray_restarts (set_entry i f d) = d_xray_restarts d"
  by (simp_all add: ensure_watchdog_def ensure_failover_def start_failover_def set_entry_def Let_def split: option.split prod.split)

lemma service_checks_frame [simp]:
  "d_journal (snd (set_xray_service_checks L wk uid p cs d)) = d_journal d"
  "d_world (snd (set_xray_service_checks L wk uid p cs d)) = d_world d"
  "d_xray_restarts (snd (set_xray_service_checks L wk uid p cs d)) = d_xray_restarts d"
  "d_tunnel_failed (snd (set_xray_service_checks L wk uid p cs d)) = d_tunnel_failed d"
  "d_failovers (snd (set_xray_service_checks L wk uid p cs d)) = d_failovers d"
  by (auto simp: set_xray_service_checks_def Let_def split: option.split)

lemma connected_frame:
  "d_journal (connected_xray L wk uid owner plan i d) = d_journal d" "d_world (connected_xray L wk uid owner plan i d) = d_world d"
  by (simp_all add: connected_xray_def Let_def)

lemma find_quic_mem: "find_quic rs = Some p \<Longrightarrow> XrayProcess p \<in> set rs"
  by (induction rs rule: find_quic.induct) (auto split: if_splits)

definition at_saved :: "('k \<Rightarrow> bool) \<Rightarrow> (journal \<Rightarrow> 'k \<Rightarrow> bool) \<Rightarrow> journal \<Rightarrow> nat \<Rightarrow> owned_resource list \<Rightarrow> 'k daemon \<Rightarrow> bool" where
  "at_saved good saved J i rs d \<longleftrightarrow> at_slot good J i rs d \<and> saved (d_journal d) (d_world d)"

definition xray_dns_slot :: "xray_plan \<Rightarrow> full_resource option \<Rightarrow> nat \<Rightarrow> bool \<Rightarrow> owned_resource list" where
  "xray_dns_slot plan full ix a = (if xn_dns_servers plan = [] then [] else [Dns ((xray_dns plan full ix)\<lparr>wd_applied := a\<rparr>)])"

text \<open>A bypass route is a host route in the main table with metric 5, to one of the addresses that must not go through the tunnel.\<close>

definition bypasses :: "'k platform \<Rightarrow> xray_plan \<Rightarrow> applied_route list \<Rightarrow> bool" where
  "bypasses P plan bs \<longleftrightarrow> (\<exists>w. \<forall>r \<in> set bs. ar_destination r \<in> host_net ` set (bypass_targets P plan w) \<and> ar_metric r = 5 \<and> ar_table r = None)"

text \<open>The resources of a connected tunnel: the process on its link, the address, the bypass routes, the routes of the plan, the policy
  rules of a full tunnel and the DNS setting.\<close>

definition xray_resources :: "xray_process \<Rightarrow> xray_plan \<Rightarrow> full_resource option \<Rightarrow> nat \<Rightarrow> applied_route list \<Rightarrow> bool \<Rightarrow> owned_resource list" where
  "xray_resources p plan full ix bs a = XrayProcess (p\<lparr>xp_index := ix\<rparr>) # xray_address plan ix # map Route bs
     @ map Route (map (xray_route plan full ix) (xn_routes plan)) @ map Rule (case full of None \<Rightarrow> [] | Some f \<Rightarrow> full_policy_rules f)
     @ xray_dns_slot plan full ix a"

lemma pin_profile: "pin_server_addresses L r p = Ok q \<Longrightarrow> xn_profile_id q = xn_profile_id p"
  by (auto simp: pin_server_addresses_def andthen_def Let_def split: option.splits result.splits prod.splits)

lemma andthen_OkE: "andthen r k = Ok y \<Longrightarrow> (\<And>x. r = Ok x \<Longrightarrow> k x = Ok y \<Longrightarrow> Q) \<Longrightarrow> Q"
  by (cases r) (auto simp: andthen_def)

lemma guard_OkE: "guard b k = Ok y \<Longrightarrow> (k = Ok y \<Longrightarrow> Q) \<Longrightarrow> Q"
  by (auto simp: guard_def split: if_splits)

lemma after_OkE: "after v k = Ok y \<Longrightarrow> (k = Ok y \<Longrightarrow> Q) \<Longrightarrow> Q"
  by (auto simp: after_def split: verdict.splits)

lemma prepare_profile:
  assumes "prepare_xray L uid prm m = Ok p"
  shows "xn_profile_id p = xc_profile_id prm"
  using assms unfolding prepare_xray_def Let_def
  by (auto elim!: guard_OkE after_OkE andthen_OkE split: if_splits option.splits)

lemma ready_xray_Ok: "ready_xray P m plan d = Ok (full, run) \<Longrightarrow> pf_xray P = Some run \<and> xray_full P m plan d = Ok full"
  unfolding ready_xray_def by (auto split: option.splits result.splits if_splits)

lemma plan_xray_Ok:
  assumes "plan_xray L P uid prm d = Ok (m, plan, full, run)"
  shows "owner_position uid (xray_owner (xc_profile_id prm)) d = None \<and> allocate_openvpn_mark P d = Ok m \<and> pf_xray P = Some run
    \<and> xn_profile_id plan = xc_profile_id prm \<and> xray_full P m plan d = Ok full"
proof -
  let ?o = "xray_owner (xc_profile_id prm)" and ?R = "\<lambda>_ h. resolve_host_addrs P h (d_world d)"
  have free: "owner_position uid ?o d = None" using assms by (auto simp: plan_xray_def Let_def split: if_splits)
  obtain m' where mark: "allocate_openvpn_mark P d = Ok m'"
    using assms by (cases "allocate_openvpn_mark P d") (auto simp: plan_xray_def Let_def split: if_splits)
  have "andthen (prepare_xray L uid prm m') (\<lambda>plan. andthen (pin_server_addresses L ?R plan) (\<lambda>plan.
      case ready_xray P m' plan d of Err e \<Rightarrow> Err (Rejected e) | Ok (full, run) \<Rightarrow> Ok (m', plan, full, run))) = Ok (m, plan, full, run)"
    using assms mark by (auto simp: plan_xray_def Let_def split: if_splits)
  then obtain p q where p: "prepare_xray L uid prm m' = Ok p" and q: "pin_server_addresses L ?R p = Ok q"
    and r: "(case ready_xray P m' q d of Err e \<Rightarrow> Err (Rejected e) | Ok (full, run) \<Rightarrow> Ok (m', q, full, run)) = Ok (m, plan, full, run)"
    by (auto elim!: andthen_OkE)
  have rd: "ready_xray P m' q d = Ok (full, run) \<and> m' = m \<and> q = plan" using r by (cases "ready_xray P m' q d") (auto split: prod.splits)
  show ?thesis using free mark prepare_profile [OF p] pin_profile [OF q] rd ready_xray_Ok [of P m plan d full run] by auto
qed

definition xray_outcome ::
    "xray_libs \<Rightarrow> 'k platform \<Rightarrow> nat \<Rightarrow> xray_params \<Rightarrow> 'k daemon \<Rightarrow> xray_status_view xray \<Rightarrow> 'k daemon \<Rightarrow> bool" where
  "xray_outcome L P uid prm d res d' \<longleftrightarrow>
     (let owner = xray_owner (xc_profile_id prm); key = (uid, owner) in
      case res of
        Ok st \<Rightarrow> (\<exists>m plan full run ix bs a e. plan_xray L P uid prm d = Ok (m, plan, full, run)
          \<and> 51820 \<le> m \<and> m < 51948 \<and> mark_unused m (d_journal d) \<and> bypasses P plan bs
          \<and> d_journal d' = d_journal d @ [e] \<and> je_key e = key \<and> je_state e = Applied
          \<and> je_resources e = xray_resources (fresh_process uid owner m plan full) plan full ix bs a
          \<and> restarts key d' = 0 \<and> key \<notin> d_tunnel_failed d' \<and> key \<in> d_failovers d'
          \<and> xs_interface_name st = Some (xn_name plan))
      | Err _ \<Rightarrow> d_journal d' = d_journal d \<or> (\<exists>x. d_journal d' = d_journal d @ [x] \<and> je_key x = key))"

locale xray_monitor = tunnel_monitor P good saved for P :: "'k platform" and good saved +
  assumes start_xray: "good w \<Longrightarrow> saved J w \<Longrightarrow> XrayProcess p \<in> resources J \<Longrightarrow> pf_xray P = Some run \<Longrightarrow>
      good (snd (xr_start run u (xp_name p) c g w))"
    and ensure_quic: "good w \<Longrightarrow> saved J w \<Longrightarrow> XrayProcess p \<in> resources J \<Longrightarrow> pf_quic P = Some qx \<Longrightarrow>
      good (snd (qx_ensure qx u (xp_name p) w))"
    and remove_quic: "good w \<Longrightarrow> pf_quic P = Some qx \<Longrightarrow> good (snd (qx_remove qx u n w))"
    and stop_xray: "good w \<Longrightarrow> pf_xray P = Some run \<Longrightarrow> good (snd (pr_stop run n w))"
    and cleanup_xray: "good w \<Longrightarrow> pf_xray P = Some run \<Longrightarrow> good (snd (pr_cleanup run u n w))"
    and link_saved: "saved J w \<Longrightarrow> pf_wg P = Some wg \<Longrightarrow> saved J (snd (wx_add_address wg ix a w))
      \<and> saved J (snd (wx_set_mtu wg ix mtu w)) \<and> saved J (snd (wx_set_state wg ix up w))"
begin

lemma exclusive_saved:
  assumes f: "\<And>w J'. good w \<Longrightarrow> saved J' w \<Longrightarrow> r \<in> resources J' \<Longrightarrow> good (snd (f w))"
    and k: "\<And>w J'. saved J' w \<Longrightarrow> S J' (snd (f w))"
  shows "runs (at_slot good J i rs) (exclusive P i r f) (\<lambda>_ d. at_slot good J i (rs @ [r]) d \<and> S (d_journal d) (d_world d)) (in_slot good J i)"
proof (rule runsI)
  fix d res d'
  assume a: "at_slot good J i rs d" and c: "exclusive P i r f d = (res, d')"
  obtain s d1 where s: "save_journal P (add_resource i r d) = (s, d1)" by (rule prod.exhaust)
  note sv = save_slot [OF at_slot_add [OF a] s]
  note at1 = conjunct1 [OF sv]
  show "case res of Ok x \<Rightarrow> at_slot good J i (rs @ [r]) d' \<and> S (d_journal d') (d_world d') | Err _ \<Rightarrow> in_slot good J i d'"
  proof (cases s)
    case (Err e)
    then have "res = Err e" "d' = d1" using c s by (simp_all add: exclusive_def)
    then show ?thesis using at_slot_in [OF at1] by simp
  next
    case (Ok v)
    obtain r2 w2 where k2: "f (d_world d1) = (r2, w2)" by (rule prod.exhaust)
    have sub: "r \<in> resources (d_journal d1)" using at_slot_resources [OF at1] by simp
    have sd: "saved (d_journal d1) (d_world d1)" using sv Ok by simp
    have "good w2" using f [OF _ sd sub] at1 k2 by (simp add: at_slot_def)
    note at = at_slot_world [OF at1 this]
    have S: "S (d_journal d1) w2" using k [OF sd] k2 by simp
    have "(case r2 of Ok _ \<Rightarrow> (Ok (), d1\<lparr>d_world := w2\<rparr>)
        | Err e \<Rightarrow> (Err e, if e = AlreadyExists then pop_entry i (d1\<lparr>d_world := w2\<rparr>) else d1\<lparr>d_world := w2\<rparr>)) = (res, d')"
      using c s Ok k2 by (cases r2) (auto simp: exclusive_def on_world_def)
    then show ?thesis using at S at_slot_in [OF at] at_slot_in [OF at_slot_pop [OF at]] by (cases r2) auto
  qed
qed

lemmas exclusive_runs = exclusive_saved [where S = "\<lambda>_ _. True", simplified]

lemma each_exclusive_runs:
  assumes f: "\<And>x w J'. good w \<Longrightarrow> saved J' w \<Longrightarrow> res x \<in> resources J' \<Longrightarrow> good (snd (f x w))"
  shows "runs (at_slot good J i rs) (for_each (\<lambda>x. exclusive P i (res x) (f x)) xs) (\<lambda>_. at_slot good J i (rs @ map res xs)) (in_slot good J i)"
proof (induction xs arbitrary: rs)
  case Nil
  then show ?case by (simp add: runs_def skip_def)
next
  case (Cons x xs)
  have "runs (at_slot good J i rs) (then_do (exclusive P i (res x) (f x)) (\<lambda>_. for_each (\<lambda>x. exclusive P i (res x) (f x)) xs))
      (\<lambda>_. at_slot good J i (rs @ map res (x # xs))) (in_slot good J i)"
    using Cons.IH [of "rs @ [res x]"] by (intro runs_then_do [OF exclusive_runs [OF f]]) simp_all
  then show ?case by (simp add: runs_def)
qed

lemma route_exclusives:
  "runs (at_slot good J i rs) (for_each (\<lambda>r. exclusive P i (Route r) (rx_add (pf_routes P) r)) xs)
     (\<lambda>_. at_slot good J i (rs @ map Route xs)) (in_slot good J i)"
  using each_exclusive_runs [of Route "rx_add (pf_routes P)"] add_route by blast

lemma rule_exclusives:
  "runs (at_slot good J i rs) (for_each (\<lambda>r. exclusive P i (Rule r) (with_policy P (\<lambda>px. px_add_rule px r))) xs)
     (\<lambda>_. at_slot good J i (rs @ map Rule xs)) (in_slot good J i)"
proof -
  have *: "good (snd (with_policy P (\<lambda>px. px_add_rule px x) w))"
    if "good w" "saved J' w" "Rule x \<in> resources J'" for x w J'
    using add_rule [OF that] that(1) by (auto simp: with_policy_def split: option.splits)
  show ?thesis by (rule each_exclusive_runs) (erule (2) *)
qed

lemma world_slot:
  assumes "\<And>w J'. good w \<Longrightarrow> saved J' w \<Longrightarrow> set rs \<subseteq> resources J' \<Longrightarrow> good (snd (f w)) \<and> S J' (snd (f w))"
  shows "runs (at_saved good saved J i rs) (on_world f) (\<lambda>_. at_saved good S J i rs) (in_slot good J i)"
proof (rule runsI)
  fix d r d'
  assume a: "at_saved good saved J i rs d" and c: "on_world f d = (r, d')"
  obtain r0 w0 where k: "f (d_world d) = (r0, w0)" by (rule prod.exhaust)
  have "good w0 \<and> S (d_journal d) w0"
    using assms [of "d_world d" "d_journal d"] a k at_slot_resources [of good J i rs d] by (simp add: at_saved_def at_slot_def)
  then have "at_saved good S J i rs d'" using a c k at_slot_world [of good J i rs d w0] by (auto simp: at_saved_def on_world_def)
  then show "case r of Ok x \<Rightarrow> at_saved good S J i rs d' | Err _ \<Rightarrow> in_slot good J i d'"
    using at_slot_in by (cases r) (auto simp: at_saved_def)
qed

lemma quic_runs:
  "runs (at_saved good saved J i rs) (ensure_xray_quic P i) (\<lambda>_. at_slot good J i rs) (in_slot good J i)"
proof (rule runsI)
  fix d r d'
  assume a: "at_saved good saved J i rs d" and c: "ensure_xray_quic P i d = (r, d')"
  have at: "at_slot good J i rs d" using a by (simp add: at_saved_def)
  have rs: "je_resources (d_journal d ! i) = rs" using at by (auto simp: at_slot_def)
  show "case r of Ok x \<Rightarrow> at_slot good J i rs d' | Err _ \<Rightarrow> in_slot good J i d'"
  proof (cases "find_quic rs")
    case None
    then show ?thesis using c at by (auto simp: ensure_xray_quic_def rs skip_def)
  next
    case (Some p)
    show ?thesis
    proof (cases "pf_quic P")
      case None
      then show ?thesis using c Some at_slot_in [OF at] by (auto simp: ensure_xray_quic_def rs fail_def)
    next
      case (Some qx)
      have "XrayProcess p \<in> resources (d_journal d)" using find_quic_mem [OF \<open>find_quic rs = Some p\<close>] at_slot_resources [OF at] by auto
      note q = ensure_quic [OF _ _ this Some]
      obtain r0 w0 where k: "qx_ensure qx (je_uid (d_journal d ! i)) (xp_name p) (d_world d) = (r0, w0)" by (rule prod.exhaust)
      have "good w0" using q [of "d_world d"] a k by (auto simp: at_saved_def at_slot_def dest: spec [of _ "je_uid (d_journal d ! i)"]) (metis snd_conv)
      note at2 = at_slot_world [OF at this]
      have "(r0, d\<lparr>d_world := w0\<rparr>) = (r, d')" using c k Some \<open>find_quic rs = Some p\<close> by (simp add: ensure_xray_quic_def rs on_world_def)
      then show ?thesis using at2 at_slot_in [OF at2] by (cases r) auto
    qed
  qed
qed

lemma bypass_step_runs:
  "runs (\<lambda>d. \<exists>bs. at_slot good J i (rs @ map Route bs) d \<and> (\<forall>r \<in> set bs. ar_destination r \<in> D \<and> ar_metric r = 5 \<and> ar_table r = None))
     (xray_bypass_step N P i ip)
     (\<lambda>_ d. \<exists>bs. at_slot good J i (rs @ map Route bs) d \<and> (\<forall>r \<in> set bs. ar_destination r \<in> insert (host_net ip) D \<and> ar_metric r = 5 \<and> ar_table r = None))
     (in_slot good J i)"
proof (rule runs_ex, rule runsI)
  fix bs d res d'
  assume a: "at_slot good J i (rs @ map Route bs) d \<and> (\<forall>r \<in> set bs. ar_destination r \<in> D \<and> ar_metric r = 5 \<and> ar_table r = None)"
    and c: "xray_bypass_step N P i ip d = (res, d')"
  let ?ok = "\<lambda>bs. \<forall>r \<in> set bs. ar_destination r \<in> insert (host_net ip) D \<and> ar_metric r = 5 \<and> ar_table r = None"
  let ?goal = "case res of Ok _ \<Rightarrow> \<exists>bs. at_slot good J i (rs @ map Route bs) d' \<and> ?ok bs | Err _ \<Rightarrow> in_slot good J i d'"
  note at = conjunct1 [OF a]
  have bs: "?ok bs" using a by blast
  show ?goal
  proof (cases "uplink_host_route N P ip 5 (d_world d)")
    case None
    then have "res = Ok ()" "d' = d" using c by (simp_all add: xray_bypass_step_def skip_def)
    then show ?thesis using at bs by auto
  next
    case (Some r)
    have r: "ar_destination r = host_net ip" "ar_metric r = 5" "ar_table r = None"
      using Some by (auto simp: uplink_host_route_def)
    obtain s d1 where s: "save_journal P (add_resource i (Route r) d) = (s, d1)" by (rule prod.exhaust)
    note sv = save_slot [OF at_slot_add [OF at] s]
    note at1 = conjunct1 [OF sv]
    show ?thesis
    proof (cases s)
      case (Err e)
      then have "res = Err e" "d' = d1" using c s Some by (simp_all add: xray_bypass_step_def)
      then show ?thesis using at_slot_in [OF at1] by simp
    next
      case (Ok v)
      obtain r2 w2 where k: "rx_add (pf_routes P) r (d_world d1) = (r2, w2)" by (rule prod.exhaust)
      have sub: "Route r \<in> resources (d_journal d1)" using at_slot_resources [OF at1] by simp
      have "good w2" using add_route [OF _ _ sub, of "d_world d1"] sv Ok k by (simp add: at_slot_def)
      note at2 = at_slot_world [OF at1 this]
      have run: "(case r2 of Ok _ \<Rightarrow> (Ok (), d1\<lparr>d_world := w2\<rparr>)
          | Err e \<Rightarrow> if e = AlreadyExists then (Ok (), pop_entry i (d1\<lparr>d_world := w2\<rparr>)) else (Err e, d1\<lparr>d_world := w2\<rparr>)) = (res, d')"
        using c s Some Ok k by (cases r2) (auto simp: xray_bypass_step_def on_world_def)
      have new: "at_slot good J i (rs @ map Route (bs @ [r])) (d1\<lparr>d_world := w2\<rparr>)" "?ok (bs @ [r])" using at2 bs r by simp_all
      have old: "at_slot good J i (rs @ map Route bs) (pop_entry i (d1\<lparr>d_world := w2\<rparr>))" using at_slot_pop [OF at2] by (simp add: butlast_append)
      show ?thesis
      proof (cases r2)
        case (Ok u)
        then have e: "res = Ok ()" "d' = d1\<lparr>d_world := w2\<rparr>" using run by simp_all
        show ?thesis unfolding e result.case using new by blast
      next
        case (Err e)
        then show ?thesis using run old bs at_slot_in [OF at2] by (cases "e = AlreadyExists") auto
      qed
    qed
  qed
qed

lemma bypass_runs:
  "runs (\<lambda>d. \<exists>bs. at_slot good J i (rs @ map Route bs) d \<and> (\<forall>r \<in> set bs. ar_destination r \<in> D \<and> ar_metric r = 5 \<and> ar_table r = None))
     (for_each (xray_bypass_step N P i) ips)
     (\<lambda>_ d. \<exists>bs. at_slot good J i (rs @ map Route bs) d \<and> (\<forall>r \<in> set bs. ar_destination r \<in> host_net ` set ips \<union> D \<and> ar_metric r = 5 \<and> ar_table r = None))
     (in_slot good J i)"
proof (induction ips arbitrary: D)
  case Nil
  then show ?case by (simp add: runs_def skip_def)
next
  case (Cons ip ips)
  have "runs (\<lambda>d. \<exists>bs. at_slot good J i (rs @ map Route bs) d \<and> (\<forall>r \<in> set bs. ar_destination r \<in> D \<and> ar_metric r = 5 \<and> ar_table r = None))
     (then_do (xray_bypass_step N P i ip) (\<lambda>_. for_each (xray_bypass_step N P i) ips))
     (\<lambda>_ d. \<exists>bs. at_slot good J i (rs @ map Route bs) d
        \<and> (\<forall>r \<in> set bs. ar_destination r \<in> host_net ` set (ip # ips) \<union> D \<and> ar_metric r = 5 \<and> ar_table r = None)) (in_slot good J i)"
    by (rule runs_then_do [OF bypass_step_runs]) (use Cons.IH [of "insert (host_net ip) D"] in simp)
  then show ?case by (simp add: runs_def)
qed

lemma all_bypass_runs:
  "runs (at_slot good J i rs) (add_xray_bypass_routes N P i plan)
     (\<lambda>_ d. \<exists>bs. at_slot good J i (rs @ map Route bs) d \<and> bypasses P plan bs) (in_slot good J i)"
proof (rule runsI)
  fix d res d'
  assume a: "at_slot good J i rs d" and c: "add_xray_bypass_routes N P i plan d = (res, d')"
  have "at_slot good J i (rs @ map Route []) d" using a by simp
  then have s: "\<exists>bs. at_slot good J i (rs @ map Route bs) d \<and> (\<forall>r \<in> set bs. ar_destination r \<in> {} \<and> ar_metric r = 5 \<and> ar_table r = None)"
    by (intro exI [of _ "[]"]) simp
  show "case res of Ok _ \<Rightarrow> \<exists>bs. at_slot good J i (rs @ map Route bs) d' \<and> bypasses P plan bs | Err _ \<Rightarrow> in_slot good J i d'"
    using runsD [OF bypass_runs [where D = "{}"] s c [unfolded add_xray_bypass_routes_def]] unfolding bypasses_def by (cases res) auto
qed

lemma xray_dns_runs:
  "runs (at_slot good J i rs) (xray_dns_steps P i ix plan full)
     (\<lambda>_ d. \<exists>a. at_slot good J i (rs @ xray_dns_slot plan full ix a) d) (in_slot good J i)"
proof (cases "xn_dns_servers plan = []")
  case True
  then show ?thesis by (simp add: xray_dns_steps_def xray_dns_slot_def runs_def skip_def)
next
  case False
  let ?x = "xray_dns plan full ix"
  have call: "runs (at_slot good J i rs) (journaled P i (Dns ?x) (xray_dns_call P plan (full \<noteq> None)))
      (\<lambda>_. at_slot good J i (rs @ [Dns ?x])) (in_slot good J i)"
  proof (rule runsI)
    fix d res d'
    assume a: "at_slot good J i rs d" and c: "journaled P i (Dns ?x) (xray_dns_call P plan (full \<noteq> None)) d = (res, d')"
    obtain s d1 where s: "save_journal P (add_resource i (Dns ?x) d) = (s, d1)" by (rule prod.exhaust)
    note sv = save_slot [OF at_slot_add [OF a] s]
    note at1 = conjunct1 [OF sv]
    obtain r2 w2 where k: "xray_dns_call P plan (full \<noteq> None) (d_world d1) = (r2, w2)" by (rule prod.exhaust)
    have sub: "Dns ?x \<in> resources (d_journal d1)" using at_slot_resources [OF at1] by simp
    have "good w2" if "is_ok s"
      using apply_dns [OF _ _ sub, of "d_world d1"] sv that k
      by (auto simp: at_slot_def xray_dns_call_def xray_dns_def split: option.splits prod.splits result.splits)
    then have at2: "at_slot good J i (rs @ [Dns ?x]) (d1\<lparr>d_world := w2\<rparr>)" if "is_ok s" using at_slot_world [OF at1] that by blast
    have "(case s of Err e \<Rightarrow> (Err e, d1) | Ok _ \<Rightarrow> (r2, d1\<lparr>d_world := w2\<rparr>)) = (res, d')"
      using c s k by (cases s) (simp_all add: journaled_def then_do_def edit_def on_world_def)
    then show "case res of Ok x \<Rightarrow> at_slot good J i (rs @ [Dns ?x]) d' | Err _ \<Rightarrow> in_slot good J i d'"
      using at2 at_slot_in [OF at1] at_slot_in [OF at2] by (cases s; cases res) auto
  qed
  have mark: "runs (at_slot good J i (rs @ [Dns ?x])) (then_do (edit (set_entry i mark_dns_applied)) (\<lambda>_. save_journal P))
      (\<lambda>_ d. \<exists>a. at_slot good J i (rs @ xray_dns_slot plan full ix a) d) (in_slot good J i)"
  proof -
    have "runs (at_slot good J i (rs @ [Dns ?x])) (edit (set_entry i mark_dns_applied))
        (\<lambda>_. at_slot good J i (rs @ xray_dns_slot plan full ix True)) (in_slot good J i)"
      by (rule runs_edit, erule at_slot_set) (use False in \<open>auto simp: mark_dns_applied_def xray_dns_slot_def je_key_def\<close>)
    from runs_then_do [OF this save_runs_slot] show ?thesis by (rule runs_mono) auto
  qed
  have plain: "runs (at_slot good J i (rs @ [Dns ?x])) skip (\<lambda>_ d. \<exists>a. at_slot good J i (rs @ xray_dns_slot plan full ix a) d) (in_slot good J i)"
    using False by (auto simp: runs_def skip_def xray_dns_slot_def xray_dns_def intro!: exI [of _ False])
  have next_step: "runs (at_slot good J i (rs @ [Dns ?x])) (if out = DnsApplied then then_do (edit (set_entry i mark_dns_applied)) (\<lambda>_. save_journal P) else skip)
      (\<lambda>_ d. \<exists>a. at_slot good J i (rs @ xray_dns_slot plan full ix a) d) (in_slot good J i)" for out
    using mark plain by simp
  show ?thesis using runs_then_do [OF call next_step] False by (simp add: xray_dns_steps_def)
qed

lemma network_runs_xray:
  assumes wg: "pf_wg P = Some wg"
  shows "runs (at_slot good J i [XrayProcess (p\<lparr>xp_index := ix\<rparr>)]) (xray_network N P wg i ix plan full)
    (\<lambda>_ d. \<exists>bs a. at_slot good J i (xray_resources p plan full ix bs a) d \<and> bypasses P plan bs) (in_slot good J i)"
proof -
  let ?q = "[XrayProcess (p\<lparr>xp_index := ix\<rparr>)] @ [xray_address plan ix]"
  let ?E = "in_slot good J i"
  have addr: "runs (at_slot good J i [XrayProcess (p\<lparr>xp_index := ix\<rparr>)]) (exclusive P i (xray_address plan ix) (wx_add_address wg ix (xn_address plan)))
      (\<lambda>_. at_saved good saved J i ?q) ?E"
    unfolding at_saved_def
    by (rule exclusive_saved) (use add_address [OF _ _ _ wg] link_saved [OF _ wg] in \<open>force simp: xray_address_def\<close>)+
  have mtu: "runs (at_saved good saved J i ?q) (on_world (wx_set_mtu wg ix (xn_mtu plan))) (\<lambda>_. at_saved good saved J i ?q) ?E"
    by (rule world_slot) (use set_mtu [OF _ wg] link_saved [OF _ wg] in blast)
  have state: "runs (at_saved good saved J i ?q) (on_world (wx_set_state wg ix True)) (\<lambda>_. at_saved good saved J i ?q) ?E"
    by (rule world_slot) (use set_state [OF _ wg] link_saved [OF _ wg] in blast)
  let ?rts = "map (xray_route plan full ix) (xn_routes plan)" and ?rules = "case full of None \<Rightarrow> [] | Some f \<Rightarrow> full_policy_rules f"
  have rest: "runs (\<lambda>d. \<exists>bs. at_slot good J i (?q @ map Route bs) d \<and> bypasses P plan bs)
      (then_do (for_each (\<lambda>r. exclusive P i (Route r) (rx_add (pf_routes P) r)) ?rts) (\<lambda>_.
       then_do (for_each (\<lambda>r. exclusive P i (Rule r) (with_policy P (\<lambda>px. px_add_rule px r))) ?rules) (\<lambda>_.
       xray_dns_steps P i ix plan full)))
      (\<lambda>_ d. \<exists>bs a. at_slot good J i (xray_resources p plan full ix bs a) d \<and> bypasses P plan bs) ?E"
  proof (rule runs_ex)
    fix bs
    have "runs (at_slot good J i (?q @ map Route bs))
      (then_do (for_each (\<lambda>r. exclusive P i (Route r) (rx_add (pf_routes P) r)) ?rts) (\<lambda>_.
       then_do (for_each (\<lambda>r. exclusive P i (Rule r) (with_policy P (\<lambda>px. px_add_rule px r))) ?rules) (\<lambda>_.
       xray_dns_steps P i ix plan full)))
      (\<lambda>_ d. \<exists>a. at_slot good J i (xray_resources p plan full ix bs a) d) ?E"
      by (rule runs_then_do [OF route_exclusives] runs_then_do [OF rule_exclusives])+
        (use xray_dns_runs [of J i "((?q @ map Route bs) @ map Route ?rts) @ map Rule ?rules" ix plan full] in \<open>simp add: xray_resources_def\<close>)
    then show "runs (\<lambda>d. at_slot good J i (?q @ map Route bs) d \<and> bypasses P plan bs)
      (then_do (for_each (\<lambda>r. exclusive P i (Route r) (rx_add (pf_routes P) r)) ?rts) (\<lambda>_.
       then_do (for_each (\<lambda>r. exclusive P i (Rule r) (with_policy P (\<lambda>px. px_add_rule px r))) ?rules) (\<lambda>_.
       xray_dns_steps P i ix plan full)))
      (\<lambda>_ d. \<exists>bs a. at_slot good J i (xray_resources p plan full ix bs a) d \<and> bypasses P plan bs) ?E"
      unfolding runs_def by (fastforce split: prod.splits result.splits)
  qed
  show ?thesis unfolding xray_network_def
    by (rule runs_then_do [OF addr] runs_then_do [OF mtu] runs_then_do [OF state] runs_then_do [OF quic_runs] runs_then_do [OF all_bypass_runs])+ (rule rest)
qed

lemma launch_runs:
  assumes run: "pf_xray P = Some run" and p: "xp_name p = xn_name plan"
  shows "runs (at_saved good saved J i [XrayProcess p]) (launch_xray P run i uid plan)
    (\<lambda>ix. at_slot good J i [XrayProcess (p\<lparr>xp_index := ix\<rparr>)]) (in_slot good J i)"
proof -
  let ?E = "in_slot good J i"
  have start: "runs (at_saved good saved J i [XrayProcess p]) (on_world (xr_start run uid (xn_name plan) (xn_config plan) (xn_geo_assets plan)))
      (\<lambda>_. at_slot good J i [XrayProcess p]) ?E"
    using world_slot [of "[XrayProcess p]" "xr_start run uid (xn_name plan) (xn_config plan) (xn_geo_assets plan)" "\<lambda>_ _. True" J i]
      start_xray [OF _ _ _ run, of _ _ p] p unfolding at_saved_def by simp
  have found: "runs (at_slot good J i [XrayProcess p])
      (then_do (edit (set_entry i (\<lambda>e. e\<lparr>je_resources := set_first_index ix (je_resources e)\<rparr>))) (\<lambda>_. then_do (save_journal P) (\<lambda>_ d. (Ok ix, d))))
      (\<lambda>ix. at_slot good J i [XrayProcess (p\<lparr>xp_index := ix\<rparr>)]) ?E" for ix
  proof -
    have ed: "runs (at_slot good J i [XrayProcess p]) (edit (set_entry i (\<lambda>e. e\<lparr>je_resources := set_first_index ix (je_resources e)\<rparr>)))
        (\<lambda>_. at_slot good J i [XrayProcess (p\<lparr>xp_index := ix\<rparr>)]) ?E"
      by (rule runs_edit, erule at_slot_set) (auto simp: je_key_def)
    show ?thesis by (rule runs_then_do [OF ed], rule runs_then_do [OF save_runs_slot]) (simp add: runs_def)
  qed
  have look: "runs (at_slot good J i [XrayProcess p]) (observing (pr_link_index run (xn_name plan))) (\<lambda>_. at_slot good J i [XrayProcess p]) ?E"
    by (rule runs_observing) (rule at_slot_in)
  show ?thesis unfolding launch_xray_def
  proof (rule runs_then_do [OF start], rule runs_then_do [OF look])
    show "runs (at_slot good J i [XrayProcess p]) (case link of None \<Rightarrow> fail NotConnected | Some ix \<Rightarrow>
         then_do (edit (set_entry i (\<lambda>e. e\<lparr>je_resources := set_first_index ix (je_resources e)\<rparr>))) (\<lambda>_.
         then_do (save_journal P) (\<lambda>_ d. (Ok ix, d))))
        (\<lambda>ix. at_slot good J i [XrayProcess (p\<lparr>xp_index := ix\<rparr>)]) ?E" for link
      using found runs_fail [OF at_slot_in] by (cases link) simp_all
  qed
qed

lemma apply_plan_settles:
  assumes a: "at_saved good saved J i [XrayProcess p] d" and run: "pf_xray P = Some run" and p: "xp_name p = xn_name plan"
    and c: "apply_xray_plan N P run i uid plan full d = (res, d')"
  shows "case res of Ok _ \<Rightarrow> \<exists>ix bs a. at_slot good J i (xray_resources p plan full ix bs a) d' \<and> bypasses P plan bs | Err _ \<Rightarrow> in_slot good J i d'"
proof -
  obtain l d1 where l: "launch_xray P run i uid plan d = (l, d1)" by (rule prod.exhaust)
  note post = runsD [OF launch_runs [OF run p] a l]
  show ?thesis
  proof (cases l)
    case (Err e)
    then show ?thesis using post c l by (auto simp: apply_xray_plan_def)
  next
    case (Ok ix)
    then have at: "at_slot good J i [XrayProcess (p\<lparr>xp_index := ix\<rparr>)] d1" using post by simp
    show ?thesis
    proof (cases "pf_wg P")
      case None
      obtain s d2 where s: "save_journal P (add_resource i (xray_address plan ix) d1) = (s, d2)" by (rule prod.exhaust)
      have "in_slot good J i d2" using at_slot_in [OF conjunct1 [OF save_slot [OF at_slot_add [OF at] s]]] .
      then show ?thesis using c l Ok None s by (cases s) (auto simp: apply_xray_plan_def)
    next
      case (Some wg)
      obtain r d2 where n: "xray_network N P wg i ix plan full d1 = (r, d2)" by (rule prod.exhaust)
      note net = runsD [OF network_runs_xray [OF Some] at n]
      have "(case r of Err e \<Rightarrow> (Err (Rejected e), d2) | Ok u \<Rightarrow> (Ok u, d2)) = (res, d')"
        using c l Ok Some n by (cases r) (simp_all add: apply_xray_plan_def)
      then show ?thesis using net by (cases r) (auto, blast)
    qed
  qed
qed

lemma xray_step_keeps:
  assumes run: "pf_xray P = Some run" and g: "good w"
  shows "good (snd (xray_step P run uid proc up qf failed r w))"
proof -
  have dns: "good (snd (Teardown.revert_dns P n w))" for n
    using revert_dns [OF g, of _ n] g
    by (auto simp: Teardown.revert_dns_def split: option.splits prod.splits result.splits dns_error.splits)
  have stop: "good (snd (Teardown.stop_xray run u n w))" for u n
  proof -
    obtain r1 w1 where k: "pr_stop run n w = (r1, w1)" by (rule prod.exhaust)
    have "good w1" using stop_xray [OF g run, of n] k by simp
    then show ?thesis using cleanup_xray [OF _ run, of w1 u n] k by (cases r1) (simp_all add: Teardown.stop_xray_def)
  qed
  show ?thesis
    using g remove_route [OF g] remove_rule [OF g] remove_address [OF g] dns stop
    by (cases r) (auto simp: xray_step_def Let_def split: prod.splits option.splits, (metis snd_conv)+)
qed

lemma teardown_xray_keeps:
  assumes g: "good (d_world d)"
  shows "good (d_world (snd (teardown_xray_entry P i d)))"
proof (cases "find_xray (je_resources (d_journal d ! i))")
  case None
  then show ?thesis using g by (simp add: teardown_xray_entry_def Let_def)
next
  case (Some proc)
  let ?e = "d_journal d ! i"
  obtain qf w where q: "Teardown.remove_quic P (je_uid ?e) proc (d_world d) = (qf, w)" by (rule prod.exhaust)
  have gw: "good w" using q g remove_quic [OF g]
    by (auto simp: Teardown.remove_quic_def split: if_splits option.splits prod.splits) (metis snd_conv)+
  show ?thesis
  proof (cases "pf_xray P")
    case None
    then show ?thesis using Some q gw by (simp add: teardown_xray_entry_def Let_def)
  next
    case (Some run)
    have "good (snd (walk (xray_step P run (je_uid ?e) proc up qf) rs [] w))" for up rs
      using xray_step_keeps [OF Some] gw by (intro walk_keeps [of good]) simp_all
    then show ?thesis using Some \<open>find_xray _ = Some proc\<close> q gw
      by (auto simp: teardown_xray_entry_def Let_def finish_entry_world split: result.split prod.split option.split) (metis snd_conv)+
  qed
qed

lemma roll_back_settles:
  assumes "in_slot good (J @ [e0]) (length J) d"
  shows "good (d_world (snd (roll_back_xray P (length J) e d)))
    \<and> (d_journal (snd (roll_back_xray P (length J) e d)) = J \<or> (\<exists>x. d_journal (snd (roll_back_xray P (length J) e d)) = J @ [x] \<and> je_key x = je_key e0))"
proof -
  obtain y where J: "d_journal d = J @ [y]" "je_key y = je_key e0" and g: "good (d_world d)"
    using assms by (auto simp: in_slot_def at_slot_def)
  obtain r d1 where t: "teardown_xray_entry P (length J) d = (r, d1)" by (rule prod.exhaust)
  have g1: "good (d_world d1)" using teardown_xray_keeps [OF g, of "length J"] t by simp
  have "entry_contract (length J) d (r, d1)" using xray.contract [of "length J" d P] J t by simp
  then have "d_journal d1 = J \<or> (\<exists>x. d_journal d1 = J @ [x] \<and> je_key x = je_key e0)"
    using J by (cases r) (auto simp: entry_contract_def)
  then show ?thesis using persist_keeps [OF g1] t by (simp add: roll_back_xray_def)
qed

lemma committed_outcome:
  assumes plan: "plan_xray L P uid prm d = Ok (m, plan, full, run)" and owner: "owner = xray_owner (xc_profile_id prm)"
    and J: "d_journal d2 = d_journal d @ [e]" "je_key e = (uid, owner)" "je_state e = Applied"
    and rs: "je_resources e = xray_resources (fresh_process uid owner m plan full) plan full ix bs a" and bs: "bypasses P plan bs"
  shows "xray_outcome L P uid prm d (Ok (xray_status P wk uid (xn_profile_id plan) (connected_xray L wk uid owner plan i d2)))
    (connected_xray L wk uid owner plan i d2)"
proof -
  note pl = plan_xray_Ok [OF plan]
  have pid: "xn_profile_id plan = xc_profile_id prm" and free: "owner_position uid owner d = None" using pl owner by auto
  have mark: "51820 \<le> m \<and> m < 51948 \<and> mark_unused m (d_journal d)" using allocated_mark [of P d m] pl by blast
  let ?d = "connected_xray L wk uid owner plan i d2"
  have st: "xs_interface_name (xray_status P wk uid (xn_profile_id plan) ?d) = Some (xn_name plan)"
    unfolding xray_status_def Let_def connected_frame J(1) pid owner [symmetric] find_last_entry [OF free J(2)]
    by (simp add: rs xray_resources_def fresh_process_def)
  have w: "restarts (uid, owner) ?d = 0" "(uid, owner) \<notin> d_tunnel_failed ?d" "(uid, owner) \<in> d_failovers ?d"
    by (simp_all add: connected_xray_def Let_def restarts_def start_failover_def ensure_watchdog_def split: option.split prod.split)
  show ?thesis unfolding xray_outcome_def Let_def result.case owner [symmetric] connected_frame
    using plan mark bs J rs w st by blast
qed

lemma connect_settles_xray:
  assumes g: "good (d_world d)" and c: "connect_xray L P wk uid prm d = (res, d')"
  shows "good (d_world d') \<and> xray_outcome L P uid prm d res d'"
proof (cases "plan_xray L P uid prm d")
  case (Err e)
  then show ?thesis using c g by (auto simp: connect_xray_def xray_outcome_def)
next
  case (Ok plans)
  obtain m plan full run where plan: "plan_xray L P uid prm d = Ok (m, plan, full, run)" using Ok by (cases plans) auto
  let ?o = "xray_owner (xc_profile_id prm)" and ?J = "d_journal d"
  let ?e = "xray_entry uid ?o m plan full" and ?p = "fresh_process uid ?o m plan full" and ?i = "length ?J"
  have run: "pf_xray P = Some run" and ek: "je_key ?e = (uid, ?o)" using plan_xray_Ok [OF plan] by (auto simp: xray_entry_def je_key_def)
  obtain s d1 where s: "save_journal P (d\<lparr>d_journal := ?J @ [?e]\<rparr>) = (s, d1)" by (rule prod.exhaust)
  have "at_slot good (?J @ [?e]) ?i (je_resources ?e) (d\<lparr>d_journal := ?J @ [?e]\<rparr>)"
    using at_slot_start [where good = good, of "d\<lparr>d_journal := ?J @ [?e]\<rparr>" ?i] g by simp
  note sv = save_slot [OF this s]
  have J1: "d_journal d1 = ?J @ [?e]" using save_journal_frame(2) [OF s] by simp
  have lost: "good (d_world d2) \<and> (d_journal d2 = ?J \<or> (\<exists>x. d_journal d2 = ?J @ [x] \<and> je_key x = (uid, ?o)))"
    if "in_slot good (?J @ [?e]) ?i d2" for d2
    using that ek by (auto simp: in_slot_def at_slot_def)
  show ?thesis
  proof (cases s)
    case (Err e)
    then show ?thesis using c plan s sv J1 by (auto simp: connect_xray_def Let_def xray_outcome_def at_slot_def)
  next
    case (Ok u)
    have at: "at_saved good saved (?J @ [?e]) ?i [XrayProcess ?p] d1" using sv Ok by (simp add: at_saved_def xray_entry_def)
    obtain r d2 where ap: "apply_xray_plan (xl_net L) P run ?i uid plan full d1 = (r, d2)" by (rule prod.exhaust)
    note post = apply_plan_settles [OF at run _ ap]
    show ?thesis
    proof (cases r)
      case (Err x)
      then have sl: "in_slot good (?J @ [?e]) ?i d2" using post by (simp add: fresh_process_def)
      then show ?thesis using c plan s Ok ap Err lost [OF sl] roll_back_settles [OF sl] ek
        by (cases x) (auto simp: connect_xray_def Let_def xray_outcome_def roll_back_xray_def)
    next
      case r: (Ok v)
      then obtain ix bs a where ns: "at_slot good (?J @ [?e]) ?i (xray_resources ?p plan full ix bs a) d2" "bypasses P plan bs"
        using post by (auto simp: fresh_process_def)
      let ?d = "set_entry ?i (mark_state Applied) d2"
      have at3: "at_slot good (?J @ [?e]) ?i (xray_resources ?p plan full ix bs a) ?d"
        by (rule at_slot_set [OF ns(1)]) (simp add: mark_state_def je_key_def)
      obtain s3 d3 where s3: "save_journal P ?d = (s3, d3)" by (rule prod.exhaust)
      note sv3 = conjunct1 [OF save_slot [OF at3 s3]]
      show ?thesis
      proof (cases s3)
        case (Err x)
        then show ?thesis using c plan s Ok ap r s3 roll_back_settles [OF at_slot_in [OF sv3]] ek
          by (auto simp: connect_xray_def Let_def xray_outcome_def roll_back_xray_def)
      next
        case s3ok: (Ok v)
        obtain y where y: "d_journal d2 = ?J @ [y]" "je_key y = (uid, ?o)" "je_resources y = xray_resources ?p plan full ix bs a"
          using ns(1) ek by (auto simp: at_slot_def)
        have J3: "d_journal d3 = ?J @ [mark_state Applied y]" using save_journal_frame(2) [OF s3] y by simp
        have "je_key (mark_state Applied y) = (uid, ?o)" "je_state (mark_state Applied y) = Applied"
          "je_resources (mark_state Applied y) = xray_resources ?p plan full ix bs a" using y by (simp_all add: mark_state_def je_key_def)
        note out = committed_outcome [OF plan refl J3 this ns(2)]
        have "good (d_world d3)" using sv3 by (simp add: at_slot_def)
        moreover have "(res, d') = (Ok (xray_status P wk uid (xn_profile_id plan) (connected_xray L wk uid ?o plan ?i d3)), connected_xray L wk uid ?o plan ?i d3)"
          using c plan s Ok ap r s3 s3ok by (auto simp: connect_xray_def Let_def)
        ultimately show ?thesis using out [where wk = wk and i = ?i] connected_frame(2) [of L wk uid ?o plan ?i d3] by simp
      qed
    qed
  qed
qed

end

interpretation monitored_xray: xray_monitor "watched P" wt_ok "\<lambda>J s. wt_disk s = J" for P :: "'k platform"
proof (unfold_locales, goal_cases)
  case (1 w J p run u c g)
  then show ?case by (auto simp: watched_def watched_xray_def is_xray_of_def intro!: checked_ok [THEN conjunct1])
next
  case (2 w J p qx u)
  then show ?case by (auto simp: watched_def is_xray_of_def intro!: checked_ok [THEN conjunct1])
next
  case (6 J w wg ix a mtu up)
  then show ?case by (auto simp: watched_def quietly_def checked_def split: prod.splits)
qed (auto simp: watched_def watched_xray_def quietly_ok)

interpretation any_xray: xray_monitor P "\<lambda>_. True" "\<lambda>_ _. True" for P :: "'k platform"
  by unfold_locales simp_all

section \<open>Connecting an Xray tunnel\<close>

text \<open>C11: Xray connections keep the write-ahead rule.  Whatever the request, the resolver and the executors answer, \<open>connect_xray\<close>
  starts the process, installs the QUIC filter, adds the address, the bypass routes, the routes and the policy rules and sets DNS only
  when the journal on disk already lists that object.\<close>

theorem connect_xray_write_ahead:
  "wt_ok (d_world (snd (connect_xray L (watched P) wk uid prm
     (d\<lparr>d_world := \<lparr> wt_world = w, wt_disk = J, wt_ok = True, wt_taken = [] \<rparr>\<rparr>))))"
  by (rule monitored_xray.connect_settles_xray [OF _ prod.collapse [symmetric], THEN conjunct1]) simp

text \<open>C12: The outcome of \<open>connect_xray\<close>.  On success the journal has one entry more, applied, under the caller's uid and \<open>xray:\<close> owner, with a
  transport mark no other tunnel uses: the process on its link, the address, host routes around the tunnel only to servers and
  resolvers of the plan, the routes of the plan (those of a full tunnel in the policy table), the policy rules and the DNS
  setting; the restart budget is full, earlier failures are forgotten and the failover supervisor is armed.  On failure the
  other entries are untouched and at most one entry of this owner is left for a later teardown.\<close>

theorem connect_xray_outcome:
  "xray_outcome L P uid prm d (fst (connect_xray L P wk uid prm d)) (snd (connect_xray L P wk uid prm d))"
  by (rule any_xray.connect_settles_xray [OF _ prod.collapse [symmetric], THEN conjunct2]) simp

end
