(* ===== verification/Net_Safety.thy ===== *)
theory Net_Safety
  imports Tunnel_Safety
begin

text \<open>
  What the network pass keeps: the restart budget of a dead Xray child ends the restarts, and a bypass route that moves with the uplink
  stays owned by its entry all the way.  The last sections have the case where the move runs ahead of the journal on disk, and the
  override whose failure makes the pass skip all others of its uid.
\<close>

section \<open>The restart budget\<close>

text \<open>What the steps of healing keep: the restart counters, the owner of the entry and whether it has an Xray process.\<close>

definition has_xray :: "journal_entry \<Rightarrow> bool" where
  "has_xray e \<longleftrightarrow> find_xray (je_resources e) \<noteq> None"

definition heal_view :: "nat \<Rightarrow> 'k daemon \<Rightarrow> (owner_key \<rightharpoonup> nat) \<times> owner_key \<times> bool" where
  "heal_view i d = (d_xray_restarts d, je_key (d_journal d ! i), has_xray (d_journal d ! i))"

definition heal_keeps :: "nat \<Rightarrow> ('a, 'k) cmd \<Rightarrow> bool" where
  "heal_keeps i c \<longleftrightarrow> (\<forall>d. heal_view i (snd (c d)) = heal_view i d)"

lemma heal_keepsD: "heal_keeps i c \<Longrightarrow> c d = (r, d') \<Longrightarrow> heal_view i d' = heal_view i d"
  unfolding heal_keeps_def by (metis snd_conv)

lemma heal_keeps_then: "heal_keeps i c \<Longrightarrow> (\<And>x. heal_keeps i (f x)) \<Longrightarrow> heal_keeps i (then_do c f)"
  unfolding heal_keeps_def then_do_def by (simp split: prod.split result.split) (metis snd_conv)

lemma heal_keeps_each: "(\<And>x. heal_keeps i (f x)) \<Longrightarrow> heal_keeps i (for_each f xs)"
proof (induction xs)
  case Nil
  then show ?case by (simp add: heal_keeps_def skip_def)
next
  case (Cons x xs)
  have "for_each f (x # xs) = then_do (f x) (\<lambda>_. for_each f xs)" by (rule ext) simp
  then show ?case using heal_keeps_then [OF Cons.prems Cons.IH [OF Cons.prems]] by simp
qed

lemma heal_view_world: "heal_view i (snd (on_world f d)) = heal_view i d"
  by (simp add: on_world_def heal_view_def case_prod_unfold Let_def)

lemma heal_view_save: "heal_view i (snd (save_journal P d)) = heal_view i d"
  unfolding save_journal_def heal_view_def by (simp add: case_prod_unfold Let_def)

lemma heal_keeps_world: "heal_keeps i (on_world f)"
  by (simp add: heal_keeps_def heal_view_world)

lemma heal_keeps_save: "heal_keeps i (save_journal P)"
  by (simp add: heal_keeps_def heal_view_save)

lemma heal_keeps_readd: "heal_keeps i (readd_route P r)"
proof -
  have "snd (readd_route P r d) = snd (on_world (rx_add (pf_routes P) r) d)" for d
    by (simp add: readd_route_def split: prod.split result.split)
  then show ?thesis by (simp add: heal_keeps_def heal_view_world)
qed

lemma heal_keeps_quic: "heal_keeps i (ensure_xray_quic P j)"
  by (auto simp: heal_keeps_def ensure_xray_quic_def Let_def skip_def fail_def heal_view_world split: option.split)

lemma heal_view_set:
  assumes "\<And>e. je_key (f e) = je_key e" "\<And>e. has_xray (f e) = has_xray e"
  shows "heal_view i (set_entry i f d) = heal_view i d"
  using assms by (cases "i < length (d_journal d)") (simp_all add: heal_view_def list_update_beyond)

lemma find_xray_rebound: "find_xray (map (rebind_resource old new) rs) = None \<longleftrightarrow> find_xray rs = None"
  by (induction rs rule: find_xray.induct) simp_all

lemma find_xray_dns: "find_xray (set_dns_applied b rs) = find_xray rs"
proof (induction rs)
  case (Cons r rs)
  then show ?case by (cases r) simp_all
qed simp

lemma heal_keeps_dns: "heal_keeps i (rebind_dns P i rs)"
proof -
  have "heal_view i (reapply_entry_dns dx i x d) = heal_view i d" for dx x d
    unfolding reapply_entry_dns_def Let_def case_prod_unfold
    by (subst heal_view_set) (simp_all add: je_key_def has_xray_def find_xray_dns, simp add: heal_view_def)
  then show ?thesis by (auto simp: heal_keeps_def rebind_dns_def skip_def heal_view_save split: option.split)
qed

lemma heal_view_rebind: "heal_view i (snd (rebind_xray_link P i old new d)) = heal_view i d"
proof -
  have reb: "heal_view i (set_entry i (rebound old new) d) = heal_view i d"
    by (rule heal_view_set) (simp_all add: rebound_def je_key_def has_xray_def find_xray_rebound)
  obtain s d1 where s: "save_journal P (set_entry i (rebound old new) d) = (s, d1)" by (rule prod.exhaust)
  have v1: "heal_view i d1 = heal_view i d" using heal_keepsD [OF heal_keeps_save s] reb by simp
  note keeps = heal_keeps_then heal_keeps_each heal_keeps_world heal_keeps_quic heal_keeps_readd heal_keeps_dns
  show ?thesis
  proof (cases "s = Ok () \<and> pf_wg P \<noteq> None")
    case False
    then show ?thesis using s v1 by (cases s) (auto simp: rebind_xray_link_def Let_def split: option.split)
  next
    case True
    then obtain wg where wg: "pf_wg P = Some wg" and ok: "s = Ok ()" by auto
    let ?rs = "je_resources (d_journal d1 ! i)"
    let ?c = "then_do (for_each (\<lambda>a. on_world (wx_add_address wg new a)) (entry_addresses ?rs)) (\<lambda>_.
        then_do (on_world (wx_set_state wg new True)) (\<lambda>_.
        then_do (for_each (\<lambda>mtu. on_world (wx_set_mtu wg new mtu)) (entry_mtus ?rs)) (\<lambda>_.
        then_do (ensure_xray_quic P i) (\<lambda>_.
        then_do (for_each (readd_route P) (filter (on_tun new) (entry_routes ?rs))) (\<lambda>_. rebind_dns P i ?rs)))))"
    have k: "heal_keeps i ?c" by (intro keeps)
    obtain r d2 where c: "?c d1 = (r, d2)" by (rule prod.exhaust)
    have "snd (rebind_xray_link P i old new d) = d2" using s ok wg c by (cases r) (auto simp: rebind_xray_link_def Let_def)
    then show ?thesis using heal_keepsD [OF k c] v1 by simp
  qed
qed
lemma heal_view_workers: "heal_view i (ensure_watchdog wk j (ensure_failover j d)) = heal_view i d"
  by (simp add: heal_view_def)

definition counted :: "nat \<Rightarrow> 'k daemon \<Rightarrow> 'k daemon" where
  "counted i d = (let key = je_key (d_journal d ! i) in
     d\<lparr>d_failovers := d_failovers d - {key}, d_xray_restarts := (d_xray_restarts d)(key \<mapsto> restarts key d + 1)\<rparr>)"

lemma heal_attempt:
  assumes "has_xray (d_journal d ! i)" and "restarts (je_key (d_journal d ! i)) d < MAX_XRAY_RESPAWNS"
  shows "heal_view i (snd (heal_xray P wk i False d)) = heal_view i (counted i d)"
proof -
  let ?e = "d_journal d ! i"
  obtain p where p: "find_xray (je_resources ?e) = Some p" using assms(1) by (auto simp: has_xray_def)
  have c: "d\<lparr>d_failovers := d_failovers d - {je_key ?e}\<rparr>\<lparr>d_xray_restarts := (d_xray_restarts d)(je_key ?e \<mapsto> restarts (je_key ?e) d + 1)\<rparr> = counted i d"
    by (simp add: counted_def Let_def)
  show ?thesis
  proof (cases "pf_xray P")
    case None
    then show ?thesis using assms(2) p c by (simp add: heal_xray_def Let_def)
  next
    case (Some run)
    obtain r d1 where r: "on_world (xr_respawn run (je_uid ?e) (xp_name p)) (counted i d) = (r, d1)" by (rule prod.exhaust)
    have v1: "heal_view i d1 = heal_view i (counted i d)" using heal_keepsD [OF heal_keeps_world r] .
    have v2: "heal_view i d2 = heal_view i (counted i d)" if "rebind_xray_link P i old new d1 = (x, d2)" for old new x d2
      using heal_view_rebind [of i P old new d1] v1 that by simp
    show ?thesis using assms(2) p c Some r
      by (auto simp: heal_xray_def Let_def heal_view_workers v1 dest!: v2 split: result.split option.split prod.split)
  qed
qed

primrec heal_again :: "'k platform \<Rightarrow> workers \<Rightarrow> nat \<Rightarrow> nat \<Rightarrow> 'k daemon \<Rightarrow> 'k daemon" where
  "heal_again P wk i 0 d = d"
| "heal_again P wk i (Suc n) d = snd (heal_xray P wk i False (heal_again P wk i n d))"

definition spent :: "nat \<Rightarrow> 'k daemon \<Rightarrow> nat" where
  "spent i d = restarts (je_key (d_journal d ! i)) d"

lemma heal_counts:
  assumes "has_xray (d_journal d ! i)"
  shows "has_xray (d_journal (snd (heal_xray P wk i False d)) ! i)
    \<and> spent i (snd (heal_xray P wk i False d)) = (if spent i d < MAX_XRAY_RESPAWNS then spent i d + 1 else spent i d)"
proof (cases "spent i d < MAX_XRAY_RESPAWNS")
  case True
  then have v: "heal_view i (snd (heal_xray P wk i False d)) = heal_view i (counted i d)"
    using heal_attempt [OF assms] by (simp add: spent_def)
  then show ?thesis using assms True by (simp add: heal_view_def spent_def restarts_def counted_def Let_def)
next
  case False
  then show ?thesis using assms by (auto simp: heal_xray_def Let_def spent_def has_xray_def)
qed

lemma heal_refuses:
  assumes "spent i d \<ge> MAX_XRAY_RESPAWNS \<or> \<not> has_xray (d_journal d ! i)"
  shows "heal_xray P wk i False d = (if has_xray (d_journal d ! i) then Ok False else Err (Rejected InvalidData), d)"
  using assms by (auto simp: heal_xray_def Let_def has_xray_def spent_def split: option.split)

lemma heal_again_counts:
  assumes "has_xray (d_journal d ! i)"
  shows "has_xray (d_journal (heal_again P wk i n d) ! i)
    \<and> spent i (heal_again P wk i n d) = max (spent i d) (min (spent i d + n) MAX_XRAY_RESPAWNS)"
proof (induction n)
  case (Suc n)
  then show ?case using heal_counts [of "heal_again P wk i n d" i P wk] by (auto simp: max_def min_def)
qed (simp add: assms)

lemma heal_tries:
  assumes "has_xray (d_journal d ! i)" and "spent i d < MAX_XRAY_RESPAWNS"
  shows "fst (heal_xray P wk i False d) \<noteq> Ok False"
  using assms by (auto simp: heal_xray_def Let_def has_xray_def spent_def split: option.split result.split prod.split)

lemma heal_again_idle: "\<not> has_xray (d_journal d ! i) \<Longrightarrow> heal_again P wk i n d = d"
  by (induction n) (simp_all add: heal_refuses)

text \<open>C14: The restarts of a dead Xray child are counted and end.  Heal an entry \<open>n\<close> times unrequested, whatever the executors
  answer.  If it has an Xray child, each attempt has used up exactly one of the \<open>MAX_XRAY_RESPAWNS\<close> restarts, also when the
  respawn failed, until none is left.  While one is left the next attempt is really made (\<open>heal_xray\<close> does not answer
  \<open>Ok False\<close>) and is counted once; when none is left \<open>heal_xray\<close> answers \<open>Ok False\<close>, upon which the pass tears the owner down,
  and leaves the daemon as it is.  An entry without an Xray child is refused as it is.\<close>

theorem heal_budget_ends:
  "let d' = heal_again P wk i n d; (r, d'') = heal_xray P wk i False d' in
     if \<not> has_xray (d_journal d ! i) then r = Err (Rejected InvalidData) \<and> d'' = d
     else spent i d' = max (spent i d) (min (spent i d + n) MAX_XRAY_RESPAWNS)
       \<and> (if spent i d + n < MAX_XRAY_RESPAWNS then r \<noteq> Ok False \<and> spent i d'' = spent i d + n + 1
          else r = Ok False \<and> d'' = d')"
proof (cases "has_xray (d_journal d ! i)")
  case True
  define d' where "d' = heal_again P wk i n d"
  obtain r d'' where h: "heal_xray P wk i False d' = (r, d'')" by (rule prod.exhaust)
  have c: "has_xray (d_journal d' ! i)" "spent i d' = max (spent i d) (min (spent i d + n) MAX_XRAY_RESPAWNS)"
    using heal_again_counts [OF True, of P wk n] unfolding d'_def by simp_all
  have "if spent i d + n < MAX_XRAY_RESPAWNS then r \<noteq> Ok False \<and> spent i d'' = spent i d + n + 1 else r = Ok False \<and> d'' = d'"
  proof (cases "spent i d + n < MAX_XRAY_RESPAWNS")
    case left: True
    then have "spent i d' = spent i d + n" using c(2) by simp
    then show ?thesis using left h heal_counts [OF c(1), of P wk] heal_tries [OF c(1), of P wk] by simp
  next
    case False
    then have "spent i d' \<ge> MAX_XRAY_RESPAWNS" using c(2) by simp
    then show ?thesis using False c(1) h heal_refuses [of i d' P wk] by simp
  qed
  then show ?thesis using True c h by (simp add: d'_def [symmetric])
next
  case False
  then show ?thesis unfolding heal_again_idle [OF False] using heal_refuses [OF disjI2 [OF False], of P wk] by simp
qed

section \<open>Moving a bypass route\<close>

lemma save_view:
  "saves_leave_routes P seen \<Longrightarrow> save_journal P d = (r, d') \<Longrightarrow> seen (d_world d') = seen (d_world d) \<and> d_journal d' = d_journal d"
proof -
  assume s: "saves_leave_routes P seen" and c: "save_journal P d = (r, d')"
  obtain w where "pf_save P (d_journal d) (d_world d) = (r, w)" "d' = d\<lparr>d_world := w\<rparr>"
    using c unfolding save_journal_def Let_def case_prod_unfold by (metis prod.collapse prod.inject)
  then show ?thesis using view_save [OF s] by simp
qed

lemma add_view:
  assumes "faithful_kernel (pf_routes P) seen" and "on_world (rx_add (pf_routes P) x) d = (r, d')"
  shows "seen (d_world d') = (if is_ok r then insert (kernel_route x) (seen (d_world d)) else seen (d_world d)) \<and> d_journal d' = d_journal d"
proof -
  obtain w where "rx_add (pf_routes P) x (d_world d) = (r, w)" "d' = d\<lparr>d_world := w\<rparr>"
    using assms(2) by (auto simp: on_world_def split: prod.splits)
  then show ?thesis using faithful_kernelD(1) [OF assms(1)] by simp
qed

lemma remove_view:
  assumes "faithful_kernel (pf_routes P) seen" and "on_world (rx_remove (pf_routes P) x) d = (r, d')"
  shows "seen (d_world d') = (if is_ok r then seen (d_world d) - {kernel_route x} else seen (d_world d)) \<and> d_journal d' = d_journal d
    \<and> (r = Err NotFound \<longrightarrow> kernel_route x \<notin> seen (d_world d))"
proof -
  obtain w where "rx_remove (pf_routes P) x (d_world d) = (r, w)" "d' = d\<lparr>d_world := w\<rparr>"
    using assms(2) by (auto simp: on_world_def split: prod.splits)
  then show ?thesis using faithful_kernelD(2) [OF assms(1)] by simp
qed

text \<open>The state of a move: with \<open>J\<close> the other entries, \<open>rs\<close> the resources of the entry before, \<open>V\<close> the routes in the kernel before.\<close>

definition moving ::
    "('k \<Rightarrow> applied_route set) \<Rightarrow> nat \<Rightarrow> applied_route \<Rightarrow> applied_route \<Rightarrow> 'k daemon \<Rightarrow> 'k daemon \<Rightarrow> bool" where
  "moving seen i old desired d d' \<longleftrightarrow>
     (let rs = je_resources (d_journal d ! i); rs' = je_resources (d_journal d' ! i); V = seen (d_world d); V' = seen (d_world d') in
      V' - V \<subseteq> kernel_route ` {r \<in> {old, desired}. Route r \<in> set rs'}
      \<and> V - V' \<subseteq> {kernel_route old}
      \<and> (kernel_route old \<in> V' \<longrightarrow> Route old \<in> set rs')
      \<and> set rs - {Route old} \<subseteq> set rs' \<and> set rs' \<subseteq> insert (Route desired) (set rs)
      \<and> length (d_journal d') = length (d_journal d) \<and> (\<forall>j. j \<noteq> i \<longrightarrow> d_journal d' ! j = d_journal d ! j))"

definition moved :: "('k \<Rightarrow> applied_route set) \<Rightarrow> nat \<Rightarrow> applied_route \<Rightarrow> applied_route \<Rightarrow> 'k daemon \<Rightarrow> bool" where
  "moved seen i old desired d \<longleftrightarrow>
     (let rs = je_resources (d_journal d ! i) in
      Route desired \<in> set rs \<and> Route old \<notin> set rs \<and> kernel_route old \<notin> seen (d_world d))"

lemma retire_old_view:
  assumes k: "faithful_kernel (pf_routes P) seen" and s: "saves_leave_routes P seen"
    and c: "retire_old P i old gone changed d = (res, d')" and g: "gone \<Longrightarrow> kernel_route old \<notin> seen (d_world d)"
  shows "(seen (d_world d') = seen (d_world d) \<and> d_journal d' = d_journal d \<and> \<not> is_ok res)
    \<or> (seen (d_world d') = seen (d_world d) - {kernel_route old} \<and> d_journal d' = d_journal (set_entry i (without_route old) d))"
proof -
  have fin: "seen (d_world d') = seen (d_world dd) \<and> d_journal d' = d_journal (set_entry i (without_route old) dd)"
    if "(case save_journal P (set_entry i (without_route old) dd) of (Err e, d) \<Rightarrow> (Err e, d) | (Ok _, d) \<Rightarrow> (Ok b, d)) = (res, d')" for b dd
  proof -
    obtain r d2 where r: "save_journal P (set_entry i (without_route old) dd) = (r, d2)" by (rule prod.exhaust)
    then show ?thesis using that save_view [OF s r] by (cases r) auto
  qed
  show ?thesis
  proof (cases gone)
    case True
    then show ?thesis using c g fin [where dd = d and b = changed] by (simp add: retire_old_def Let_def)
  next
    case False
    obtain r d1 where r: "on_world (rx_remove (pf_routes P) old) d = (r, d1)" by (rule prod.exhaust)
    note v = remove_view [OF k r]
    show ?thesis
    proof (cases r)
      case (Ok u)
      then show ?thesis using c False r v fin [where dd = d1 and b = True] by (simp add: retire_old_def Let_def)
    next
      case (Err e)
      then show ?thesis using c False r v fin [where dd = d1 and b = changed] by (cases "e = NotFound") (auto simp: retire_old_def Let_def)
    qed
  qed
qed

lemma retire_old_moves:
  assumes k: "faithful_kernel (pf_routes P) seen" and s: "saves_leave_routes P seen" and i: "i < length (d_journal d)"
    and c: "retire_old P i old gone changed d1 = (res, d')" and g: "gone \<Longrightarrow> kernel_route old \<notin> seen (d_world d1)"
    and m: "moving seen i old desired d d1" and ds: "Route desired \<in> set (je_resources (d_journal d1 ! i))" and ne: "old \<noteq> desired"
  shows "moving seen i old desired d d' \<and> (is_ok res \<longrightarrow> moved seen i old desired d')"
proof -
  have i1: "i < length (d_journal d1)" using i m by (simp add: moving_def Let_def)
  consider (kept) "seen (d_world d') = seen (d_world d1)" "d_journal d' = d_journal d1" "\<not> is_ok res"
    | (gone) "seen (d_world d') = seen (d_world d1) - {kernel_route old}" "d_journal d' = d_journal (set_entry i (without_route old) d1)"
    using retire_old_view [OF k s c g] by blast
  then show ?thesis
  proof cases
    case kept
    then show ?thesis using m by (simp add: moving_def Let_def)
  next
    case gone
    have rs: "je_resources (d_journal d' ! i) = filter (\<lambda>x. x \<noteq> Route old) (je_resources (d_journal d1 ! i))"
      using gone(2) i1 by (simp add: without_route_def)
    have J: "length (d_journal d') = length (d_journal d1)" "\<And>j. j \<noteq> i \<Longrightarrow> d_journal d' ! j = d_journal d1 ! j"
      using gone(2) by simp_all
    have "moving seen i old desired d d'" using m ne unfolding moving_def Let_def rs gone(1) J(1) by (auto simp: J(2))
    moreover have "moved seen i old desired d'" using ds ne unfolding moved_def Let_def rs gone(1) by auto
    ultimately show ?thesis by simp
  qed
qed
lemma swap_in_view:
  assumes k: "faithful_kernel (pf_routes P) seen" and c: "swap_in P old_present old desired d = (res, gone, d')"
    and ne: "kernel_route old \<noteq> kernel_route desired"
  shows "d_journal d' = d_journal d \<and> seen (d_world d) - {kernel_route old} \<subseteq> seen (d_world d')
    \<and> (is_ok res \<longrightarrow> seen (d_world d') \<subseteq> insert (kernel_route desired) (seen (d_world d)) \<and> gone \<noteq> None)
    \<and> (\<not> is_ok res \<longrightarrow> seen (d_world d') \<subseteq> seen (d_world d))
    \<and> (gone = Some True \<longrightarrow> kernel_route old \<notin> seen (d_world d'))"
proof -
  obtain r1 d1 where a1: "on_world (rx_add (pf_routes P) desired) d = (r1, d1)" by (rule prod.exhaust)
  note v1 = add_view [OF k a1]
  obtain r2 d2 where a2: "on_world (rx_remove (pf_routes P) old) d1 = (r2, d2)" by (rule prod.exhaust)
  note v2 = remove_view [OF k a2]
  obtain r3 d3 where a3: "on_world (rx_add (pf_routes P) desired) d2 = (r3, d3)" by (rule prod.exhaust)
  note v3 = add_view [OF k a3]
  show ?thesis
  proof (cases "\<not> is_ok r1 \<and> r1 = Err AlreadyExists \<and> old_present \<and> same_slot old desired")
    case False
    then have "d' = d1 \<and> gone = Some False \<and> is_ok res = is_ok r1"
      using c a1 by (cases r1) (auto simp: swap_in_def split: if_splits prod.splits)
    then show ?thesis using v1 by auto
  next
    case True
    show ?thesis
    proof (cases "removed r2")
      case True
      then have g: "kernel_route old \<notin> seen (d_world d2)" using v2 by (cases r2) (auto simp: removed_def)
      have "d' = d3 \<and> gone = Some True \<and> res = r3"
        using c a1 a2 a3 True \<open>\<not> is_ok r1 \<and> _\<close> by (auto simp: swap_in_def)
      then show ?thesis using v1 v2 v3 g ne \<open>\<not> is_ok r1 \<and> _\<close> by auto
    next
      case nr: False
      have "d' = d2 \<and> gone = None \<and> res = r2" using c a1 a2 nr True by (auto simp: swap_in_def)
      moreover have "\<not> is_ok r2" using nr by (cases r2) (auto simp: removed_def)
      ultimately show ?thesis using v1 v2 True by auto
    qed
  qed
qed

lemma swap_failed_view:
  assumes k: "faithful_kernel (pf_routes P) seen" and s: "saves_leave_routes P seen"
    and c: "swap_failed P i old desired was gone e d = (res, d')"
  shows "\<not> is_ok res \<and> seen (d_world d) \<subseteq> seen (d_world d') \<and> seen (d_world d') \<subseteq> insert (kernel_route old) (seen (d_world d))
    \<and> (d_journal d' = d_journal d \<or> \<not> was \<and> d_journal d' = d_journal (set_entry i (without_route desired) d))"
proof -
  define d1 where "d1 = (if gone then snd (on_world (rx_add (pf_routes P) old) d) else d)"
  have v1: "seen (d_world d) \<subseteq> seen (d_world d1) \<and> seen (d_world d1) \<subseteq> insert (kernel_route old) (seen (d_world d)) \<and> d_journal d1 = d_journal d"
    using add_view [OF k prod.collapse [symmetric], of old d] by (auto simp: d1_def)
  obtain r d2 where r: "save_journal P (set_entry i (without_route desired) d1) = (r, d2)" by (rule prod.exhaust)
  note v2 = save_view [OF s r]
  show ?thesis using c v1 v2 r by (cases r; cases "e = AlreadyExists \<and> \<not> was") (auto simp: swap_failed_def Let_def d1_def [symmetric])
qed
text \<open>The part of the move after the checks, from the journal that lists both routes.\<close>

definition move_step :: "'k platform \<Rightarrow> nat \<Rightarrow> bool \<Rightarrow> bool \<Rightarrow> bool \<Rightarrow> applied_route \<Rightarrow> applied_route \<Rightarrow> (bool, 'k) cmd" where
  "move_step P i was old_present desired_present old desired d =
     (if desired_present then retire_old P i old False False d
      else case swap_in P old_present old desired d of
        (Ok _, gone, d) \<Rightarrow> retire_old P i old (gone = Some True) True d
      | (Err e, None, d) \<Rightarrow> (Err e, d)
      | (Err e, Some gone, d) \<Rightarrow> swap_failed P i old desired was gone e d)"

lemma migrate_cases:
  assumes "migrate_owned_bypass P i old desired d = (res, d')"
  obtains (refused) "d' = d" "\<not> is_ok res"
  | (unsaved) "Route desired \<notin> set (je_resources (d_journal d ! i))" "\<not> is_ok res" "\<exists>e. save_journal P (add_resource i (Route desired) d) = (Err e, d')"
  | (journaled) old_present desired_present where "Route desired \<in> set (je_resources (d_journal d ! i))"
      "move_step P i True old_present desired_present old desired d = (res, d')"
  | (saved) old_present desired_present d1 where "Route desired \<notin> set (je_resources (d_journal d ! i))"
      "save_journal P (add_resource i (Route desired) d) = (Ok (), d1)"
      "move_step P i False old_present desired_present old desired d1 = (res, d')"
proof -
  obtain r d1 where s: "save_journal P (add_resource i (Route desired) d) = (r, d1)" by (rule prod.exhaust)
  show thesis
    using assms s refused unsaved journaled saved unfolding migrate_owned_bypass_def Let_def move_step_def [symmetric]
    by (cases r) (auto split: if_splits result.splits)
qed

lemma move_step_moves:
  assumes k: "faithful_kernel (pf_routes P) seen" and s: "saves_leave_routes P seen" and i: "i < length (d_journal d)"
    and ne: "kernel_route old \<noteq> kernel_route desired" and o: "Route old \<in> set (je_resources (d_journal d ! i))"
    and was: "was \<longleftrightarrow> Route desired \<in> set (je_resources (d_journal d ! i))"
    and w: "seen (d_world d1) = seen (d_world d)" and J: "d_journal d1 = (if was then d_journal d else d_journal (add_resource i (Route desired) d))"
    and c: "move_step P i was old_present desired_present old desired d1 = (res, d')"
  shows "moving seen i old desired d d' \<and> (is_ok res \<longrightarrow> moved seen i old desired d')"
proof -
  have ne': "old \<noteq> desired" using ne by blast
  have i1: "i < length (d_journal d1)" and J1: "length (d_journal d1) = length (d_journal d)" "\<And>j. j \<noteq> i \<Longrightarrow> d_journal d1 ! j = d_journal d ! j"
    using i J by (auto simp: add_resource_def split: if_splits)
  have rs1: "set (je_resources (d_journal d1 ! i)) = insert (Route desired) (set (je_resources (d_journal d ! i)))"
    using i J was by (auto simp: add_resource_def split: if_splits)
  have m1: "moving seen i old desired d d1" using o w J1 rs1 by (auto simp: moving_def Let_def)
  have ds: "Route desired \<in> set (je_resources (d_journal d1 ! i))" using rs1 by simp
  show ?thesis
  proof (cases desired_present)
    case True
    then have "retire_old P i old False False d1 = (res, d')" using c by (simp add: move_step_def)
    then show ?thesis by (rule retire_old_moves [OF k s i _ _ m1 ds ne']) simp
  next
    case False
    obtain r gone d2 where sw: "swap_in P old_present old desired d1 = (r, gone, d2)" by (metis prod.exhaust)
    note v = swap_in_view [OF k sw ne]
    have m2: "moving seen i old desired d d2" using v m1 o w ds J1 rs1 by (cases r) (auto simp: moving_def Let_def)
    show ?thesis
    proof (cases r)
      case (Ok u)
      then have rt: "retire_old P i old (gone = Some True) True d2 = (res, d')" using c sw False by (simp add: move_step_def)
      show ?thesis using retire_old_moves [OF k s i rt _ m2 _ ne'] v ds by simp
    next
      case (Err e)
      show ?thesis
      proof (cases gone)
        case None
        then show ?thesis using c sw False Err m2 by (auto simp: move_step_def)
      next
        case (Some g)
        then have sf: "swap_failed P i old desired was g e d2 = (res, d')" using c sw False Err by (simp add: move_step_def)
        note f = swap_failed_view [OF k s sf]
        have J': "length (d_journal d') = length (d_journal d) \<and> (\<forall>j. j \<noteq> i \<longrightarrow> d_journal d' ! j = d_journal d ! j)"
          using f v J1 by auto
        have rs': "set (je_resources (d_journal d ! i)) \<subseteq> set (je_resources (d_journal d' ! i))
            \<and> set (je_resources (d_journal d' ! i)) \<subseteq> insert (Route desired) (set (je_resources (d_journal d ! i)))"
          using f v rs1 i1 was by (auto simp: without_route_def)
        have old: "Route old \<in> set (je_resources (d_journal d' ! i))" using rs' o by blast
        have less: "seen (d_world d2) \<subseteq> seen (d_world d)" "seen (d_world d) - {kernel_route old} \<subseteq> seen (d_world d2)" using v Err w by simp_all
        have V: "seen (d_world d') - seen (d_world d) \<subseteq> {kernel_route old}" "seen (d_world d) - seen (d_world d') \<subseteq> {kernel_route old}"
          using f less by blast+
        have "moving seen i old desired d d'" unfolding moving_def Let_def
          using V(1) old by (intro conjI V(2) impI conjunct1 [OF J'] conjunct2 [OF J'] conjunct2 [OF rs']) (use rs' in blast)+
        then show ?thesis using f by simp
      qed
    qed
  qed
qed

text \<open>C13: A bypass route stays owned while it moves with the uplink.  With a kernel that does what it reports, whatever it refuses and
  wherever a save fails, \<open>migrate_owned_bypass\<close> removes no route but the old one, every route it adds is in the journal entry
  afterwards, the old route leaves the entry only when it is gone from the kernel, and no other entry changes.
  On success the new route is owned and the old one is neither owned nor installed.\<close>

theorem migrate_bypass_keeps_ownership:
  assumes "faithful_kernel (pf_routes P) seen" and "saves_leave_routes P seen" and "i < length (d_journal d)"
    and "kernel_route old \<noteq> kernel_route desired" and "Route old \<in> set (je_resources (d_journal d ! i))"
    and "migrate_owned_bypass P i old desired d = (res, d')"
  shows "moving seen i old desired d d' \<and> (is_ok res \<longrightarrow> moved seen i old desired d')"
  using assms(6)
proof (cases rule: migrate_cases)
  case refused
  then show ?thesis using assms(5) by (auto simp: moving_def Let_def)
next
  case unsaved
  then obtain e where "save_journal P (add_resource i (Route desired) d) = (Err e, d')" by blast
  from save_view [OF assms(2) this] unsaved(2) assms(3,5) show ?thesis by (auto simp: moving_def Let_def add_resource_def)
next
  case (journaled op dp)
  then show ?thesis by (intro move_step_moves [OF assms(1-5), where was = True]) auto
next
  case (saved op dp d1)
  from save_view [OF assms(2) saved(2)] saved show ?thesis
    by (intro move_step_moves [OF assms(1-5), where was = False and ?d1.0 = d1]) (auto simp: add_resource_def)
qed
definition old_bypass :: applied_route where
  "old_bypass = \<lparr> ar_destination = IpNet (V4 3405803783) 32, ar_interface_index = 2, ar_metric = 5, ar_gateway = Some (V4 3232235777), ar_table = None \<rparr>"

definition new_bypass :: applied_route where
  "new_bypass = old_bypass\<lparr>ar_interface_index := 3, ar_gateway := Some (V4 3232236033)\<rparr>"

definition roaming :: "sim daemon" where
  "roaming = fresh_daemon [\<lparr> je_uid = 1000, je_owner = ''xray:home'', je_state = Applied, je_resources = [Route old_bypass] \<rparr>]
     (quiet_sim\<lparr>sim_routes := [old_bypass]\<rparr>)"

theorem migrate_bypass_keeps_ownership_witness:
  "\<exists>d'. migrate_owned_bypass kernel_platform 0 old_bypass new_bypass roaming = (Ok True, d')
     \<and> sim_routes (d_world d') = [new_bypass] \<and> moved (set \<circ> sim_routes) 0 old_bypass new_bypass d'"
proof -
  let ?out = "migrate_owned_bypass kernel_platform 0 old_bypass new_bypass roaming"
  have r: "fst ?out = Ok True" and w: "sim_routes (d_world (snd ?out)) = [new_bypass]" and i: "0 < length (d_journal roaming)"
    and ne: "kernel_route old_bypass \<noteq> kernel_route new_bypass" by code_simp+
  have o: "Route old_bypass \<in> set (je_resources (d_journal roaming ! 0))" by (simp add: roaming_def fresh_daemon_def)
  have out: "?out = (Ok True, snd ?out)" using r by (metis prod.collapse)
  from migrate_bypass_keeps_ownership [OF faithful_kernel_platform saves_kernel_platform i ne o out]
  show ?thesis using out w by (metis is_ok.simps(1))
qed

section \<open>Where a move runs ahead of the disk\<close>

lemma watched_calls_stay_failed:
  assumes "\<not> wt_ok (d_world d)"
  shows "\<not> wt_ok (d_world (snd (on_world (rx_add (pf_routes (watched P)) x) d)))"
    and "\<not> wt_ok (d_world (snd (on_world (rx_remove (pf_routes (watched P)) x) d)))"
    and "\<not> wt_ok (d_world (snd (save_journal (watched P) (set_entry i f d))))"
  using assms unfolding on_world_def save_journal_def watched_def watched_save_def checked_def quietly_def case_prod_unfold Let_def
  by (simp_all del: save_journal_frame)

lemma retire_stays_failed:
  assumes "\<not> wt_ok (d_world d)" and "retire_old (watched P) i old gone changed d = (res, d')"
  shows "\<not> wt_ok (d_world d')"
proof -
  define d1 where "d1 = (if gone then d else snd (on_world (rx_remove (pf_routes (watched P)) old) d))"
  have f1: "\<not> wt_ok (d_world d1)" using watched_calls_stay_failed [OF assms(1)] assms(1) by (simp add: d1_def)
  have "d' = d1 \<or> d' = snd (save_journal (watched P) (set_entry i (without_route old) d1))"
    using assms(2) by (auto simp: retire_old_def Let_def d1_def split: if_splits result.splits prod.splits)
  then show ?thesis using f1 watched_calls_stay_failed(3) [OF f1] by blast
qed

lemma swap_failed_stays_failed:
  assumes "\<not> wt_ok (d_world d)" and "swap_failed (watched P) i old desired was gone e d = (res, d')"
  shows "\<not> wt_ok (d_world d')"
proof -
  define d1 where "d1 = (if gone then snd (on_world (rx_add (pf_routes (watched P)) old) d) else d)"
  have f1: "\<not> wt_ok (d_world d1)" using watched_calls_stay_failed [OF assms(1)] assms(1) by (simp add: d1_def)
  have "d' = d1 \<or> d' = snd (save_journal (watched P) (set_entry i (without_route desired) d1))"
    using assms(2) unfolding swap_failed_def Let_def d1_def [symmetric] by (auto split: if_splits result.splits prod.splits)
  then show ?thesis using f1 watched_calls_stay_failed(3) [OF f1] by blast
qed

lemma swap_in_unlisted:
  assumes "Route desired \<notin> resources (wt_disk (d_world d))" and "swap_in (watched P) op old desired d = (res, gone, d')"
  shows "\<not> wt_ok (d_world d')"
proof -
  obtain r d1 where a: "on_world (rx_add (pf_routes (watched P)) desired) d = (r, d1)" by (rule prod.exhaust)
  have f1: "\<not> wt_ok (d_world d1)"
    using a assms(1) by (auto simp: on_world_def watched_def checked_def resources_def list_ex_iff split: prod.splits)
  note f2 = watched_calls_stay_failed(2) [OF f1, of P old]
  note f3 = watched_calls_stay_failed(1) [OF f2, of P desired]
  show ?thesis using assms(2) a f1 f2 f3 by (cases r) (auto simp: swap_in_def Let_def case_prod_unfold split: if_splits)
qed

lemma move_step_unlisted:
  assumes "Route desired \<notin> resources (wt_disk (d_world d))"
  shows "\<not> wt_ok (d_world (snd (move_step (watched P) i was op False old desired d)))"
proof -
  obtain r gone d1 where sw: "swap_in (watched P) op old desired d = (r, gone, d1)" by (metis prod.exhaust)
  note f = swap_in_unlisted [OF assms sw]
  show ?thesis using sw f retire_stays_failed [OF f prod.collapse [symmetric]] swap_failed_stays_failed [OF f prod.collapse [symmetric]]
    by (auto simp: move_step_def split: result.split option.split)
qed
lemma foreign_slot_mono: "foreign_slot old desired True s \<Longrightarrow> foreign_slot old desired False s"
  by (auto simp: foreign_slot_def)

definition slot_elsewhere :: "nat \<Rightarrow> applied_route \<Rightarrow> journal \<Rightarrow> bool" where
  "slot_elsewhere i desired J \<longleftrightarrow>
     list_ex (\<lambda>j. j \<noteq> i \<and> list_ex (\<lambda>r. same_slot r desired) (entry_routes (je_resources (J ! j)))) [0..<length J]"

lemma slot_elsewhere_set: "slot_elsewhere i desired (J[i := e]) = slot_elsewhere i desired J"
proof -
  have "(\<lambda>j. j \<noteq> i \<and> list_ex (\<lambda>r. same_slot r desired) (entry_routes (je_resources (J[i := e] ! j))))
      = (\<lambda>j. j \<noteq> i \<and> list_ex (\<lambda>r. same_slot r desired) (entry_routes (je_resources (J ! j))))" by (rule ext) auto
  then show ?thesis unfolding slot_elsewhere_def length_list_update by (rule arg_cong)
qed

lemma migrate_again:
  assumes "Route desired \<in> set (je_resources (d_journal d ! i))" and "\<not> slot_elsewhere i desired (d_journal d)"
    and "pf_net_tables P (d_world d) = Ok t" and "\<not> list_ex (foreign_slot old desired False) (nt_routes t)"
    and "\<not> list_ex (\<lambda>s. sr_managed s \<and> same_route s desired) (nt_routes t)"
  shows "migrate_owned_bypass P i old desired d
    = move_step P i True (list_ex (\<lambda>s. sr_managed s \<and> same_route s old) (nt_routes t)) False old desired d"
proof -
  have f: "\<not> list_ex (foreign_slot old desired True) (nt_routes t)" using assms(4) foreign_slot_mono by (auto simp: list_ex_iff)
  have a: "Route desired \<in> set (je_resources (d_journal d ! i)) \<longleftrightarrow> True" using assms(1) by simp
  show ?thesis unfolding migrate_owned_bypass_def Let_def a slot_elsewhere_def [symmetric] assms(3) move_step_def
    using assms(2,5) f by simp
qed

text \<open>C38: A bypass migration that could not be saved is carried out on the next pass without being saved.  If the save that should make
  the new route durable fails, \<open>migrate_owned_bypass\<close> stops, but the route stays in the journal in memory; the next call takes it for
  journaled, skips the save and adds the route to the kernel although the journal on disk does not list it.\<close>

theorem migrate_retry_not_write_ahead:
  assumes "i < length (d_journal d)" and "Route desired \<notin> resources (d_journal d)" and "\<not> slot_elsewhere i desired (d_journal d)"
    and "pf_net_tables P w = Ok t" and "\<not> list_ex (foreign_slot old desired False) (nt_routes t)"
    and "pf_save P (d_journal (add_resource i (Route desired) d)) w = (Err e, w')"
    and "pf_net_tables P w' = Ok t'" and "\<not> list_ex (foreign_slot old desired False) (nt_routes t')"
    and "\<not> list_ex (\<lambda>s. sr_managed s \<and> same_route s desired) (nt_routes t')"
  shows "let run = migrate_owned_bypass (watched P) i old desired;
             (res, d1) = run (d\<lparr>d_world := \<lparr> wt_world = w, wt_disk = d_journal d, wt_ok = True, wt_taken = [] \<rparr>\<rparr>)
         in res = Err e \<and> wt_ok (d_world d1) \<and> \<not> wt_ok (d_world (snd (run d1)))"
proof -
  define d0 where "d0 = d\<lparr>d_world := \<lparr> wt_world = w, wt_disk = d_journal d, wt_ok = True, wt_taken = [] \<rparr>\<rparr>"
  define d1 where "d1 = (add_resource i (Route desired) d0)\<lparr>d_world := \<lparr> wt_world = w', wt_disk = d_journal d, wt_ok = True, wt_taken = [] \<rparr>\<rparr>"
  have J: "d_journal (add_resource i (Route desired) d0) = d_journal (add_resource i (Route desired) d)"
    by (simp add: add_resource_def d0_def)
  have w0: "d_world (add_resource i (Route desired) d0) = \<lparr> wt_world = w, wt_disk = d_journal d, wt_ok = True, wt_taken = [] \<rparr>"
    by (simp add: add_resource_def d0_def)
  have s: "save_journal (watched P) (add_resource i (Route desired) d0) = (Err e, d1)"
    unfolding save_journal_def J w0 d1_def using assms(6) by (simp add: watched_def watched_save_def del: save_journal_frame)
  have new: "Route desired \<in> set (je_resources (d_journal d0 ! i)) \<longleftrightarrow> False"
    using assms(1,2) by (auto simp: d0_def resources_def)
  have t0: "pf_net_tables (watched P) (d_world d0) = Ok t" using assms(4) by (simp add: watched_def d0_def)
  have first: "migrate_owned_bypass (watched P) i old desired d0 = (Err e, d1)"
    unfolding migrate_owned_bypass_def Let_def new slot_elsewhere_def [symmetric] t0
    using assms(3,5) s by (simp add: d0_def del: save_journal_frame)
  have J1: "d_journal d1 = (d_journal d)[i := (d_journal d ! i)\<lparr>je_resources := je_resources (d_journal d ! i) @ [Route desired]\<rparr>]"
    by (simp add: d1_def d0_def add_resource_def)
  have second: "migrate_owned_bypass (watched P) i old desired d1
      = move_step (watched P) i True (list_ex (\<lambda>s. sr_managed s \<and> same_route s old) (nt_routes t')) False old desired d1"
  proof (rule migrate_again)
    show "Route desired \<in> set (je_resources (d_journal d1 ! i))" using assms(1) by (simp add: J1)
    show "\<not> slot_elsewhere i desired (d_journal d1)" unfolding J1 slot_elsewhere_set by (rule assms(3))
    show "pf_net_tables (watched P) (d_world d1) = Ok t'" using assms(7) by (simp add: watched_def d1_def)
  qed (rule assms)+
  have "Route desired \<notin> resources (wt_disk (d_world d1))" using assms(2) by (simp add: d1_def)
  from move_step_unlisted [OF this] second first
  show ?thesis unfolding Let_def d0_def [symmetric] first prod.case by (simp add: d1_def)
qed

definition full_disk :: sim where
  "full_disk = quiet_sim\<lparr>sim_routes := [old_bypass], sim_disk_full := True\<rparr>"

definition roaming_watched :: "sim watch daemon" where
  "roaming_watched = fresh_daemon (d_journal roaming) \<lparr> wt_world = full_disk, wt_disk = d_journal roaming, wt_ok = True, wt_taken = [] \<rparr>"

theorem migrate_retry_not_write_ahead_witness:
  "let run = migrate_owned_bypass (watched sim_platform) 0 old_bypass new_bypass;
       (res, d1) = run (roaming_watched\<lparr>d_world := \<lparr> wt_world = full_disk, wt_disk = d_journal roaming_watched, wt_ok = True, wt_taken = [] \<rparr>\<rparr>)
   in res = Err Other \<and> wt_ok (d_world d1) \<and> \<not> wt_ok (d_world (snd (run d1)))"
proof -
  let ?t = "\<lparr> nt_routes = [], nt_rules = [], nt_available = True \<rparr>"
  have J: "d_journal roaming_watched = [\<lparr> je_uid = 1000, je_owner = ''xray:home'', je_state = Applied, je_resources = [Route old_bypass] \<rparr>]"
    by (simp add: roaming_watched_def roaming_def fresh_daemon_def)
  have 1: "0 < length (d_journal roaming_watched)" unfolding J by simp
  have 2: "Route new_bypass \<notin> resources (d_journal roaming_watched)"
    unfolding J by (simp add: resources_def old_bypass_def new_bypass_def)
  have 3: "\<not> slot_elsewhere 0 new_bypass (d_journal roaming_watched)" unfolding J by (simp add: slot_elsewhere_def)
  have 4: "pf_net_tables sim_platform full_disk = Ok ?t" by (simp add: sim_platform_def quiet_sim_def full_disk_def)
  have 5: "\<not> list_ex (foreign_slot old_bypass new_bypass False) (nt_routes ?t)"
    and 6: "\<not> list_ex (\<lambda>s. sr_managed s \<and> same_route s new_bypass) (nt_routes ?t)" by simp_all
  have 7: "pf_save sim_platform K full_disk = (Err Other, full_disk)" for K by (simp add: sim_platform_def full_disk_def)
  show ?thesis by (rule migrate_retry_not_write_ahead [OF 1 2 3 4 5 7 4 5 6])
qed

section \<open>A refused override\<close>

text \<open>C40: a refused edit disarms the other overrides.  When a uid already has overrides and a \<open>net.route.add\<close> of it passes
  all checks of its parameters but fails, because the journal cannot be saved or the kernel refuses the route, the shared
  manual entry keeps the earlier overrides but is left in the state \<open>Applying\<close>, and the reconcile pass skips it: whatever happens
  to those routes and rules in the kernel, the pass does not look at them any more.\<close>

theorem net_route_add_failure_disarms:
  assumes "net_route_add N P uid prm d = (Err e, d')"
    and "editable_table (opt_or RT_TABLE_MAIN (nra_table prm))" and "resolve_output_link P prm (d_world d) = Ok link"
    and "\<forall>a. nra_gateway prm = Some a \<or> nra_pref_source prm = Some a
           \<longrightarrow> is_ipv4 a = (family_of (net_trunc N (nra_destination prm)) = Ipv4)"
    and "owner_position uid MANUAL_OWNER d = Some i" and "je_resources (d_journal d ! i) \<noteq> []"
  shows "(\<exists>rs. d_journal d' = (d_journal d)
            [i := (d_journal d ! i)\<lparr>je_resources := je_resources (d_journal d ! i) @ rs, je_state := Applying\<rparr>])
    \<and> reconcile_turn N' P wk observed i d' = (Turn_Skip, d')"
proof -
  have i: "i < length (d_journal d)" using owner_position_SomeD [OF assms(5)] by simp
  have "option_ok (\<lambda>a. is_ipv4 a = (family_of (net_trunc N (nra_destination prm)) = Ipv4)) (nra_gateway prm)"
    "option_ok (\<lambda>a. is_ipv4 a = (family_of (net_trunc N (nra_destination prm)) = Ipv4)) (nra_pref_source prm)"
    using assms(4) by (auto simp: option_ok_def split: option.split)
  then have "manual_edit P uid (NetRoute (manual_route N prm link)) Applying (pf_add_system_route P (manual_route N prm link))
      (mark_state Applied) d = (Err e, d')"
    using assms(1-3) by (simp add: net_route_add_def Let_def)
  from manual_edit_failure [OF this assms(5,6)] obtain rs where
    J: "d_journal d' = (d_journal d)[i := (d_journal d ! i)\<lparr>je_resources := je_resources (d_journal d ! i) @ rs, je_state := Applying\<rparr>]" ..
  then have "je_state (d_journal d' ! i) = Applying" using i by simp
  then show ?thesis using J by (auto simp: reconcile_turn_def)
qed

theorem net_route_add_failure_disarms_witness:
  "let (res, d') = net_route_add word_ipnet sim_platform 1000 example_add example_override
   in res = Err Other \<and> je_state (d_journal example_override ! 0) = Applied
     \<and> (\<forall>wk. reconcile_turn word_ipnet sim_platform wk [] 0 d' = (Turn_Skip, d'))"
proof -
  let ?out = "net_route_add word_ipnet sim_platform 1000 example_add example_override"
  have r: "fst ?out = Err Other" and p: "owner_position 1000 MANUAL_OWNER example_override = Some 0"
    and a: "je_resources (d_journal example_override ! 0) \<noteq> []" and st: "je_state (d_journal example_override ! 0) = Applied"
    and t: "editable_table (opt_or RT_TABLE_MAIN (nra_table example_add))"
      "resolve_output_link sim_platform example_add (d_world example_override) = Ok 2" by code_simp+
  have f: "\<forall>a. nra_gateway example_add = Some a \<or> nra_pref_source example_add = Some a
      \<longrightarrow> is_ipv4 a = (family_of (net_trunc word_ipnet (nra_destination example_add)) = Ipv4)" by (simp add: example_add_def)
  have out: "?out = (Err Other, snd ?out)" using r by (metis prod.collapse)
  from net_route_add_failure_disarms [OF out t f p a, of word_ipnet _ "[]"] r st show ?thesis
    unfolding Let_def case_prod_unfold by simp
qed

end
