(* ===== verification/Spec2Isabelle.thy ===== *)
theory Spec2Isabelle
  imports Intents Failover Watchdog Xray_Safety Cond_Routes Net_Safety
begin

text \<open>
  A verification library for the network orchestrator: the privileged Linux daemon (\<open>src/crates/daemon\<close>) with the
  parts of the shared core library (\<open>src/crates/core\<close>) it decides with.  The daemon executes requests of unprivileged
  clients (route sets, manual edits of the kernel tables, routing intents, conditional rules, WireGuard, OpenVPN and
  Xray tunnels) and owns what it puts into the kernel: every object is listed in a write-ahead journal, by uid and
  owner, and is removed again when the owner goes, when a client session ends, or at the next start of the daemon.

  \<^bold>\<open>The parts and the theories that model them.\<close>

  \<^item> \<open>Prelude\<close>: results and error kinds, list, option and UTF-8 helpers.  \<open>Net_Types\<close>: addresses and networks as words,
    routes, rules, the owned resources and journal entries (\<open>core/models.rs\<close>, \<open>core/daemon_protocol.rs\<close>, \<open>core/journal.rs\<close>).
    \<open>Json\<close>: \<open>serde_json\<close> values and accessors.
  \<^item> \<open>Validate\<close> (\<open>daemon/validate.rs\<close>): the checks every route request passes first.
  \<^item> \<open>Route_Planner\<close>, \<open>Route_Exec\<close> (\<open>core/policy.rs\<close>): which routes a profile needs on the present interfaces; the
    all-or-nothing route transaction and \<open>PolicyManager\<close>.
  \<^item> \<open>Platform\<close> (\<open>DaemonCore\<close> of \<open>daemon/core.rs\<close>): the daemon's state as the record \<open>daemon\<close> and everything outside it as the
    parameter \<open>'k platform\<close>: journal store, netlink, policy-rule, DNS, WireGuard, process and QUIC executors as
    functions on an unknown world.  Its last section is a small simulated host for the worked examples.
  \<^item> \<open>Teardown\<close>: the four per-owner teardowns, the reverse sweep, session and uid cleanup, startup recovery.
    \<open>Owner_Routes\<close>: \<open>apply_routes\<close> and \<open>apply_attach\<close>.  \<open>Manual_Overrides\<close>: \<open>net.route\<close>/\<open>net.rule\<close> edits and their reconcile
    pass.  \<open>Attach\<close>: attach specifications, their derivation and reconcile pass.  \<open>Intents\<close>: \<open>net.intent.*\<close>.  \<open>Cond_Routes\<close>:
    conditional and static routes.  All of \<open>daemon/core.rs\<close>.
  \<^item> \<open>Keyed_Stores\<close> (\<open>daemon/cond_rules.rs\<close>, \<open>always_on.rs\<close>, \<open>intents.rs\<close>): the per-user stores.
  \<^item> \<open>Wg_Config\<close> (\<open>daemon/wireguard.rs\<close>): the configuration parser.  \<open>Wg_Connect\<close>, \<open>Wg_Safety\<close>: connecting, supervising and
    disconnecting a WireGuard tunnel.  \<open>Link_Names\<close> (\<open>daemon/link_names.rs\<close>): interface names.
  \<^item> \<open>Ovpn_Management\<close> (\<open>core/openvpn_management.rs\<close>): the management protocol of an OpenVPN process and the parser of pushed replies.
    \<open>Ovpn_Config\<close> (\<open>core/openvpn_config.rs\<close>, \<open>daemon/openvpn.rs\<close>): the sanitizer of a client's profile and the start plan.
    \<open>Ovpn_Connect\<close>, \<open>Ovpn_Safety\<close> (\<open>daemon/core.rs\<close>): connecting, probing, the reconcile pass that applies what the server
    pushed, failing and disconnecting.
  \<^item> \<open>Xray_Connect\<close>, \<open>Tunnel_Safety\<close> (\<open>daemon/core.rs\<close>): connecting, reloading, healing and disconnecting an Xray tunnel, its status;
    the answers of the worker threads are the record \<open>workers\<close>.
  \<^item> \<open>Net_Reconcile\<close>, \<open>Net_Safety\<close> (\<open>daemon/core.rs\<close>): the pass over all owners after an uplink change (\<open>reconcile_network\<close>), moving bypass
    routes, \<open>reapply_dns\<close>.
  \<^item> \<open>Failover\<close> (\<open>daemon/failover.rs\<close> and the port layout of \<open>daemon/xray.rs\<close>), \<open>Watchdog\<close> (\<open>daemon/watchdog.rs\<close>), \<open>Egress\<close>
    (\<open>daemon/egress.rs\<close>): supervision of a running tunnel.
  \<^item> \<open>Xray_Validate\<close>, \<open>Xray_Plan\<close>, \<open>Xray_Pin\<close>, \<open>Xray_Safety\<close> (\<open>daemon/xray.rs\<close>, \<open>proxy_exits.rs\<close>): the allowlist for client
    configurations and the configuration the daemon runs.
  \<^item> \<open>Crash_Safety\<close>: what a crash at any point leaves behind.

  \<^bold>\<open>How the code is translated.\<close>  A Rust function is a definition of the same name, with its early returns in the
  order of the source; \<open>Result\<close> is \<open>result\<close> with the error kind (texts of messages are kept only where a parser returns
  nothing else); \<open>&mut self\<close> is the daemon passed and returned.  An operation that can fail half-way returns the
  daemon as it is at that point.  Vectors and journals are lists, hash maps are functions or sets, integers that cannot
  reach their limit are \<open>nat\<close>; where they can, the wrap-around or saturation is written out (\<open>as_u16\<close>, \<open>sat_succ_u32\<close>, words for
  addresses and hashes).  Loops are structural recursion, so every operation terminates; no fuel is used.

  \<^bold>\<open>The interfaces.\<close>  \<open>entry_teardown\<close> is the contract of the four teardowns that the sweep relies on; \<open>journaled_op\<close> the one of
  every request that crash safety relies on; \<open>wal_monitor\<close> the one between a connection and the outside world,
  interpreted on a platform that checks the write-ahead rule at each call and on an arbitrary one; \<open>tunnel_monitor\<close> and
  \<open>xray_monitor\<close> extend it step by step with the OpenVPN process, and with the Xray process and the QUIC filter; \<open>uid_store\<close> is that
  of the per-user stores.  Each is interpreted on the daemon's own definitions.

  \<^bold>\<open>What is shown.\<close>  Ownership: the journal on disk covers everything in the kernel at every crash point; teardown leaves
  nothing behind or keeps a stale entry; sweeps and session cleanup account for every entry; connections are
  write-ahead and roll back.  Function: intents, conditional rules, attach passes and WireGuard connections end in exactly
  the journal state their specification asks for, and undoing an edit restores the tables.  OpenVPN and Xray connections and the
  OpenVPN pass end with exactly the resources of their plan; a bypass route stays owned while it moves.  Confinement: accepted
  Xray, WireGuard and OpenVPN configurations contain only what the allowlists permit, prepared configurations mark and route
  traffic as designed, pushed replies are bounded, and a secondary tunnel carries only the networks the user listed.  Supervision: failover converges and fails closed, recoveries are rate limited, restarts of a dead child end, verdicts equal their
  reference over the whole history.  Several theorems state behaviour that falls short of the intention (an
  operation that fails half-way, a panic, a store that poisons itself); the names end in what happens.

  \<^bold>\<open>Assumptions.\<close>  Queries observe the world and do not change it; clock readings within one operation are one value; mutexes are
  not poisoned; saving the journal is atomic (the store writes aside and renames).  Hypotheses about crates outside the
  repository (\<open>trunc_documented\<close>, \<open>show_documented\<close>, faithful executors) are named where they are used and have an
  instance.

  \<^bold>\<open>Not modelled.\<close>  The netlink, D-Bus, nftables and process back ends (\<open>netlink.rs\<close>, \<open>nm.rs\<close>, \<open>dns.rs\<close>, \<open>quic_reject.rs\<close>,
  \<open>xray_process.rs\<close>, \<open>openvpn_process.rs\<close>) are I/O and appear as executor parameters; the socket server, authentication and
  framing (\<open>server.rs\<close>, \<open>auth.rs\<close>, \<open>peer.rs\<close>); the request
  dispatch, inspection and listing parts of \<open>core.rs\<close>; client-side libraries
  (subscription download, vault, diagnostics, Xray configuration generation), the engine, the command line, the desktop
  application, and the macOS and Windows ports.
\<close>

end
